(* ===== verification/FwPrelude.thy ===== *)
theory FwPrelude
  imports Main "HOL-Library.Word" "HOL-Library.Monad_Syntax" "HOL-Library.Multiset"
begin

unbundle bit_operations_syntax

text \<open>
  Shared vocabulary of the development.

  Machine integers keep the width the firmware gives them (\<open>u8\<close>, \<open>u16\<close>, \<open>u32\<close> of
  \<^verbatim>\<open>papdef.h\<close>).  Status codes are the enumeration \<open>eStatus\<close>.  Undefined behaviour of C (a
  null-pointer dereference, an array access out of bounds, a use of an uninitialised pointer)
  and a loop that never returns are the value \<open>None\<close> of an option type; a computation that
  may hit one of them is written in the option monad, so that a theorem which says that the
  result is \<open>Some\<close> says that the code is free of such behaviour and returns.
\<close>

type_synonym u8 = "8 word"
type_synonym u16 = "16 word"
type_synonym u32 = "32 word"

datatype eStatus = STATUS_SUCCESS | STATUS_FAILURE | STATUS_DEFERRED

named_theorems rep_simps \<open>abstraction relations between concrete state and its model\<close>
named_theorems fw_frame \<open>what an operation leaves unchanged\<close>

subsection \<open>Arrays\<close>

text \<open>Reading and writing a fixed array: an index out of bounds is undefined behaviour.\<close>

definition arr_get :: "'a list \<Rightarrow> nat \<Rightarrow> 'a option" where
  "arr_get xs i = (if i < length xs then Some (xs ! i) else None)"

definition arr_set :: "'a list \<Rightarrow> nat \<Rightarrow> 'a \<Rightarrow> 'a list option" where
  "arr_set xs i v = (if i < length xs then Some (xs[i := v]) else None)"

lemma arr_get_Some [simp]: "i < length xs \<Longrightarrow> arr_get xs i = Some (xs ! i)"
  by (simp add: arr_get_def)

lemma arr_get_None [simp]: "length xs \<le> i \<Longrightarrow> arr_get xs i = None"
  by (simp add: arr_get_def)

lemma arr_get_eq_Some: "arr_get xs i = Some v \<longleftrightarrow> i < length xs \<and> v = xs ! i"
  by (auto simp: arr_get_def)

lemma arr_set_Some [simp]: "i < length xs \<Longrightarrow> arr_set xs i v = Some (xs[i := v])"
  by (simp add: arr_set_def)

subsection \<open>Lists\<close>

lemma map_list_update_inv:
  "i < length xs \<Longrightarrow> f v = f (xs ! i) \<Longrightarrow> map f (xs[i := v]) = map f xs"
  by (metis list_update_id map_update)

lemma find_first_Some:
  "find P xs = Some x \<Longrightarrow> x \<in> set xs \<and> P x"
  by (induction xs) (auto split: if_splits)

lemma set_nth_concat: "i < length xss \<Longrightarrow> set (xss ! i) \<subseteq> set (concat xss)"
  by (auto intro!: bexI [OF _ nth_mem])

lemma distinct_concat_disjoint:
  assumes "distinct (concat xss)" "i < length xss" "j < length xss" "i \<noteq> j"
  shows "set (xss ! i) \<inter> set (xss ! j) = {}"
  using assms
proof (induction xss arbitrary: i j)
  case Nil
  then show ?case by simp
next
  case (Cons xs xss)
  show ?case
  proof (cases i)
    case 0
    with Cons.prems obtain j' where j: "j = Suc j'" "j' < length xss"
      by (cases j) auto
    then have "set (xss ! j') \<subseteq> set (concat xss)" by (intro set_nth_concat)
    with Cons.prems 0 j show ?thesis by auto
  next
    case (Suc i')
    show ?thesis
    proof (cases j)
      case 0
      from Suc Cons.prems have "set (xss ! i') \<subseteq> set (concat xss)"
        by (intro set_nth_concat) simp
      with Cons.prems 0 Suc show ?thesis by auto
    next
      case (Suc j')
      with \<open>i = Suc i'\<close> Cons show ?thesis by auto
    qed
  qed
qed

text \<open>
  Lists that together hold every element of a finite set once: one equation between multisets
  says that they are distinct, disjoint and complete.
\<close>

lemma mset_eq_mset_setD:
  assumes "mset xs = mset_set A" "finite A"
  shows "distinct xs" "set xs = A"
  using assms by (metis distinct_count_atmost_1 count_mset_set(1,3) set_mset_mset
      finite_set_mset_mset_set, metis finite_set_mset_mset_set set_mset_mset)

lemma mset_concat_update:
  "b < length xss \<Longrightarrow> mset (concat (xss[b := ys])) + mset (xss ! b) = mset (concat xss) + mset ys"
  by (induction xss arbitrary: b) (auto split: nat.splits simp: union_ac)

lemma last_in_set_butlast: "xs \<noteq> [] \<Longrightarrow> last xs \<in> set xs"
  by simp

lemma dropWhile_dropWhile:
  "(\<And>x. P x \<Longrightarrow> Q x) \<Longrightarrow> dropWhile Q (dropWhile P xs) = dropWhile Q xs"
  by (induction xs) auto

lemma dropWhile_prefix: "\<exists>us. xs = us @ dropWhile P xs"
  by (metis takeWhile_dropWhile_id)

lemma dropWhile_subset: "x \<in> set (dropWhile P xs) \<Longrightarrow> x \<in> set xs"
  by (induction xs) (auto split: if_splits)

lemma set_take_dropWhile: "set (takeWhile P xs) \<union> set (dropWhile P xs) = set xs"
  by (metis set_append takeWhile_dropWhile_id)

subsection \<open>Words\<close>

lemma unat_drop_bit4: "unat (drop_bit 4 (w :: u8)) = unat w div 16"
  by (simp add: unat_drop_bit_eq drop_bit_nat_def)

lemma unat_u8_less: "unat (w :: u8) < 256"
  using unsigned_less [of w] by simp

lemma unat_u16_less: "unat (w :: u16) < 65536"
  using unsigned_less [of w] by simp

lemma unat_u32_less: "unat (w :: u32) < 4294967296"
  using unsigned_less [of w] by simp

lemma word8_nibble_less: "unat (drop_bit 4 (w :: u8)) < 16"
  using unat_u8_less [of w] by (simp add: unat_drop_bit4)

text \<open>Changing the width of a value that fits.\<close>

lemma unat_ucast_u8_u32 [simp]: "unat (ucast (w :: u8) :: u32) = unat w"
  by (simp add: unsigned_ucast_eq take_bit_nat_eq_self order.strict_trans [OF unat_u8_less])

lemma unat_ucast_u8_u16 [simp]: "unat (ucast (w :: u8) :: u16) = unat w"
  by (simp add: unsigned_ucast_eq take_bit_nat_eq_self order.strict_trans [OF unat_u8_less])

lemma unat_ucast_u16_u8: "unat (w :: u16) < 256 \<Longrightarrow> unat (ucast w :: u8) = unat w"
  by (simp add: unsigned_ucast_eq take_bit_nat_eq_self)

text \<open>A 16-bit value put together from its high and its low byte.\<close>

lemma unat_word16_of_bytes:
  "unat (push_bit 8 (ucast (h :: u8)) OR ucast (l :: u8) :: u16) = 256 * unat h + unat l"
proof -
  have l: "unat l < 2 ^ 8" and h: "unat h < 256" using unsigned_less [of l] unsigned_less [of h] by simp_all
  have "unat (push_bit 8 (ucast h) OR ucast l :: u16) = push_bit 8 (unat h) OR unat l"
    using h l by (simp add: unsigned_or_eq unsigned_push_bit_eq unsigned_ucast_eq
        take_bit_nat_eq_self push_bit_nat_def)
  also have "\<dots> = push_bit 8 (unat h) + unat l"
    by (rule disjunctive_add [symmetric])
      (auto simp: bit_push_bit_iff bit_unsigned_iff dest: bit_imp_possible_bit)
  finally show ?thesis by (simp add: push_bit_nat_def mult.commute)
qed

end
