(* ===== verification/DList.thy ===== *)
theory DList
  imports FwPrelude
begin

text \<open>
  The circular doubly linked lists of \<^verbatim>\<open>firmware/common/list.c\<close>.

  The \<open>next\<close> and \<open>prev\<close> fields of all nodes are two stores; a list is named by its head
  node, which is a node of the circle that carries no entry.  A dereference of a null pointer
  is the result \<open>None\<close>.
\<close>

record 'a dmem =
  nxt :: "'a \<Rightarrow> 'a option"
  prv :: "'a \<Rightarrow> 'a option"

definition DLIST_Init :: "'a dmem \<Rightarrow> 'a \<Rightarrow> 'a dmem" where
  "DLIST_Init m dlink =
     m\<lparr>nxt := (nxt m)(dlink := Some dlink), prv := (prv m)(dlink := Some dlink)\<rparr>"

definition DLIST_Push :: "'a dmem \<Rightarrow> 'a \<Rightarrow> 'a \<Rightarrow> 'a dmem option" where
  "DLIST_Push m list link = do {
     n \<leftarrow> nxt m list;
     let m = m\<lparr>prv := (prv m)(n := Some link)\<rparr>;
     let m = m\<lparr>nxt := (nxt m)(link := nxt m list)\<rparr>;
     let m = m\<lparr>prv := (prv m)(link := Some list)\<rparr>;
     Some (m\<lparr>nxt := (nxt m)(list := Some link)\<rparr>)
   }"

definition DLIST_Put :: "'a dmem \<Rightarrow> 'a \<Rightarrow> 'a \<Rightarrow> 'a dmem option" where
  "DLIST_Put m list link = do {
     let m = m\<lparr>prv := (prv m)(link := prv m list)\<rparr>;
     p \<leftarrow> prv m list;
     let m = m\<lparr>nxt := (nxt m)(p := Some link)\<rparr>;
     let m = m\<lparr>nxt := (nxt m)(link := Some list)\<rparr>;
     Some (m\<lparr>prv := (prv m)(list := Some link)\<rparr>)
   }"

definition DLIST_Remove :: "'a dmem \<Rightarrow> 'a \<Rightarrow> 'a dmem option" where
  "DLIST_Remove m link = do {
     n \<leftarrow> nxt m link;
     let m = m\<lparr>prv := (prv m)(n := prv m link)\<rparr>;
     p \<leftarrow> prv m link;
     let m = m\<lparr>nxt := (nxt m)(p := nxt m link)\<rparr>;
     Some (m\<lparr>nxt := (nxt m)(link := None), prv := (prv m)(link := None)\<rparr>)
   }"

definition DLIST_IsEmpty :: "'a dmem \<Rightarrow> 'a \<Rightarrow> bool" where
  "DLIST_IsEmpty m list \<longleftrightarrow> nxt m list = Some list"

definition DLIST_IsHead :: "'a \<Rightarrow> 'a \<Rightarrow> bool" where
  "DLIST_IsHead list link \<longleftrightarrow> list = link"

definition DLIST_PeekHead :: "'a dmem \<Rightarrow> 'a \<Rightarrow> 'a option" where
  "DLIST_PeekHead m list = nxt m list"

subsection \<open>Abstraction: the entries between the head node and itself\<close>

fun dseg :: "'a dmem \<Rightarrow> 'a \<Rightarrow> 'a list \<Rightarrow> 'a \<Rightarrow> bool" where
  "dseg m a [] b \<longleftrightarrow> nxt m a = Some b \<and> prv m b = Some a"
| "dseg m a (x # xs) b \<longleftrightarrow> nxt m a = Some x \<and> prv m x = Some a \<and> dseg m x xs b"

definition dlist_rep :: "'a dmem \<Rightarrow> 'a \<Rightarrow> 'a list \<Rightarrow> bool" where
  "dlist_rep m h xs \<longleftrightarrow> distinct (h # xs) \<and> dseg m h xs h"

lemma dseg_append [simp]:
  "dseg m a (xs @ x # ys) b \<longleftrightarrow> dseg m a xs x \<and> dseg m x ys b"
  by (induction xs arbitrary: a) auto

lemma dseg_nxt_upd [simp]:
  "x \<notin> set (a # xs) \<Longrightarrow> dseg (m\<lparr>nxt := (nxt m)(x := v)\<rparr>) a xs b = dseg m a xs b"
  by (induction xs arbitrary: a) auto

lemma dseg_prv_upd [simp]:
  "x \<notin> set xs \<Longrightarrow> x \<noteq> b \<Longrightarrow> dseg (m\<lparr>prv := (prv m)(x := v)\<rparr>) a xs b = dseg m a xs b"
  by (induction xs arbitrary: a) auto

lemma dseg_cong:
  assumes "\<And>x. x \<in> set (a # xs) \<Longrightarrow> nxt m x = nxt m' x"
    and "\<And>x. x \<in> set (xs @ [b]) \<Longrightarrow> prv m x = prv m' x"
  shows "dseg m a xs b = dseg m' a xs b"
  using assms by (induction xs arbitrary: a) auto

lemma dseg_ends:
  "dseg m a xs b \<Longrightarrow> nxt m (last (a # xs)) = Some b \<and> prv m b = Some (last (a # xs))"
  by (induction xs arbitrary: a) auto

lemma dlist_rep_distinct: "dlist_rep m h xs \<Longrightarrow> distinct xs \<and> h \<notin> set xs"
  by (simp add: dlist_rep_def)

lemma dlist_init_rep: "dlist_rep (DLIST_Init m h) h []"
  by (simp add: dlist_rep_def DLIST_Init_def)

lemma dlist_rep_first:
  "dlist_rep m h xs \<Longrightarrow> nxt m h = Some (case xs of [] \<Rightarrow> h | x # _ \<Rightarrow> x)"
  by (cases xs) (auto simp: dlist_rep_def)

lemma dlist_rep_succ:
  "dlist_rep m h (xs @ x # ys) \<Longrightarrow> nxt m x = Some (case ys of [] \<Rightarrow> h | y # _ \<Rightarrow> y)"
  by (cases ys) (auto simp: dlist_rep_def)

lemma dlist_rep_empty_iff: "dlist_rep m h xs \<Longrightarrow> DLIST_IsEmpty m h = (xs = [])"
  by (cases xs) (auto simp: dlist_rep_def DLIST_IsEmpty_def)

subsection \<open>Each operation on the abstract sequence\<close>

lemma dlist_push_rep:
  assumes rep: "dlist_rep m h xs" and a: "a \<noteq> h" "a \<notin> set xs"
  shows "\<exists>m'. DLIST_Push m h a = Some m' \<and> dlist_rep m' h (a # xs)"
proof (cases xs)
  case Nil
  with rep a show ?thesis by (auto simp: DLIST_Push_def dlist_rep_def)
next
  case (Cons x ys)
  let ?m1 = "m\<lparr>prv := (prv m)(x := Some a)\<rparr>"
  from Cons rep a have "dseg ?m1 x ys h" by (auto simp: dlist_rep_def)
  then have "dseg (m\<lparr>prv := (prv m)(x := Some a, a := Some h),
      nxt := (nxt m)(a := Some x, h := Some a)\<rparr>) x ys h"
    using Cons rep a by (subst dseg_cong [where m' = ?m1]) (auto simp: dlist_rep_def)
  with Cons rep a show ?thesis
    by (auto simp: DLIST_Push_def dlist_rep_def Let_def)
qed

text \<open>
  \<open>DLIST_Put\<close> inserts before the given node.  The node is an entry, or the head node, which
  appends at the end.
\<close>

lemma dseg_split_nonempty:
  "dseg m h (xs @ p # zs) h \<Longrightarrow> prv m p = Some (last (h # xs)) \<and> nxt m (last (h # xs)) = Some p"
  using dseg_ends by fastforce

lemma dlist_put_rep:
  assumes rep: "dlist_rep m h (xs @ p # zs)" and a: "a \<noteq> h" "a \<notin> set (xs @ p # zs)"
  shows "\<exists>m'. DLIST_Put m p a = Some m' \<and> dlist_rep m' h (xs @ a # p # zs)"
proof -
  let ?q = "last (h # xs)"
  let ?m = "m\<lparr>prv := (prv m)(a := Some ?q, p := Some a),
    nxt := (nxt m)(?q := Some a, a := Some p)\<rparr>"
  from rep have d: "distinct (h # xs @ p # zs)" and s: "dseg m h xs p" "dseg m p zs h"
    by (auto simp: dlist_rep_def)
  have q: "prv m p = Some ?q" using dseg_ends [OF s(1)] by simp
  have qin: "?q \<in> set (h # xs)" by (cases xs) auto
  then have qa: "?q \<noteq> a" "?q \<noteq> p" "?q \<notin> set zs" using a d by auto
  have "dseg ?m p zs h"
    using s(2) a d qa by (subst dseg_cong [where m' = m]) auto
  moreover have "dseg ?m h xs a"
  proof (cases xs rule: rev_cases)
    case Nil
    then show ?thesis using a d by auto
  next
    case (snoc ws q)
    then have "dseg m h ws q" using s(1) by simp
    then have "dseg ?m h ws q"
      using snoc a d by (subst dseg_cong [where m' = m]) auto
    with snoc qa a d show ?thesis by simp
  qed
  moreover have "DLIST_Put m p a = Some ?m"
    using q qa a by (auto simp: DLIST_Put_def Let_def fun_upd_twist)
  ultimately show ?thesis using a d by (auto simp: dlist_rep_def)
qed

lemma dlist_put_end_rep:
  assumes rep: "dlist_rep m h xs" and a: "a \<noteq> h" "a \<notin> set xs"
  shows "\<exists>m'. DLIST_Put m h a = Some m' \<and> dlist_rep m' h (xs @ [a])"
proof -
  let ?q = "last (h # xs)"
  let ?m = "m\<lparr>prv := (prv m)(a := Some ?q, h := Some a),
    nxt := (nxt m)(?q := Some a, a := Some h)\<rparr>"
  from rep have d: "distinct (h # xs)" and s: "dseg m h xs h"
    by (auto simp: dlist_rep_def)
  have q: "prv m h = Some ?q" using dseg_ends [OF s(1)] by simp
  have qin: "?q \<in> set (h # xs)" by (cases xs) auto
  then have qa: "?q \<noteq> a" using a by auto
  have "dseg ?m h xs a"
  proof (cases xs rule: rev_cases)
    case Nil
    then show ?thesis using a d by auto
  next
    case (snoc ws q)
    then have "dseg m h ws q" using s(1) by simp
    then have "dseg ?m h ws q"
      using snoc a d by (subst dseg_cong [where m' = m]) auto
    with snoc qa a d show ?thesis by simp
  qed
  moreover have "DLIST_Put m h a = Some ?m"
    using q qa a by (auto simp: DLIST_Put_def Let_def fun_upd_twist)
  ultimately show ?thesis using a d by (auto simp: dlist_rep_def)
qed

lemma dlist_remove_rep:
  assumes rep: "dlist_rep m h (xs @ a # ys)"
  shows "\<exists>m'. DLIST_Remove m a = Some m' \<and> dlist_rep m' h (xs @ ys)"
proof -
  let ?q = "last (h # xs)" and ?p = "hd (ys @ [h])"
  let ?m = "m\<lparr>prv := (prv m)(?p := Some ?q, a := None),
    nxt := (nxt m)(?q := Some ?p, a := None)\<rparr>"
  from rep have d: "distinct (h # xs @ a # ys)" and s: "dseg m h xs a" "dseg m a ys h"
    by (auto simp: dlist_rep_def)
  have q: "prv m a = Some ?q" using dseg_ends [OF s(1)] by simp
  have p: "nxt m a = Some ?p" using s(2) by (cases ys) auto
  have qin: "?q \<in> set (h # xs)" by (cases xs) auto
  have pin: "?p \<in> set (h # ys)" by (cases ys) auto
  have ap: "?p \<noteq> a" "?q \<noteq> a" using qin pin d by auto
  have left: "dseg ?m h xs ?p"
  proof (cases xs rule: rev_cases)
    case Nil
    then show ?thesis using ap d by auto
  next
    case (snoc ws q)
    then have "dseg m h ws q" using s(1) by simp
    then have "dseg ?m h ws q"
      using snoc ap d pin by (subst dseg_cong [where m' = m]) auto
    with snoc ap show ?thesis by simp
  qed
  have "dseg ?m h (xs @ ys) h"
  proof (cases ys)
    case Nil
    with left show ?thesis by simp
  next
    case (Cons y zs)
    then have "dseg m y zs h" using s(2) by simp
    then have "dseg ?m y zs h"
      using Cons ap d qin by (subst dseg_cong [where m' = m]) auto
    with Cons left show ?thesis by simp
  qed
  moreover have "DLIST_Remove m a = Some ?m"
    using q p ap by (auto simp: DLIST_Remove_def Let_def fun_upd_twist)
  ultimately show ?thesis using d by (auto simp: dlist_rep_def)
qed

end
