(* ===== verification/Interfaces.thy ===== *)
theory Interfaces
  imports FwPrelude
begin

text \<open>
  The contracts that the firmware's modules rely on, as locales, with what a client may
  conclude proved once from the contract.

  \<^item> \<open>source\<close>: a sequence taken apart by a dequeue; \<open>fifo\<close> and \<open>bounded_fifo\<close> extend it.
  \<^item> \<open>fifo\<close>: a queue operated by an enqueue and a dequeue.  Provided by the singly linked lists.
  \<^item> \<open>bounded_fifo\<close>: a queue that refuses an offer when it is full.  Provided by the buffer queues.
  \<^item> \<open>id_pool\<close>: a fixed stock of handles operated by an allocation and a release.
    Provided by the timer manager, the buffer manager and the connection table.

  The outer \<open>None\<close> of an operation is undefined behaviour, the inner one is the C result
  \<open>NULL\<close> (or the invalid identifier).
\<close>

subsection \<open>Runs of operations\<close>

fun enq_all :: "('e \<Rightarrow> 's \<Rightarrow> 's option) \<Rightarrow> 'e list \<Rightarrow> 's \<Rightarrow> 's option" where
  "enq_all enq [] s = Some s"
| "enq_all enq (x # xs) s = do { s \<leftarrow> enq x s; enq_all enq xs s }"

fun deq_n :: "('s \<Rightarrow> ('e option \<times> 's) option) \<Rightarrow> nat \<Rightarrow> 's \<Rightarrow> ('e option list \<times> 's) option" where
  "deq_n deq 0 s = Some ([], s)"
| "deq_n deq (Suc n) s = do {
     (r, s) \<leftarrow> deq s;
     (rs, s) \<leftarrow> deq_n deq n s;
     Some (r # rs, s)
   }"

fun offer_all :: "('e \<Rightarrow> 's \<Rightarrow> (bool \<times> 's) option) \<Rightarrow> 'e list \<Rightarrow> 's \<Rightarrow> (bool list \<times> 's) option" where
  "offer_all offer [] s = Some ([], s)"
| "offer_all offer (x # xs) s = do {
     (b, s) \<leftarrow> offer x s;
     (bs, s) \<leftarrow> offer_all offer xs s;
     Some (b # bs, s)
   }"

datatype pool_cmd = PAlloc | PFree nat

text \<open>
  A client that keeps the list of the handles it holds: it allocates one, or releases the
  one at an index of its list.
\<close>

fun pool_run ::
  "('s \<Rightarrow> ('h option \<times> 's) option) \<Rightarrow> ('h \<Rightarrow> 's \<Rightarrow> 's option) \<Rightarrow> pool_cmd list \<Rightarrow> 'h list \<times> 's \<Rightarrow>
     ('h list \<times> 's) option" where
  "pool_run alloc free [] (hs, s) = Some (hs, s)"
| "pool_run alloc free (PAlloc # cs) (hs, s) = do {
     (r, s) \<leftarrow> alloc s;
     pool_run alloc free cs (case r of None \<Rightarrow> hs | Some h \<Rightarrow> h # hs, s)
   }"
| "pool_run alloc free (PFree i # cs) (hs, s) =
     (if i < length hs
      then do {
        s \<leftarrow> free (hs ! i) s;
        pool_run alloc free cs (take i hs @ drop (Suc i) hs, s)
      }
      else pool_run alloc free cs (hs, s))"

subsection \<open>Queues\<close>

locale source =
  fixes rep :: "'s \<Rightarrow> 'e list \<Rightarrow> bool"
    and deq :: "'s \<Rightarrow> ('e option \<times> 's) option"
  assumes deq_rep: "rep s (x # xs) \<Longrightarrow> \<exists>s'. deq s = Some (Some x, s') \<and> rep s' xs"
    and deq_empty: "rep s [] \<Longrightarrow> \<exists>s'. deq s = Some (None, s') \<and> rep s' []"
begin

lemma deq_n_rep:
  "rep s (xs @ ys) \<Longrightarrow> \<exists>s'. deq_n deq (length xs) s = Some (map Some xs, s') \<and> rep s' ys"
proof (induction xs arbitrary: s)
  case Nil
  then show ?case by simp
next
  case (Cons x xs)
  then obtain s1 where s1: "deq s = Some (Some x, s1)" "rep s1 (xs @ ys)"
    using deq_rep [of s x "xs @ ys"] by auto
  with Cons.IH [of s1] show ?case by auto
qed

end

locale fifo = source rep deq
  for rep :: "'s \<Rightarrow> 'e list \<Rightarrow> bool" and deq :: "'s \<Rightarrow> ('e option \<times> 's) option" +
  fixes enq :: "'e \<Rightarrow> 's \<Rightarrow> 's option"
  assumes enq_rep: "rep s xs \<Longrightarrow> x \<notin> set xs \<Longrightarrow> \<exists>s'. enq x s = Some s' \<and> rep s' (xs @ [x])"
begin

lemma enq_all_rep:
  "rep s xs \<Longrightarrow> distinct (xs @ ys) \<Longrightarrow> \<exists>s'. enq_all enq ys s = Some s' \<and> rep s' (xs @ ys)"
proof (induction ys arbitrary: s xs)
  case Nil
  then show ?case by simp
next
  case (Cons y ys)
  then obtain s1 where s1: "enq y s = Some s1" "rep s1 (xs @ [y])"
    using enq_rep [of s xs y] by auto
  with Cons.IH [of s1 "xs @ [y]"] Cons.prems show ?case by auto
qed

text \<open>First in, first out: what is put into a queue comes out behind what was there.\<close>

theorem in_order:
  assumes "rep s xs" "distinct (xs @ ys)"
  shows "\<exists>s1 s2. enq_all enq ys s = Some s1 \<and>
    deq_n deq (length xs + length ys) s1 = Some (map Some (xs @ ys), s2) \<and> rep s2 []"
proof -
  obtain s1 where s1: "enq_all enq ys s = Some s1" "rep s1 (xs @ ys)"
    using enq_all_rep assms by blast
  with deq_n_rep [of s1 "xs @ ys" "[]"] show ?thesis by auto
qed

end

text \<open>
  A queue with a capacity: when it is full, an offer is refused and changes nothing.
\<close>

locale bounded_fifo = source rep deq
  for rep :: "'s \<Rightarrow> 'e list \<Rightarrow> bool" and deq :: "'s \<Rightarrow> ('e option \<times> 's) option" +
  fixes cap :: nat
    and offer :: "'e \<Rightarrow> 's \<Rightarrow> (bool \<times> 's) option"
  assumes rep_cap: "rep s xs \<Longrightarrow> length xs \<le> cap"
    and offer_room: "rep s xs \<Longrightarrow> x \<notin> set xs \<Longrightarrow> length xs < cap \<Longrightarrow>
      \<exists>s'. offer x s = Some (True, s') \<and> rep s' (xs @ [x])"
    and offer_full: "rep s xs \<Longrightarrow> length xs = cap \<Longrightarrow> \<exists>s'. offer x s = Some (False, s') \<and> rep s' xs"
begin

lemma offer_all_full:
  "rep s xs \<Longrightarrow> length xs = cap \<Longrightarrow>
     \<exists>s'. offer_all offer ys s = Some (replicate (length ys) False, s') \<and> rep s' xs"
proof (induction ys arbitrary: s)
  case Nil
  then show ?case by simp
next
  case (Cons y ys)
  then obtain s1 where "offer y s = Some (False, s1)" "rep s1 xs"
    using offer_full [of s xs y] by auto
  with Cons.IH [of s1] Cons.prems(2) show ?case by auto
qed

text \<open>The oldest elements are kept: the queue accepts as many as fit and refuses the rest.\<close>

theorem keeps_first:
  "rep s xs \<Longrightarrow> distinct (xs @ ys) \<Longrightarrow>
     \<exists>s1 s2. offer_all offer ys s =
         Some (map (\<lambda>i. length xs + i < cap) [0..<length ys], s1) \<and>
       rep s1 (take cap (xs @ ys)) \<and>
       deq_n deq (length (take cap (xs @ ys))) s1 = Some (map Some (take cap (xs @ ys)), s2) \<and>
       rep s2 []"
proof -
  assume "rep s xs" "distinct (xs @ ys)"
  then have "\<exists>s1. offer_all offer ys s = Some (map (\<lambda>i. length xs + i < cap) [0..<length ys], s1) \<and>
      rep s1 (take cap (xs @ ys))"
  proof (induction ys arbitrary: s xs)
    case Nil
    then show ?case using rep_cap [of s xs] by simp
  next
    case (Cons y ys)
    have m: "map (\<lambda>i. length xs + i < cap) [0..<length (y # ys)] =
        (length xs < cap) # map (\<lambda>i. length (xs @ [y]) + i < cap) [0..<length ys]"
      by (simp add: upt_conv_Cons map_Suc_upt [symmetric] del: upt_Suc)
    show ?case
    proof (cases "length xs < cap")
      case True
      obtain s' where s': "offer y s = Some (True, s')" "rep s' (xs @ [y])"
        using offer_room [OF Cons.prems(1) _ True, of y] Cons.prems(2) by auto
      obtain s1 where "offer_all offer ys s' =
          Some (map (\<lambda>i. length (xs @ [y]) + i < cap) [0..<length ys], s1)"
        "rep s1 (take cap ((xs @ [y]) @ ys))"
        using Cons.IH [OF s'(2)] Cons.prems(2) by auto
      then show ?thesis using s'(1) True unfolding m by simp
    next
      case False
      then have "length xs = cap" using rep_cap [OF Cons.prems(1)] by simp
      moreover have "map (\<lambda>i. length xs + i < cap) [0..<length (y # ys)] = replicate (length (y # ys)) False"
        using False by (intro nth_equalityI) (simp_all del: upt_Suc replicate_Suc)
      ultimately show ?thesis using offer_all_full [OF Cons.prems(1), of "y # ys"] by (auto simp del: upt_Suc)
    qed
  qed
  then obtain s1 where s1: "offer_all offer ys s = Some (map (\<lambda>i. length xs + i < cap) [0..<length ys], s1)"
    "rep s1 (take cap (xs @ ys))" by blast
  with deq_n_rep [of s1 "take cap (xs @ ys)" "[]"] show ?thesis by auto
qed

end

subsection \<open>Pools of handles\<close>

locale id_pool =
  fixes inv :: "'s \<Rightarrow> bool"
    and used :: "'s \<Rightarrow> 'h set"
    and cap :: "'h set"
    and alloc :: "'s \<Rightarrow> ('h option \<times> 's) option"
    and free :: "'h \<Rightarrow> 's \<Rightarrow> 's option"
  assumes finite_cap: "finite cap"
    and used_cap: "inv s \<Longrightarrow> used s \<subseteq> cap"
    and alloc_ok: "inv s \<Longrightarrow> used s \<noteq> cap \<Longrightarrow>
      \<exists>h s'. alloc s = Some (Some h, s') \<and> inv s' \<and> h \<notin> used s \<and> used s' = insert h (used s)"
    and alloc_full: "inv s \<Longrightarrow> used s = cap \<Longrightarrow>
      \<exists>s'. alloc s = Some (None, s') \<and> inv s' \<and> used s' = cap"
    and free_ok: "inv s \<Longrightarrow> h \<in> used s \<Longrightarrow>
      \<exists>s'. free h s = Some s' \<and> inv s' \<and> used s' = used s - {h}"
begin

lemma alloc_cases:
  assumes "inv s"
  obtains (got) h s' where "alloc s = Some (Some h, s')" "inv s'" "h \<notin> used s"
      "used s' = insert h (used s)"
    | (full) s' where "alloc s = Some (None, s')" "inv s'" "used s = cap" "used s' = cap"
  using alloc_ok [OF assms] alloc_full [OF assms] by (cases "used s = cap") auto

text \<open>
  No handle is ever given out twice: over any run of allocations and releases the handles a
  client holds are pairwise distinct and are exactly the ones in use.
\<close>

theorem run_distinct:
  "inv s \<Longrightarrow> distinct hs \<Longrightarrow> used s = set hs \<Longrightarrow>
     \<exists>hs' s'. pool_run alloc free cs (hs, s) = Some (hs', s') \<and>
       inv s' \<and> distinct hs' \<and> used s' = set hs'"
proof (induction cs arbitrary: hs s)
  case Nil
  then show ?case by simp
next
  case (Cons c cs)
  show ?case
  proof (cases c)
    case PAlloc
    from \<open>inv s\<close> show ?thesis
    proof (cases rule: alloc_cases)
      case (got h s')
      with Cons.IH [of s' "h # hs"] Cons.prems PAlloc show ?thesis by simp
    next
      case (full s')
      with Cons.IH [of s' hs] Cons.prems PAlloc show ?thesis by simp
    qed
  next
    case (PFree i)
    show ?thesis
    proof (cases "i < length hs")
      case True
      let ?hs = "take i hs @ drop (Suc i) hs"
      obtain us vs where uv: "us = take i hs" "vs = drop (Suc i) hs" by simp
      have hs: "hs = us @ hs ! i # vs"
        unfolding uv using True by (rule id_take_nth_drop)
      have "distinct (us @ hs ! i # vs)" using Cons.prems(2) hs by simp
      moreover have "set hs = insert (hs ! i) (set (us @ vs))" by (subst hs) auto
      ultimately have "distinct ?hs \<and> set ?hs = set hs - {hs ! i}"
        unfolding uv [symmetric] by auto
      moreover obtain s' where "free (hs ! i) s = Some s'" "inv s'" "used s' = set hs - {hs ! i}"
        using free_ok [of s "hs ! i"] Cons.prems True by auto
      ultimately show ?thesis using Cons.IH [of s' ?hs] PFree True by simp
    next
      case False
      with Cons PFree show ?thesis by simp
    qed
  qed
qed

text \<open>From an empty pool, as many allocations succeed as the pool has handles.\<close>

theorem alloc_all:
  assumes "inv s" "card (used s) + n \<le> card cap"
  shows "\<exists>hs s'. deq_n alloc n s = Some (map Some hs, s') \<and> inv s' \<and> length hs = n \<and>
    distinct hs \<and> set hs \<inter> used s = {} \<and> used s' = used s \<union> set hs"
  using assms
proof (induction n arbitrary: s)
  case 0
  then show ?case by simp
next
  case (Suc n)
  have fin: "finite (used s)" using used_cap [OF Suc.prems(1)] finite_cap finite_subset by blast
  have "used s \<noteq> cap" using Suc.prems(2) by auto
  then obtain h s1 where h: "alloc s = Some (Some h, s1)" "inv s1" "h \<notin> used s"
      "used s1 = insert h (used s)"
    using alloc_ok [OF Suc.prems(1)] by blast
  moreover have "card (used s1) + n \<le> card cap" using Suc.prems(2) h fin by simp
  ultimately obtain hs s' where "deq_n alloc n s1 = Some (map Some hs, s')" "inv s'"
      "length hs = n" "distinct hs" "set hs \<inter> used s1 = {}" "used s' = used s1 \<union> set hs"
    using Suc.IH by blast
  with h show ?case by (intro exI [of _ "h # hs"] exI [of _ s']) auto
qed

end

end
