(* ===== verification/Stm.thy ===== *)
theory Stm
  imports DList Interfaces
begin

unbundle bit_operations_syntax

text \<open>
  The software timer manager, \<^verbatim>\<open>firmware/common/stm.c\<close> and \<^verbatim>\<open>stm.h\<close>, with the tick
  sources of \<^verbatim>\<open>common/interrupt.c\<close> (\<open>timer_handler\<close>) and \<^verbatim>\<open>hpgp/src/green.c\<close>
  (\<open>timer0Poll\<close>).

  The record \<open>sStm\<close> is the global \<open>Stm\<close>; the nodes of the active queue are its head
  \<open>timerQueue\<close> and the links embedded in the control blocks.  Time is a pair of a 32-bit tick
  and a one-bit sector that flips when the tick wraps.  A \<open>void *\<close> cookie is an option.
  \<open>EA\<close> is the interrupt-enable bit.  The configuration is the P8051 build with
  \<open>B_ASICPLC\<close> and without \<open>CALLBACK\<close>.
\<close>

definition STM_TIMER_MAX :: nat where "STM_TIMER_MAX = 120"
definition STM_TIMER_ID_NULL :: u8 where "STM_TIMER_ID_NULL = 0xFF"
definition STM_TIME_TICK_MAX :: u32 where "STM_TIME_TICK_MAX = 0xFFFFFFFF"

datatype tlink = TimerQueue | TimerLink nat

record 'c sTimerCb =
  valid :: bool
  active :: bool
  timeSector :: bool
  tid :: u8
  mid :: u8
  ttype :: u16
  cookie :: "'c option"
  time :: u32

record 'c sStm =
  timerCb :: "'c sTimerCb list"
  timeTick :: u32
  stmSector :: bool
  links :: "tlink dmem"
  irqEA :: bool

definition zeroTimerCb :: "'c sTimerCb" where
  "zeroTimerCb = \<lparr>valid = False, active = False, timeSector = False, tid = 0, mid = 0,
     ttype = 0, cookie = None, time = 0\<rparr>"

definition STM_MS_TO_TICK :: "u32 \<Rightarrow> u32" where
  "STM_MS_TO_TICK x = x div 10"

definition upd_cb :: "nat \<Rightarrow> ('c sTimerCb \<Rightarrow> 'c sTimerCb) \<Rightarrow> 'c sStm \<Rightarrow> 'c sStm" where
  "upd_cb i f s = s\<lparr>timerCb := (timerCb s)[i := f (timerCb s ! i)]\<rparr>"

definition STM_GetTick :: "'c sStm \<Rightarrow> u32" where
  "STM_GetTick s = timeTick s"

definition STM_Init :: "'c sStm \<Rightarrow> 'c sStm \<times> eStatus" where
  "STM_Init s =
     (s\<lparr>timerCb := map (\<lambda>i. zeroTimerCb\<lparr>tid := of_nat i\<rparr>) [0..<STM_TIMER_MAX],
        timeTick := 0, stmSector := False,
        links := DLIST_Init \<lparr>nxt = (\<lambda>_. None), prv = (\<lambda>_. None)\<rparr> TimerQueue\<rparr>,
      STATUS_SUCCESS)"

text \<open>The loop over the table: the first control block from \<open>i\<close> on that is not valid.\<close>

definition STM_AllocTimer :: "'c sStm \<Rightarrow> u8 \<Rightarrow> u16 \<Rightarrow> 'c option \<Rightarrow> 'c sStm \<times> u8" where
  "STM_AllocTimer s m ty c =
     (case find (\<lambda>i. \<not> valid (timerCb s ! i)) [0..<STM_TIMER_MAX] of
        Some i \<Rightarrow> (upd_cb i (\<lambda>t. t\<lparr>mid := m, ttype := ty, cookie := c, valid := True\<rparr>) s, of_nat i)
      | None \<Rightarrow> (s, STM_TIMER_ID_NULL))"

definition STM_FreeTimer :: "'c sStm \<Rightarrow> u8 \<Rightarrow> 'c sStm \<times> eStatus" where
  "STM_FreeTimer s t =
     (let i = unat t in
      if STM_TIMER_MAX \<le> i \<or> \<not> valid (timerCb s ! i) then (s, STATUS_SUCCESS)
      else if \<not> active (timerCb s ! i)
           then (upd_cb i (\<lambda>c. c\<lparr>valid := False, active := False\<rparr>) s, STATUS_SUCCESS)
           else (s, STATUS_FAILURE))"

text \<open>
  \<open>entry\<close> is the cast from a link to the control block it is embedded in; the head node is
  in no control block.
\<close>

definition entry :: "'c sStm \<Rightarrow> tlink \<Rightarrow> 'c sTimerCb option" where
  "entry s p = (case p of TimerQueue \<Rightarrow> None | TimerLink i \<Rightarrow> arr_get (timerCb s) i)"

text \<open>
  The two scans of \<open>STM_StartTimer\<close>.  \<open>scan1\<close> is the loop over the timers of the current
  sector: \<open>Inl p\<close> is the \<open>goto endCrit\<close> after an insertion before \<open>p\<close>, \<open>Inr p\<close> is the
  value of \<open>ptimer\<close> when the loop is left.  \<open>scan2\<close> is the loop of case (4).
\<close>

partial_function (option) scan1 ::
  "'c sStm \<Rightarrow> 'c sTimerCb \<Rightarrow> bool \<Rightarrow> tlink \<Rightarrow> (tlink + tlink) option" where
  "scan1 s timer cursec p =
     (if DLIST_IsHead TimerQueue p then Some (Inr p)
      else do {
        pt \<leftarrow> entry s p;
        if timeSector pt = cursec
        then if timeSector timer = timeSector pt \<and> time timer \<le> time pt then Some (Inl p)
             else do { n \<leftarrow> nxt (links s) p; scan1 s timer cursec n }
        else Some (Inr p)
      })"

partial_function (option) scan2 ::
  "'c sStm \<Rightarrow> 'c sTimerCb \<Rightarrow> tlink \<Rightarrow> tlink option option" where
  "scan2 s timer p =
     (if DLIST_IsHead TimerQueue p then Some None
      else do {
        nt \<leftarrow> entry s p;
        if timeSector timer = timeSector nt \<and> time timer \<le> time nt then Some (Some p)
        else do { n \<leftarrow> nxt (links s) p; scan2 s timer n }
      })"

definition activate_before :: "'c sStm \<Rightarrow> nat \<Rightarrow> tlink \<Rightarrow> 'c sStm option" where
  "activate_before s i p = do {
     let s = upd_cb i (\<lambda>t. t\<lparr>active := True\<rparr>) s;
     l \<leftarrow> DLIST_Put (links s) p (TimerLink i);
     Some (s\<lparr>links := l\<rparr>)
   }"

text \<open>The expiry time and its sector: a sum that wrapped belongs to the next sector.\<close>

definition stm_set_time :: "'c sStm \<Rightarrow> nat \<Rightarrow> u32 \<Rightarrow> 'c sStm" where
  "stm_set_time s i duration =
     (let currTimeTick = timeTick s;
          currTimeSector = stmSector s;
          s = upd_cb i (\<lambda>t. t\<lparr>time := currTimeTick + STM_MS_TO_TICK duration\<rparr>) s
      in upd_cb i (\<lambda>t. t\<lparr>timeSector :=
           (if time t < currTimeTick then \<not> currTimeSector else currTimeSector)\<rparr>) s)"

text \<open>The critical section of \<open>STM_StartTimer\<close> up to \<open>endCrit\<close>.\<close>

definition stm_start_crit :: "'c sStm \<Rightarrow> nat \<Rightarrow> u32 \<Rightarrow> 'c sStm option" where
  "stm_start_crit s i duration = do {
     let currTimeSector = stmSector s;
     let s = stm_set_time s i duration;
     let timer = timerCb s ! i;
     if DLIST_IsEmpty (links s) TimerQueue
     then do {
       let s = upd_cb i (\<lambda>t. t\<lparr>active := True\<rparr>) s;
       l \<leftarrow> DLIST_Push (links s) TimerQueue (TimerLink i);
       Some (s\<lparr>links := l\<rparr>)
     }
     else do {
       p0 \<leftarrow> nxt (links s) TimerQueue;
       r \<leftarrow> scan1 s timer currTimeSector p0;
       case r of
         Inl p \<Rightarrow> activate_before s i p
       | Inr p \<Rightarrow>
           if DLIST_IsHead TimerQueue p then activate_before s i TimerQueue
           else do {
             pt \<leftarrow> entry s p;
             if timeSector pt \<noteq> timeSector timer then activate_before s i p
             else do {
               n \<leftarrow> scan2 s timer p;
               activate_before s i (case n of Some q \<Rightarrow> q | None \<Rightarrow> TimerQueue)
             }
           }
     }
   }"

definition STM_StartTimer :: "'c sStm \<Rightarrow> u8 \<Rightarrow> u32 \<Rightarrow> ('c sStm \<times> eStatus) option" where
  "STM_StartTimer s t duration =
     (let i = unat t in
      if STM_TIMER_MAX \<le> i \<or> \<not> valid (timerCb s ! i) then Some (s, STATUS_FAILURE)
      else if active (timerCb s ! i) then Some (s, STATUS_SUCCESS)
      else do {
        s \<leftarrow> stm_start_crit (s\<lparr>irqEA := False\<rparr>) i duration;
        Some (s\<lparr>irqEA := True\<rparr>, STATUS_SUCCESS)
      })"

text \<open>Taking a timer off the queue: the critical sections of \<open>STM_StopTimer\<close> and \<open>STM_Proc\<close>.\<close>

definition stm_dequeue :: "'c sStm \<Rightarrow> nat \<Rightarrow> 'c sStm option" where
  "stm_dequeue s i = do {
     let s = s\<lparr>irqEA := False\<rparr>;
     l \<leftarrow> DLIST_Remove (links s) (TimerLink i);
     let s = upd_cb i (\<lambda>t. t\<lparr>active := False\<rparr>) (s\<lparr>links := l\<rparr>);
     Some (s\<lparr>irqEA := True\<rparr>)
   }"

definition STM_StopTimer :: "'c sStm \<Rightarrow> u8 \<Rightarrow> ('c sStm \<times> eStatus) option" where
  "STM_StopTimer s t =
     (let i = unat t in
      if STM_TIMER_MAX \<le> i \<or> \<not> valid (timerCb s ! i) \<or> \<not> active (timerCb s ! i)
      then Some (s, STATUS_SUCCESS)
      else do { s \<leftarrow> stm_dequeue s i; Some (s, STATUS_SUCCESS) })"

text \<open>
  The handlers a timer is dispatched to belong to other modules.  They are parameters that
  act on the timer manager (they may start, stop, allocate and free timers) and on a state
  \<open>'x\<close> of their own.
\<close>

type_synonym ('c, 'x) handler = "u16 \<Rightarrow> 'c option \<Rightarrow> 'c sStm \<times> 'x \<Rightarrow> ('c sStm \<times> 'x) option"

definition HP_LAYER_TYPE_LINK :: u8 where "HP_LAYER_TYPE_LINK = 2"
definition HP_LAYER_TYPE_CTRL :: u8 where "HP_LAYER_TYPE_CTRL = 3"
definition ZB_LAYER_TYPE_MAC :: u8 where "ZB_LAYER_TYPE_MAC = 5"

definition STM_ProcTimer ::
  "('c, 'x) handler \<Rightarrow> ('c, 'x) handler \<Rightarrow> ('c, 'x) handler \<Rightarrow> u8 \<Rightarrow> ('c, 'x) handler" where
  "STM_ProcTimer ctrl link zb m ty c sx =
     (if m = HP_LAYER_TYPE_CTRL then ctrl ty c sx
      else if m = HP_LAYER_TYPE_LINK then link ty c sx
      else if m = ZB_LAYER_TYPE_MAC then zb ty c sx
      else Some sx)"

definition stm_fire ::
  "(u8 \<Rightarrow> ('c, 'x) handler) \<Rightarrow> nat \<Rightarrow> 'c sStm \<times> 'x \<Rightarrow> ('c sStm \<times> 'x) option" where
  "stm_fire proc i sx = do {
     s \<leftarrow> stm_dequeue (fst sx) i;
     let pt = timerCb s ! i;
     proc (mid pt) (ttype pt) (cookie pt) (s, snd sx)
   }"

definition link_index :: "tlink \<Rightarrow> nat option" where
  "link_index p = (case p of TimerQueue \<Rightarrow> None | TimerLink i \<Rightarrow> Some i)"

partial_function (option) STM_Proc_loop ::
  "(u8 \<Rightarrow> ('c, 'x) handler) \<Rightarrow> bool \<Rightarrow> 'c sStm \<times> 'x \<Rightarrow> ('c sStm \<times> 'x) option" where
  "STM_Proc_loop proc cursec sx =
     (if DLIST_IsEmpty (links (fst sx)) TimerQueue then Some sx
      else do {
        p \<leftarrow> DLIST_PeekHead (links (fst sx)) TimerQueue;
        i \<leftarrow> link_index p;
        pt \<leftarrow> entry (fst sx) p;
        if timeSector pt = cursec
        then if time pt \<le> timeTick (fst sx)
             then do { sx \<leftarrow> stm_fire proc i sx; STM_Proc_loop proc cursec sx }
             else Some sx
        else if timeSector pt = stmSector (fst sx)
        then if time pt \<le> timeTick (fst sx)
             then do { sx \<leftarrow> stm_fire proc i sx; STM_Proc_loop proc cursec sx }
             else Some sx
        else Some sx
      })"

definition STM_Proc ::
  "(u8 \<Rightarrow> ('c, 'x) handler) \<Rightarrow> 'c sStm \<times> 'x \<Rightarrow> ('c sStm \<times> 'x) option" where
  "STM_Proc proc sx = STM_Proc_loop proc (stmSector (fst sx)) sx"

subsection \<open>The tick sources\<close>

text \<open>The interrupt routine of \<^verbatim>\<open>interrupt.c\<close>: the branch that is compiled only increments.\<close>

definition timer_handler :: "'c sStm \<Rightarrow> 'c sStm" where
  "timer_handler s = s\<lparr>timeTick := timeTick s + 1\<rparr>"

text \<open>
  The polled tick of \<^verbatim>\<open>green.c\<close> (builds with \<open>UART_HOST_INTF\<close>): one increment that flips the
  sector on wrap-around, then the whole ticks read from the hardware counter.
\<close>

definition stm_inc :: "u32 \<Rightarrow> 'c sStm \<Rightarrow> 'c sStm" where
  "stm_inc n s =
     (if timeTick s = STM_TIME_TICK_MAX
      then s\<lparr>stmSector := \<not> stmSector s, timeTick := 0\<rparr>
      else s\<lparr>timeTick := timeTick s + n\<rparr>)"

definition TIMER_TICK10 :: u16 where "TIMER_TICK10 = 20833"
definition TIMER_RELOAD_VALUE :: u16 where "TIMER_RELOAD_VALUE = 44702"

record timer0 =
  TF0 :: bool
  TR0 :: bool
  TH0 :: u8
  TL0 :: u8
  uartRxFlag :: bool
  uartRxTick :: u32

definition timer0Poll :: "timer0 \<Rightarrow> 'c sStm \<Rightarrow> timer0 \<times> 'c sStm" where
  "timer0Poll hw s =
     (let s = s\<lparr>irqEA := False\<rparr> in
      if TF0 hw then
        let hw = hw\<lparr>TF0 := False\<rparr>;
            s = stm_inc 1 s;
            hw = hw\<lparr>TR0 := False\<rparr>;
            timerValue = push_bit 8 (ucast (TH0 hw)) OR ucast (TL0 hw) :: u16;
            val = (if timerValue > 0 then ucast (timerValue div TIMER_TICK10) else 0 :: u8);
            s = (if timerValue > 0 then stm_inc (ucast val) s else s);
            reload = (if timerValue > 0
                      then TIMER_RELOAD_VALUE + timerValue mod TIMER_TICK10
                      else TIMER_RELOAD_VALUE);
            hw = hw\<lparr>TL0 := ucast reload, TH0 := ucast (drop_bit 8 reload)\<rparr>;
            hw = hw\<lparr>TR0 := True\<rparr>;
            hw = (if uartRxFlag hw
                  then hw\<lparr>uartRxTick := uartRxTick hw + (ucast val + 1) * 10\<rparr> else hw)
        in (hw, s\<lparr>irqEA := True\<rparr>)
      else (hw, s\<lparr>irqEA := True\<rparr>))"

text \<open>The loops as executable equations.\<close>

declare scan1.simps [code]
  and scan2.simps [code]
  and STM_Proc_loop.simps [code]

subsection \<open>Reading and writing control blocks\<close>

lemma upd_cb_simps [simp]:
  "timeTick (upd_cb i f s) = timeTick s"
  "stmSector (upd_cb i f s) = stmSector s"
  "links (upd_cb i f s) = links s"
  "irqEA (upd_cb i f s) = irqEA s"
  "length (timerCb (upd_cb i f s)) = length (timerCb s)"
  by (simp_all add: upd_cb_def)

lemma upd_cb_nth [simp]:
  "j < length (timerCb s) \<Longrightarrow>
     timerCb (upd_cb i f s) ! j = (if i = j then f (timerCb s ! i) else timerCb s ! j)"
  by (simp add: upd_cb_def)

lemma entry_TimerLink [simp]:
  "i < length (timerCb s) \<Longrightarrow> entry s (TimerLink i) = Some (timerCb s ! i)"
  by (simp add: entry_def)

subsection \<open>The abstract view: expiry times and the sequence of active timers\<close>

text \<open>
  Seen from the current sector, a timer of the other sector expires one whole period of the
  tick counter later.
\<close>

definition expiry :: "'c sStm \<Rightarrow> nat \<Rightarrow> nat" where
  "expiry s i = (if timeSector (timerCb s ! i) = stmSector s then 0 else 2 ^ 32) +
     unat (time (timerCb s ! i))"

definition now :: "'c sStm \<Rightarrow> nat" where
  "now s = unat (timeTick s)"

definition due :: "'c sStm \<Rightarrow> nat \<Rightarrow> bool" where
  "due s i \<longleftrightarrow> expiry s i \<le> now s"

definition timer_queue :: "'c sStm \<Rightarrow> nat list \<Rightarrow> bool" where
  "timer_queue s q \<longleftrightarrow> dlist_rep (links s) TimerQueue (map TimerLink q)"

definition stm_inv :: "'c sStm \<Rightarrow> nat list \<Rightarrow> bool" where
  "stm_inv s q \<longleftrightarrow>
     length (timerCb s) = STM_TIMER_MAX \<and>
     (\<forall>i < STM_TIMER_MAX. tid (timerCb s ! i) = of_nat i) \<and>
     (\<forall>i < STM_TIMER_MAX. active (timerCb s ! i) \<longleftrightarrow> i \<in> set q) \<and>
     (\<forall>i \<in> set q. i < STM_TIMER_MAX \<and> valid (timerCb s ! i)) \<and>
     timer_queue s q \<and> sorted (map (expiry s) q)"

definition insert_timer :: "'c sStm \<Rightarrow> nat \<Rightarrow> nat \<Rightarrow> nat list \<Rightarrow> nat list" where
  "insert_timer s e i q =
     takeWhile (\<lambda>j. expiry s j < e) q @ i # dropWhile (\<lambda>j. expiry s j < e) q"

definition first_link :: "nat list \<Rightarrow> tlink" where
  "first_link q = (case q of [] \<Rightarrow> TimerQueue | i # _ \<Rightarrow> TimerLink i)"

lemma first_link_simps [simp]:
  "first_link [] = TimerQueue" "first_link (i # q) = TimerLink i"
  by (simp_all add: first_link_def)

lemma timer_queue_distinct: "timer_queue s q \<Longrightarrow> distinct q"
  by (simp add: timer_queue_def dlist_rep_def distinct_map)

lemma timer_queue_first: "timer_queue s q \<Longrightarrow> nxt (links s) TimerQueue = Some (first_link q)"
  by (cases q) (auto simp: timer_queue_def dest: dlist_rep_first)

lemma timer_queue_succ:
  "timer_queue s (xs @ i # ys) \<Longrightarrow> nxt (links s) (TimerLink i) = Some (first_link ys)"
  unfolding timer_queue_def by (cases ys) (auto dest!: dlist_rep_succ)

lemma timer_queue_empty_iff: "timer_queue s q \<Longrightarrow> DLIST_IsEmpty (links s) TimerQueue = (q = [])"
  by (auto simp: timer_queue_def dest: dlist_rep_empty_iff)

lemma timer_queue_cong: "links s = links s' \<Longrightarrow> timer_queue s q = timer_queue s' q"
  by (simp add: timer_queue_def)

lemma due_iff:
  "due s i \<longleftrightarrow> timeSector (timerCb s ! i) = stmSector s \<and> time (timerCb s ! i) \<le> timeTick s"
  using unat_u32_less [of "timeTick s"]
  by (auto simp: due_def expiry_def now_def word_le_nat_alt)

subsection \<open>The scans\<close>

lemma scan1_spec:
  assumes "timer_queue s (xs @ ys)" "set ys \<subseteq> {..<length (timerCb s)}"
  shows "scan1 s t c (first_link ys) = Some
    (case dropWhile (\<lambda>j. timeSector (timerCb s ! j) = c \<and>
            \<not> (timeSector t = timeSector (timerCb s ! j) \<and> time t \<le> time (timerCb s ! j))) ys of
       [] \<Rightarrow> Inr TimerQueue
     | y # _ \<Rightarrow> if timeSector (timerCb s ! y) = c then Inl (TimerLink y) else Inr (TimerLink y))"
  using assms
proof (induction ys arbitrary: xs)
  case Nil
  then show ?case by (simp add: scan1.simps DLIST_IsHead_def)
next
  case (Cons y ys)
  have "nxt (links s) (TimerLink y) = Some (first_link ys)"
    using Cons.prems timer_queue_succ by blast
  moreover have "scan1 s t c (first_link ys) = Some
    (case dropWhile (\<lambda>j. timeSector (timerCb s ! j) = c \<and>
            \<not> (timeSector t = timeSector (timerCb s ! j) \<and> time t \<le> time (timerCb s ! j))) ys of
       [] \<Rightarrow> Inr TimerQueue
     | y # _ \<Rightarrow> if timeSector (timerCb s ! y) = c then Inl (TimerLink y) else Inr (TimerLink y))"
    using Cons.IH [of "xs @ [y]"] Cons.prems by simp
  ultimately show ?case
    using Cons.prems by (simp add: scan1.simps [of s t c "TimerLink y"] DLIST_IsHead_def)
qed

lemma scan2_spec:
  assumes "timer_queue s (xs @ ys)" "set ys \<subseteq> {..<length (timerCb s)}"
  shows "scan2 s t (first_link ys) = Some
    (case dropWhile (\<lambda>j. \<not> (timeSector t = timeSector (timerCb s ! j) \<and>
            time t \<le> time (timerCb s ! j))) ys of
       [] \<Rightarrow> None
     | y # _ \<Rightarrow> Some (TimerLink y))"
  using assms
proof (induction ys arbitrary: xs)
  case Nil
  then show ?case by (simp add: scan2.simps DLIST_IsHead_def)
next
  case (Cons y ys)
  have "nxt (links s) (TimerLink y) = Some (first_link ys)"
    using Cons.prems timer_queue_succ by blast
  moreover have "scan2 s t (first_link ys) = Some
    (case dropWhile (\<lambda>j. \<not> (timeSector t = timeSector (timerCb s ! j) \<and>
            time t \<le> time (timerCb s ! j))) ys of
       [] \<Rightarrow> None
     | y # _ \<Rightarrow> Some (TimerLink y))"
    using Cons.IH [of "xs @ [y]"] Cons.prems by simp
  ultimately show ?case
    using Cons.prems by (simp add: scan2.simps [of s t "TimerLink y"] DLIST_IsHead_def)
qed

subsection \<open>Starting a timer is an ordered insertion\<close>

definition stm_timed :: "'c sStm \<Rightarrow> nat \<Rightarrow> u32 \<Rightarrow> 'c sStm" where
  "stm_timed s i d = upd_cb i (\<lambda>t. t\<lparr>time := timeTick s + STM_MS_TO_TICK d,
     timeSector := (if timeTick s + STM_MS_TO_TICK d < timeTick s
                    then \<not> stmSector s else stmSector s)\<rparr>) s"

lemma word_add_wraps:
  fixes a n :: u32
  shows "(if a + n < a then 2 ^ 32 else 0) + unat (a + n) = unat a + unat n"
proof -
  have u: "unat (a + n) = (unat a + unat n) mod 2 ^ 32"
    by (simp add: unat_word_ariths)
  show ?thesis
  proof (cases "unat a + unat n < 2 ^ 32")
    case True
    with u show ?thesis by (simp add: word_less_nat_alt)
  next
    case False
    then have "(unat a + unat n) mod 2 ^ 32 = unat a + unat n - 2 ^ 32"
      using unat_u32_less [of a] unat_u32_less [of n] by (simp add: le_mod_geq)
    with u False unat_u32_less [of n] show ?thesis by (simp add: word_less_nat_alt)
  qed
qed

lemma expiry_timed:
  assumes "i < length (timerCb s)"
  shows "expiry (stm_timed s i d) i = now s + unat (STM_MS_TO_TICK d)"
  using word_add_wraps [of "timeTick s" "STM_MS_TO_TICK d"] assms
  by (auto simp: expiry_def stm_timed_def now_def)

lemma expiry_timed_other:
  "j < length (timerCb s) \<Longrightarrow> j \<noteq> i \<Longrightarrow> expiry (stm_timed s i d) j = expiry s j"
  by (simp add: expiry_def stm_timed_def)

lemma activate_before_spec:
  assumes "timer_queue s (us @ vs)" "i \<notin> set (us @ vs)"
  shows "\<exists>l. activate_before s i (first_link vs) =
      Some ((upd_cb i (\<lambda>t. t\<lparr>active := True\<rparr>) s)\<lparr>links := l\<rparr>) \<and>
    dlist_rep l TimerQueue (map TimerLink (us @ i # vs))"
proof (cases vs)
  case Nil
  with assms have "\<exists>l. DLIST_Put (links s) TimerQueue (TimerLink i) = Some l \<and>
      dlist_rep l TimerQueue (map TimerLink us @ [TimerLink i])"
    by (intro dlist_put_end_rep) (auto simp: timer_queue_def)
  with Nil show ?thesis by (auto simp: activate_before_def Let_def)
next
  case (Cons v ws)
  with assms have "\<exists>l. DLIST_Put (links s) (TimerLink v) (TimerLink i) = Some l \<and>
      dlist_rep l TimerQueue (map TimerLink us @ TimerLink i # TimerLink v # map TimerLink ws)"
    by (intro dlist_put_rep) (auto simp: timer_queue_def)
  with Cons show ?thesis by (auto simp: activate_before_def Let_def)
qed

text \<open>Where the scans stop: the first active timer that does not expire before the new one.\<close>

lemma expiry_less_iff:
  "expiry s j < expiry s i \<longleftrightarrow>
     (if timeSector (timerCb s ! i) = stmSector s
      then timeSector (timerCb s ! j) = stmSector s \<and> time (timerCb s ! j) < time (timerCb s ! i)
      else timeSector (timerCb s ! j) = stmSector s \<or> time (timerCb s ! j) < time (timerCb s ! i))"
  using unat_u32_less [of "time (timerCb s ! i)"] unat_u32_less [of "time (timerCb s ! j)"]
  by (auto simp: expiry_def word_less_nat_alt)

lemma stm_scan_position:
  fixes i :: nat
  assumes q: "timer_queue s q" "set q \<subseteq> {..<length (timerCb s)}"
  defines "vs \<equiv> dropWhile (\<lambda>j. expiry s j < expiry s i) q"
  shows "(do {
      p0 \<leftarrow> nxt (links s) TimerQueue;
      r \<leftarrow> scan1 s (timerCb s ! i) (stmSector s) p0;
      case r of
        Inl p \<Rightarrow> activate_before s i p
      | Inr p \<Rightarrow>
          if DLIST_IsHead TimerQueue p then activate_before s i TimerQueue
          else do {
            pt \<leftarrow> entry s p;
            if timeSector pt \<noteq> timeSector (timerCb s ! i) then activate_before s i p
            else do {
              n \<leftarrow> scan2 s (timerCb s ! i) p;
              activate_before s i (case n of Some q \<Rightarrow> q | None \<Rightarrow> TimerQueue)
            }
          }
    }) = activate_before s i (first_link vs)"
proof -
  let ?t = "timerCb s ! i"
  let ?P = "\<lambda>j. timeSector (timerCb s ! j) = stmSector s \<and>
    \<not> (timeSector ?t = timeSector (timerCb s ! j) \<and> time ?t \<le> time (timerCb s ! j))"
  let ?Q = "\<lambda>j. \<not> (timeSector ?t = timeSector (timerCb s ! j) \<and> time ?t \<le> time (timerCb s ! j))"
  have s1: "scan1 s ?t (stmSector s) (first_link q) = Some
    (case dropWhile ?P q of [] \<Rightarrow> Inr TimerQueue
     | y # _ \<Rightarrow> if timeSector (timerCb s ! y) = stmSector s then Inl (TimerLink y) else Inr (TimerLink y))"
    using scan1_spec [of s "[]" q] q by simp
  obtain us ws where ws: "dropWhile ?P q = ws" "q = us @ ws" using dropWhile_prefix by blast
  then have s2: "scan2 s ?t (first_link ws) = Some
    (case dropWhile ?Q ws of [] \<Rightarrow> None | y # _ \<Rightarrow> Some (TimerLink y))"
    using scan2_spec [of s us ws] q by simp
  have first: "nxt (links s) TimerQueue = Some (first_link q)"
    using q(1) by (rule timer_queue_first)
  show ?thesis
  proof (cases "timeSector ?t = stmSector s")
    case True
    then have "vs = dropWhile ?P q"
      unfolding vs_def by (intro dropWhile_cong) (auto simp: expiry_less_iff)
    moreover have "y < length (timerCb s) \<and> (timeSector (timerCb s ! y) \<noteq> stmSector s \<longrightarrow>
        timeSector (timerCb s ! y) \<noteq> timeSector ?t)" if "ws = y # ys" for y ys
      using that q(2) ws(2) True by simp
    ultimately show ?thesis
      unfolding first bind.bind_lunit s1 ws(1)
      by (cases ws) (simp_all add: s1 ws DLIST_IsHead_def)
  next
    case False
    have "vs = dropWhile ?Q q"
      unfolding vs_def using False
      by (intro dropWhile_cong) (auto simp: expiry_less_iff)
    also have "\<dots> = dropWhile ?Q (dropWhile ?P q)"
      by (rule dropWhile_dropWhile [symmetric]) auto
    finally have vs: "vs = dropWhile ?Q (dropWhile ?P q)" .
    have "y < length (timerCb s) \<and> timeSector (timerCb s ! y) \<noteq> stmSector s"
      if "ws = y # ys" for y ys
    proof -
      from that ws(1) have d: "dropWhile ?P q = y # ys" by simp
      have "\<not> ?P y" using dropWhile_eq_Cons_conv [THEN iffD1, OF d] by blast
      moreover have "y < length (timerCb s)" using that ws(2) q(2) by simp
      ultimately show ?thesis using False by blast
    qed
    note y = this
    define r where "r = dropWhile ?Q ws"
    have vs: "vs = r" using vs ws(1) by (simp only: r_def)
    have s2: "scan2 s ?t (first_link ws) = Some (case r of [] \<Rightarrow> None | y # _ \<Rightarrow> Some (TimerLink y))"
      using s2 by (simp only: r_def)
    show ?thesis
    proof (cases ws)
      case Nil
      with vs have "vs = []" by (simp add: r_def)
      with Nil show ?thesis
        unfolding first bind.bind_lunit s1 ws(1) by (simp add: DLIST_IsHead_def)
    next
      case (Cons w ws')
      with y s2 False vs show ?thesis
        unfolding first bind.bind_lunit s1 ws(1)
        by (cases r) (simp_all add: DLIST_IsHead_def)
    qed
  qed
qed

lemma stm_start_crit_spec:
  assumes q: "timer_queue s q" "set q \<subseteq> {..<length (timerCb s)}"
    and i: "i < length (timerCb s)" "i \<notin> set q"
  shows "\<exists>l. stm_start_crit s i d =
      Some ((upd_cb i (\<lambda>t. t\<lparr>active := True\<rparr>) (stm_timed s i d))\<lparr>links := l\<rparr>) \<and>
    dlist_rep l TimerQueue
      (map TimerLink (insert_timer s (now s + unat (STM_MS_TO_TICK d)) i q))"
proof -
  let ?e = "now s + unat (STM_MS_TO_TICK d)"
  define s1 where "s1 = stm_timed s i d"
  have upd: "stm_set_time s i d = s1"
    using i(1) by (simp add: s1_def stm_timed_def stm_set_time_def upd_cb_def)
  have sec: "stmSector s = stmSector s1" and lnk: "links s = links s1"
    and len: "length (timerCb s1) = length (timerCb s)"
    by (simp_all add: s1_def stm_timed_def)
  have e: "expiry s1 i = ?e" unfolding s1_def using i(1) by (rule expiry_timed)
  have other: "expiry s1 j = expiry s j" if "j \<in> set q" for j
    unfolding s1_def using that q(2) i by (intro expiry_timed_other) auto
  have q1: "timer_queue s1 q" using q(1) lnk timer_queue_cong by blast
  let ?us = "takeWhile (\<lambda>j. expiry s j < ?e) q" and ?vs = "dropWhile (\<lambda>j. expiry s j < ?e) q"
  have vs: "dropWhile (\<lambda>j. expiry s1 j < expiry s1 i) q = ?vs"
    using other e by (intro dropWhile_cong) auto
  have act: "\<exists>l. activate_before s1 i (first_link ?vs) =
      Some ((upd_cb i (\<lambda>t. t\<lparr>active := True\<rparr>) s1)\<lparr>links := l\<rparr>) \<and>
    dlist_rep l TimerQueue (map TimerLink (insert_timer s ?e i q))"
    using activate_before_spec [of s1 ?us ?vs i] q1 i(2) by (simp add: insert_timer_def)
  show ?thesis
  proof (cases q)
    case Nil
    then have emp: "DLIST_IsEmpty (links s1) TimerQueue" "dlist_rep (links s1) TimerQueue []"
      using q1 timer_queue_empty_iff [of s1 q] by (simp_all add: timer_queue_def)
    then obtain l where l: "DLIST_Push (links s1) TimerQueue (TimerLink i) = Some l"
        "dlist_rep l TimerQueue [TimerLink i]"
      using dlist_push_rep [of "links s1" TimerQueue "[]" "TimerLink i"] by auto
    have "stm_start_crit s i d = Some ((upd_cb i (\<lambda>t. t\<lparr>active := True\<rparr>) s1)\<lparr>links := l\<rparr>)"
      unfolding stm_start_crit_def Let_def upd sec using emp l(1) by simp
    with l(2) Nil show ?thesis
      by (intro exI [of _ l]) (simp add: insert_timer_def s1_def)
  next
    case (Cons x xs)
    then have ne: "\<not> DLIST_IsEmpty (links s1) TimerQueue"
      using q1 timer_queue_empty_iff [of s1 q] by simp
    have "stm_start_crit s i d = activate_before s1 i (first_link ?vs)"
      unfolding stm_start_crit_def Let_def upd sec
      using ne stm_scan_position [OF q1, of i] q(2) len
      by (simp only: vs if_False)
    with act show ?thesis by (simp add: s1_def)
  qed
qed

lemma insert_timer_simps [simp]:
  "set (insert_timer s e i q) = insert i (set q)"
  using set_take_dropWhile [of "\<lambda>j. expiry s j < e" q] by (auto simp: insert_timer_def)

lemma sorted_insert_timer:
  assumes "sorted (map f q)" "f i = e"
  shows "sorted (map f (takeWhile (\<lambda>j. f j < e) q @ i # dropWhile (\<lambda>j. f j < e) q))"
  using assms by (induction q) (auto dest: set_takeWhileD dropWhile_subset)

lemma stm_invD:
  assumes "stm_inv s q"
  shows "length (timerCb s) = STM_TIMER_MAX" "timer_queue s q" "sorted (map (expiry s) q)"
    "set q \<subseteq> {..<STM_TIMER_MAX}" "distinct q"
    "\<And>i. i < STM_TIMER_MAX \<Longrightarrow> active (timerCb s ! i) \<longleftrightarrow> i \<in> set q"
    "\<And>i. i \<in> set q \<Longrightarrow> valid (timerCb s ! i)"
  using assms timer_queue_distinct [of s q] by (auto simp: stm_inv_def)

lemma stm_inv_irqEA [simp]: "stm_inv (s\<lparr>irqEA := b\<rparr>) q = stm_inv s q"
  by (simp add: stm_inv_def timer_queue_def expiry_def cong: map_cong)

text \<open>
  \<open>STM_StartTimer\<close> on an idle timer: it succeeds, the timer expires exactly the converted
  duration from now, wrap-around included, and the queue is the old queue with the timer
  inserted before the first timer that expires no earlier.
\<close>

lemma stm_start_spec:
  fixes d :: u32
  assumes inv: "stm_inv s q" and t: "unat t < STM_TIMER_MAX" "valid (timerCb s ! unat t)"
    "unat t \<notin> set q"
  defines "e \<equiv> now s + unat (STM_MS_TO_TICK d)"
  shows "\<exists>s'. STM_StartTimer s t d = Some (s', STATUS_SUCCESS) \<and>
    stm_inv s' (insert_timer s e (unat t) q) \<and> expiry s' (unat t) = e \<and>
    (\<forall>j \<in> set q. expiry s' j = expiry s j) \<and> now s' = now s \<and> stmSector s' = stmSector s \<and>
    map valid (timerCb s') = map valid (timerCb s) \<and> irqEA s'"
proof -
  let ?i = "unat t"
  note D = stm_invD [OF inv]
  let ?s0 = "s\<lparr>irqEA := False\<rparr>"
  have len: "?i < length (timerCb s)" using D(1) t(1) by simp
  have [simp]: "now ?s0 = now s" by (simp add: now_def)
  have [simp]: "insert_timer ?s0 = insert_timer s" by (simp add: insert_timer_def expiry_def fun_eq_iff)
  obtain l where l: "stm_start_crit ?s0 ?i d =
      Some ((upd_cb ?i (\<lambda>t. t\<lparr>active := True\<rparr>) (stm_timed ?s0 ?i d))\<lparr>links := l\<rparr>)"
    "dlist_rep l TimerQueue (map TimerLink (insert_timer s e ?i q))"
    using stm_start_crit_spec [of ?s0 q ?i d] D(1,2,4) t
    by (auto simp: timer_queue_def e_def)
  define s' where "s' = (upd_cb ?i (\<lambda>t. t\<lparr>active := True\<rparr>) (stm_timed ?s0 ?i d))\<lparr>links := l, irqEA := True\<rparr>"
  have run: "STM_StartTimer s t d = Some (s', STATUS_SUCCESS)"
    using l(1) t D(6) [of ?i] by (simp add: STM_StartTimer_def Let_def s'_def)
  have ei: "expiry s' ?i = e"
    using expiry_timed [of ?i ?s0 d] len
    by (simp add: s'_def e_def expiry_def stm_timed_def now_def)
  have ej: "expiry s' j = expiry s j" if "j \<noteq> ?i" "j < STM_TIMER_MAX" for j
    using that D(1) by (simp add: s'_def expiry_def stm_timed_def)
  have ejq: "\<forall>j \<in> set q. expiry s' j = expiry s j"
    using ej D(4) t(3) by (metis lessThan_iff subsetD)
  have tw: "takeWhile (\<lambda>j. expiry s j < e) q = takeWhile (\<lambda>j. expiry s' j < e) q"
    "dropWhile (\<lambda>j. expiry s j < e) q = dropWhile (\<lambda>j. expiry s' j < e) q"
    using ejq by (auto intro!: takeWhile_cong dropWhile_cong)
  have "sorted (map (expiry s') q)"
    using D(3) ejq by (metis (no_types, lifting) map_eq_conv)
  then have srt: "sorted (map (expiry s') (insert_timer s e ?i q))"
    unfolding insert_timer_def tw using ei by (rule sorted_insert_timer)
  have cb: "timerCb s' ! j = (if j = ?i then (timerCb s ! j)\<lparr>time := timeTick s + STM_MS_TO_TICK d,
      timeSector := (if timeTick s + STM_MS_TO_TICK d < timeTick s then \<not> stmSector s else stmSector s),
      active := True\<rparr> else timerCb s ! j)" if "j < STM_TIMER_MAX" for j
    using that D(1) by (simp add: s'_def stm_timed_def)
  have "stm_inv s' (insert_timer s e ?i q)"
    unfolding stm_inv_def
    using inv D t srt l(2) by (auto simp: cb timer_queue_def stm_inv_def) (auto simp: s'_def stm_timed_def)
  moreover have "map valid (timerCb s') = map valid (timerCb s)"
    using cb D(1) by (intro nth_equalityI) (auto simp: s'_def stm_timed_def)
  ultimately show ?thesis
    using run ei ejq by (intro exI [of _ s']) (auto simp: s'_def now_def stm_timed_def)
qed

subsection \<open>The other operations\<close>

lemma stm_init_inv: "stm_inv (fst (STM_Init s)) []"
  using dlist_init_rep
  by (auto simp: stm_inv_def STM_Init_def timer_queue_def STM_TIMER_MAX_def zeroTimerCb_def)

text \<open>A change of a control block that keeps its time and activity keeps the queue.\<close>

lemma expiry_upd:
  "j < length (timerCb s) \<Longrightarrow> (\<And>t. time (f t) = time t) \<Longrightarrow> (\<And>t. timeSector (f t) = timeSector t) \<Longrightarrow>
     expiry (upd_cb i f s) j = expiry s j"
  by (simp add: expiry_def)

lemma sorted_map_cong: "(\<And>x. x \<in> set q \<Longrightarrow> f x = g x) \<Longrightarrow> sorted (map g q) \<Longrightarrow> sorted (map f q)"
  by (metis map_cong)

lemma stm_inv_upd:
  assumes inv: "stm_inv s q" and i: "i < STM_TIMER_MAX"
    and f: "\<And>t. tid (f t) = tid t" "\<And>t. active (f t) = active t" "\<And>t. time (f t) = time t"
      "\<And>t. timeSector (f t) = timeSector t"
    and v: "i \<in> set q \<Longrightarrow> valid (f (timerCb s ! i))"
  shows "stm_inv (upd_cb i f s) q"
proof -
  note D = stm_invD [OF inv]
  have "expiry (upd_cb i f s) j = expiry s j" if "j \<in> set q" for j
    using that D(1,4) f(3,4) by (intro expiry_upd) auto
  from sorted_map_cong [of q, OF this D(3)] inv f v i D(1) show ?thesis by (auto simp: stm_inv_def timer_queue_def)
qed

lemma stm_alloc_spec:
  assumes inv: "stm_inv s q"
  shows "case STM_AllocTimer s m ty c of (s', t) \<Rightarrow>
    if \<forall>i < STM_TIMER_MAX. valid (timerCb s ! i) then s' = s \<and> t = STM_TIMER_ID_NULL
    else unat t < STM_TIMER_MAX \<and> \<not> valid (timerCb s ! unat t) \<and>
      (\<forall>j < unat t. valid (timerCb s ! j)) \<and> stm_inv s' q \<and>
      timerCb s' = (timerCb s)[unat t :=
        (timerCb s ! unat t)\<lparr>mid := m, ttype := ty, cookie := c, valid := True\<rparr>] \<and>
      timeTick s' = timeTick s \<and> stmSector s' = stmSector s"
proof (cases "find (\<lambda>i. \<not> valid (timerCb s ! i)) [0..<STM_TIMER_MAX]")
  case None
  then have "\<forall>i < STM_TIMER_MAX. valid (timerCb s ! i)" by (simp add: find_None_iff)
  with None show ?thesis by (simp add: STM_AllocTimer_def)
next
  case (Some i)
  then have i: "i < STM_TIMER_MAX" "\<not> valid (timerCb s ! i)" "\<forall>j < i. valid (timerCb s ! j)"
    by (auto simp: find_Some_iff)
  then have u: "unat (of_nat i :: u8) = i"
    by (simp add: STM_TIMER_MAX_def unat_of_nat)
  have "stm_inv (upd_cb i (\<lambda>t. t\<lparr>mid := m, ttype := ty, cookie := c, valid := True\<rparr>) s) q"
    using i(1) by (intro stm_inv_upd [OF inv]) auto
  with Some i u show ?thesis by (auto simp: STM_AllocTimer_def upd_cb_def)
qed

lemma stm_alloc_inv:
  assumes "stm_inv s q"
  shows "stm_inv (fst (STM_AllocTimer s m ty c)) q"
proof (cases "\<forall>i < STM_TIMER_MAX. valid (timerCb s ! i)")
  case True
  then show ?thesis using stm_alloc_spec [OF assms, where m = m and ty = ty and c = c] assms
    by (cases "STM_AllocTimer s m ty c") (simp only: prod.case if_True simp_thms fst_conv)
next
  case False
  then show ?thesis using stm_alloc_spec [OF assms, where m = m and ty = ty and c = c]
    by (cases "STM_AllocTimer s m ty c") (simp only: prod.case if_False simp_thms fst_conv)
qed

lemma stm_free_spec:
  assumes inv: "stm_inv s q" and t: "unat t < STM_TIMER_MAX" "valid (timerCb s ! unat t)"
  shows "if unat t \<in> set q then STM_FreeTimer s t = (s, STATUS_FAILURE)
    else \<exists>s'. STM_FreeTimer s t = (s', STATUS_SUCCESS) \<and> stm_inv s' q \<and>
      timerCb s' = (timerCb s)[unat t := (timerCb s ! unat t)\<lparr>valid := False, active := False\<rparr>]"
proof (cases "unat t \<in> set q")
  case True
  with t stm_invD [OF inv] show ?thesis by (simp add: STM_FreeTimer_def Let_def)
next
  case False
  note D = stm_invD [OF inv]
  let ?f = "\<lambda>c. c\<lparr>valid := False, active := False\<rparr>"
  have na: "\<not> active (timerCb s ! unat t)" using False D(6) t(1) by simp
  have "expiry (upd_cb (unat t) ?f s) j = expiry s j" if "j \<in> set q" for j
    using that D(1,4) by (intro expiry_upd) auto
  from sorted_map_cong [of q, OF this D(3)] have "stm_inv (upd_cb (unat t) ?f s) q"
    using inv False D(1) by (auto simp: stm_inv_def timer_queue_def)
  with na False t show ?thesis by (simp add: STM_FreeTimer_def Let_def upd_cb_def)
qed

lemma stm_dequeue_spec:
  assumes inv: "stm_inv s (us @ i # vs)"
  shows "\<exists>s'. stm_dequeue s i = Some s' \<and> stm_inv s' (us @ vs) \<and>
    timerCb s' = (timerCb s)[i := (timerCb s ! i)\<lparr>active := False\<rparr>] \<and>
    timeTick s' = timeTick s \<and> stmSector s' = stmSector s \<and> irqEA s'"
proof -
  note D = stm_invD [OF inv]
  have i: "i < STM_TIMER_MAX" "i \<notin> set (us @ vs)" using D(4,5) by auto
  have "dlist_rep (links s) TimerQueue (map TimerLink us @ TimerLink i # map TimerLink vs)"
    using D(2) by (simp add: timer_queue_def)
  then obtain l where l: "DLIST_Remove (links s) (TimerLink i) = Some l"
      "dlist_rep l TimerQueue (map TimerLink (us @ vs))"
    using dlist_remove_rep by fastforce
  let ?s = "(upd_cb i (\<lambda>t. t\<lparr>active := False\<rparr>) (s\<lparr>irqEA := False, links := l\<rparr>))\<lparr>irqEA := True\<rparr>"
  have "expiry ?s j = expiry s j" if "j \<in> set (us @ vs)" for j
  proof -
    have "j < length (timerCb s)" using that D(1,4) by auto
    then show ?thesis by (simp add: expiry_def)
  qed
  moreover have "sorted (map (expiry s) (us @ vs))"
    using D(3) by (auto simp: sorted_append)
  ultimately have "sorted (map (expiry ?s) (us @ vs))" by (rule sorted_map_cong)
  with inv l(2) i D(1) have "stm_inv ?s (us @ vs)"
    unfolding stm_inv_def timer_queue_def by auto
  with l(1) show ?thesis by (auto simp: stm_dequeue_def Let_def upd_cb_def)
qed

lemma in_set_remove1_split:
  "i \<in> set q \<Longrightarrow> distinct q \<Longrightarrow> \<exists>us vs. q = us @ i # vs \<and> removeAll i q = us @ vs"
  by (metis Un_iff distinct.simps(2) distinct_append remove1_append remove1.simps(2)
      distinct_remove1_removeAll split_list not_distinct_conv_prefix disjoint_insert(1)
      list.simps(15))

lemma stm_stop_spec:
  assumes inv: "stm_inv s q"
  shows "\<exists>s'. STM_StopTimer s t = Some (s', STATUS_SUCCESS) \<and>
    stm_inv s' (removeAll (unat t) q) \<and> map valid (timerCb s') = map valid (timerCb s) \<and>
    timeTick s' = timeTick s \<and> stmSector s' = stmSector s"
proof (cases "unat t \<in> set q")
  case True
  note D = stm_invD [OF inv]
  obtain us vs where q: "q = us @ unat t # vs" "removeAll (unat t) q = us @ vs"
    using in_set_remove1_split True D(5) by metis
  have t: "unat t < STM_TIMER_MAX" "valid (timerCb s ! unat t)" "active (timerCb s ! unat t)"
    using True D(4,6,7) by auto
  obtain s' where s': "stm_dequeue s (unat t) = Some s'" "stm_inv s' (us @ vs)"
      "timerCb s' = (timerCb s)[unat t := (timerCb s ! unat t)\<lparr>active := False\<rparr>]"
      "timeTick s' = timeTick s" "stmSector s' = stmSector s"
    using stm_dequeue_spec inv q(1) by metis
  moreover have "map valid (timerCb s') = map valid (timerCb s)"
    unfolding s'(3) using t D(1) by (intro map_list_update_inv) auto
  ultimately show ?thesis using t q(2) by (auto simp: STM_StopTimer_def Let_def)
next
  case False
  with stm_invD(6) [OF inv] inv show ?thesis
    by (auto simp: STM_StopTimer_def Let_def linorder_not_le)
qed

end
