(* ===== verification/StmProc.thy ===== *)
theory StmProc
  imports Stm
begin

text \<open>
  The timer manager over time: the passing of ticks, the expiry of timers in
  \<open>STM_Proc\<close>, and the table of control blocks as a pool of identifiers.
\<close>

subsection \<open>The timer table is a pool of identifiers\<close>

definition timers_used :: "'c sStm \<Rightarrow> u8 set" where
  "timers_used s = {t. unat t < STM_TIMER_MAX \<and> valid (timerCb s ! unat t)}"

definition timer_ids :: "u8 set" where
  "timer_ids = {t. unat t < STM_TIMER_MAX}"

text \<open>How the firmware's modules take a timer and give it back: stop it, then free it.\<close>

definition timer_take :: "u8 \<Rightarrow> u16 \<Rightarrow> 'c option \<Rightarrow> 'c sStm \<Rightarrow> (u8 option \<times> 'c sStm) option" where
  "timer_take m ty c s =
     (case STM_AllocTimer s m ty c of
        (s, t) \<Rightarrow> Some (if t = STM_TIMER_ID_NULL then None else Some t, s))"

definition timer_give :: "u8 \<Rightarrow> 'c sStm \<Rightarrow> 'c sStm option" where
  "timer_give t s = do {
     (s, _) \<leftarrow> STM_StopTimer s t;
     Some (fst (STM_FreeTimer s t))
   }"

lemma nth_update_word:
  "unat t < length xs \<Longrightarrow> xs[unat t := z] ! unat x = (if x = (t :: 'w::len word) then z else xs ! unat x)"
  by (auto simp: nth_list_update word_unat_eq_iff)

lemma timer_take_spec:
  assumes "stm_inv s q"
  shows "if timers_used s = timer_ids
    then \<exists>s'. timer_take m ty c s = Some (None, s') \<and> stm_inv s' q \<and> timers_used s' = timer_ids
    else \<exists>t s'. timer_take m ty c s = Some (Some t, s') \<and> stm_inv s' q \<and> t \<notin> timers_used s \<and>
      timers_used s' = insert t (timers_used s)"
proof -
  obtain s' t where a: "STM_AllocTimer s m ty c = (s', t)" by (cases "STM_AllocTimer s m ty c")
  note A = stm_alloc_spec [OF assms, where m = m and ty = ty and c = c, unfolded a prod.case]
  have full: "(\<forall>i < STM_TIMER_MAX. valid (timerCb s ! i)) \<longleftrightarrow> timers_used s = timer_ids"
  proof
    assume all: "timers_used s = timer_ids"
    show "\<forall>i < STM_TIMER_MAX. valid (timerCb s ! i)"
    proof (intro allI impI)
      fix i assume i: "i < STM_TIMER_MAX"
      then have u: "unat (of_nat i :: u8) = i" by (simp add: STM_TIMER_MAX_def unat_of_nat)
      with i have "(of_nat i :: u8) \<in> timer_ids" by (simp add: timer_ids_def)
      then have "(of_nat i :: u8) \<in> timers_used s" by (simp add: all)
      with u show "valid (timerCb s ! i)" by (simp add: timers_used_def)
    qed
  qed (auto simp: timers_used_def timer_ids_def)
  show ?thesis
  proof (cases "timers_used s = timer_ids")
    case True
    with full A have "s' = s \<and> t = STM_TIMER_ID_NULL" by (simp only: simp_thms if_True)
    with True assms a show ?thesis by (simp add: timer_take_def)
  next
    case False
    with full have nf: "\<not> (\<forall>i < STM_TIMER_MAX. valid (timerCb s ! i))" by simp
    have t: "unat t < STM_TIMER_MAX" "\<not> valid (timerCb s ! unat t)" "stm_inv s' q"
      "timerCb s' = (timerCb s)[unat t :=
        (timerCb s ! unat t)\<lparr>mid := m, ttype := ty, cookie := c, valid := True\<rparr>]"
      using A [unfolded if_not_P [OF nf]] by blast+
    have "t \<noteq> STM_TIMER_ID_NULL" using t(1) by (auto simp: STM_TIMER_ID_NULL_def STM_TIMER_MAX_def)
    moreover have "timers_used s' = insert t (timers_used s)"
      using t stm_invD(1) [OF assms] unfolding timers_used_def t(4)
      by (auto simp: nth_update_word split: if_splits)
    ultimately show ?thesis
      using False t a by (auto simp: timer_take_def timers_used_def)
  qed
qed

lemma timer_give_spec:
  assumes inv: "stm_inv s q" and t: "t \<in> timers_used s"
  shows "\<exists>s'. timer_give t s = Some s' \<and> stm_inv s' (removeAll (unat t) q) \<and>
    timers_used s' = timers_used s - {t}"
proof -
  obtain s1 where s1: "STM_StopTimer s t = Some (s1, STATUS_SUCCESS)"
      "stm_inv s1 (removeAll (unat t) q)" "map valid (timerCb s1) = map valid (timerCb s)"
    using stm_stop_spec [OF inv] by blast
  have len: "length (timerCb s1) = STM_TIMER_MAX" "length (timerCb s) = STM_TIMER_MAX"
    using stm_invD(1) s1(2) inv by blast+
  have v: "valid (timerCb s1 ! i) = valid (timerCb s ! i)" if "i < STM_TIMER_MAX" for i
    using s1(3) len that by (metis nth_map)
  have tm: "unat t < STM_TIMER_MAX" "valid (timerCb s1 ! unat t)"
    using t v by (auto simp: timers_used_def)
  obtain s2 where s2: "STM_FreeTimer s1 t = (s2, STATUS_SUCCESS)"
      "stm_inv s2 (removeAll (unat t) q)"
      "timerCb s2 = (timerCb s1)[unat t := (timerCb s1 ! unat t)\<lparr>valid := False, active := False\<rparr>]"
    using stm_free_spec [OF s1(2), of t] tm by auto
  have "timers_used s2 = timers_used s - {t}"
    using len v tm unfolding timers_used_def s2(3)
    by (auto simp: nth_update_word split: if_splits)
  with s1 s2 show ?thesis by (auto simp: timer_give_def)
qed

interpretation timers: id_pool "\<lambda>s. \<exists>q. stm_inv s q" timers_used timer_ids
  "timer_take m ty (c :: 'c option)" timer_give
proof unfold_locales
  show "finite timer_ids" by simp
next
  fix s :: "'c sStm"
  show "timers_used s \<subseteq> timer_ids" by (auto simp: timers_used_def timer_ids_def)
next
  fix s :: "'c sStm"
  assume "\<exists>q. stm_inv s q" "timers_used s \<noteq> timer_ids"
  then show "\<exists>h s'. timer_take m ty c s = Some (Some h, s') \<and> (\<exists>q. stm_inv s' q) \<and>
      h \<notin> timers_used s \<and> timers_used s' = insert h (timers_used s)"
    using timer_take_spec [of s _ m ty c] by (fastforce split: if_splits)
next
  fix s :: "'c sStm"
  assume "\<exists>q. stm_inv s q" "timers_used s = timer_ids"
  then show "\<exists>s'. timer_take m ty c s = Some (None, s') \<and> (\<exists>q. stm_inv s' q) \<and>
      timers_used s' = timer_ids"
    using timer_take_spec [of s _ m ty c] by (fastforce split: if_splits)
next
  fix s :: "'c sStm" and h
  assume "\<exists>q. stm_inv s q" "h \<in> timers_used s"
  then show "\<exists>s'. timer_give h s = Some s' \<and> (\<exists>q. stm_inv s' q) \<and>
      timers_used s' = timers_used s - {h}"
    using timer_give_spec [of s _ h] by blast
qed

subsection \<open>The passing of a tick\<close>

lemma stm_inc_fields [simp]:
  "timerCb (stm_inc n s) = timerCb s" "links (stm_inc n s) = links s"
  by (simp_all add: stm_inc_def)

lemma stm_inc_remaining:
  assumes "timeTick s = STM_TIME_TICK_MAX \<Longrightarrow> \<not> due s i"
  shows "int (expiry (stm_inc 1 s) i) - int (now (stm_inc 1 s)) = int (expiry s i) - int (now s) - 1"
proof (cases "timeTick s = STM_TIME_TICK_MAX")
  case True
  then have "timeSector (timerCb s ! i) \<noteq> stmSector s"
    using assms unat_u32_less [of "time (timerCb s ! i)"]
    by (intro notI) (simp add: due_def expiry_def now_def STM_TIME_TICK_MAX_def)
  with True show ?thesis by (simp add: stm_inc_def expiry_def now_def STM_TIME_TICK_MAX_def)
next
  case False
  then have "unat (timeTick s) \<noteq> unat STM_TIME_TICK_MAX" by (simp add: word_unat_eq_iff)
  then have "unat (timeTick s) + 1 < 2 ^ 32"
    using unat_u32_less [of "timeTick s"] by (simp add: STM_TIME_TICK_MAX_def)
  then have "unat (timeTick s + 1) = unat (timeTick s) + 1"
    by (simp add: unat_word_ariths)
  with False show ?thesis by (simp add: stm_inc_def expiry_def now_def)
qed

text \<open>
  One tick moves every timer one tick closer to its expiry and keeps the queue ordered, also
  when the counter wraps, provided the timers that were due before the wrap have been
  processed.
\<close>

lemma stm_inc_inv:
  assumes inv: "stm_inv s q" and wrap: "timeTick s = STM_TIME_TICK_MAX \<Longrightarrow> \<forall>i \<in> set q. \<not> due s i"
  shows "stm_inv (stm_inc 1 s) q"
proof -
  let ?s = "stm_inc 1 s"
  define d where "d = int (now ?s) - int (now s) - 1"
  have e: "int (expiry ?s i) = int (expiry s i) + d" if "i \<in> set q" for i
    using stm_inc_remaining [of s i] wrap that by (simp add: d_def)
  have "expiry ?s i \<le> expiry ?s j" if "i \<in> set q" "j \<in> set q" "expiry s i \<le> expiry s j" for i j
    using e [OF that(1)] e [OF that(2)] that(3) by linarith
  then have "sorted (map (expiry ?s) q)"
    using stm_invD(3) [OF inv] unfolding sorted_map
    by (auto intro: sorted_wrt_mono_rel [of q "\<lambda>i j. expiry s i \<le> expiry s j"])
  with inv show ?thesis by (simp add: stm_inv_def timer_queue_def)
qed

subsection \<open>Firing the timers that are due\<close>

lemma filter_sorted_Suc:
  "sorted (map f q) \<Longrightarrow>
     filter (\<lambda>i. f i \<le> n) q @ filter (\<lambda>i. f i = Suc n) q = filter (\<lambda>i. f i \<le> Suc n) q"
proof (induction q)
  case (Cons a q)
  show ?case
  proof (cases "f a \<le> n")
    case False
    then have "filter (\<lambda>i. f i \<le> n) q = []" using Cons.prems by (auto simp: filter_empty_conv)
    with False Cons show ?thesis by auto
  qed (use Cons in auto)
qed simp

lemma due_prefix:
  assumes "stm_inv s q"
  shows "takeWhile (due s) q = filter (due s) q" "dropWhile (due s) q = filter (\<lambda>i. \<not> due s i) q"
proof -
  have "sorted (map f q) \<Longrightarrow> takeWhile (\<lambda>i. f i \<le> n) q = filter (\<lambda>i. f i \<le> n) q \<and>
      dropWhile (\<lambda>i. f i \<le> n) q = filter (\<lambda>i. \<not> f i \<le> n) q" for f and n :: nat
  proof (induction q)
    case (Cons a q)
    then show ?case
      by (cases "f a \<le> n")
        (auto simp: filter_empty_conv not_le dest: order.strict_trans2
          intro!: filter_True [symmetric] filter_False [symmetric])
  qed simp
  from this [of "expiry s" "now s"] stm_invD(3) [OF assms]
  show "takeWhile (due s) q = filter (due s) q" "dropWhile (due s) q = filter (\<lambda>i. \<not> due s i) q"
    by (simp_all add: due_def [abs_def])
qed

lemma stm_proc_step:
  assumes inv: "stm_inv s q"
  shows "STM_Proc_loop proc (stmSector s) (s, x) =
    (case q of
       [] \<Rightarrow> Some (s, x)
     | i # _ \<Rightarrow> if due s i
                then do { sx \<leftarrow> stm_fire proc i (s, x); STM_Proc_loop proc (stmSector s) sx }
                else Some (s, x))"
proof (cases q)
  case Nil
  with inv show ?thesis
    using timer_queue_empty_iff [of s q] stm_invD(2) by (subst STM_Proc_loop.simps) auto
next
  case (Cons i q')
  note D = stm_invD [OF inv]
  have "\<not> DLIST_IsEmpty (links s) TimerQueue" "nxt (links s) TimerQueue = Some (TimerLink i)"
    using timer_queue_empty_iff [OF D(2)] timer_queue_first [OF D(2)] Cons by auto
  moreover have "i < length (timerCb s)" using D(1,4) Cons by auto
  ultimately show ?thesis
    using Cons by (subst STM_Proc_loop.simps)
      (auto simp: DLIST_PeekHead_def link_index_def due_iff)
qed

lemma stm_fire_spec:
  assumes inv: "stm_inv s (i # q)"
  shows "\<exists>s1. stm_fire proc i (s, x) =
      proc (mid (timerCb s ! i)) (ttype (timerCb s ! i)) (cookie (timerCb s ! i)) (s1, x) \<and>
    stm_inv s1 q \<and> timerCb s1 = (timerCb s)[i := (timerCb s ! i)\<lparr>active := False\<rparr>] \<and>
    timeTick s1 = timeTick s \<and> stmSector s1 = stmSector s"
proof -
  obtain s1 where s1: "stm_dequeue s i = Some s1" "stm_inv s1 q"
      "timerCb s1 = (timerCb s)[i := (timerCb s ! i)\<lparr>active := False\<rparr>]"
      "timeTick s1 = timeTick s" "stmSector s1 = stmSector s"
    using stm_dequeue_spec [of s "[]" i q] inv by auto
  moreover have "i < length (timerCb s)" using stm_invD(1,4) [OF inv] by auto
  ultimately show ?thesis by (auto simp: stm_fire_def)
qed

text \<open>
  Handlers that leave the timer manager alone: \<open>STM_Proc\<close> runs exactly the timers that are
  due, in the order of their expiry, and leaves the others in the queue.
\<close>

definition event :: "'c sStm \<Rightarrow> nat \<Rightarrow> u8 \<times> u16 \<times> 'c option" where
  "event s i = (mid (timerCb s ! i), ttype (timerCb s ! i), cookie (timerCb s ! i))"

definition logging :: "u8 \<Rightarrow> ('c, (u8 \<times> u16 \<times> 'c option) list) handler" where
  "logging m ty c sx = Some (fst sx, snd sx @ [(m, ty, c)])"

lemma stm_proc_log:
  assumes "stm_inv s q"
  shows "\<exists>s'. STM_Proc logging (s, log) = Some (s', log @ map (event s) (filter (due s) q)) \<and>
    stm_inv s' (filter (\<lambda>i. \<not> due s i) q) \<and> timeTick s' = timeTick s \<and>
    stmSector s' = stmSector s \<and> (\<forall>i < STM_TIMER_MAX. expiry s' i = expiry s i \<and>
      event s' i = event s i)"
  using assms
proof (induction q arbitrary: s log)
  case Nil
  then show ?case using stm_proc_step [of s "[]" logging log] by (auto simp: STM_Proc_def)
next
  case (Cons i q)
  show ?case
  proof (cases "due s i")
    case False
    then have "filter (due s) (i # q) = []" "filter (\<lambda>i. \<not> due s i) (i # q) = i # q"
      using due_prefix [OF Cons.prems] by auto
    with False Cons.prems show ?thesis
      using stm_proc_step [OF Cons.prems, of logging log]
      by (auto simp: STM_Proc_def simp del: filter.simps)
  next
    case True
    obtain s1 where s1: "stm_fire logging i (s, log) = Some (s1, log @ [event s i])"
      "stm_inv s1 q" "timerCb s1 = (timerCb s)[i := (timerCb s ! i)\<lparr>active := False\<rparr>]"
      "timeTick s1 = timeTick s" "stmSector s1 = stmSector s"
      using stm_fire_spec [OF Cons.prems, of logging log] by (auto simp: logging_def event_def)
    have same: "expiry s1 j = expiry s j \<and> event s1 j = event s j" if "j < STM_TIMER_MAX" for j
      using stm_invD(1,4) [OF Cons.prems] s1(5)
      by (simp add: expiry_def event_def s1(3) nth_list_update)
    have lt: "j < STM_TIMER_MAX" if "j \<in> set q" for j
      using that stm_invD(4) [OF Cons.prems] by auto
    have d: "due s1 j = due s j" if "j \<in> set q" for j
      using same [OF lt [OF that]] s1(4) by (simp add: due_def now_def)
    obtain s' where s': "STM_Proc logging (s1, log @ [event s i]) =
        Some (s', (log @ [event s i]) @ map (event s1) (filter (due s1) q))"
      "stm_inv s' (filter (\<lambda>i. \<not> due s1 i) q)" "timeTick s' = timeTick s1"
      "stmSector s' = stmSector s1"
      "\<forall>i < STM_TIMER_MAX. expiry s' i = expiry s1 i \<and> event s' i = event s1 i"
      using Cons.IH [OF s1(2)] by blast
    have "filter (due s1) q = filter (due s) q" "filter (\<lambda>i. \<not> due s1 i) q = filter (\<lambda>i. \<not> due s i) q"
      using d by (auto intro: filter_cong)
    moreover have "map (event s1) (filter (due s) q) = map (event s) (filter (due s) q)"
      using same lt by auto
    moreover have "STM_Proc logging (s, log) = STM_Proc logging (s1, log @ [event s i])"
      using True s1 stm_proc_step [OF Cons.prems, of logging log] by (simp add: STM_Proc_def)
    ultimately show ?thesis using s' s1 True same by auto
  qed
qed

text \<open>The main loop: a tick, then the timer task.\<close>

fun stm_rounds ::
  "(u8 \<Rightarrow> ('c, 'x) handler) \<Rightarrow> nat \<Rightarrow> 'c sStm \<times> 'x \<Rightarrow> ('c sStm \<times> 'x) option" where
  "stm_rounds proc 0 sx = Some sx"
| "stm_rounds proc (Suc n) sx = do {
     sx \<leftarrow> stm_rounds proc n sx;
     STM_Proc proc (stm_inc 1 (fst sx), snd sx)
   }"

lemma stm_rounds_log:
  assumes inv: "stm_inv s q" and nodue: "\<forall>i \<in> set q. \<not> due s i"
  shows "\<exists>s'. stm_rounds logging n (s, log) =
      Some (s', log @ map (event s) (filter (\<lambda>i. expiry s i \<le> now s + n) q)) \<and>
    stm_inv s' (filter (\<lambda>i. now s + n < expiry s i) q) \<and>
    (\<forall>i \<in> set q. now s + n < expiry s i \<longrightarrow>
      int (expiry s' i) - int (now s') = int (expiry s i) - int (now s) - int n \<and>
      event s' i = event s i)"
proof (induction n)
  case 0
  have "filter (\<lambda>i. expiry s i \<le> now s) q = []" "filter (\<lambda>i. now s < expiry s i) q = q"
    using nodue by (auto simp: filter_empty_conv due_def not_le)
  with inv show ?case by simp
next
  case (Suc n)
  let ?q = "filter (\<lambda>i. now s + n < expiry s i) q"
  obtain s1 where s1: "stm_rounds logging n (s, log) =
      Some (s1, log @ map (event s) (filter (\<lambda>i. expiry s i \<le> now s + n) q))" "stm_inv s1 ?q"
    and rem: "\<And>i. i \<in> set ?q \<Longrightarrow> int (expiry s1 i) - int (now s1) = int (expiry s i) - int (now s) - int n"
    and ev: "\<And>i. i \<in> set ?q \<Longrightarrow> event s1 i = event s i"
    using Suc.IH by auto
  have nd: "\<not> due s1 i" if "i \<in> set ?q" for i
    using rem [OF that] that by (auto simp: due_def)
  let ?s2 = "stm_inc 1 s1"
  let ?log = "log @ map (event s) (filter (\<lambda>i. expiry s i \<le> now s + n) q)"
  have inv2: "stm_inv ?s2 ?q" using s1(2) nd by (intro stm_inc_inv) auto
  have rem2: "int (expiry ?s2 i) - int (now ?s2) = int (expiry s i) - int (now s) - int (Suc n)"
    if "i \<in> set ?q" for i
    using stm_inc_remaining [of s1 i] nd [OF that] rem [OF that] by simp
  have ev2: "event ?s2 i = event s i" if "i \<in> set ?q" for i
    using ev [OF that] by (simp add: event_def)
  have due2: "due ?s2 i \<longleftrightarrow> expiry s i \<le> now s + Suc n" if "i \<in> set ?q" for i
    using rem2 [OF that] by (auto simp: due_def)
  obtain s' where s': "STM_Proc logging (?s2, ?log) =
      Some (s', ?log @ map (event ?s2) (filter (due ?s2) ?q))"
    "stm_inv s' (filter (\<lambda>i. \<not> due ?s2 i) ?q)" "timeTick s' = timeTick ?s2"
    "\<forall>i < STM_TIMER_MAX. expiry s' i = expiry ?s2 i \<and> event s' i = event ?s2 i"
    using stm_proc_log [OF inv2] by blast
  have f1: "filter (\<lambda>i. \<not> due ?s2 i) ?q = filter (\<lambda>i. now s + Suc n < expiry s i) q"
    using due2 by (auto intro!: filter_cong)
  have f2: "filter (due ?s2) ?q = filter (\<lambda>i. expiry s i = now s + Suc n) q"
    using due2 by (auto intro!: filter_cong)
  have "map (event ?s2) (filter (\<lambda>i. expiry s i = now s + Suc n) q) =
      map (event s) (filter (\<lambda>i. expiry s i = now s + Suc n) q)"
    by (rule map_cong [OF refl]) (use ev2 in simp)
  then have log: "?log @ map (event ?s2) (filter (due ?s2) ?q) =
      log @ map (event s) (filter (\<lambda>i. expiry s i \<le> now s + n) q @
        filter (\<lambda>i. expiry s i = now s + Suc n) q)"
    unfolding f2 by simp
  have fs: "filter (\<lambda>i. expiry s i \<le> now s + n) q @ filter (\<lambda>i. expiry s i = now s + Suc n) q =
      filter (\<lambda>i. expiry s i \<le> now s + Suc n) q"
    using filter_sorted_Suc [OF stm_invD(3) [OF inv], of "now s + n"] by simp
  have run: "stm_rounds logging (Suc n) (s, log) =
      Some (s', log @ map (event s) (filter (\<lambda>i. expiry s i \<le> now s + Suc n) q))"
    using s1(1) s'(1) unfolding log fs by simp
  have "now s' = now ?s2" using s'(3) by (simp add: now_def)
  then have "int (expiry s' i) - int (now s') = int (expiry s i) - int (now s) - int (Suc n) \<and>
      event s' i = event s i" if "i \<in> set q" "now s + Suc n < expiry s i" for i
    using that s'(4) rem2 [of i] ev2 [of i] stm_invD(4) [OF inv] by auto
  with run s'(2) f1 show ?case by auto
qed

text \<open>
  Handlers in general: they may start, stop, allocate and free timers, as long as they return,
  keep the invariant and make no further timer due at once.
\<close>

definition well_behaved :: "(u8 \<Rightarrow> ('c, 'x) handler) \<Rightarrow> bool" where
  "well_behaved proc \<longleftrightarrow> (\<forall>m ty c s x q. stm_inv s q \<longrightarrow>
     (\<exists>s' x' q'. proc m ty c (s, x) = Some (s', x') \<and> stm_inv s' q' \<and>
       set (filter (due s') q') \<subseteq> set (filter (due s) q) \<and>
       timeTick s' = timeTick s \<and> stmSector s' = stmSector s))"

lemma stm_proc_returns:
  assumes wb: "well_behaved proc"
  shows "stm_inv s q \<Longrightarrow> \<exists>s' x' q'. STM_Proc proc (s, x) = Some (s', x') \<and> stm_inv s' q' \<and>
    (\<forall>i \<in> set q'. \<not> due s' i)"
proof (induction "card (set (filter (due s) q))" arbitrary: s q x rule: less_induct)
  case less
  show ?case
  proof (cases q)
    case Nil
    with less.prems stm_proc_step [OF less.prems, of proc x] show ?thesis
      by (auto simp: STM_Proc_def intro!: exI [of _ "[]"])
  next
    case (Cons i q')
    show ?thesis
    proof (cases "due s i")
      case False
      then have "filter (due s) q = []" using due_prefix(1) [OF less.prems] Cons by simp
      then have "\<forall>i \<in> set q. \<not> due s i" by (simp add: filter_empty_conv)
      with False Cons less.prems stm_proc_step [OF less.prems, of proc x] show ?thesis
        by (intro exI [of _ s] exI [of _ x] exI [of _ q]) (simp add: STM_Proc_def)
    next
      case True
      obtain s1 where s1: "stm_fire proc i (s, x) =
          proc (mid (timerCb s ! i)) (ttype (timerCb s ! i)) (cookie (timerCb s ! i)) (s1, x)"
        "stm_inv s1 q'" "timerCb s1 = (timerCb s)[i := (timerCb s ! i)\<lparr>active := False\<rparr>]"
        "timeTick s1 = timeTick s" "stmSector s1 = stmSector s"
        using stm_fire_spec [of s i q' proc x] less.prems Cons by auto
      obtain s2 x2 q2 where s2: "stm_fire proc i (s, x) = Some (s2, x2)" "stm_inv s2 q2"
        "set (filter (due s2) q2) \<subseteq> set (filter (due s1) q')"
        "timeTick s2 = timeTick s1" "stmSector s2 = stmSector s1"
        using wb s1(1,2) unfolding well_behaved_def by metis
      have "due s1 j = due s j" if "j \<in> set q'" for j
        using that stm_invD(1,4,5) [OF less.prems] Cons s1(4,5)
        by (auto simp: due_iff s1(3) nth_list_update)
      then have "set (filter (due s1) q') = set (filter (due s) q')" by auto
      moreover have "i \<notin> set q'" using stm_invD(5) [OF less.prems] Cons by simp
      ultimately have "set (filter (due s2) q2) \<subset> set (filter (due s) q)"
        using s2(3) True Cons by auto
      then have "card (set (filter (due s2) q2)) < card (set (filter (due s) q))"
        by (intro psubset_card_mono) auto
      from less.hyps [OF this s2(2), of x2] obtain s' x' q3 where
        "STM_Proc proc (s2, x2) = Some (s', x')" "stm_inv s' q3" "\<forall>i \<in> set q3. \<not> due s' i"
        by blast
      moreover have "STM_Proc proc (s, x) = STM_Proc proc (s2, x2)"
        using stm_proc_step [OF less.prems, of proc x] True Cons s2 s1
        by (simp add: STM_Proc_def)
      ultimately show ?thesis by auto
    qed
  qed
qed

text \<open>A handler that restarts one timer with a fixed duration: the usual periodic timer.\<close>

definition restarting :: "u8 \<Rightarrow> u32 \<Rightarrow> u8 \<Rightarrow> ('c, nat) handler" where
  "restarting t d m ty c sx = do {
     (s, _) \<leftarrow> STM_StartTimer (fst sx) t d;
     Some (s, snd sx + 1)
   }"

lemma stm_start_idem:
  assumes "stm_inv s q" "unat t \<in> set q"
  shows "STM_StartTimer s t d = Some (s, STATUS_SUCCESS)"
  using stm_invD(4,6,7) [OF assms(1)] assms(2) by (auto simp: STM_StartTimer_def Let_def)

lemma stm_start_cases:
  assumes inv: "stm_inv s q"
  shows "STM_StartTimer s t d = Some (s, STATUS_FAILURE) \<or>
    STM_StartTimer s t d = Some (s, STATUS_SUCCESS) \<or>
    (unat t < STM_TIMER_MAX \<and> valid (timerCb s ! unat t) \<and> unat t \<notin> set q)"
  using stm_invD(6) [OF inv] by (auto simp: STM_StartTimer_def Let_def)

lemma restarting_well_behaved:
  assumes "10 \<le> unat d"
  shows "well_behaved (restarting t d)"
  unfolding well_behaved_def
proof (intro allI impI)
  fix m :: u8 and ty :: u16 and c :: "'c option" and s :: "'c sStm" and x :: nat and q
  assume inv: "stm_inv s q"
  have pos: "0 < unat (STM_MS_TO_TICK d)"
    using assms by (simp add: STM_MS_TO_TICK_def unat_div div_greater_zero_iff)
  show "\<exists>s' x' q'. restarting t d m ty c (s, x) = Some (s', x') \<and> stm_inv s' q' \<and>
      set (filter (due s') q') \<subseteq> set (filter (due s) q) \<and>
      timeTick s' = timeTick s \<and> stmSector s' = stmSector s"
  proof (cases "unat t < STM_TIMER_MAX \<and> valid (timerCb s ! unat t) \<and> unat t \<notin> set q")
    case False
    with stm_start_cases [OF inv, of t d] inv show ?thesis by (auto simp: restarting_def)
  next
    case True
    let ?e = "now s + unat (STM_MS_TO_TICK d)"
    obtain s' where s': "STM_StartTimer s t d = Some (s', STATUS_SUCCESS)"
      "stm_inv s' (insert_timer s ?e (unat t) q)" "expiry s' (unat t) = ?e"
      "\<forall>j \<in> set q. expiry s' j = expiry s j" "now s' = now s" "stmSector s' = stmSector s"
      using stm_start_spec [OF inv, of t d] True by blast
    have "\<not> due s' (unat t)" using s'(3,5) pos by (simp add: due_def)
    then have "set (filter (due s') (insert_timer s ?e (unat t) q)) \<subseteq> set (filter (due s) q)"
      using s'(4,5) by (auto simp: due_def)
    moreover have "timeTick s' = timeTick s" using s'(5) by (simp add: now_def word_unat_eq_iff)
    ultimately show ?thesis
      using s' by (intro exI [of _ s'] exI [of _ "x + 1"] exI) (auto simp: restarting_def)
  qed
qed

text \<open>
  A duration that converts to no tick at all is due at once: a handler that restarts its own
  timer with it never lets \<open>STM_Proc\<close> return.
\<close>

lemma restarting_keeps_due:
  assumes inv: "stm_inv s q" and d: "unat d < 10"
    and t: "unat t \<in> set q" "due s (unat t)" and i: "q = i # q'"
    and fire: "stm_fire (restarting t d) i (s, x) = Some (s', x')"
  shows "\<exists>q2. stm_inv s' q2 \<and> unat t \<in> set q2 \<and> due s' (unat t) \<and> stmSector s' = stmSector s"
proof -
  note D = stm_invD [OF inv]
  have z: "unat (STM_MS_TO_TICK d) = 0" using d by (simp add: STM_MS_TO_TICK_def unat_div)
  obtain s1 where s1: "stm_fire (restarting t d) i (s, x) = restarting t d
      (mid (timerCb s ! i)) (ttype (timerCb s ! i)) (cookie (timerCb s ! i)) (s1, x)"
    "stm_inv s1 q'" "timerCb s1 = (timerCb s)[i := (timerCb s ! i)\<lparr>active := False\<rparr>]"
    "timeTick s1 = timeTick s" "stmSector s1 = stmSector s"
    using stm_fire_spec [of s i q' "restarting t d" x] inv i by auto
  show ?thesis
  proof (cases "unat t = i")
    case False
    then have tq: "unat t \<in> set q'" using t(1) i by simp
    then have "s' = s1" using fire s1(1) stm_start_idem [OF s1(2) tq] by (simp add: restarting_def)
    moreover have "due s1 (unat t)"
      using t(2) False D(1,4) i s1(4,5) by (simp add: due_iff s1(3) nth_list_update)
    ultimately show ?thesis using tq s1(2,5) by auto
  next
    case True
    have "unat t < STM_TIMER_MAX" "unat t \<notin> set q'" "valid (timerCb s1 ! unat t)"
      using True D(1,4,5,7) i s1(3) by auto
    from stm_start_spec [OF s1(2) this(1,3,2), of d] obtain s2 where s2:
      "STM_StartTimer s1 t d = Some (s2, STATUS_SUCCESS)"
      "stm_inv s2 (insert_timer s1 (now s1 + unat (STM_MS_TO_TICK d)) (unat t) q')"
      "expiry s2 (unat t) = now s1 + unat (STM_MS_TO_TICK d)" "now s2 = now s1"
      "stmSector s2 = stmSector s1"
      by blast
    moreover have "s' = s2" using fire s1(1) s2(1) by (simp add: restarting_def)
    ultimately show ?thesis using s1(5) z by (auto simp: due_def)
  qed
qed

definition never_idle :: "(u8 \<Rightarrow> ('c, nat) handler) \<Rightarrow> u8 \<Rightarrow> u32 \<Rightarrow> bool \<Rightarrow> 'c sStm \<times> nat \<Rightarrow> bool" where
  "never_idle proc t d cursec sx \<longleftrightarrow> proc = restarting t d \<and> cursec = stmSector (fst sx) \<and>
     (\<exists>q. stm_inv (fst sx) q \<and> unat t \<in> set q \<and> due (fst sx) (unat t))"

lemma restarting_diverges:
  assumes d: "unat d < 10"
  shows "STM_Proc_loop proc cursec sx = Some sx' \<Longrightarrow> \<not> never_idle proc t d cursec sx"
proof (rule STM_Proc_loop.raw_induct [where P = "\<lambda>proc cursec sx _. \<not> never_idle proc t d cursec sx"],
    goal_cases)
  case (1 loop proc cursec sx sx')
  note inst = 1(2,3)
  show ?case
  proof
    assume ni: "never_idle proc t d cursec sx"
    obtain s x where sx: "sx = (s, x)" by fastforce
    from ni sx obtain q where c: "cursec = stmSector s" and inv: "stm_inv s q"
      and t: "unat t \<in> set q" "due s (unat t)" and p: "proc = restarting t d"
      by (auto simp: never_idle_def)
    note D = stm_invD [OF inv]
    obtain i q' where q: "q = i # q'" using t by (cases q) auto
    have "due s i" using D(3) t q by (auto simp: due_def)
    moreover have "i < length (timerCb s)" using D(1,4) q by auto
    moreover have "\<not> DLIST_IsEmpty (links s) TimerQueue"
      "nxt (links s) TimerQueue = Some (TimerLink i)"
      using timer_queue_empty_iff [OF D(2)] timer_queue_first [OF D(2)] q by auto
    ultimately have "(stm_fire proc i (s, x) \<bind> loop proc cursec) = Some sx'"
      using inst(2) sx c by (auto simp: DLIST_PeekHead_def link_index_def due_iff)
    then obtain s1 x1 where f: "stm_fire proc i (s, x) = Some (s1, x1)"
        "loop proc cursec (s1, x1) = Some sx'"
      by (auto simp: bind_eq_Some_conv)
    obtain q2 where "stm_inv s1 q2" "unat t \<in> set q2" "due s1 (unat t)" "stmSector s1 = stmSector s"
      using restarting_keeps_due [OF inv d t q] f(1) p by blast
    then have "never_idle proc t d cursec (s1, x1)" using c p by (auto simp: never_idle_def)
    with inst(1) [OF f(2)] show False by contradiction
  qed
qed

subsection \<open>Properties\<close>

text \<open>A concrete table: timer 0 is allocated for the link layer and idle.\<close>

definition stm_zero :: "nat sStm" where
  "stm_zero = \<lparr>timerCb = [], timeTick = 0, stmSector = False,
     links = \<lparr>nxt = (\<lambda>_. None), prv = (\<lambda>_. None)\<rparr>, irqEA = True\<rparr>"

definition stm_one :: "nat sStm" where
  "stm_one = fst (STM_AllocTimer (fst (STM_Init stm_zero)) HP_LAYER_TYPE_LINK 7 None)"

lemma stm_one_inv: "stm_inv stm_one []"
  unfolding stm_one_def by (intro stm_alloc_inv stm_init_inv)

lemma stm_one_valid: "valid (timerCb stm_one ! 0)"
  by code_simp

text \<open>C1.
  Starting an idle timer inserts it into the active queue in front of the first timer that
  expires no earlier, with an expiry of exactly the converted duration from now (32-bit
  wrap-around of the tick and the sector bit included); no other timer moves, the queue stays
  ordered, and the call succeeds with interrupts enabled.\<close>

theorem stm_start_inserts_in_order:
  assumes "stm_inv s q" and "unat t < STM_TIMER_MAX" and "valid (timerCb s ! unat t)"
    and "unat t \<notin> set q"
  shows "\<exists>s'. STM_StartTimer s t d = Some (s', STATUS_SUCCESS) \<and>
    stm_inv s' (insert_timer s (now s + unat d div 10) (unat t) q) \<and>
    expiry s' (unat t) = now s + unat d div 10 \<and>
    (\<forall>j \<in> set q. expiry s' j = expiry s j) \<and> irqEA s'"
  using stm_start_spec [OF assms, of d] by (auto simp: STM_MS_TO_TICK_def unat_div)

theorem stm_start_inserts_in_order_witness:
  "\<exists>s'. STM_StartTimer stm_one 0 500 = Some (s', STATUS_SUCCESS) \<and>
    stm_inv s' (insert_timer stm_one (now stm_one + 50) 0 []) \<and>
    expiry s' 0 = now stm_one + 50 \<and> irqEA s'"
  using stm_start_inserts_in_order [of stm_one "[]" 0 500] stm_one_inv stm_one_valid
  by (auto simp: STM_TIMER_MAX_def)



text \<open>C3.
  \<open>STM_Proc\<close> returns, keeps the invariant and leaves no timer that is due, for all handlers
  that return, keep the invariant and make no further timer due at once; handlers may start,
  stop, allocate and free timers.\<close>

theorem stm_proc_total:
  assumes "well_behaved proc" and "stm_inv s q"
  shows "\<exists>s' x' q'. STM_Proc proc (s, x) = Some (s', x') \<and> stm_inv s' q' \<and>
    (\<forall>i \<in> set q'. \<not> due s' i)"
  using stm_proc_returns [OF assms] .

theorem stm_proc_total_witness:
  "\<exists>s' x' q'. STM_Proc (restarting 0 100) (stm_one, 0) = Some (s', x') \<and> stm_inv s' q' \<and>
    (\<forall>i \<in> set q'. \<not> due s' i)"
  using stm_proc_total [OF restarting_well_behaved [of 100 0] stm_one_inv] by simp

text \<open>C4.
  A handler that restarts its own timer with less than one tick (10 ms) makes \<open>STM_Proc\<close>
  loop for ever: the restarted timer is due at once, and the loop is only left when the head of
  the queue is not due.\<close>

theorem stm_proc_zero_tick_restart_hangs:
  assumes "unat d < 10" and "stm_inv s q" and "unat t \<in> set q" and "due s (unat t)"
  shows "STM_Proc (restarting t d) (s, x) = None"
proof (rule ccontr)
  assume "STM_Proc (restarting t d) (s, x) \<noteq> None"
  then obtain sx' where "STM_Proc_loop (restarting t d) (stmSector s) (s, x) = Some sx'"
    by (auto simp: STM_Proc_def)
  from restarting_diverges [OF assms(1) this, of t] assms(2-4) show False
    by (auto simp: never_idle_def)
qed

theorem stm_proc_zero_tick_restart_hangs_witness:
  "\<exists>s. STM_StartTimer stm_one 0 5 = Some (s, STATUS_SUCCESS) \<and>
    STM_Proc (restarting 0 5) (s, 0) = None"
proof -
  obtain s where s: "STM_StartTimer stm_one 0 5 = Some (s, STATUS_SUCCESS)" "stm_inv s [0]"
      "due s 0"
    using stm_start_spec [OF stm_one_inv, of 0 5] stm_one_valid
    by (auto simp: STM_TIMER_MAX_def insert_timer_def STM_MS_TO_TICK_def due_def)
  with stm_proc_zero_tick_restart_hangs [of 5 s "[0]" 0 0] show ?thesis by auto
qed

text \<open>C5.
  \<open>STM_StopTimer\<close> takes exactly the given timer out of the active queue (and does nothing for
  a timer that is not active), and \<open>STM_FreeTimer\<close> refuses a timer that is active and releases
  one that is not.\<close>

theorem stm_stop_and_free:
  assumes "stm_inv s q"
  shows "(\<exists>s'. STM_StopTimer s t = Some (s', STATUS_SUCCESS) \<and>
      stm_inv s' (removeAll (unat t) q) \<and>
      map valid (timerCb s') = map valid (timerCb s) \<and>
      snd (STM_FreeTimer s' t) = STATUS_SUCCESS \<and>
      stm_inv (fst (STM_FreeTimer s' t)) (removeAll (unat t) q)) \<and>
    (unat t \<in> set q \<longrightarrow> STM_FreeTimer s t = (s, STATUS_FAILURE))"
proof -
  obtain s' where s': "STM_StopTimer s t = Some (s', STATUS_SUCCESS)"
      "stm_inv s' (removeAll (unat t) q)" "map valid (timerCb s') = map valid (timerCb s)"
    using stm_stop_spec [OF assms] by blast
  have "snd (STM_FreeTimer s' t) = STATUS_SUCCESS \<and>
      stm_inv (fst (STM_FreeTimer s' t)) (removeAll (unat t) q)"
  proof (cases "unat t < STM_TIMER_MAX \<and> valid (timerCb s' ! unat t)")
    case True
    with stm_free_spec [OF s'(2), of t] show ?thesis by auto
  next
    case False
    with s'(2) show ?thesis by (auto simp: STM_FreeTimer_def Let_def)
  qed
  moreover have "STM_FreeTimer s t = (s, STATUS_FAILURE)" if "unat t \<in> set q"
    using that stm_free_spec [OF assms, of t] stm_invD(4,7) [OF assms] by auto
  ultimately show ?thesis using s' by blast
qed

theorem stm_stop_and_free_witness:
  "\<exists>s s'. STM_StartTimer stm_one 0 500 = Some (s, STATUS_SUCCESS) \<and>
    STM_FreeTimer s 0 = (s, STATUS_FAILURE) \<and>
    STM_StopTimer s 0 = Some (s', STATUS_SUCCESS) \<and> stm_inv s' []"
proof -
  obtain s where s: "STM_StartTimer stm_one 0 500 = Some (s, STATUS_SUCCESS)" "stm_inv s [0]"
    using stm_start_spec [OF stm_one_inv, of 0 500] stm_one_valid
    by (auto simp: STM_TIMER_MAX_def insert_timer_def)
  with stm_stop_and_free [OF s(2), of 0] show ?thesis by auto
qed

text \<open>C6.
  Timer identifiers are handed out once: over any sequence of allocations and releases
  (stop, then free) starting with an empty table, the identifiers a client holds are pairwise
  distinct and are exactly the valid entries of the table, and every operation is defined.\<close>

theorem stm_timer_ids_unique:
  "\<exists>ts s'. pool_run (timer_take m ty c) timer_give cmds ([], fst (STM_Init s)) = Some (ts, s') \<and>
    distinct ts \<and> timers_used s' = set ts \<and> (\<exists>q. stm_inv s' q)"
proof -
  have "timers_used (fst (STM_Init s)) = set []"
    by (auto simp: timers_used_def STM_Init_def zeroTimerCb_def)
  with timers.run_distinct [of "fst (STM_Init s)" "[]" m ty c cmds] stm_init_inv [of s]
  show ?thesis by auto
qed

text \<open>C7.
  The interrupt routine in the build without \<open>UART_HOST_INTF\<close> only increments the tick: it
  never flips the sector.  A timer whose expiry time wrapped around therefore never becomes
  due, however many interrupts occur.\<close>

theorem timer_handler_loses_wrapped_timers:
  assumes "stm_inv s q" and "unat t < STM_TIMER_MAX" and "valid (timerCb s ! unat t)"
    and "unat t \<notin> set q" and "2 ^ 32 \<le> now s + unat d div 10"
  shows "\<exists>s'. STM_StartTimer s t d = Some (s', STATUS_SUCCESS) \<and>
    (\<forall>n. \<not> due ((timer_handler ^^ n) s') (unat t))"
proof -
  obtain s' where s': "STM_StartTimer s t d = Some (s', STATUS_SUCCESS)"
    "expiry s' (unat t) = now s + unat d div 10"
    using stm_start_spec [OF assms(1-4), of d] by (auto simp: STM_MS_TO_TICK_def unat_div)
  have "timerCb ((timer_handler ^^ n) s') = timerCb s' \<and>
      stmSector ((timer_handler ^^ n) s') = stmSector s'" for n
    by (induction n) (simp_all add: timer_handler_def)
  moreover have "timeSector (timerCb s' ! unat t) \<noteq> stmSector s'"
    using s'(2) assms(5) unat_u32_less [of "time (timerCb s' ! unat t)"]
    by (auto simp: expiry_def split: if_splits)
  ultimately show ?thesis using s'(1) by (auto simp: due_iff)
qed

definition stm_late :: "nat sStm" where
  "stm_late = (timer_handler ^^ 1) (stm_one\<lparr>timeTick := 0xFFFFFFFE\<rparr>)"

theorem timer_handler_loses_wrapped_timers_witness:
  "\<exists>s'. STM_StartTimer stm_late 0 100 = Some (s', STATUS_SUCCESS) \<and>
    (\<forall>n. \<not> due ((timer_handler ^^ n) s') 0)"
proof -
  have "stm_inv stm_late []"
    using stm_one_inv
    by (simp add: stm_late_def timer_handler_def stm_inv_def timer_queue_def)
  moreover have "valid (timerCb stm_late ! 0)"
    using stm_one_valid by (simp add: stm_late_def timer_handler_def)
  moreover have "now stm_late = 0xFFFFFFFF"
    by (simp add: now_def stm_late_def timer_handler_def)
  ultimately show ?thesis
    using timer_handler_loses_wrapped_timers [of stm_late "[]" 0 100]
    by (simp add: STM_TIMER_MAX_def)
qed

text \<open>
  The polled tick adds one plus the whole ticks read from the hardware counter to the tick,
  modulo \<open>2 ^ 32\<close>, and leaves the sector alone.  So a second addition that passes the largest
  tick value wraps the tick without flipping the sector: only a tick that stands exactly at the
  largest value flips it.\<close>

theorem timer0Poll_advances:
  assumes "TF0 hw" and "now s + 2 < 2 ^ 32"
  shows "now (snd (timer0Poll hw s)) =
      (now s + 1 + (256 * unat (TH0 hw) + unat (TL0 hw)) div 20833) mod 2 ^ 32 \<and>
    stmSector (snd (timer0Poll hw s)) = stmSector s \<and> irqEA (snd (timer0Poll hw s)) \<and>
    \<not> TF0 (fst (timer0Poll hw s)) \<and> TR0 (fst (timer0Poll hw s))"
proof -
  define tv :: u16 where "tv = push_bit 8 (ucast (TH0 hw)) OR ucast (TL0 hw)"
  have tv: "unat tv = 256 * unat (TH0 hw) + unat (TL0 hw)"
    unfolding tv_def by (rule unat_word16_of_bytes)
  have div3: "unat tv div 20833 < 256" using unat_u16_less [of tv] by simp
  let ?v = "ucast (ucast (tv div TIMER_TICK10) :: u8) :: u32"
  have v: "unat ?v = unat tv div 20833"
    using unat_ucast_u16_u8 [of "tv div TIMER_TICK10"] div3 by (simp add: TIMER_TICK10_def unat_div
        del: unat_ucast_u16_u8)
  have t1: "timeTick s + 1 \<noteq> STM_TIME_TICK_MAX" "timeTick s \<noteq> STM_TIME_TICK_MAX"
    "unat (timeTick s + 1) = now s + 1"
    using assms(2) by (auto simp: now_def STM_TIME_TICK_MAX_def unat_word_ariths word_unat_eq_iff)
  show ?thesis
    using assms(1) t1 tv v
    by (auto simp: timer0Poll_def Let_def tv_def [symmetric] stm_inc_def now_def unat_word_ariths
        word_gt_0 unat_eq_0)
qed

theorem timer0Poll_advances_witness:
  "now (snd (timer0Poll \<lparr>TF0 = True, TR0 = True, TH0 = 0xFF, TL0 = 0xFF, uartRxFlag = False,
      uartRxTick = 0\<rparr> (stm_one\<lparr>timeTick := 0xFFFFFFFD\<rparr>))) = 1"
  using timer0Poll_advances [of "\<lparr>TF0 = True, TR0 = True, TH0 = 0xFF, TL0 = 0xFF,
      uartRxFlag = False, uartRxTick = 0\<rparr>" "stm_one\<lparr>timeTick := 0xFFFFFFFD\<rparr>"]
  by (simp add: now_def)

end
