(* ===== verification/SList.thy ===== *)
theory SList
  imports Interfaces
begin

text \<open>
  The singly linked lists of \<^verbatim>\<open>firmware/common/list.c\<close>.

  A node is an address of type \<open>'a\<close>.  The \<open>next\<close> fields of all nodes are one store
  \<open>lnk\<close>, so that aliasing between lists is explicit; \<open>None\<close> is \<open>NULL\<close>.  The
  store carries the interrupt-enable bit \<open>EA\<close> of the 8051, because every list operation
  ends with \<open>EA = 1\<close>, whatever the bit was before the call.
\<close>

record 'a smem =
  lnk :: "'a \<Rightarrow> 'a option"
  EA :: bool

record 'a slist =
  head :: "'a option"
  tail :: "'a option"

definition SLIST_Init :: "'a smem \<Rightarrow> 'a smem \<times> 'a slist" where
  "SLIST_Init m = (m\<lparr>EA := True\<rparr>, \<lparr>head = None, tail = None\<rparr>)"

definition SLIST_Push :: "'a smem \<Rightarrow> 'a slist \<Rightarrow> 'a \<Rightarrow> 'a smem \<times> 'a slist" where
  "SLIST_Push m l link =
     (if head l = None
      then (m\<lparr>lnk := (lnk m)(link := None), EA := True\<rparr>, l\<lparr>head := Some link, tail := Some link\<rparr>)
      else (m\<lparr>lnk := (lnk m)(link := head l), EA := True\<rparr>, l\<lparr>head := Some link\<rparr>))"

definition SLIST_Put :: "'a smem \<Rightarrow> 'a slist \<Rightarrow> 'a \<Rightarrow> 'a smem \<times> 'a slist" where
  "SLIST_Put m l link =
     (case tail l of
        None \<Rightarrow> (m\<lparr>lnk := (lnk m)(link := None), EA := True\<rparr>,
                 l\<lparr>head := Some link, tail := Some link\<rparr>)
      | Some t \<Rightarrow> (m\<lparr>lnk := (lnk m)(t := Some link, link := None), EA := True\<rparr>,
                 l\<lparr>tail := Some link\<rparr>))"

definition SLIST_Add :: "'a smem \<Rightarrow> 'a slist \<Rightarrow> 'a \<Rightarrow> 'a \<Rightarrow> 'a smem \<times> 'a slist" where
  "SLIST_Add m l prelink link =
     (m\<lparr>lnk := (lnk m)(link := lnk m prelink, prelink := Some link), EA := True\<rparr>,
      if tail l = Some prelink then l\<lparr>tail := Some link\<rparr> else l)"

definition SLIST_Remove :: "'a smem \<Rightarrow> 'a slist \<Rightarrow> 'a \<Rightarrow> 'a \<Rightarrow> 'a smem \<times> 'a slist" where
  "SLIST_Remove m l prelink link =
     (m\<lparr>lnk := (lnk m)(prelink := lnk m link), EA := True\<rparr>,
      if tail l = Some link then l\<lparr>tail := Some prelink\<rparr> else l)"

text \<open>
  \<open>SLIST_Pop\<close> returns the old head, which is \<open>NULL\<close> for an empty list.  With a head
  that is \<open>NULL\<close> and a tail that is not, the code reads \<open>list->head->next\<close> through a null
  pointer: \<open>None\<close>.
\<close>

definition SLIST_Pop :: "'a smem \<Rightarrow> 'a slist \<Rightarrow> ('a option \<times> 'a smem \<times> 'a slist) option" where
  "SLIST_Pop m l =
     (if tail l = head l
      then Some (head l, m\<lparr>EA := True\<rparr>, l\<lparr>head := None, tail := None\<rparr>)
      else (case head l of
              None \<Rightarrow> None
            | Some h \<Rightarrow> Some (Some h, m\<lparr>EA := True\<rparr>, l\<lparr>head := lnk m h\<rparr>)))"

definition SLIST_IsEmpty :: "'a slist \<Rightarrow> bool" where
  "SLIST_IsEmpty l \<longleftrightarrow> head l = None"

subsection \<open>Abstraction: the sequence of nodes a list holds\<close>

fun chain :: "('a \<Rightarrow> 'a option) \<Rightarrow> 'a option \<Rightarrow> 'a list \<Rightarrow> 'a option \<Rightarrow> bool" where
  "chain n p [] q \<longleftrightarrow> p = q"
| "chain n p (x # xs) q \<longleftrightarrow> p = Some x \<and> chain n (n x) xs q"

definition slist_rep :: "'a smem \<Rightarrow> 'a slist \<Rightarrow> 'a list \<Rightarrow> bool" where
  "slist_rep m l xs \<longleftrightarrow> distinct xs \<and> chain (lnk m) (head l) xs None \<and>
     tail l = (if xs = [] then None else Some (last xs))"

lemma chain_append:
  "chain n p (xs @ ys) q \<longleftrightarrow> (\<exists>r. chain n p xs r \<and> chain n r ys q)"
  by (induction xs arbitrary: p) auto

lemma chain_cong:
  "(\<And>x. x \<in> set xs \<Longrightarrow> n x = n' x) \<Longrightarrow> chain n p xs q = chain n' p xs q"
  by (induction xs arbitrary: p) auto

lemma chain_upd [simp]: "a \<notin> set xs \<Longrightarrow> chain (n(a := v)) p xs q = chain n p xs q"
  by (induction xs arbitrary: p) auto

lemma chain_None_nonempty: "chain n p xs None \<Longrightarrow> (p = None) = (xs = [])"
  by (cases xs) auto

lemma chain_last_next:
  "chain n p xs q \<Longrightarrow> xs \<noteq> [] \<Longrightarrow> n (last xs) = q"
  by (induction xs arbitrary: p) auto

lemma chain_replace_last:
  "chain n p xs q \<Longrightarrow> xs \<noteq> [] \<Longrightarrow> distinct xs \<Longrightarrow> chain (n(last xs := r)) p xs r"
  by (induction xs arbitrary: p) (auto split: if_splits)

lemma slist_repI:
  "distinct xs \<Longrightarrow> chain (lnk m) (head l) xs None \<Longrightarrow>
     tail l = (if xs = [] then None else Some (last xs)) \<Longrightarrow> slist_rep m l xs"
  by (simp add: slist_rep_def)

lemma slist_rep_unique:
  assumes "slist_rep m l xs" "slist_rep m l ys"
  shows "xs = ys"
proof -
  have "chain n p xs None \<Longrightarrow> chain n p ys None \<Longrightarrow> xs = ys" for n and p :: "'a option"
  proof (induction xs arbitrary: p ys)
    case Nil
    then show ?case by (cases ys) auto
  next
    case (Cons x xs)
    then show ?case by (cases ys) auto
  qed
  with assms show ?thesis by (auto simp: slist_rep_def)
qed

lemma slist_rep_distinct: "slist_rep m l xs \<Longrightarrow> distinct xs"
  by (simp add: slist_rep_def)

text \<open>A list only depends on the links of its own nodes: the frame rule for all clients.\<close>

lemma slist_rep_frame [fw_frame]:
  "(\<And>x. x \<in> set xs \<Longrightarrow> lnk m x = lnk m' x) \<Longrightarrow> slist_rep m l xs \<Longrightarrow> slist_rep m' l xs"
  unfolding slist_rep_def using chain_cong [of xs "lnk m" "lnk m'"] by blast

lemma slist_rep_Nil [simp]: "slist_rep m l [] \<longleftrightarrow> head l = None \<and> tail l = None"
  by (auto simp: slist_rep_def)

lemma slist_rep_empty_iff: "slist_rep m l xs \<Longrightarrow> SLIST_IsEmpty l = (xs = [])"
  by (cases xs) (auto simp: slist_rep_def SLIST_IsEmpty_def)

lemma slist_rep_head:
  "slist_rep m l xs \<Longrightarrow> head l = (case xs of [] \<Rightarrow> None | x # _ \<Rightarrow> Some x)"
  by (cases xs) (auto simp: slist_rep_def)

lemma slist_rep_next:
  "slist_rep m l (xs @ x # ys) \<Longrightarrow> lnk m x = (case ys of [] \<Rightarrow> None | y # _ \<Rightarrow> Some y)"
  by (cases ys) (auto simp: slist_rep_def chain_append)

subsection \<open>Each operation on the abstract sequence\<close>

lemma slist_init_rep: "SLIST_Init m = (m', l) \<Longrightarrow> slist_rep m' l []"
  by (auto simp: SLIST_Init_def)

lemma slist_push_rep:
  assumes "slist_rep m l xs" "a \<notin> set xs" "SLIST_Push m l a = (m', l')"
  shows "slist_rep m' l' (a # xs)"
  using assms by (cases xs) (auto simp: SLIST_Push_def slist_rep_def split: if_splits)

lemma slist_put_rep:
  assumes rep: "slist_rep m l xs" and a: "a \<notin> set xs" and put: "SLIST_Put m l a = (m', l')"
  shows "slist_rep m' l' (xs @ [a])"
proof (cases "xs = []")
  case True
  with rep put show ?thesis by (auto simp: SLIST_Put_def slist_rep_def)
next
  case False
  with rep have t: "tail l = Some (last xs)" by (simp add: slist_rep_def)
  from False a have "last xs \<noteq> a" by auto
  from rep have d: "distinct xs" and c: "chain (lnk m) (head l) xs None"
    by (auto simp: slist_rep_def)
  have "chain ((lnk m)(last xs := Some a)) (head l) xs (Some a)"
    using chain_replace_last [OF c False d] .
  then have "chain ((lnk m)(last xs := Some a, a := None)) (head l) xs (Some a)"
    using a by simp
  with put t False a d show ?thesis
    by (auto simp: SLIST_Put_def slist_rep_def chain_append)
qed

lemma slist_add_rep:
  assumes rep: "slist_rep m l (xs @ p # ys)" and a: "a \<notin> set (xs @ p # ys)"
    and add: "SLIST_Add m l p a = (m', l')"
  shows "slist_rep m' l' (xs @ p # a # ys)"
proof -
  from rep have d: "distinct (xs @ p # ys)"
    and c: "chain (lnk m) (head l) xs (Some p)" "chain (lnk m) (lnk m p) ys None"
    and t: "tail l = Some (last (p # ys))"
    by (auto simp: slist_rep_def chain_append)
  have "tail l = Some p \<longleftrightarrow> ys = []" using t d by (auto split: if_splits)
  with add a d c t show ?thesis
    by (auto simp: SLIST_Add_def slist_rep_def chain_append split: if_splits)
qed

lemma slist_remove_rep:
  assumes rep: "slist_rep m l (xs @ p # a # ys)"
    and rm: "SLIST_Remove m l p a = (m', l')"
  shows "slist_rep m' l' (xs @ p # ys)"
proof -
  from rep have d: "distinct (xs @ p # a # ys)"
    and c: "chain (lnk m) (head l) xs (Some p)" "chain (lnk m) (lnk m a) ys None"
    and t: "tail l = Some (last (a # ys))"
    by (auto simp: slist_rep_def chain_append)
  have "tail l = Some a \<longleftrightarrow> ys = []" using t d by (auto split: if_splits)
  with rm d c t show ?thesis
    by (auto simp: SLIST_Remove_def slist_rep_def chain_append split: if_splits)
qed

lemma slist_pop_rep:
  assumes "slist_rep m l (x # xs)"
  shows "\<exists>m' l'. SLIST_Pop m l = Some (Some x, m', l') \<and> slist_rep m' l' xs \<and> lnk m' = lnk m"
proof (cases "xs = []")
  case True
  with assms show ?thesis by (auto simp: SLIST_Pop_def slist_rep_def)
next
  case False
  with assms have "head l = Some x" "tail l = Some (last xs)" "last xs \<noteq> x"
    by (auto simp: slist_rep_def)
  with assms False show ?thesis by (auto simp: SLIST_Pop_def slist_rep_def)
qed

lemma slist_pop_empty:
  "slist_rep m l [] \<Longrightarrow> \<exists>m' l'. SLIST_Pop m l = Some (None, m', l') \<and> slist_rep m' l' [] \<and> lnk m' = lnk m"
  by (auto simp: SLIST_Pop_def)

text \<open>What the operations write: only links of the list's own nodes and of the new node.\<close>

lemma slist_push_frame [fw_frame]:
  "SLIST_Push m l a = (m', l') \<Longrightarrow> b \<noteq> a \<Longrightarrow> lnk m' b = lnk m b"
  by (auto simp: SLIST_Push_def split: if_splits)

lemma slist_put_frame [fw_frame]:
  "SLIST_Put m l a = (m', l') \<Longrightarrow> slist_rep m l xs \<Longrightarrow> b \<noteq> a \<Longrightarrow> b \<notin> set xs \<Longrightarrow> lnk m' b = lnk m b"
  by (auto simp: SLIST_Put_def slist_rep_def split: option.splits if_splits)

lemma slist_add_frame [fw_frame]:
  "SLIST_Add m l p a = (m', l') \<Longrightarrow> b \<noteq> a \<Longrightarrow> b \<noteq> p \<Longrightarrow> lnk m' b = lnk m b"
  by (auto simp: SLIST_Add_def)

lemma slist_remove_frame [fw_frame]:
  "SLIST_Remove m l p a = (m', l') \<Longrightarrow> b \<noteq> p \<Longrightarrow> lnk m' b = lnk m b"
  by (auto simp: SLIST_Remove_def)

subsection \<open>A singly linked list is a queue\<close>

text \<open>The list used as a queue: \<open>SLIST_Put\<close> at the tail, \<open>SLIST_Pop\<close> at the head.\<close>

definition slist_enq :: "'a \<Rightarrow> 'a smem \<times> 'a slist \<Rightarrow> ('a smem \<times> 'a slist) option" where
  "slist_enq a ml = Some (SLIST_Put (fst ml) (snd ml) a)"

definition slist_deq :: "'a smem \<times> 'a slist \<Rightarrow> ('a option \<times> 'a smem \<times> 'a slist) option" where
  "slist_deq ml = SLIST_Pop (fst ml) (snd ml)"

interpretation slq: fifo "\<lambda>ml. slist_rep (fst ml) (snd ml)" slist_deq slist_enq
proof unfold_locales
  fix s :: "'a smem \<times> 'a slist" and x xs
  assume "slist_rep (fst s) (snd s) (x # xs)"
  then show "\<exists>s'. slist_deq s = Some (Some x, s') \<and> slist_rep (fst s') (snd s') xs"
    using slist_pop_rep unfolding slist_deq_def by fastforce
next
  fix s :: "'a smem \<times> 'a slist"
  assume "slist_rep (fst s) (snd s) []"
  then show "\<exists>s'. slist_deq s = Some (None, s') \<and> slist_rep (fst s') (snd s') []"
    using slist_pop_empty unfolding slist_deq_def by fastforce
next
  fix s :: "'a smem \<times> 'a slist" and xs x
  assume "slist_rep (fst s) (snd s) xs" "x \<notin> set xs"
  then show "\<exists>s'. slist_enq x s = Some s' \<and> slist_rep (fst s') (snd s') (xs @ [x])"
    using slist_put_rep by (metis slist_enq_def prod.collapse)
qed

end
