(* ===== verification/Crm.thy ===== *)
theory Crm
  imports SList Stm
begin

text \<open>
  The central resource manager, \<^verbatim>\<open>firmware/hpgp/src/link/crm.c\<close> and \<^verbatim>\<open>crm.h\<close>: the table of
  station control blocks (SCBs), hashed by the upper four bits of their terminal equipment
  identifier (TEI).

  An SCB is named by its index in \<open>crm->scb\<close>; the \<open>link\<close> fields of the SCBs are the store
  \<open>crmMem\<close>.  The bucket arrays have ten elements; an index from 10 to 15, which a TEI of 160
  or more gives, is out of bounds and the result is \<open>None\<close>.  The record \<open>sScb\<close> has the fields
  of \<open>struct staCb\<close> in the build with \<open>KEEP_ALIVE\<close>, less the capability and status words
  that no function of the module names (they are only cleared).
\<close>

definition CRM_SCB_HASH_TABLE_SIZE :: nat where "CRM_SCB_HASH_TABLE_SIZE = 10"
definition CRM_SCB_MAX :: nat where "CRM_SCB_MAX = 30"
definition CRM_SCB_BUCKET_MAX :: u16 where "CRM_SCB_BUCKET_MAX = 3"

record sScb =
  namState :: u8
  akmState :: u8
  homState :: u8
  ptei :: u8
  macAddr :: "u8 list"
  tei :: u8
  hoReason :: u8
  staTimerType :: u8
  pid :: u8
  prn :: u16
  pmn :: u8
  txRetryCnt :: u8
  staTimer :: u8
  teiTimer :: u8
  bRssi :: u8
  bLqi :: u8
  uMinSSN :: u16
  uWrapAround :: u8
  bMinSSN :: u16
  hitCount :: u8
  hit :: bool
  vendor_field :: u16

definition clearedScb :: sScb where
  "clearedScb = \<lparr>namState = 0, akmState = 0, homState = 0, ptei = 0, macAddr = replicate 6 0,
     tei = 0, hoReason = 0, staTimerType = 0, pid = 0, prn = 0, pmn = 0, txRetryCnt = 0,
     staTimer = STM_TIMER_ID_NULL, teiTimer = STM_TIMER_ID_NULL, bRssi = 0, bLqi = 0, uMinSSN = 0,
     uWrapAround = 0, bMinSSN = 0, hitCount = 0, hit = False, vendor_field = 0\<rparr>"

record sCrm =
  scbs :: "sScb list"
  crmMem :: "nat smem"
  scbBucket :: "nat slist list"
  scbBucketSize :: "u16 list"
  freeQueue :: "nat slist"

definition upd_scb :: "nat \<Rightarrow> (sScb \<Rightarrow> sScb) \<Rightarrow> sCrm \<Rightarrow> sCrm" where
  "upd_scb i f c = c\<lparr>scbs := (scbs c)[i := f (scbs c ! i)]\<rparr>"

definition upd_size :: "nat \<Rightarrow> (u16 \<Rightarrow> u16) \<Rightarrow> sCrm \<Rightarrow> sCrm" where
  "upd_size b f c = c\<lparr>scbBucketSize := (scbBucketSize c)[b := f (scbBucketSize c ! b)]\<rparr>"

definition set_bucket :: "nat \<Rightarrow> nat smem \<times> nat slist \<Rightarrow> sCrm \<Rightarrow> sCrm" where
  "set_bucket b ml c = c\<lparr>crmMem := fst ml, scbBucket := (scbBucket c)[b := snd ml]\<rparr>"

definition set_free :: "nat smem \<times> nat slist \<Rightarrow> sCrm \<Rightarrow> sCrm" where
  "set_free ml c = c\<lparr>crmMem := fst ml, freeQueue := snd ml\<rparr>"

subsection \<open>Iteration\<close>

text \<open>The inner loop of \<open>CRM_GetNextScb\<close>: the first bucket from \<open>bkt\<close> on that is not empty.\<close>

definition crm_next_bucket :: "sCrm \<Rightarrow> nat \<Rightarrow> nat option" where
  "crm_next_bucket c bkt =
     find (\<lambda>b. \<not> SLIST_IsEmpty (scbBucket c ! b)) [bkt..<CRM_SCB_HASH_TABLE_SIZE]"

text \<open>
  A bucket number of more than ten, reached from a TEI of 160 or more, fails both tests for the
  end of the table and the bucket array is read out of bounds.
\<close>

definition CRM_GetNextScb :: "sCrm \<Rightarrow> nat option \<Rightarrow> nat option option" where
  "CRM_GetNextScb c scb =
     (let from_bucket = (\<lambda>bkt.
            if CRM_SCB_HASH_TABLE_SIZE < bkt then None
            else (case crm_next_bucket c bkt of
                    None \<Rightarrow> Some None
                  | Some b \<Rightarrow> Some (head (scbBucket c ! b))))
      in case scb of
           None \<Rightarrow> from_bucket 0
         | Some i \<Rightarrow> do {
             s \<leftarrow> arr_get (scbs c) i;
             case lnk (crmMem c) i of
               Some n \<Rightarrow> Some (Some n)
             | None \<Rightarrow>
                 let bkt = unat (drop_bit 4 (tei s)) + 1 in
                 if bkt = CRM_SCB_HASH_TABLE_SIZE then Some None else from_bucket bkt
           })"

text \<open>
  The loop \<open>while(dstScb)\<close> of the lookups by address and vendor field: the first SCB in the
  order of the iteration that satisfies a test.
\<close>

partial_function (option) crm_find_from ::
  "sCrm \<Rightarrow> (sScb \<Rightarrow> bool) \<Rightarrow> nat option \<Rightarrow> nat option option" where
  "crm_find_from c P p =
     (case p of
        None \<Rightarrow> Some None
      | Some i \<Rightarrow> do {
          s \<leftarrow> arr_get (scbs c) i;
          if P s then Some (Some i)
          else do { n \<leftarrow> CRM_GetNextScb c (Some i); crm_find_from c P n }
        })"

definition crm_find :: "sCrm \<Rightarrow> (sScb \<Rightarrow> bool) \<Rightarrow> nat option option" where
  "crm_find c P = do { p \<leftarrow> CRM_GetNextScb c None; crm_find_from c P p }"

definition CRM_FindScbMacAddr :: "sCrm \<Rightarrow> u8 list \<Rightarrow> nat option option" where
  "CRM_FindScbMacAddr c mac = crm_find c (\<lambda>s. macAddr s = mac)"

text \<open>The address found, or \<open>None\<close> for \<open>STATUS_FAILURE\<close>.\<close>

definition CRM_FindScbVendorField :: "sCrm \<Rightarrow> u16 \<Rightarrow> u8 list option option" where
  "CRM_FindScbVendorField c vf = do {
     r \<leftarrow> crm_find c (\<lambda>s. vendor_field s = vf);
     case r of None \<Rightarrow> Some None | Some i \<Rightarrow> Some (Some (macAddr (scbs c ! i)))
   }"

definition CRM_AddScbVendorField :: "sCrm \<Rightarrow> u8 list \<Rightarrow> u16 \<Rightarrow> (sCrm \<times> eStatus) option" where
  "CRM_AddScbVendorField c mac vf = do {
     r \<leftarrow> crm_find c (\<lambda>s. macAddr s = mac);
     case r of
       None \<Rightarrow> Some (c, STATUS_FAILURE)
     | Some i \<Rightarrow> Some (upd_scb i (\<lambda>s. s\<lparr>vendor_field := vf\<rparr>) c, STATUS_SUCCESS)
   }"

subsection \<open>Initialisation\<close>

text \<open>Both timers of every SCB in the table are freed before the table is cleared.\<close>

partial_function (option) crm_free_timers ::
  "sCrm \<Rightarrow> 't sStm \<Rightarrow> nat option \<Rightarrow> (sCrm \<times> 't sStm) option" where
  "crm_free_timers c st p =
     (case p of
        None \<Rightarrow> Some (c, st)
      | Some i \<Rightarrow> do {
          s \<leftarrow> arr_get (scbs c) i;
          let st = fst (STM_FreeTimer st (teiTimer s));
          let st = fst (STM_FreeTimer st (staTimer s));
          let c = upd_scb i (\<lambda>s. s\<lparr>teiTimer := STM_TIMER_ID_NULL, staTimer := STM_TIMER_ID_NULL\<rparr>) c;
          n \<leftarrow> CRM_GetNextScb c (Some i);
          crm_free_timers c st n
        })"

text \<open>An SCB is cleared, its link included, and goes to the tail of the free queue.\<close>

definition crm_clear_put :: "sCrm \<Rightarrow> nat \<Rightarrow> sCrm" where
  "crm_clear_put c i =
     (let c = upd_scb i (\<lambda>_. clearedScb) c;
          m = (crmMem c)\<lparr>lnk := (lnk (crmMem c))(i := None)\<rparr>
      in set_free (SLIST_Put m (freeQueue c) i) c)"

definition CRM_Init :: "sCrm \<Rightarrow> 't sStm \<Rightarrow> (sCrm \<times> 't sStm) option" where
  "CRM_Init c st = do {
     p \<leftarrow> CRM_GetNextScb c None;
     (c, st) \<leftarrow> crm_free_timers c st p;
     let c = fold (\<lambda>b c. upd_size b (\<lambda>_. 0) (set_bucket b (SLIST_Init (crmMem c)) c))
               [0..<CRM_SCB_HASH_TABLE_SIZE] c;
     let c = set_free (SLIST_Init (crmMem c)) c;
     let c = fold (\<lambda>i c. crm_clear_put c i) [0..<CRM_SCB_MAX] c;
     Some (c, st)
   }"

subsection \<open>Allocation\<close>

text \<open>The search for the smallest bucket: the first one of the least size.\<close>

definition crm_smallest :: "sCrm \<Rightarrow> u16 \<times> nat" where
  "crm_smallest c = fold (\<lambda>i (sz, index).
       if scbBucketSize c ! i < sz then (scbBucketSize c ! i, i) else (sz, index))
     [0..<CRM_SCB_HASH_TABLE_SIZE] (scbBucketSize c ! 0, 0)"

definition crm_mintei :: "nat \<Rightarrow> u8" where
  "crm_mintei index = (if index = 0 then 1 else push_bit 4 (of_nat index))"

definition crm_maxtei :: "nat \<Rightarrow> u8" where
  "crm_maxtei index = (if index = 15 then push_bit 4 (of_nat index) OR 0xE
                       else push_bit 4 (of_nat index) OR 0xF)"

text \<open>
  The walk along a bucket: \<open>(True, i)\<close> when there is a gap behind \<open>i\<close>, \<open>(False, i)\<close> when
  \<open>i\<close> is the last element.
\<close>

partial_function (option) crm_gap :: "sCrm \<Rightarrow> nat \<Rightarrow> (bool \<times> nat) option" where
  "crm_gap c i =
     (case lnk (crmMem c) i of
        None \<Rightarrow> Some (False, i)
      | Some n \<Rightarrow> do {
          s \<leftarrow> arr_get (scbs c) i;
          t \<leftarrow> arr_get (scbs c) n;
          if unat (tei s) + 1 < unat (tei t) then Some (True, i) else crm_gap c n
        })"

definition crm_push :: "sCrm \<Rightarrow> nat \<Rightarrow> nat \<Rightarrow> u8 \<Rightarrow> sCrm" where
  "crm_push c b i t =
     (let c = upd_scb i (\<lambda>s. s\<lparr>tei := t\<rparr>) c;
          c = set_bucket b (SLIST_Push (crmMem c) (scbBucket c ! b) i) c
      in upd_size b (\<lambda>n. n + 1) c)"

definition crm_add_after :: "sCrm \<Rightarrow> nat \<Rightarrow> nat \<Rightarrow> nat \<Rightarrow> u8 \<Rightarrow> sCrm" where
  "crm_add_after c b p i t =
     (let c = upd_scb i (\<lambda>s. s\<lparr>tei := t\<rparr>) c
      in set_bucket b (SLIST_Add (crmMem c) (scbBucket c ! b) p i) c)"

definition CRM_AllocScb :: "sCrm \<Rightarrow> (nat option \<times> sCrm) option" where
  "CRM_AllocScb c =
     (if SLIST_IsEmpty (freeQueue c) then Some (None, c)
      else case crm_smallest c of (sz, index) \<Rightarrow>
        if CRM_SCB_BUCKET_MAX \<le> sz then Some (None, c)
        else do {
          (lk, m, fq) \<leftarrow> SLIST_Pop (crmMem c) (freeQueue c);
          i \<leftarrow> lk;
          let c = set_free (m, fq) c;
          let mintei = crm_mintei index;
          let maxtei = crm_maxtei index;
          case head (scbBucket c ! index) of
            None \<Rightarrow> Some (Some i, crm_push c index i mintei)
          | Some h \<Rightarrow> do {
              s \<leftarrow> arr_get (scbs c) h;
              if mintei < tei s then Some (Some i, crm_push c index i mintei)
              else do {
                (gap, p) \<leftarrow> crm_gap c h;
                if gap \<or> tei (scbs c ! p) < maxtei
                then Some (Some i, upd_size index (\<lambda>n. n + 1)
                       (crm_add_after c index p i (tei (scbs c ! p) + 1)))
                else Some (None, c)
              }
            }
        })"

text \<open>
  \<open>CRM_AddScb\<close> walks to the last element whose TEI is not above the given one.  Its last
  branch links the SCB without counting it in the size of the bucket.
\<close>

partial_function (option) crm_walk :: "sCrm \<Rightarrow> u8 \<Rightarrow> nat \<Rightarrow> nat option" where
  "crm_walk c t i =
     (case lnk (crmMem c) i of
        None \<Rightarrow> Some i
      | Some n \<Rightarrow> do {
          s \<leftarrow> arr_get (scbs c) n;
          if t < tei s then Some i else crm_walk c t n
        })"

definition CRM_AddScb :: "sCrm \<Rightarrow> u8 \<Rightarrow> (nat option \<times> sCrm) option" where
  "CRM_AddScb c t = do {
     let index = unat (drop_bit 4 t);
     bucketlist \<leftarrow> arr_get (scbBucket c) index;
     case head bucketlist of
       None \<Rightarrow> do {
         (lk, m, fq) \<leftarrow> SLIST_Pop (crmMem c) (freeQueue c);
         let c = set_free (m, fq) c;
         case lk of None \<Rightarrow> Some (None, c) | Some i \<Rightarrow> Some (Some i, crm_push c index i t)
       }
     | Some h \<Rightarrow> do {
         s \<leftarrow> arr_get (scbs c) h;
         if tei s = t then Some (Some h, c)
         else if t < tei s then do {
           (lk, m, fq) \<leftarrow> SLIST_Pop (crmMem c) (freeQueue c);
           let c = set_free (m, fq) c;
           case lk of None \<Rightarrow> Some (None, c) | Some i \<Rightarrow> Some (Some i, crm_push c index i t)
         }
         else do {
           p \<leftarrow> crm_walk c t h;
           sp \<leftarrow> arr_get (scbs c) p;
           if tei sp = t then Some (Some p, c)
           else do {
             (lk, m, fq) \<leftarrow> SLIST_Pop (crmMem c) (freeQueue c);
             let c = set_free (m, fq) c;
             case lk of None \<Rightarrow> Some (None, c) | Some i \<Rightarrow> Some (Some i, crm_add_after c index p i t)
           }
         }
       }
   }"

subsection \<open>Release\<close>

text \<open>The end of a release: the timers are freed, the SCB is cleared and put back.\<close>

definition crm_release :: "sCrm \<Rightarrow> 't sStm \<Rightarrow> nat \<Rightarrow> nat \<Rightarrow> sCrm \<times> 't sStm" where
  "crm_release c st b i =
     (let st = fst (STM_FreeTimer st (staTimer (scbs c ! i)));
          st = fst (STM_FreeTimer st (teiTimer (scbs c ! i)));
          c = crm_clear_put c i
      in (upd_size b (\<lambda>n. n - 1) c, st))"

partial_function (option) crm_pred :: "sCrm \<Rightarrow> u8 \<Rightarrow> nat \<Rightarrow> (nat \<times> nat) option option" where
  "crm_pred c t i =
     (case lnk (crmMem c) i of
        None \<Rightarrow> Some None
      | Some n \<Rightarrow> do {
          s \<leftarrow> arr_get (scbs c) n;
          if t = tei s then Some (Some (i, n)) else crm_pred c t n
        })"

definition CRM_FreeScb :: "sCrm \<Rightarrow> 't sStm \<Rightarrow> nat \<Rightarrow> (sCrm \<times> 't sStm) option" where
  "CRM_FreeScb c st scb = do {
     s \<leftarrow> arr_get (scbs c) scb;
     let c = upd_scb scb (\<lambda>s. s\<lparr>namState := 0, homState := 0, akmState := 0, hitCount := 0\<rparr>) c;
     let index = unat (drop_bit 4 (tei s));
     bucketlist \<leftarrow> arr_get (scbBucket c) index;
     case head bucketlist of
       None \<Rightarrow> Some (c, st)
     | Some h \<Rightarrow> do {
         hs \<leftarrow> arr_get (scbs c) h;
         if tei hs = tei s then do {
           (_, m, l) \<leftarrow> SLIST_Pop (crmMem c) bucketlist;
           Some (crm_release (set_bucket index (m, l) c) st index h)
         }
         else do {
           r \<leftarrow> crm_pred c (tei s) h;
           case r of
             None \<Rightarrow> Some (c, st)
           | Some (p, n) \<Rightarrow>
               Some (crm_release (set_bucket index (SLIST_Remove (crmMem c) bucketlist p n) c) st index n)
         }
       }
   }"

subsection \<open>Lookup\<close>

partial_function (option) crm_lookup :: "sCrm \<Rightarrow> u8 \<Rightarrow> nat option \<Rightarrow> nat option option" where
  "crm_lookup c t p =
     (case p of
        None \<Rightarrow> Some None
      | Some i \<Rightarrow> do {
          s \<leftarrow> arr_get (scbs c) i;
          if tei s = t then Some (Some i) else crm_lookup c t (lnk (crmMem c) i)
        })"

definition CRM_GetScb :: "sCrm \<Rightarrow> u8 \<Rightarrow> nat option option" where
  "CRM_GetScb c t = do {
     bucketlist \<leftarrow> arr_get (scbBucket c) (unat (drop_bit 4 t));
     crm_lookup c t (head bucketlist)
   }"

definition CRM_GetMacAddr :: "sCrm \<Rightarrow> u8 \<Rightarrow> u8 list option option" where
  "CRM_GetMacAddr c t = do {
     bucketlist \<leftarrow> arr_get (scbBucket c) (unat (drop_bit 4 t));
     r \<leftarrow> crm_lookup c t (head bucketlist);
     case r of None \<Rightarrow> Some None | Some i \<Rightarrow> Some (Some (macAddr (scbs c ! i)))
   }"

definition CRM_GetScbNum :: "sCrm \<Rightarrow> u8" where
  "CRM_GetScbNum c =
     fold (\<lambda>i n. n + ucast (scbBucketSize c ! i)) [0..<CRM_SCB_HASH_TABLE_SIZE] 0"

text \<open>The test routine that empties a bucket; it does not clear the SCBs.\<close>

partial_function (option) CRM_RemoveBucket :: "sCrm \<Rightarrow> nat \<Rightarrow> sCrm option" where
  "CRM_RemoveBucket c b = do {
     bucketlist \<leftarrow> arr_get (scbBucket c) b;
     if SLIST_IsEmpty bucketlist then Some c
     else do {
       (lk, m, l) \<leftarrow> SLIST_Pop (crmMem c) bucketlist;
       i \<leftarrow> lk;
       let c = set_bucket b (m, l) c;
       let c = set_free (SLIST_Put (crmMem c) (freeQueue c) i) c;
       CRM_RemoveBucket (upd_size b (\<lambda>n. n - 1) c) b
     }
   }"

text \<open>The loops as executable equations.\<close>

declare crm_find_from.simps [code]
  and crm_free_timers.simps [code]
  and crm_gap.simps [code]
  and crm_walk.simps [code]
  and crm_pred.simps [code]
  and crm_lookup.simps [code]
  and CRM_RemoveBucket.simps [code]

end
