(* ===== verification/CrmProps.thy ===== *)
theory CrmProps
  imports Crm
begin

text \<open>
  The station table refines a finite map from TEIs to SCBs: its invariant, every operation on
  the abstract table (a free queue and ten sequences ordered by TEI), and the iteration.
\<close>

definition tei_of :: "sCrm \<Rightarrow> nat \<Rightarrow> nat" where
  "tei_of c i = unat (tei (scbs c ! i))"

text \<open>
  \<open>crm_rep c D fl bs\<close>: the free queue holds \<open>fl\<close>, bucket \<open>b\<close> holds \<open>bs ! b\<close> in ascending
  order of the TEI, and every SCB except those of \<open>D\<close>, which an operation has in its hands, is
  in exactly one of them.
\<close>

definition crm_rep :: "sCrm \<Rightarrow> nat set \<Rightarrow> nat list \<Rightarrow> nat list list \<Rightarrow> bool" where
  "crm_rep c D fl bs \<longleftrightarrow>
     length (scbs c) = 30 \<and> length (scbBucket c) = 10 \<and> length (scbBucketSize c) = 10 \<and>
     length bs = 10 \<and> slist_rep (crmMem c) (freeQueue c) fl \<and>
     (\<forall>b < 10. slist_rep (crmMem c) (scbBucket c ! b) (bs ! b) \<and>
        sorted_wrt (\<lambda>i j. tei_of c i < tei_of c j) (bs ! b) \<and>
        (\<forall>i \<in> set (bs ! b). tei_of c i div 16 = b)) \<and>
     D \<subseteq> {..<30} \<and> mset (fl @ concat bs) = mset_set ({..<30} - D)"

definition crm_sizes :: "sCrm \<Rightarrow> nat list list \<Rightarrow> bool" where
  "crm_sizes c bs \<longleftrightarrow> (\<forall>b < 10. unat (scbBucketSize c ! b) = length (bs ! b))"

lemma crm_repD:
  assumes "crm_rep c D fl bs"
  shows "length (scbs c) = 30" "length (scbBucket c) = 10" "length (scbBucketSize c) = 10"
    "length bs = 10" "slist_rep (crmMem c) (freeQueue c) fl"
    "\<And>b. b < 10 \<Longrightarrow> slist_rep (crmMem c) (scbBucket c ! b) (bs ! b)"
    "\<And>b. b < 10 \<Longrightarrow> sorted_wrt (\<lambda>i j. tei_of c i < tei_of c j) (bs ! b)"
    "\<And>b i. b < 10 \<Longrightarrow> i \<in> set (bs ! b) \<Longrightarrow> tei_of c i div 16 = b"
    "distinct (fl @ concat bs)" "set (fl @ concat bs) = {..<30} - D" "D \<subseteq> {..<30}"
    "mset (fl @ concat bs) = mset_set ({..<30} - D)"
  using assms mset_eq_mset_setD [of "fl @ concat bs" "{..<30} - D"]
  by (auto simp: crm_rep_def simp del: set_append)

lemma crm_rep_bucket_set:
  assumes "crm_rep c D fl bs" "b < 10" "i \<in> set (bs ! b)"
  shows "i < 30" "i \<notin> D" "i \<notin> set fl"
proof -
  note D = crm_repD [OF assms(1)]
  have "i \<in> set (concat bs)" using set_nth_concat [of b bs] assms(2,3) D(4) by auto
  then show "i < 30" "i \<notin> D" "i \<notin> set fl" using D(9,10) by auto
qed

lemma crm_rep_free_set:
  assumes "crm_rep c D fl bs" "i \<in> set fl"
  shows "i < 30" "i \<notin> D" "b < 10 \<Longrightarrow> i \<notin> set (bs ! b)"
  using crm_repD(10) [OF assms(1)] assms(2) crm_rep_bucket_set(3) [OF assms(1), of b i] by auto

lemma crm_rep_disjoint:
  assumes "crm_rep c D fl bs" "a < 10" "b < 10" "a \<noteq> b"
  shows "set (bs ! a) \<inter> set (bs ! b) = {}"
  using crm_repD(4,9) [OF assms(1)] assms(2-4) by (intro distinct_concat_disjoint) auto

subsection \<open>Taking an SCB from the free queue and giving it back\<close>

lemma mset_set_lessThan_Diff:
  "i < (n::nat) \<Longrightarrow> i \<notin> D \<Longrightarrow> mset_set ({..<n} - D) = add_mset i (mset_set ({..<n} - insert i D))"
  unfolding Diff_insert [of _ i D] by (rule mset_set.remove) auto

lemma crm_pop_free:
  assumes rep: "crm_rep c D (i # fl) bs"
  shows "\<exists>m fq. SLIST_Pop (crmMem c) (freeQueue c) = Some (Some i, m, fq) \<and>
    crm_rep (set_free (m, fq) c) (insert i D) fl bs \<and> i < 30 \<and> i \<notin> D"
proof -
  note R = crm_repD [OF rep]
  obtain m fq where p: "SLIST_Pop (crmMem c) (freeQueue c) = Some (Some i, m, fq)"
      "slist_rep m fq fl" "lnk m = lnk (crmMem c)"
    using slist_pop_rep [OF R(5)] by blast
  have i: "i < 30" "i \<notin> D" using crm_rep_free_set [OF rep, of i] by auto
  have "slist_rep m (scbBucket c ! b) (bs ! b)" if "b < 10" for b
    using R(6) [OF that] p(3) by (auto intro: slist_rep_frame)
  then have "crm_rep (set_free (m, fq) c) (insert i D) fl bs"
    using rep p(2) i R(12) mset_set_lessThan_Diff [OF i]
    by (auto simp: crm_rep_def set_free_def tei_of_def)
  with p i show ?thesis by blast
qed

lemma crm_pop_free_empty:
  assumes "crm_rep c D [] bs"
  shows "\<exists>m fq. SLIST_Pop (crmMem c) (freeQueue c) = Some (None, m, fq) \<and>
    crm_rep (set_free (m, fq) c) D [] bs"
proof -
  note R = crm_repD [OF assms]
  obtain m fq where p: "SLIST_Pop (crmMem c) (freeQueue c) = Some (None, m, fq)"
      "slist_rep m fq []" "lnk m = lnk (crmMem c)"
    using slist_pop_empty [OF R(5)] by blast
  have "slist_rep m (scbBucket c ! b) (bs ! b)" if "b < 10" for b
    using R(6) [OF that] p(3) by (auto intro: slist_rep_frame)
  with assms p show ?thesis by (auto simp: crm_rep_def set_free_def tei_of_def)
qed

subsection \<open>Linking an SCB into a bucket\<close>

text \<open>
  What linking does to the concrete state, whichever list operation is used: bucket \<open>b\<close> becomes
  \<open>us @ i # vs\<close>, only links of its nodes are written, and SCB \<open>i\<close> gets the TEI \<open>t\<close>.
\<close>

lemma crm_rep_link:
  assumes rep: "crm_rep c {i} fl bs" and b: "b < 10" "bs ! b = us @ vs"
    and t: "\<forall>u \<in> set us. tei_of c u < unat t" "\<forall>v \<in> set vs. unat t < tei_of c v" "unat t div 16 = b"
    and c': "scbs c' = (scbs c)[i := (scbs c ! i)\<lparr>tei := t\<rparr>]" "freeQueue c' = freeQueue c"
      "scbBucket c' = (scbBucket c)[b := l]" "length (scbBucketSize c') = 10"
    and l: "slist_rep (crmMem c') l (us @ i # vs)"
    and frame: "\<And>x. x \<noteq> i \<Longrightarrow> x \<notin> set (us @ vs) \<Longrightarrow> lnk (crmMem c') x = lnk (crmMem c) x"
  shows "crm_rep c' {} fl (bs[b := us @ i # vs])"
proof -
  note R = crm_repD [OF rep]
  have i30: "i < 30" using R(11) by simp
  have iin: "i \<notin> set fl" "\<And>a. a < 10 \<Longrightarrow> i \<notin> set (bs ! a)"
    using R(10) crm_rep_bucket_set(2) [OF rep] by auto
  have tei: "tei_of c' x = (if x = i then unat t else tei_of c x)" for x
    using i30 R(1) by (auto simp: tei_of_def c'(1) nth_list_update)
  have free: "slist_rep (crmMem c') (freeQueue c') fl"
    unfolding c'(2)
  proof (rule slist_rep_frame [OF _ R(5)])
    fix x assume x: "x \<in> set fl"
    then have "x \<noteq> i" "x \<notin> set (us @ vs)" using iin crm_rep_free_set(3) [OF rep x b(1)] b(2) by auto
    then show "lnk (crmMem c) x = lnk (crmMem c') x" by (rule frame [symmetric])
  qed
  have bucket: "slist_rep (crmMem c') (scbBucket c' ! a) (bs[b := us @ i # vs] ! a)" if a: "a < 10" for a
  proof (cases "a = b")
    case True
    with l b R(2,4) show ?thesis by (simp add: c'(3))
  next
    case False
    have "slist_rep (crmMem c') (scbBucket c ! a) (bs ! a)"
    proof (rule slist_rep_frame [OF _ R(6) [OF a]])
      fix x assume x: "x \<in> set (bs ! a)"
      then have "x \<noteq> i" "x \<notin> set (us @ vs)"
        using iin(2) [OF a] crm_rep_disjoint [OF rep a b(1) False] b(2) by auto
      then show "lnk (crmMem c) x = lnk (crmMem c') x" by (rule frame [symmetric])
    qed
    with False show ?thesis by (simp add: c'(3))
  qed
  have sorted: "sorted_wrt (\<lambda>x y. tei_of c' x < tei_of c' y) (bs[b := us @ i # vs] ! a) \<and>
      (\<forall>x \<in> set (bs[b := us @ i # vs] ! a). tei_of c' x div 16 = a)" if a: "a < 10" for a
  proof -
    have old: "sorted_wrt (\<lambda>x y. tei_of c' x < tei_of c' y) (bs ! a)"
      by (rule sorted_wrt_mono_rel [OF _ R(7) [OF a]]) (use iin(2) [OF a] tei in auto)
    have div16: "\<forall>x \<in> set (bs ! a). tei_of c' x div 16 = a"
      using iin(2) [OF a] R(8) [OF a] tei by auto
    show ?thesis
    proof (cases "a = b")
      case True
      with iin(2) [OF b(1)] b(2) have "i \<notin> set us" "i \<notin> set vs" by auto
      then have "\<forall>u \<in> set us. tei_of c' u < tei_of c' i" "\<forall>v \<in> set vs. tei_of c' i < tei_of c' v"
        using t(1,2) tei by auto
      with True old div16 b R(4) t(3) tei show ?thesis by (auto simp: sorted_wrt_append)
    next
      case False
      with old div16 show ?thesis by simp
    qed
  qed
  have "mset (concat (bs[b := us @ i # vs])) = add_mset i (mset (concat bs))"
    using mset_concat_update [of b bs "us @ i # vs"] b R(4) by simp
  then have "mset (fl @ concat (bs[b := us @ i # vs])) = mset_set {..<30}"
    using R(12) mset_set_lessThan_Diff [of i 30 "{}"] i30 by simp
  with free bucket sorted R(1-4) c' show ?thesis by (auto simp: crm_rep_def)
qed

subsection \<open>Taking an SCB out of a bucket\<close>

lemma crm_rep_unlink:
  assumes rep: "crm_rep c {} fl bs" and b: "b < 10" "bs ! b = us @ i # vs"
    and l: "slist_rep m l (us @ vs)"
    and frame: "\<And>x. x \<notin> set (bs ! b) \<Longrightarrow> lnk m x = lnk (crmMem c) x"
  shows "crm_rep (set_bucket b (m, l) c) {i} fl (bs[b := us @ vs])"
proof -
  note R = crm_repD [OF rep]
  let ?c = "set_bucket b (m, l) c"
  have i30: "i < 30" using crm_rep_bucket_set(1) [OF rep b(1), of i] b(2) by simp
  have tei: "tei_of ?c = tei_of c" by (simp add: tei_of_def set_bucket_def fun_eq_iff)
  have free: "slist_rep m (freeQueue c) fl"
  proof (rule slist_rep_frame [OF _ R(5)])
    fix x assume "x \<in> set fl"
    then have "x \<notin> set (bs ! b)" using crm_rep_free_set(3) [OF rep _ b(1)] by blast
    then show "lnk (crmMem c) x = lnk m x" by (rule frame [symmetric])
  qed
  have other: "slist_rep m (scbBucket c ! a) (bs ! a)" if a: "a < 10" "a \<noteq> b" for a
  proof (rule slist_rep_frame [OF _ R(6) [OF a(1)]])
    fix x assume "x \<in> set (bs ! a)"
    then have "x \<notin> set (bs ! b)" using crm_rep_disjoint [OF rep a(1) b(1) a(2)] by blast
    then show "lnk (crmMem c) x = lnk m x" by (rule frame [symmetric])
  qed
  have "sorted_wrt (\<lambda>x y. tei_of c x < tei_of c y) (us @ vs)"
    using R(7) [OF b(1)] b(2) by (auto simp: sorted_wrt_append)
  moreover have "\<forall>x \<in> set (us @ vs). tei_of c x div 16 = b" using R(8) [OF b(1)] b(2) by auto
  ultimately have bucket: "slist_rep m (scbBucket ?c ! a) (bs[b := us @ vs] ! a) \<and>
      sorted_wrt (\<lambda>x y. tei_of c x < tei_of c y) (bs[b := us @ vs] ! a) \<and>
      (\<forall>x \<in> set (bs[b := us @ vs] ! a). tei_of c x div 16 = a)" if a: "a < 10" for a
    using a other [OF a] R(2,4,7,8) l b(1) by (cases "a = b") (auto simp: set_bucket_def)
  have "add_mset i (mset (concat (bs[b := us @ vs]))) = mset (concat bs)"
    using mset_concat_update [of b bs "us @ vs"] b R(4) by simp
  then have "add_mset i (mset (fl @ concat (bs[b := us @ vs]))) = mset (fl @ concat bs)"
    by (simp flip: union_mset_add_mset_right)
  also have "\<dots> = add_mset i (mset_set ({..<30} - {i}))"
    using R(12) mset_set_lessThan_Diff [of i 30 "{}"] i30 by simp
  finally have "mset (fl @ concat (bs[b := us @ vs])) = mset_set ({..<30} - {i})"
    by (simp only: add_mset_add_mset_same_iff)
  with free bucket R(1-4) i30 tei show ?thesis by (auto simp: crm_rep_def set_bucket_def)
qed

subsection \<open>Putting an SCB back into the free queue\<close>

lemma crm_rep_put_free:
  assumes rep: "crm_rep c (insert i D) fl bs" and i: "i \<notin> D"
  shows "crm_rep (crm_clear_put c i) D (fl @ [i]) bs"
proof -
  note R = crm_repD [OF rep]
  let ?m = "(crmMem c)\<lparr>lnk := (lnk (crmMem c))(i := None)\<rparr>"
  obtain m fq where put: "SLIST_Put ?m (freeQueue c) i = (m, fq)" by fastforce
  let ?c = "crm_clear_put c i"
  have iin: "i < 30" "i \<notin> set fl" "\<And>a. a < 10 \<Longrightarrow> i \<notin> set (bs ! a)"
    using R(10,11) crm_rep_bucket_set(2) [OF rep] by auto
  have fl0: "slist_rep ?m (freeQueue c) fl" using R(5) iin(2) by (auto intro: slist_rep_frame)
  have fl: "slist_rep m fq (fl @ [i])" using slist_put_rep [OF fl0 iin(2) put] .
  have tei: "tei_of ?c x = tei_of c x" if "x \<noteq> i" for x
    using that R(1) by (simp add: tei_of_def crm_clear_put_def upd_scb_def set_free_def Let_def)
  have "slist_rep m (scbBucket c ! a) (bs ! a)" if a: "a < 10" for a
  proof (rule slist_rep_frame [OF _ R(6) [OF a]])
    fix x assume x: "x \<in> set (bs ! a)"
    then have "x \<noteq> i" "x \<notin> set fl"
      using iin(3) [OF a] crm_rep_free_set(3) [OF rep _ a] by auto
    then show "lnk (crmMem c) x = lnk m x" using slist_put_frame [OF put fl0] by simp
  qed
  moreover have "sorted_wrt (\<lambda>x y. tei_of ?c x < tei_of ?c y) (bs ! a)" if a: "a < 10" for a
    using sorted_wrt_mono_rel [OF _ R(7) [OF a], of "\<lambda>x y. tei_of ?c x < tei_of ?c y"]
      iin(3) [OF a] tei by metis
  moreover have "\<forall>x \<in> set (bs ! a). tei_of ?c x div 16 = a" if a: "a < 10" for a
    using iin(3) [OF a] tei R(8) [OF a] by metis
  moreover have "mset ((fl @ [i]) @ concat bs) = mset_set ({..<30} - D)"
    using R(12) mset_set_lessThan_Diff [of i 30 D] iin(1) i by simp
  ultimately show ?thesis
    using fl put R(1-4,11) unfolding crm_rep_def
    by (auto simp: crm_clear_put_def Let_def set_free_def upd_scb_def)
qed

lemma crm_release_eq:
  "crm_release c st b i =
     (upd_size b (\<lambda>n. n - 1) (crm_clear_put c i),
      fst (STM_FreeTimer (fst (STM_FreeTimer st (staTimer (scbs c ! i)))) (teiTimer (scbs c ! i))))"
  by (simp add: crm_release_def Let_def)

lemma crm_rep_upd_size [simp]:
  "crm_rep (upd_size b f c) D fl bs = crm_rep c D fl bs"
  by (simp add: crm_rep_def upd_size_def tei_of_def)

text \<open>Changing fields other than the TEI is invisible in the abstract table.\<close>

lemma crm_rep_upd_scb:
  assumes "crm_rep c D fl bs" "\<And>s. tei (f s) = tei s"
  shows "crm_rep (upd_scb i f c) D fl bs"
proof -
  have "tei ((scbs c)[i := f (scbs c ! i)] ! x) = tei (scbs c ! x)" for x
    using assms(2) by (cases "i < length (scbs c)") (auto simp: nth_list_update list_update_beyond)
  then have "tei_of (upd_scb i f c) = tei_of c"
    by (simp add: tei_of_def upd_scb_def fun_eq_iff)
  with assms(1) show ?thesis by (simp add: crm_rep_def) (simp add: upd_scb_def)
qed

subsection \<open>Walking along a bucket\<close>

definition first :: "nat list \<Rightarrow> nat option" where
  "first ys = (case ys of [] \<Rightarrow> None | y # _ \<Rightarrow> Some y)"

lemma first_simps [simp]: "first [] = None" "first (y # ys) = Some y"
  by (simp_all add: first_def)

lemma slist_rep_first: "slist_rep m l xs \<Longrightarrow> head l = first xs"
  by (simp add: first_def slist_rep_head)

lemma slist_rep_succ: "slist_rep m l (xs @ i # ys) \<Longrightarrow> lnk m i = first ys"
  by (simp add: first_def slist_rep_next)

lemma crm_lookup_spec:
  assumes "slist_rep (crmMem c) l (xs @ ys)" "set ys \<subseteq> {..<length (scbs c)}"
  shows "crm_lookup c t (first ys) = Some (find (\<lambda>i. tei (scbs c ! i) = t) ys)"
  using assms
proof (induction ys arbitrary: xs)
  case Nil
  then show ?case by (simp add: crm_lookup.simps)
next
  case (Cons y ys)
  from Cons.IH [of "xs @ [y]"] Cons.prems slist_rep_succ [of "crmMem c" l xs y ys] show ?case
    by (simp add: crm_lookup.simps [of c t "Some y"])
qed

lemma crm_gap_spec:
  assumes "slist_rep (crmMem c) l (xs @ i # ys)" "set (i # ys) \<subseteq> {..<length (scbs c)}"
  shows "\<exists>us p vs g. crm_gap c i = Some (g, p) \<and> i # ys = us @ p # vs \<and>
    (if g then vs \<noteq> [] \<and> tei_of c p + 1 < tei_of c (hd vs) else vs = []) \<and>
    tei_of c p \<le> tei_of c i + length us"
  using assms
proof (induction ys arbitrary: xs i)
  case Nil
  then show ?case
    using slist_rep_succ [of "crmMem c" l xs i "[]"]
    by (intro exI [of _ "[]"] exI [of _ i] exI [of _ False]) (simp add: crm_gap.simps)
next
  case (Cons y ys)
  have n: "lnk (crmMem c) i = Some y" using slist_rep_succ [OF Cons.prems(1)] by simp
  show ?case
  proof (cases "tei_of c i + 1 < tei_of c y")
    case True
    with n Cons.prems(2) have "crm_gap c i = Some (True, i)"
      by (simp add: crm_gap.simps [of c i] tei_of_def)
    with True show ?thesis
      by (intro exI [of _ "[]"] exI [of _ i] exI [of _ "y # ys"] exI [of _ True]) simp
  next
    case False
    then have "crm_gap c i = crm_gap c y"
      using n Cons.prems(2) by (simp add: crm_gap.simps [of c i] tei_of_def)
    moreover obtain us p vs g where IH: "crm_gap c y = Some (g, p)" "y # ys = us @ p # vs"
      "if g then vs \<noteq> [] \<and> tei_of c p + 1 < tei_of c (hd vs) else vs = []"
      "tei_of c p \<le> tei_of c y + length us"
      using Cons.IH [of "xs @ [i]" y] Cons.prems by auto
    ultimately show ?thesis
      using False by (intro exI [of _ "i # us"] exI [of _ p] exI [of _ vs] exI [of _ g]) auto
  qed
qed

lemma crm_walk_spec:
  assumes "slist_rep (crmMem c) l (xs @ i # ys)" "set (i # ys) \<subseteq> {..<length (scbs c)}"
  shows "\<exists>us p vs. crm_walk c t i = Some p \<and> i # ys = us @ p # vs \<and>
    (vs \<noteq> [] \<longrightarrow> unat t < tei_of c (hd vs)) \<and> (p \<noteq> i \<longrightarrow> tei_of c p \<le> unat t)"
  using assms
proof (induction ys arbitrary: xs i)
  case Nil
  then show ?case
    using slist_rep_succ [of "crmMem c" l xs i "[]"]
    by (intro exI [of _ "[]"] exI [of _ i]) (simp add: crm_walk.simps)
next
  case (Cons y ys)
  have n: "lnk (crmMem c) i = Some y" using slist_rep_succ [OF Cons.prems(1)] by simp
  show ?case
  proof (cases "unat t < tei_of c y")
    case True
    with n Cons.prems(2) have "crm_walk c t i = Some i"
      by (simp add: crm_walk.simps [of c t i] tei_of_def word_less_nat_alt)
    with True show ?thesis
      by (intro exI [of _ "[]"] exI [of _ i] exI [of _ "y # ys"]) simp
  next
    case False
    then have "crm_walk c t i = crm_walk c t y"
      using n Cons.prems(2) by (simp add: crm_walk.simps [of c t i] tei_of_def word_less_nat_alt)
    moreover obtain us p vs where IH: "crm_walk c t y = Some p" "y # ys = us @ p # vs"
      "vs \<noteq> [] \<longrightarrow> unat t < tei_of c (hd vs)" "p \<noteq> y \<longrightarrow> tei_of c p \<le> unat t"
      using Cons.IH [of "xs @ [i]" y] Cons.prems by auto
    ultimately show ?thesis
      using False by (intro exI [of _ "i # us"] exI [of _ p] exI [of _ vs]) auto
  qed
qed

lemma crm_pred_spec:
  assumes "slist_rep (crmMem c) l (xs @ i # ys)" "set (i # ys) \<subseteq> {..<length (scbs c)}"
  shows "if unat t \<in> tei_of c ` set ys
    then \<exists>us p n vs. crm_pred c t i = Some (Some (p, n)) \<and> i # ys = us @ p # n # vs \<and> tei_of c n = unat t
    else crm_pred c t i = Some None"
  using assms
proof (induction ys arbitrary: xs i)
  case Nil
  then show ?case
    using slist_rep_succ [of "crmMem c" l xs i "[]"] by (simp add: crm_pred.simps)
next
  case (Cons y ys)
  have n: "lnk (crmMem c) i = Some y" using slist_rep_succ [OF Cons.prems(1)] by simp
  show ?case
  proof (cases "tei_of c y = unat t")
    case True
    then have "crm_pred c t i = Some (Some (i, y))"
      using n Cons.prems(2) by (simp add: crm_pred.simps [of c t i] tei_of_def word_unat_eq_iff)
    moreover have mem: "unat t \<in> tei_of c ` set (y # ys)" using True by force
    ultimately show ?thesis
      unfolding if_P [OF mem] using True
      by (intro exI [of _ "[]"] exI [of _ i] exI [of _ y] exI [of _ ys]) simp
  next
    case False
    then have eq: "crm_pred c t i = crm_pred c t y"
      using n Cons.prems(2) by (auto simp: crm_pred.simps [of c t i] tei_of_def)
    have IH: "if unat t \<in> tei_of c ` set ys
      then \<exists>us p n vs. crm_pred c t y = Some (Some (p, n)) \<and> y # ys = us @ p # n # vs \<and> tei_of c n = unat t
      else crm_pred c t y = Some None"
      using Cons.IH [of "xs @ [i]" y] Cons.prems by simp
    show ?thesis
    proof (cases "unat t \<in> tei_of c ` set ys")
      case True
      with IH obtain us p n vs where "crm_pred c t y = Some (Some (p, n))"
        "y # ys = us @ p # n # vs" "tei_of c n = unat t" by auto
      moreover have mem: "unat t \<in> tei_of c ` set (y # ys)" using True by auto
      ultimately show ?thesis
        unfolding if_P [OF mem] using eq
        by (intro exI [of _ "i # us"] exI [of _ p] exI [of _ n] exI [of _ vs]) simp
    next
      case no: False
      with IH eq False show ?thesis by auto
    qed
  qed
qed

lemma crm_push_rep:
  assumes rep: "crm_rep c {i} fl bs" and b: "b < 10"
    and t: "\<forall>v \<in> set (bs ! b). unat t < tei_of c v" "unat t div 16 = b"
  shows "crm_rep (crm_push c b i t) {} fl (bs[b := i # bs ! b])"
proof -
  obtain m l where push: "SLIST_Push (crmMem c) (scbBucket c ! b) i = (m, l)" by fastforce
  have "i \<notin> set (bs ! b)" using crm_rep_bucket_set(2) [OF rep b] by auto
  then have "slist_rep m l (i # bs ! b)"
    using slist_push_rep [OF crm_repD(6) [OF rep b] _ push] by simp
  then show ?thesis
    using rep b t push crm_repD(3) [OF rep] slist_push_frame [OF push]
    by (intro crm_rep_link [where us = "[]" and vs = "bs ! b" and l = l and t = t, simplified])
      (auto simp: crm_push_def Let_def upd_scb_def set_bucket_def upd_size_def)
qed

lemma crm_add_after_rep:
  assumes rep: "crm_rep c {i} fl bs" and b: "b < 10" "bs ! b = us @ p # vs"
    and t: "tei_of c p < unat t" "vs \<noteq> [] \<longrightarrow> unat t < tei_of c (hd vs)" "unat t div 16 = b"
  shows "crm_rep (crm_add_after c b p i t) {} fl (bs[b := us @ p # i # vs])"
proof -
  obtain m l where add: "SLIST_Add (crmMem c) (scbBucket c ! b) p i = (m, l)" by fastforce
  have "i \<notin> set (bs ! b)" using crm_rep_bucket_set(2) [OF rep b(1)] by auto
  then have l: "slist_rep m l (us @ p # i # vs)"
    using crm_repD(6) [OF rep b(1)] b(2) by (intro slist_add_rep [OF _ _ add]) auto
  have "sorted_wrt (\<lambda>x y. tei_of c x < tei_of c y) (us @ p # vs)"
    using crm_repD(7) [OF rep b(1)] b(2) by simp
  then have ord: "\<forall>u \<in> set (us @ [p]). tei_of c u < unat t" "\<forall>v \<in> set vs. unat t < tei_of c v"
    using t(1,2) by (auto simp: sorted_wrt_append) (cases vs, auto)
  show ?thesis
    using crm_rep_link [OF rep b(1), of "us @ [p]" vs t "crm_add_after c b p i t" l] b ord t(3) l add
      crm_repD(3) [OF rep] slist_add_frame [OF add]
    by (auto simp: crm_add_after_def Let_def upd_scb_def set_bucket_def)
qed

subsection \<open>Allocation of an SCB with a fresh TEI\<close>

lemma crm_smallest_spec:
  assumes "crm_smallest c = (sz, index)"
  shows "index < 10 \<and> sz = scbBucketSize c ! index \<and> (\<forall>b < 10. sz \<le> scbBucketSize c ! b)"
proof -
  have "case fold (\<lambda>i (sz, index).
      if scbBucketSize c ! i < sz then (scbBucketSize c ! i, i) else (sz, index)) [0..<n]
      (scbBucketSize c ! 0, 0) of (sz, index) \<Rightarrow>
    index \<le> n \<and> (0 < n \<longrightarrow> index < n) \<and> sz = scbBucketSize c ! index \<and>
      (\<forall>b < n. sz \<le> scbBucketSize c ! b)" for n
    by (induction n) (auto simp: less_Suc_eq split: prod.splits if_splits)
  from this [of 10, folded CRM_SCB_HASH_TABLE_SIZE_def, folded crm_smallest_def, unfolded assms prod.case]
  have X: "(0 < (10::nat) \<longrightarrow> index < 10) \<and> sz = scbBucketSize c ! index \<and>
      (\<forall>b < 10. sz \<le> scbBucketSize c ! b)"
    unfolding CRM_SCB_HASH_TABLE_SIZE_def by blast
  moreover have "0 < (10::nat)" by simp
  ultimately show ?thesis by blast
qed

lemma crm_tei_bounds:
  assumes "b < 10"
  shows "unat (crm_mintei b) = max 1 (16 * b)" "unat (crm_maxtei b) = 16 * b + 15"
proof -
  have "b \<in> {0, 1, 2, 3, 4, 5, 6, 7, 8, 9}" using assms by auto
  then show "unat (crm_mintei b) = max 1 (16 * b)" "unat (crm_maxtei b) = 16 * b + 15"
    by (auto simp: crm_mintei_def crm_maxtei_def)
qed

lemma crm_set_free_simps [simp]:
  "scbs (set_free ml c) = scbs c" "scbBucket (set_free ml c) = scbBucket c"
  "scbBucketSize (set_free ml c) = scbBucketSize c" "tei_of (set_free ml c) = tei_of c"
  by (simp_all add: set_free_def tei_of_def fun_eq_iff)

lemma crm_link_fields [simp]:
  "scbs (crm_push c b i t) = (scbs c)[i := (scbs c ! i)\<lparr>tei := t\<rparr>]"
  "scbBucketSize (crm_push c b i t) = (scbBucketSize c)[b := scbBucketSize c ! b + 1]"
  "scbs (crm_add_after c b p i t) = (scbs c)[i := (scbs c ! i)\<lparr>tei := t\<rparr>]"
  "scbBucketSize (crm_add_after c b p i t) = scbBucketSize c"
  "scbs (upd_size b f c) = scbs c"
  "scbBucketSize (upd_size b f c) = (scbBucketSize c)[b := f (scbBucketSize c ! b)]"
  by (simp_all add: crm_push_def crm_add_after_def Let_def upd_scb_def set_bucket_def upd_size_def)

lemma crm_sizes_insert:
  assumes "crm_sizes c bs" "length (scbBucketSize c) = 10" "length bs = 10" "b < 10"
    and "length ys = length (bs ! b) + 1" "length (bs ! b) < 100"
    and "scbBucketSize c' = (scbBucketSize c)[b := scbBucketSize c ! b + 1]"
  shows "crm_sizes c' (bs[b := ys])"
proof -
  have "unat (scbBucketSize c ! b + 1) = unat (scbBucketSize c ! b) + 1"
    using assms(1,4,6) by (simp add: crm_sizes_def unat_word_ariths)
  with assms show ?thesis by (auto simp: crm_sizes_def nth_list_update)
qed

text \<open>What an allocation achieves: SCB \<open>i\<close> is in bucket \<open>b\<close> with a TEI from 1 to 159.\<close>

definition crm_allocated :: "sCrm \<Rightarrow> nat list list \<Rightarrow> sCrm \<Rightarrow> nat \<Rightarrow> nat list \<Rightarrow> nat list list \<Rightarrow> bool" where
  "crm_allocated c bs c' i fl bs' \<longleftrightarrow> crm_rep c' {} fl bs' \<and> crm_sizes c' bs' \<and>
     (\<exists>b us vs. b < 10 \<and> length (bs ! b) < 3 \<and> bs ! b = us @ vs \<and> bs' = bs[b := us @ i # vs]) \<and>
     scbs c' = (scbs c)[i := (scbs c ! i)\<lparr>tei := tei (scbs c' ! i)\<rparr>] \<and>
     1 \<le> tei_of c' i \<and> tei_of c' i < 160"

lemma crm_alloc_link:
  assumes rep: "crm_rep c {i} fl bs" and sz: "crm_sizes c bs" and b: "b < 10" "length (bs ! b) < 3"
  defines "mintei \<equiv> crm_mintei b" and "maxtei \<equiv> crm_maxtei b"
  shows "\<exists>c' bs'. (case head (scbBucket c ! b) of
            None \<Rightarrow> Some (Some i, crm_push c b i mintei)
          | Some h \<Rightarrow> do {
              s \<leftarrow> arr_get (scbs c) h;
              if mintei < tei s then Some (Some i, crm_push c b i mintei)
              else do {
                (gap, p) \<leftarrow> crm_gap c h;
                if gap \<or> tei (scbs c ! p) < maxtei
                then Some (Some i, upd_size b (\<lambda>n. n + 1)
                       (crm_add_after c b p i (tei (scbs c ! p) + 1)))
                else Some (None, c)
              }
            }) = Some (Some i, c') \<and> crm_allocated c bs c' i fl bs'"
proof -
  note R = crm_repD [OF rep]
  note tb = crm_tei_bounds [OF b(1), folded mintei_def maxtei_def]
  have i30: "i < length (scbs c)" using R(1,11) by simp
  have l4: "length (bs ! b) < 100" using b(2) by simp
  have hd: "head (scbBucket c ! b) = first (bs ! b)" using R(6) [OF b(1)] by (rule slist_rep_first)
  have in30: "set (bs ! b) \<subseteq> {..<length (scbs c)}"
    using crm_rep_bucket_set(1) [OF rep b(1)] R(1) by auto
  have push: "crm_allocated c bs (crm_push c b i mintei) i fl (bs[b := i # bs ! b])"
    if "\<forall>v \<in> set (bs ! b). unat mintei < tei_of c v"
  proof -
    have "unat mintei div 16 = b" using tb(1) b(1) by (cases b) auto
    from crm_push_rep [OF rep b(1) that this]
    have "crm_rep (crm_push c b i mintei) {} fl (bs[b := i # bs ! b])" .
    moreover have "\<exists>a us vs. a < 10 \<and> length (bs ! a) < 3 \<and> bs ! a = us @ vs \<and>
        bs[b := i # bs ! b] = bs[a := us @ i # vs]"
      using b by (intro exI [of _ b] exI [of _ "[]"] exI [of _ "bs ! b"]) simp
    ultimately show ?thesis
      using tb(1) b(1) i30 crm_sizes_insert [OF sz R(3,4) b(1) _ l4, of "i # bs ! b"]
      by (simp add: crm_allocated_def tei_of_def)
  qed
  show ?thesis
  proof (cases "bs ! b")
    case Nil
    with hd push show ?thesis by (auto intro!: exI)
  next
    case (Cons h ys)
    have hb: "h < length (scbs c)" using in30 Cons by simp
    show ?thesis
    proof (cases "mintei < tei (scbs c ! h)")
      case True
      then have "\<forall>v \<in> set (bs ! b). unat mintei < tei_of c v"
        using Cons R(7) [OF b(1)] by (auto simp: tei_of_def word_less_nat_alt)
      with push True hb hd Cons show ?thesis by auto
    next
      case False
      obtain us p vs g where g: "crm_gap c h = Some (g, p)" "h # ys = us @ p # vs"
        "if g then vs \<noteq> [] \<and> tei_of c p + 1 < tei_of c (hd vs) else vs = []"
        "tei_of c p \<le> tei_of c h + length us"
        using crm_gap_spec [of c "scbBucket c ! b" "[]" h ys] R(6) [OF b(1)] Cons in30
        by (metis append_Nil)
      have div16: "tei_of c p div 16 = b" "vs \<noteq> [] \<Longrightarrow> tei_of c (hd vs) div 16 = b"
        using R(8) [OF b(1)] Cons g(2) by (auto intro: R(8) [OF b(1)])
      have "tei_of c h \<le> max 1 (16 * b)"
        using False unfolding tb(1) [symmetric] by (simp add: tei_of_def word_less_nat_alt)
      moreover have "length us < 3" using b(2) Cons g(2) by (metis length_append less_le_trans
          le_add1 le_less_trans)
      ultimately have room: "g \<or> tei (scbs c ! p) < maxtei"
        using g(4) tb(2) b(1) by (auto simp: word_less_nat_alt tei_of_def)
      let ?t = "tei (scbs c ! p) + 1"
      have "tei_of c p + 1 < 16 * b + 16"
        using room g(3) div16 tb(2) by (auto simp: word_less_nat_alt tei_of_def split: if_splits)
      then have t: "unat ?t = tei_of c p + 1" "unat ?t div 16 = b"
        using div16(1) b(1) by (auto simp: tei_of_def unat_word_ariths)
      have "crm_rep (crm_add_after c b p i ?t) {} fl (bs[b := us @ p # i # vs])"
        using crm_add_after_rep [OF rep b(1), of us p vs ?t] Cons g(2,3) t by (auto split: if_splits)
      moreover have "\<exists>a us' vs'. a < 10 \<and> length (bs ! a) < 3 \<and> bs ! a = us' @ vs' \<and>
          bs[b := us @ p # i # vs] = bs[a := us' @ i # vs']"
        using b Cons g(2) by (intro exI [of _ b] exI [of _ "us @ [p]"] exI [of _ vs]) simp
      ultimately have "crm_allocated c bs (upd_size b (\<lambda>n. n + 1) (crm_add_after c b p i ?t)) i fl
          (bs[b := us @ p # i # vs])"
        using crm_sizes_insert [OF sz R(3,4) b(1) _ l4, of "us @ p # i # vs"] t b(1) i30 Cons g(2)
        by (simp add: crm_allocated_def tei_of_def)
      with False room hb hd Cons g(1) show ?thesis by auto
    qed
  qed
qed

lemma crm_alloc_spec:
  assumes rep: "crm_rep c {} fl bs" and sz: "crm_sizes c bs"
  shows "if fl = [] \<or> (\<forall>b < 10. 3 \<le> length (bs ! b)) then CRM_AllocScb c = Some (None, c)
    else \<exists>c' bs'. CRM_AllocScb c = Some (Some (hd fl), c') \<and>
      crm_allocated c bs c' (hd fl) (tl fl) bs'"
proof -
  note R = crm_repD [OF rep]
  obtain s index where sm: "crm_smallest c = (s, index)" by fastforce
  note small = crm_smallest_spec [OF sm]
  have emp: "SLIST_IsEmpty (freeQueue c) = (fl = [])" using R(5) by (rule slist_rep_empty_iff)
  have len: "unat (scbBucketSize c ! b) = length (bs ! b)" if "b < 10" for b
    using sz that by (simp add: crm_sizes_def)
  have full: "CRM_SCB_BUCKET_MAX \<le> s \<longleftrightarrow> (\<forall>b < 10. 3 \<le> length (bs ! b))"
  proof
    assume le: "CRM_SCB_BUCKET_MAX \<le> s"
    show "\<forall>b < 10. 3 \<le> length (bs ! b)"
    proof (intro allI impI)
      fix b :: nat assume b: "b < 10"
      with small le have "CRM_SCB_BUCKET_MAX \<le> scbBucketSize c ! b" by (meson order.trans)
      then show "3 \<le> length (bs ! b)" using len [OF b] by (simp add: CRM_SCB_BUCKET_MAX_def word_le_nat_alt)
    qed
  next
    assume "\<forall>b < 10. 3 \<le> length (bs ! b)"
    then have "3 \<le> unat s" using small len by auto
    then show "CRM_SCB_BUCKET_MAX \<le> s" by (simp add: CRM_SCB_BUCKET_MAX_def word_le_nat_alt)
  qed
  show ?thesis
  proof (cases "fl = [] \<or> (\<forall>b < 10. 3 \<le> length (bs ! b))")
    case True
    with emp full sm show ?thesis by (auto simp: CRM_AllocScb_def)
  next
    case False
    then obtain i fl' where fl: "fl = i # fl'" by (cases fl) auto
    obtain m fq where pop: "SLIST_Pop (crmMem c) (freeQueue c) = Some (Some i, m, fq)"
      "crm_rep (set_free (m, fq) c) {i} fl' bs"
      using crm_pop_free [of c "{}" i fl' bs] rep fl by auto
    have ns: "\<not> CRM_SCB_BUCKET_MAX \<le> s" using False full by simp
    then have "length (bs ! index) < 3"
      using small len [of index] by (simp add: CRM_SCB_BUCKET_MAX_def word_le_nat_alt)
    moreover have "crm_sizes (set_free (m, fq) c) bs" using sz by (simp add: crm_sizes_def)
    ultimately obtain c' bs' where link: "(case head (scbBucket (set_free (m, fq) c) ! index) of
            None \<Rightarrow> Some (Some i, crm_push (set_free (m, fq) c) index i (crm_mintei index))
          | Some h \<Rightarrow> do {
              s \<leftarrow> arr_get (scbs (set_free (m, fq) c)) h;
              if crm_mintei index < tei s
              then Some (Some i, crm_push (set_free (m, fq) c) index i (crm_mintei index))
              else do {
                (gap, p) \<leftarrow> crm_gap (set_free (m, fq) c) h;
                if gap \<or> tei (scbs (set_free (m, fq) c) ! p) < crm_maxtei index
                then Some (Some i, upd_size index (\<lambda>n. n + 1)
                       (crm_add_after (set_free (m, fq) c) index p i
                          (tei (scbs (set_free (m, fq) c) ! p) + 1)))
                else Some (None, set_free (m, fq) c)
              }
            }) = Some (Some i, c')"
      "crm_allocated (set_free (m, fq) c) bs c' i fl' bs'"
      using crm_alloc_link [OF pop(2), of index] small by blast
    have "CRM_AllocScb c = Some (Some i, c')"
      unfolding CRM_AllocScb_def using False emp sm ns pop(1) link(1) by (simp add: Let_def)
    moreover have "crm_allocated c bs c' i fl' bs'"
      using link(2) by (simp add: crm_allocated_def)
    ultimately show ?thesis using False fl by auto
  qed
qed

subsection \<open>Lookup by TEI\<close>

lemma crm_getscb_spec:
  assumes "crm_rep c {} fl bs" "unat t < 160"
  shows "CRM_GetScb c t = Some (find (\<lambda>i. tei_of c i = unat t) (bs ! (unat t div 16)))"
proof -
  note R = crm_repD [OF assms(1)]
  let ?b = "unat (drop_bit 4 t)"
  have b: "?b = unat t div 16" "?b < 10" using assms(2) by (simp_all add: unat_drop_bit4)
  have "crm_lookup c t (first (bs ! ?b)) = Some (find (\<lambda>i. tei (scbs c ! i) = t) (bs ! ?b))"
    using crm_rep_bucket_set(1) [OF assms(1) b(2)] R(1) R(6) [OF b(2)]
    by (intro crm_lookup_spec [of c _ "[]"]) auto
  moreover have "head (scbBucket c ! ?b) = first (bs ! ?b)"
    using R(6) [OF b(2)] by (rule slist_rep_first)
  ultimately show ?thesis
    using b R(2) by (simp add: CRM_GetScb_def tei_of_def word_unat_eq_iff)
qed

text \<open>The SCBs in use, and the map from their TEIs.\<close>

definition crm_used :: "nat list list \<Rightarrow> nat set" where
  "crm_used bs = set (concat bs)"

lemma crm_used_iff: "length bs = 10 \<Longrightarrow> i \<in> crm_used bs \<longleftrightarrow> (\<exists>b < 10. i \<in> set (bs ! b))"
  unfolding crm_used_def set_concat UN_iff by (metis in_set_conv_nth nth_mem)

lemma crm_tei_inj:
  assumes rep: "crm_rep c {} fl bs" and i: "i \<in> crm_used bs" and j: "j \<in> crm_used bs"
    and eq: "tei_of c i = tei_of c j"
  shows "i = j"
proof -
  note R = crm_repD [OF rep]
  obtain a b where ab: "a < 10" "i \<in> set (bs ! a)" "b < 10" "j \<in> set (bs ! b)"
    using i j crm_used_iff [OF R(4)] by auto
  then have "a = b" using R(8) eq by metis
  with ab R(7) [of a] eq show ?thesis
    by (metis in_set_conv_nth linorder_neqE_nat order_less_irrefl sorted_wrt_iff_nth_less)
qed

lemma crm_getscb_iff:
  assumes rep: "crm_rep c {} fl bs" and t: "unat t < 160"
  shows "CRM_GetScb c t = Some (Some i) \<longleftrightarrow> i \<in> crm_used bs \<and> tei_of c i = unat t"
    and "CRM_GetScb c t = Some None \<longleftrightarrow> (\<forall>i \<in> crm_used bs. tei_of c i \<noteq> unat t)"
proof -
  note R = crm_repD [OF rep]
  have b: "unat t div 16 < 10" using t by auto
  have in_bucket: "j \<in> set (bs ! (unat t div 16))" if "j \<in> crm_used bs" "tei_of c j = unat t" for j
    using that crm_used_iff [OF R(4)] R(8) by metis
  have used: "j \<in> crm_used bs" if "j \<in> set (bs ! (unat t div 16))" for j
    using that b crm_used_iff [OF R(4)] by blast
  show none: "CRM_GetScb c t = Some None \<longleftrightarrow> (\<forall>i \<in> crm_used bs. tei_of c i \<noteq> unat t)"
    using in_bucket used unfolding crm_getscb_spec [OF rep t] by (auto simp: find_None_iff)
  show "CRM_GetScb c t = Some (Some i) \<longleftrightarrow> i \<in> crm_used bs \<and> tei_of c i = unat t"
  proof
    assume "CRM_GetScb c t = Some (Some i)"
    then show "i \<in> crm_used bs \<and> tei_of c i = unat t"
      unfolding crm_getscb_spec [OF rep t] using used by (auto dest: find_first_Some)
  next
    assume i: "i \<in> crm_used bs \<and> tei_of c i = unat t"
    then obtain j where j: "CRM_GetScb c t = Some (Some j)"
      using none unfolding crm_getscb_spec [OF rep t] by auto
    then have "j \<in> crm_used bs \<and> tei_of c j = unat t"
      unfolding crm_getscb_spec [OF rep t] using used by (auto dest: find_first_Some)
    with i j crm_tei_inj [OF rep] show "CRM_GetScb c t = Some (Some i)" by metis
  qed
qed

subsection \<open>Adding an SCB with a given TEI\<close>

text \<open>The three ways through \<open>CRM_AddScb\<close>.\<close>

lemma crm_add_low:
  assumes "arr_get (scbBucket c) (unat t div 16) = Some l"
    and "case head l of None \<Rightarrow> True | Some h \<Rightarrow> h < length (scbs c) \<and> unat t < tei_of c h"
  shows "CRM_AddScb c t = do {
    (lk, m, fq) \<leftarrow> SLIST_Pop (crmMem c) (freeQueue c);
    let c = set_free (m, fq) c;
    case lk of None \<Rightarrow> Some (None, c) | Some i \<Rightarrow> Some (Some i, crm_push c (unat t div 16) i t)
  }"
  using assms
  by (auto simp: CRM_AddScb_def Let_def unat_drop_bit4 tei_of_def word_less_nat_alt split: option.splits)

lemma crm_add_mid:
  assumes "arr_get (scbBucket c) (unat t div 16) = Some l" "head l = Some h" "h < length (scbs c)"
    and "tei_of c h < unat t" "crm_walk c t h = Some p" "p < length (scbs c)" "tei_of c p < unat t"
  shows "CRM_AddScb c t = do {
    (lk, m, fq) \<leftarrow> SLIST_Pop (crmMem c) (freeQueue c);
    let c = set_free (m, fq) c;
    case lk of None \<Rightarrow> Some (None, c) | Some i \<Rightarrow> Some (Some i, crm_add_after c (unat t div 16) p i t)
  }"
  using assms
  by (auto simp: CRM_AddScb_def Let_def unat_drop_bit4 tei_of_def word_less_nat_alt)

lemma crm_add_found:
  assumes "arr_get (scbBucket c) (unat t div 16) = Some l" "head l = Some h" "h < length (scbs c)"
    and "tei_of c h = unat t \<and> i = h \<or>
      tei_of c h < unat t \<and> crm_walk c t h = Some i \<and> i < length (scbs c) \<and> tei_of c i = unat t"
  shows "CRM_AddScb c t = Some (Some i, c)"
  using assms
  by (auto simp: CRM_AddScb_def Let_def unat_drop_bit4 tei_of_def word_less_nat_alt word_unat_eq_iff)

lemma crm_add_spec:
  assumes rep: "crm_rep c {} fl bs" and t: "unat t < 160"
    and new: "\<forall>i \<in> crm_used bs. tei_of c i \<noteq> unat t"
  shows "case fl of
      [] \<Rightarrow> \<exists>c'. CRM_AddScb c t = Some (None, c') \<and> crm_rep c' {} [] bs
    | i # fl' \<Rightarrow> \<exists>c' us vs. CRM_AddScb c t = Some (Some i, c') \<and>
        bs ! (unat t div 16) = us @ vs \<and>
        crm_rep c' {} fl' (bs[unat t div 16 := us @ i # vs]) \<and>
        scbs c' = (scbs c)[i := (scbs c ! i)\<lparr>tei := t\<rparr>] \<and>
        ((\<exists>v \<in> set (bs ! (unat t div 16)). tei_of c v < unat t) \<longrightarrow>
          scbBucketSize c' = scbBucketSize c) \<and>
        ((\<forall>v \<in> set (bs ! (unat t div 16)). unat t < tei_of c v) \<longrightarrow>
          scbBucketSize c' = (scbBucketSize c)[unat t div 16 := scbBucketSize c ! (unat t div 16) + 1])"
proof -
  note R = crm_repD [OF rep]
  let ?b = "unat t div 16"
  have b: "unat (drop_bit 4 t) = ?b" "?b < 10" using t by (simp_all add: unat_drop_bit4)
  have get: "arr_get (scbBucket c) ?b = Some (scbBucket c ! ?b)" using b(2) R(2) by simp
  have hd: "head (scbBucket c ! ?b) = first (bs ! ?b)" using R(6) [OF b(2)] by (rule slist_rep_first)
  have new_b: "tei_of c j \<noteq> unat t" if "j \<in> set (bs ! ?b)" for j
    using new that b(2) crm_used_iff [OF R(4)] by blast
  have in30: "set (bs ! ?b) \<subseteq> {..<length (scbs c)}"
    using crm_rep_bucket_set(1) [OF rep b(2)] R(1) by auto
  text \<open>where the SCB goes, with the code that runs there\<close>
  have pos: "(\<forall>v \<in> set (bs ! ?b). unat t < tei_of c v) \<or>
      (\<exists>h ys us p vs. bs ! ?b = h # ys \<and> h # ys = us @ p # vs \<and> tei_of c h < unat t \<and>
        crm_walk c t h = Some p \<and> tei_of c p < unat t \<and> (vs \<noteq> [] \<longrightarrow> unat t < tei_of c (hd vs)))"
  proof (cases "bs ! ?b")
    case (Cons h ys)
    show ?thesis
    proof (cases "unat t < tei_of c h")
      case True
      with Cons R(7) [OF b(2)] show ?thesis by fastforce
    next
      case False
      then have h: "tei_of c h < unat t" using new_b [of h] Cons by simp
      obtain us p vs where w: "crm_walk c t h = Some p" "h # ys = us @ p # vs"
        "vs \<noteq> [] \<longrightarrow> unat t < tei_of c (hd vs)" "p \<noteq> h \<longrightarrow> tei_of c p \<le> unat t"
        using crm_walk_spec [of c "scbBucket c ! ?b" "[]" h ys t] R(6) [OF b(2)] Cons in30
        by (metis append_Nil)
      have "p \<in> set (bs ! ?b)" using Cons w(2) by simp
      then have "tei_of c p < unat t" using w(4) h new_b [of p] by (cases "p = h") auto
      with Cons w h show ?thesis by blast
    qed
  qed simp
  show ?thesis
  proof (cases fl)
    case Nil
    obtain m fq where pop: "SLIST_Pop (crmMem c) (freeQueue c) = Some (None, m, fq)"
      "crm_rep (set_free (m, fq) c) {} [] bs"
      using crm_pop_free_empty [of c "{}" bs] rep Nil by auto
    from pos have "CRM_AddScb c t = Some (None, set_free (m, fq) c)"
    proof
      assume low: "\<forall>v \<in> set (bs ! ?b). unat t < tei_of c v"
      show ?thesis
        by (subst crm_add_low [OF get]) (use low hd in30 pop(1) in \<open>cases "bs ! ?b"; simp\<close>)+
    next
      assume "\<exists>h ys us p vs. bs ! ?b = h # ys \<and> h # ys = us @ p # vs \<and> tei_of c h < unat t \<and>
        crm_walk c t h = Some p \<and> tei_of c p < unat t \<and> (vs \<noteq> [] \<longrightarrow> unat t < tei_of c (hd vs))"
      then obtain h ys us p vs where w: "bs ! ?b = h # ys" "h # ys = us @ p # vs"
        "tei_of c h < unat t" "crm_walk c t h = Some p" "tei_of c p < unat t"
        by blast
      have "h < length (scbs c)" using in30 w(1) by auto
      moreover have "p < length (scbs c)" using in30 w(1,2) by auto
      moreover have "head (scbBucket c ! ?b) = Some h" using hd w(1) by simp
      moreover note w(3-5) pop(1)
      ultimately show ?thesis by (subst crm_add_mid [OF get, of h p]) auto
    qed
    with Nil pop(2) show ?thesis by simp
  next
    case (Cons i fl')
    obtain m fq where pop: "SLIST_Pop (crmMem c) (freeQueue c) = Some (Some i, m, fq)"
      "crm_rep (set_free (m, fq) c) {i} fl' bs"
      using crm_pop_free [of c "{}" i fl' bs] rep Cons by auto
    let ?c = "set_free (m, fq) c"
    from pos show ?thesis
    proof
      assume low: "\<forall>v \<in> set (bs ! ?b). unat t < tei_of c v"
      have "CRM_AddScb c t = Some (Some i, crm_push ?c ?b i t)"
        by (subst crm_add_low [OF get]) (use low hd in30 pop(1) in \<open>cases "bs ! ?b"; simp\<close>)+
      moreover have "crm_rep (crm_push ?c ?b i t) {} fl' (bs[?b := [] @ i # bs ! ?b])"
        using crm_push_rep [OF pop(2) b(2), of t] low by simp
      ultimately show ?thesis unfolding Cons list.case
        using low by (intro exI [of _ "crm_push ?c ?b i t"] exI [of _ "[]"] exI [of _ "bs ! ?b"])
          (auto dest: less_asym)
    next
      assume "\<exists>h ys us p vs. bs ! ?b = h # ys \<and> h # ys = us @ p # vs \<and> tei_of c h < unat t \<and>
        crm_walk c t h = Some p \<and> tei_of c p < unat t \<and> (vs \<noteq> [] \<longrightarrow> unat t < tei_of c (hd vs))"
      then obtain h ys us p vs where w: "bs ! ?b = h # ys" "h # ys = us @ p # vs"
        "tei_of c h < unat t" "crm_walk c t h = Some p" "tei_of c p < unat t"
        "vs \<noteq> [] \<longrightarrow> unat t < tei_of c (hd vs)"
        by blast
      have "h < length (scbs c)" using in30 w(1) by auto
      moreover have "p < length (scbs c)" using in30 w(1,2) by auto
      moreover have "head (scbBucket c ! ?b) = Some h" using hd w(1) by simp
      moreover note w(3-5) pop(1)
      ultimately have "CRM_AddScb c t = Some (Some i, crm_add_after ?c ?b p i t)"
        by (subst crm_add_mid [OF get, of h p]) auto
      moreover have "crm_rep (crm_add_after ?c ?b p i t) {} fl' (bs[?b := us @ p # i # vs])"
        using crm_add_after_rep [OF pop(2) b(2), of us p vs t] w by simp
      moreover have "\<not> (\<forall>v \<in> set (bs ! ?b). unat t < tei_of c v)"
        using w(1,3) by (metis list.set_intros(1) less_asym)
      ultimately show ?thesis unfolding Cons list.case using w(1,2)
        by - (rule exI [of _ "crm_add_after ?c ?b p i t"], rule exI [of _ "us @ [p]"],
            rule exI [of _ vs], simp, blast)
    qed
  qed
qed

lemma crm_used_bucket:
  assumes rep: "crm_rep c {} fl bs" and i: "i \<in> crm_used bs"
  shows "tei_of c i div 16 < 10" "i \<in> set (bs ! (tei_of c i div 16))" "i < 30" "tei_of c i < 160"
proof -
  obtain b where b: "b < 10" "i \<in> set (bs ! b)" using i crm_used_iff [OF crm_repD(4) [OF rep]] by auto
  moreover have "tei_of c i div 16 = b" using crm_repD(8) [OF rep] b by blast
  ultimately show "tei_of c i div 16 < 10" "i \<in> set (bs ! (tei_of c i div 16))" "i < 30" "tei_of c i < 160"
    using crm_rep_bucket_set(1) [OF rep b] by auto
qed

lemma crm_add_known:
  assumes rep: "crm_rep c {} fl bs" and i: "i \<in> crm_used bs" "tei_of c i = unat t"
  shows "CRM_AddScb c t = Some (Some i, c)"
proof -
  note R = crm_repD [OF rep]
  let ?b = "unat t div 16"
  have b: "?b < 10" "i \<in> set (bs ! ?b)" using crm_used_bucket [OF rep i(1)] i(2) by auto
  have get: "arr_get (scbBucket c) ?b = Some (scbBucket c ! ?b)" using b(1) R(2) by simp
  obtain h ys where hy: "bs ! ?b = h # ys" using b(2) by (cases "bs ! ?b") auto
  have hd: "head (scbBucket c ! ?b) = Some h" using slist_rep_first [OF R(6) [OF b(1)]] hy by simp
  have in30: "set (h # ys) \<subseteq> {..<length (scbs c)}"
    using crm_rep_bucket_set(1) [OF rep b(1)] R(1) hy by auto
  have srt: "sorted_wrt (\<lambda>i j. tei_of c i < tei_of c j) (h # ys)" using R(7) [OF b(1)] hy by simp
  show ?thesis
  proof (cases "i = h")
    case True
    with i(2) hd in30 show ?thesis by (intro crm_add_found [OF get, of h i]) auto
  next
    case False
    with srt b(2) hy i(2) have low: "tei_of c h < unat t" by auto
    obtain us p vs where w: "crm_walk c t h = Some p" "h # ys = us @ p # vs"
      "vs \<noteq> [] \<longrightarrow> unat t < tei_of c (hd vs)" "p \<noteq> h \<longrightarrow> tei_of c p \<le> unat t"
      using crm_walk_spec [of c "scbBucket c ! ?b" "[]" h ys t] R(6) [OF b(1)] hy in30
      by (metis append_Nil)
    have le: "tei_of c p \<le> unat t" using w(4) low by (cases "p = h") auto
    have srt': "sorted_wrt (\<lambda>i j. tei_of c i < tei_of c j) (us @ p # vs)" using srt w(2) by simp
    have "i \<notin> set us" using srt' le i(2) by (auto simp: sorted_wrt_append)
    moreover have "i \<notin> set vs"
      using srt' w(3) i(2) by (cases vs) (auto simp: sorted_wrt_append)
    ultimately have "i = p" using b(2) hy w(2) by auto
    with low w(1) i(2) hd in30 b(2) hy show ?thesis
      by (intro crm_add_found [OF get, of h i]) auto
  qed
qed

subsection \<open>Releasing an SCB\<close>

definition stm_free_both :: "'t sStm \<Rightarrow> sScb \<Rightarrow> 't sStm" where
  "stm_free_both st s = fst (STM_FreeTimer (fst (STM_FreeTimer st (staTimer s))) (teiTimer s))"

lemma crm_free_spec:
  assumes rep: "crm_rep c {} fl bs" and i: "i \<in> crm_used bs"
  defines "b \<equiv> tei_of c i div 16"
  shows "\<exists>c' us vs. CRM_FreeScb c st i = Some (c', stm_free_both st (scbs c ! i)) \<and>
    bs ! b = us @ i # vs \<and> crm_rep c' {} (fl @ [i]) (bs[b := us @ vs]) \<and>
    scbs c' = (scbs c)[i := clearedScb] \<and>
    scbBucketSize c' = (scbBucketSize c)[b := scbBucketSize c ! b - 1]"
proof -
  let ?t = "tei (scbs c ! i)"
  let ?f = "\<lambda>s. s\<lparr>namState := 0, homState := 0, akmState := 0, hitCount := 0\<rparr>"
  let ?c = "upd_scb i ?f c"
  have b: "b < 10" "i \<in> set (bs ! b)" and i30: "i < 30"
    using crm_used_bucket [OF rep i] by (auto simp: b_def)
  have bt: "unat (drop_bit 4 ?t) = b" by (simp add: b_def tei_of_def unat_drop_bit4)
  have rep1: "crm_rep ?c {} fl bs" using rep by (rule crm_rep_upd_scb) simp
  note R = crm_repD [OF rep1]
  have tei: "tei_of ?c x = tei_of c x" for x
    using i30 crm_repD(1) [OF rep] by (auto simp: tei_of_def upd_scb_def nth_list_update)
  have ti: "unat ?t = tei_of ?c i" using tei by (simp add: tei_of_def)
  have timers: "stm_free_both st (scbs ?c ! i) = stm_free_both st (scbs c ! i)"
    using i30 crm_repD(1) [OF rep] by (simp add: stm_free_both_def upd_scb_def)
  have geti: "arr_get (scbs c) i = Some (scbs c ! i)" using i30 crm_repD(1) [OF rep] by simp
  have getb: "arr_get (scbBucket ?c) b = Some (scbBucket ?c ! b)" using b(1) R(2) by simp
  obtain h ys where hy: "bs ! b = h # ys" using b(2) by (cases "bs ! b") auto
  have hd: "head (scbBucket ?c ! b) = Some h" using slist_rep_first [OF R(6) [OF b(1)]] hy by simp
  have in30: "set (h # ys) \<subseteq> {..<length (scbs ?c)}"
    using crm_rep_bucket_set(1) [OF rep1 b(1)] R(1) hy by auto
  have fin: "crm_rep (upd_size b (\<lambda>n. n - 1) (crm_clear_put (set_bucket b (m, l) ?c) i)) {} (fl @ [i])
        (bs[b := us @ vs])"
    if "bs ! b = us @ i # vs" "slist_rep m l (us @ vs)"
      "\<And>x. x \<notin> set (bs ! b) \<Longrightarrow> lnk m x = lnk (crmMem ?c) x" for m l us vs
    using crm_rep_put_free [of "set_bucket b (m, l) ?c" i "{}" fl "bs[b := us @ vs]"]
      crm_rep_unlink [OF rep1 b(1) that] by simp
  have fields: "scbs (upd_size b (\<lambda>n. n - 1) (crm_clear_put (set_bucket b (m, l) ?c) i)) =
        (scbs c)[i := clearedScb] \<and>
      scbBucketSize (upd_size b (\<lambda>n. n - 1) (crm_clear_put (set_bucket b (m, l) ?c) i)) =
        (scbBucketSize c)[b := scbBucketSize c ! b - 1]" for m l
    by (simp add: crm_clear_put_def Let_def upd_scb_def set_bucket_def set_free_def upd_size_def)
  show ?thesis
  proof (cases "h = i")
    case True
    obtain m l where pop: "SLIST_Pop (crmMem ?c) (scbBucket ?c ! b) = Some (Some i, m, l)"
      "slist_rep m l ys" "lnk m = lnk (crmMem ?c)"
      using slist_pop_rep [of "crmMem ?c" "scbBucket ?c ! b" i ys] R(6) [OF b(1)] hy True by auto
    let ?c' = "upd_size b (\<lambda>n. n - 1) (crm_clear_put (set_bucket b (m, l) ?c) i)"
    have "CRM_FreeScb c st i = Some (?c', stm_free_both st (scbs c ! i))"
      unfolding CRM_FreeScb_def geti bind.bind_lunit Let_def bt getb hd
      using pop(1) in30 True timers
      by (simp add: crm_release_eq stm_free_both_def [symmetric]) (simp add: set_bucket_def upd_scb_def)
    with fin [of "[]" ys m l] fields [of m l] hy True pop(2,3) show ?thesis
      by (intro exI [of _ ?c'] exI [of _ "[]"] exI [of _ ys]) simp
  next
    case False
    have iys: "i \<in> set ys" using b(2) hy False by simp
    have lt: "tei_of ?c h < tei_of ?c i" using R(7) [OF b(1)] hy iys by simp
    have "unat ?t \<in> tei_of ?c ` set ys" using iys ti by auto
    then obtain us p n vs where w: "crm_pred ?c ?t h = Some (Some (p, n))"
      "h # ys = us @ p # n # vs" "tei_of ?c n = unat ?t"
      using crm_pred_spec [of ?c "scbBucket ?c ! b" "[]" h ys ?t] R(6) [OF b(1)] hy in30 by auto
    have "n \<in> crm_used bs"
      using w(2) hy b(1) crm_used_iff [OF R(4)] by (metis in_set_conv_decomp append_Cons append_assoc append_eq_append_conv2)
    then have n: "n = i" using crm_tei_inj [OF rep1 _ i] w(3) ti by simp
    obtain m l where rm: "SLIST_Remove (crmMem ?c) (scbBucket ?c ! b) p i = (m, l)" by fastforce
    have l: "slist_rep m l (us @ p # vs)"
      using slist_remove_rep [OF _ rm, of us vs] R(6) [OF b(1)] hy w(2) n by simp
    have fr: "lnk m x = lnk (crmMem ?c) x" if "x \<notin> set (bs ! b)" for x
      using slist_remove_frame [OF rm, of x] that hy w(2) by auto
    let ?c' = "upd_size b (\<lambda>n. n - 1) (crm_clear_put (set_bucket b (m, l) ?c) i)"
    have ne: "tei (scbs ?c ! h) \<noteq> ?t" using lt ti by (auto simp: tei_of_def)
    have "CRM_FreeScb c st i = Some (?c', stm_free_both st (scbs c ! i))"
      unfolding CRM_FreeScb_def geti bind.bind_lunit Let_def bt getb hd
      using w(1) n rm in30 ne timers
      by (simp add: crm_release_eq stm_free_both_def [symmetric]) (simp add: set_bucket_def upd_scb_def)
    with fin [of "us @ [p]" vs m l] fields [of m l] hy w(2) n l fr show ?thesis
      by (intro exI [of _ ?c'] exI [of _ "us @ [p]"] exI [of _ vs]) simp
  qed
qed

end
