(* ===== verification/CrmTable.thy ===== *)
theory CrmTable
  imports CrmProps StmProc
begin

text \<open>
  The station table as a whole: the iteration visits every SCB once in ascending order of the
  TEI, the initialisation gives the empty table, and allocation and release form a pool.
\<close>

subsection \<open>Iteration\<close>

lemma concat_drop_Cons: "b < length xss \<Longrightarrow> concat (drop b xss) = xss ! b @ concat (drop (Suc b) xss)"
  by (simp flip: Cons_nth_drop_Suc)

lemma crm_next_bucket_spec:
  assumes rep: "crm_rep c {} fl bs"
  shows "b \<le> 10 \<Longrightarrow> (case crm_next_bucket c b of
       None \<Rightarrow> concat (drop b bs) = []
     | Some a \<Rightarrow> head (scbBucket c ! a) = first (concat (drop b bs)) \<and> concat (drop b bs) \<noteq> [])"
proof (induction "10 - b" arbitrary: b)
  case 0
  then show ?case
    using crm_repD(4) [OF rep] by (simp add: crm_next_bucket_def CRM_SCB_HASH_TABLE_SIZE_def)
next
  case (Suc n)
  note R = crm_repD [OF rep]
  have b: "b < 10" using Suc by simp
  have hd: "head (scbBucket c ! b) = first (bs ! b)" using R(6) [OF b] by (rule slist_rep_first)
  have emp: "SLIST_IsEmpty (scbBucket c ! b) = (bs ! b = [])" using R(6) [OF b] by (rule slist_rep_empty_iff)
  have nb: "crm_next_bucket c b =
      (if bs ! b = [] then crm_next_bucket c (Suc b) else Some b)"
    using b emp by (simp add: crm_next_bucket_def CRM_SCB_HASH_TABLE_SIZE_def upt_conv_Cons)
  have cc: "concat (drop b bs) = bs ! b @ concat (drop (Suc b) bs)"
    using b R(4) by (intro concat_drop_Cons) simp
  show ?case
  proof (cases "bs ! b")
    case Nil
    with nb cc Suc.hyps(1) [of "Suc b"] Suc.hyps(2) b show ?thesis by (auto split: option.splits)
  next
    case (Cons x xs)
    with nb cc hd show ?thesis by simp
  qed
qed

lemma crm_getnext_None:
  assumes "crm_rep c {} fl bs"
  shows "CRM_GetNextScb c None = Some (first (concat bs))"
  using crm_next_bucket_spec [OF assms, of 0]
  by (auto simp: CRM_GetNextScb_def CRM_SCB_HASH_TABLE_SIZE_def simp del: concat_eq_Nil_conv
      split: option.splits)

lemma concat_split:
  "concat xss = us @ i # vs \<Longrightarrow>
     \<exists>b ws zs. b < length xss \<and> xss ! b = ws @ i # zs \<and> vs = zs @ concat (drop (Suc b) xss)"
proof (induction xss arbitrary: us)
  case (Cons xs xss)
  from Cons.prems consider (here) zs where "xs = us @ i # zs" "vs = zs @ concat xss"
    | (there) us' where "concat xss = us' @ i # vs"
    by (auto simp: append_eq_append_conv2 append_eq_Cons_conv)
  then show ?case
  proof cases
    case here
    then show ?thesis by (intro exI [of _ 0]) auto
  next
    case there
    with Cons.IH obtain b ws zs where
      "b < length xss \<and> xss ! b = ws @ i # zs \<and> vs = zs @ concat (drop (Suc b) xss)" by blast
    then show ?thesis by (intro exI [of _ "Suc b"]) auto
  qed
qed simp

lemma crm_getnext_Some:
  assumes rep: "crm_rep c {} fl bs" and i: "concat bs = us @ i # vs"
  shows "CRM_GetNextScb c (Some i) = Some (first vs)"
proof -
  note R = crm_repD [OF rep]
  obtain b ws zs where b: "b < length bs" "bs ! b = ws @ i # zs" "vs = zs @ concat (drop (Suc b) bs)"
    using concat_split [OF i] by blast
  have b10: "b < 10" using b(1) R(4) by simp
  have nxt: "lnk (crmMem c) i = first zs"
    using R(6) [OF b10] unfolding b(2) by (rule slist_rep_succ)
  have bt: "unat (drop_bit 4 (tei (scbs c ! i))) = b"
    using R(8) [OF b10, of i] b(2) by (simp add: unat_drop_bit4 tei_of_def)
  have i30: "i < length (scbs c)" using crm_rep_bucket_set(1) [OF rep b10, of i] b(2) R(1) by simp
  show ?thesis
  proof (cases zs)
    case (Cons z zs')
    with nxt i30 b(3) show ?thesis by (simp add: CRM_GetNextScb_def Let_def)
  next
    case Nil
    then have vs: "vs = concat (drop (Suc b) bs)" using b(3) by simp
    show ?thesis
      using crm_next_bucket_spec [OF rep, of "Suc b"] nxt i30 bt b10 Nil R(4) unfolding vs
      by (auto simp: CRM_GetNextScb_def Let_def CRM_SCB_HASH_TABLE_SIZE_def simp del: concat_eq_Nil_conv
          split: option.splits)
  qed
qed

lemma crm_find_from_spec:
  assumes rep: "crm_rep c {} fl bs"
  shows "concat bs = us @ vs \<Longrightarrow>
    crm_find_from c P (first vs) = Some (find (\<lambda>i. P (scbs c ! i)) vs)"
proof (induction vs arbitrary: us)
  case Nil
  then show ?case by (simp add: crm_find_from.simps)
next
  case (Cons v vs)
  have "v < length (scbs c)"
    using crm_repD(1,10) [OF rep] Cons.prems by auto
  with Cons.IH [of "us @ [v]"] crm_getnext_Some [OF rep Cons.prems] Cons.prems show ?case
    by (simp add: crm_find_from.simps [of c P "Some v"])
qed

lemma crm_find_spec:
  assumes "crm_rep c {} fl bs"
  shows "crm_find c P = Some (find (\<lambda>i. P (scbs c ! i)) (concat bs))"
  using crm_find_from_spec [OF assms, of "[]"] crm_getnext_None [OF assms] by (simp add: crm_find_def)

text \<open>The order of the iteration is the order of the TEIs.\<close>

lemma crm_iteration_sorted:
  assumes rep: "crm_rep c {} fl bs"
  shows "sorted_wrt (\<lambda>i j. tei_of c i < tei_of c j) (concat bs)"
proof -
  note R = crm_repD [OF rep]
  have "n \<le> 10 \<Longrightarrow> sorted_wrt (\<lambda>i j. tei_of c i < tei_of c j) (concat (take n bs)) \<and>
      (\<forall>i \<in> set (concat (take n bs)). tei_of c i < 16 * n)" for n
  proof (induction n)
    case (Suc n)
    then have n: "n < 10" by simp
    have "tei_of c i div 16 = n" if "i \<in> set (bs ! n)" for i using R(8) [OF n that] .
    then have "16 * n \<le> tei_of c i \<and> tei_of c i < 16 * Suc n" if "i \<in> set (bs ! n)" for i
      using that by fastforce
    with Suc n R(4) R(7) [OF n] show ?case
      by (auto simp: take_Suc_conv_app_nth sorted_wrt_append) fastforce+
  qed simp
  from this [of 10] R(4) show ?thesis by simp
qed

subsection \<open>Initialisation\<close>

lemma crm_init_buckets:
  fixes c :: sCrm
  assumes "length (scbBucket c) = 10" "length (scbBucketSize c) = 10" "n \<le> 10"
  shows "let c' = fold (\<lambda>b c. upd_size b (\<lambda>_. 0) (set_bucket b (SLIST_Init (crmMem c)) c)) [0..<n] c in
    length (scbBucket c') = 10 \<and> length (scbBucketSize c') = 10 \<and> scbs c' = scbs c \<and>
    (\<forall>b < n. head (scbBucket c' ! b) = None \<and> tail (scbBucket c' ! b) = None \<and>
      scbBucketSize c' ! b = 0)"
  using assms(3)
proof (induction n)
  case 0
  with assms show ?case by simp
next
  case (Suc n)
  then show ?case
    by (auto simp: Let_def upd_size_def set_bucket_def SLIST_Init_def nth_list_update less_Suc_eq)
qed

lemma crm_init_free:
  fixes c :: sCrm
  assumes "length (scbs c) = 30" "slist_rep (crmMem c) (freeQueue c) []" "n \<le> 30"
  shows "let c' = fold (\<lambda>i c. crm_clear_put c i) [0..<n] c in
    scbBucket c' = scbBucket c \<and> scbBucketSize c' = scbBucketSize c \<and> length (scbs c') = 30 \<and>
    (\<forall>i < n. scbs c' ! i = clearedScb) \<and> slist_rep (crmMem c') (freeQueue c') [0..<n]"
  using assms(3)
proof (induction n)
  case 0
  with assms show ?case by simp
next
  case (Suc n)
  define c1 where "c1 = fold (\<lambda>i c. crm_clear_put c i) [0..<n] c"
  have IH: "scbBucket c1 = scbBucket c" "scbBucketSize c1 = scbBucketSize c" "length (scbs c1) = 30"
    "\<forall>i < n. scbs c1 ! i = clearedScb" "slist_rep (crmMem c1) (freeQueue c1) [0..<n]"
    using Suc by (auto simp: c1_def Let_def)
  obtain m fq where put: "SLIST_Put ((crmMem c1)\<lparr>lnk := (lnk (crmMem c1))(n := None)\<rparr>) (freeQueue c1) n = (m, fq)"
    by fastforce
  have "slist_rep ((crmMem c1)\<lparr>lnk := (lnk (crmMem c1))(n := None)\<rparr>) (freeQueue c1) [0..<n]"
    using IH(5) by (auto intro: slist_rep_frame)
  from slist_put_rep [OF this _ put] have "slist_rep m fq ([0..<n] @ [n])" by simp
  moreover have "fold (\<lambda>i c. crm_clear_put c i) [0..<Suc n] c = crm_clear_put c1 n"
    by (simp add: c1_def)
  ultimately show ?case
    using put IH Suc.prems
    by (auto simp: Let_def crm_clear_put_def upd_scb_def set_free_def nth_list_update less_Suc_eq)
qed

text \<open>
  The store before the first initialisation: cleared memory, in which every bucket is empty.
\<close>

lemma crm_init_spec:
  assumes len: "length (scbs c) = 30" "length (scbBucket c) = 10" "length (scbBucketSize c) = 10"
    and emp: "\<forall>b < 10. head (scbBucket c ! b) = None"
  shows "\<exists>c'. CRM_Init c st = Some (c', st) \<and> crm_rep c' {} [0..<30] (replicate 10 []) \<and>
    crm_sizes c' (replicate 10 [])"
proof -
  have next_bucket: "crm_next_bucket c 0 = None"
    using emp by (auto simp: crm_next_bucket_def find_None_iff SLIST_IsEmpty_def CRM_SCB_HASH_TABLE_SIZE_def)
  then have nn: "CRM_GetNextScb c None = Some None" by (simp add: CRM_GetNextScb_def)
  define c1 where "c1 = fold (\<lambda>b c. upd_size b (\<lambda>_. 0) (set_bucket b (SLIST_Init (crmMem c)) c))
     [0..<CRM_SCB_HASH_TABLE_SIZE] c"
  define c2 where "c2 = set_free (SLIST_Init (crmMem c1)) c1"
  define c3 where "c3 = fold (\<lambda>i c. crm_clear_put c i) [0..<CRM_SCB_MAX] c2"
  have run: "CRM_Init c st = Some (c3, st)"
    by (simp add: CRM_Init_def nn crm_free_timers.simps c1_def c2_def c3_def Let_def)
  have b: "length (scbBucket c1) = 10" "length (scbBucketSize c1) = 10" "scbs c1 = scbs c"
    "\<forall>b < 10. head (scbBucket c1 ! b) = None \<and> tail (scbBucket c1 ! b) = None \<and>
      scbBucketSize c1 ! b = 0"
    using crm_init_buckets [OF len(2,3), of 10] by (simp_all add: c1_def Let_def CRM_SCB_HASH_TABLE_SIZE_def)
  have c2: "slist_rep (crmMem c2) (freeQueue c2) []" "scbs c2 = scbs c" "scbBucket c2 = scbBucket c1"
    "scbBucketSize c2 = scbBucketSize c1"
    using b(3) by (simp_all add: c2_def set_free_def SLIST_Init_def)
  have "length (scbs c2) = 30" using c2(2) len(1) by simp
  from crm_init_free [OF this c2(1), of 30] have c3: "scbBucket c3 = scbBucket c1"
    "scbBucketSize c3 = scbBucketSize c1" "length (scbs c3) = 30"
    "slist_rep (crmMem c3) (freeQueue c3) [0..<30]"
    using c2(3,4) by (simp_all add: c3_def Let_def CRM_SCB_MAX_def)
  have "mset [0..<30] = mset_set {..<30::nat}"
    by (metis atLeast_upt mset_set_set distinct_upt)
  with c3 b have "crm_rep c3 {} [0..<30] (replicate 10 [])" by (simp add: crm_rep_def)
  moreover have "crm_sizes c3 (replicate 10 [])" using c3(2) b(4) by (simp add: crm_sizes_def)
  ultimately show ?thesis using run by blast
qed

subsection \<open>Allocation and release form a pool of SCBs\<close>

definition scbs_used :: "sCrm \<times> 't sStm \<Rightarrow> nat set" where
  "scbs_used cs = {i. \<exists>t. unat t < 160 \<and> CRM_GetScb (fst cs) t = Some (Some i)}"

definition scb_take :: "sCrm \<times> 't sStm \<Rightarrow> (nat option \<times> sCrm \<times> 't sStm) option" where
  "scb_take cs = do { (r, c) \<leftarrow> CRM_AllocScb (fst cs); Some (r, c, snd cs) }"

definition scb_give :: "nat \<Rightarrow> sCrm \<times> 't sStm \<Rightarrow> (sCrm \<times> 't sStm) option" where
  "scb_give i cs = CRM_FreeScb (fst cs) (snd cs) i"

definition crm_pool :: "sCrm \<Rightarrow> nat list \<Rightarrow> nat list list \<Rightarrow> bool" where
  "crm_pool c fl bs \<longleftrightarrow> crm_rep c {} fl bs \<and> crm_sizes c bs \<and> (\<forall>b < 10. length (bs ! b) \<le> 3)"

lemma scbs_used_eq:
  assumes "crm_rep (fst cs) {} fl bs"
  shows "scbs_used cs = crm_used bs"
proof -
  have "\<exists>t :: u8. unat t < 160 \<and> tei_of (fst cs) i = unat t" if "i \<in> crm_used bs" for i
    using crm_used_bucket(4) [OF assms that] by (auto simp: tei_of_def)
  then show ?thesis
    unfolding scbs_used_def using crm_getscb_iff(1) [OF assms] by blast
qed

lemma crm_used_partition:
  assumes "crm_rep c {} fl bs"
  shows "crm_used bs \<subseteq> {..<30}" "crm_used bs = {..<30} \<longleftrightarrow> fl = []" "card (crm_used bs) = length (concat bs)"
proof -
  have d: "distinct (concat bs)" "set fl \<inter> crm_used bs = {}" "set fl \<union> crm_used bs = {..<30}"
    using crm_repD(9,10) [OF assms] by (simp_all add: crm_used_def del: set_concat)
  then show "crm_used bs \<subseteq> {..<30}" "crm_used bs = {..<30} \<longleftrightarrow> fl = []"
    by (blast, metis Int_absorb2 Un_upper1 set_empty sup_bot_left)
  show "card (crm_used bs) = length (concat bs)"
    unfolding crm_used_def using d(1) by (rule distinct_card)
qed

lemma sum_list_const: "(\<And>x. x \<in> set xs \<Longrightarrow> f x = k) \<Longrightarrow> sum_list (map f xs) = length xs * (k::nat)"
  by (induction xs) auto

lemma crm_pool_room:
  assumes "crm_pool c fl bs" "fl \<noteq> []"
  shows "\<exists>b < 10. length (bs ! b) < 3"
proof (rule ccontr)
  assume "\<not> ?thesis"
  then have "length (bs ! b) = 3" if "b < 10" for b
    using assms(1) that by (meson crm_pool_def not_less order.antisym)
  moreover have rep: "crm_rep c {} fl bs" using assms(1) by (simp add: crm_pool_def)
  ultimately have "length xs = 3" if "xs \<in> set bs" for xs
    using crm_repD(4) [OF rep] that by (auto simp: in_set_conv_nth)
  then have "length (concat bs) = 30"
    using sum_list_const [of bs length 3] crm_repD(4) [OF rep] by (simp add: length_concat)
  with crm_used_partition [OF rep] assms(2) show False
    by (metis card_lessThan card_subset_eq finite_lessThan)
qed

lemma scb_take_spec:
  assumes pool: "crm_pool (fst cs) fl bs"
  shows "if fl = [] then scb_take cs = Some (None, cs)
    else \<exists>c' fl' bs'. scb_take cs = Some (Some (hd fl), c', snd cs) \<and> crm_pool c' fl' bs' \<and>
      hd fl \<notin> crm_used bs \<and> crm_used bs' = insert (hd fl) (crm_used bs)"
proof (cases "fl = []")
  case True
  have "crm_rep (fst cs) {} fl bs" "crm_sizes (fst cs) bs" using pool by (simp_all add: crm_pool_def)
  from crm_alloc_spec [OF this] True show ?thesis by (simp add: scb_take_def)
next
  case False
  have rep: "crm_rep (fst cs) {} fl bs" "crm_sizes (fst cs) bs" using pool by (simp_all add: crm_pool_def)
  have "\<not> (fl = [] \<or> (\<forall>b < 10. 3 \<le> length (bs ! b)))"
    using crm_pool_room [OF pool False] False by force
  from crm_alloc_spec [OF rep, unfolded if_not_P [OF this]] obtain c' bs' where
    a: "CRM_AllocScb (fst cs) = Some (Some (hd fl), c')" "crm_allocated (fst cs) bs c' (hd fl) (tl fl) bs'"
    by blast
  then obtain b us vs where b: "b < 10" "length (bs ! b) < 3" "bs ! b = us @ vs"
      "bs' = bs[b := us @ hd fl # vs]" "crm_rep c' {} (tl fl) bs'" "crm_sizes c' bs'"
    by (auto simp: crm_allocated_def)
  have len: "length bs = 10" using crm_repD(4) [OF rep(1)] .
  have "length (bs' ! a) \<le> 3" if "a < 10" for a
    using that pool b(1-3) len unfolding b(4) by (cases "a = b") (auto simp: crm_pool_def)
  then have "crm_pool c' (tl fl) bs'" using b(5,6) by (simp add: crm_pool_def)
  moreover have "hd fl \<notin> crm_used bs" "crm_used bs' = insert (hd fl) (crm_used bs)"
  proof -
    show "hd fl \<notin> crm_used bs"
      using crm_repD(9) [OF rep(1)] False by (cases fl) (auto simp: crm_used_def)
    have "mset (concat bs') = add_mset (hd fl) (mset (concat bs))"
      using mset_concat_update [of b bs "us @ hd fl # vs"] b(1,3) len unfolding b(4) by simp
    then show "crm_used bs' = insert (hd fl) (crm_used bs)"
      unfolding crm_used_def by (metis set_mset_add_mset_insert set_mset_mset)
  qed
  ultimately show ?thesis using a(1) False by (auto simp: scb_take_def)
qed

lemma scb_give_spec:
  assumes pool: "crm_pool (fst cs) fl bs" and i: "i \<in> crm_used bs"
  shows "\<exists>cs' fl' bs'. scb_give i cs = Some cs' \<and> crm_pool (fst cs') fl' bs' \<and>
    crm_used bs' = crm_used bs - {i}"
proof -
  have rep: "crm_rep (fst cs) {} fl bs" "crm_sizes (fst cs) bs" using pool by (simp_all add: crm_pool_def)
  let ?b = "tei_of (fst cs) i div 16"
  obtain c' us vs where f: "CRM_FreeScb (fst cs) (snd cs) i = Some (c', stm_free_both (snd cs) (scbs (fst cs) ! i))"
    "bs ! ?b = us @ i # vs" "crm_rep c' {} (fl @ [i]) (bs[?b := us @ vs])"
    "scbBucketSize c' = (scbBucketSize (fst cs))[?b := scbBucketSize (fst cs) ! ?b - 1]"
    using crm_free_spec [OF rep(1) i, where st = "snd cs"] by auto
  note R = crm_repD [OF rep(1)]
  have b: "?b < 10" using crm_used_bucket(1) [OF rep(1) i] .
  have "unat (scbBucketSize (fst cs) ! ?b) = length us + length vs + 1"
    using rep(2) b f(2) by (simp add: crm_sizes_def)
  then have "unat (scbBucketSize (fst cs) ! ?b - 1) = length us + length vs"
    by (subst unat_sub) (auto simp: word_le_nat_alt)
  then have "crm_sizes c' (bs[?b := us @ vs])"
    using rep(2) R(3,4) b f(2,4) by (auto simp: crm_sizes_def nth_list_update)
  moreover have "length (bs[?b := us @ vs] ! a) \<le> 3" if a: "a < 10" for a
  proof (cases "a = ?b")
    case True
    have "length (bs ! ?b) \<le> 3" using pool b by (simp add: crm_pool_def)
    with True R(4) b f(2) show ?thesis by simp
  next
    case False
    with pool a show ?thesis by (simp add: crm_pool_def)
  qed
  ultimately have "crm_pool c' (fl @ [i]) (bs[?b := us @ vs])" using f(3) by (simp add: crm_pool_def)
  moreover have "crm_used (bs[?b := us @ vs]) = crm_used bs - {i}"
  proof -
    have m: "add_mset i (mset (concat (bs[?b := us @ vs]))) = mset (concat bs)"
      using mset_concat_update [of ?b bs "us @ vs"] b f(2) R(4) by simp
    have d: "distinct (concat bs)" using R(9) by simp
    then have "i \<notin> set (concat (bs[?b := us @ vs]))"
      using m by (metis mset_eq_imp_distinct_iff mset.simps(2) distinct.simps(2))
    with m show ?thesis unfolding crm_used_def
      by (metis Diff_insert_absorb set_mset_add_mset_insert set_mset_mset)
  qed
  ultimately show ?thesis using f(1) by (auto simp: scb_give_def)
qed

interpretation scb: id_pool "\<lambda>cs. \<exists>fl bs. crm_pool (fst cs) fl bs" scbs_used "{..<30}"
  scb_take scb_give
proof unfold_locales
  show "finite {..<30::nat}" by simp
next
  fix cs :: "sCrm \<times> 't sStm"
  assume "\<exists>fl bs. crm_pool (fst cs) fl bs"
  then obtain fl bs where "crm_rep (fst cs) {} fl bs" by (auto simp: crm_pool_def)
  then show "scbs_used cs \<subseteq> {..<30}" using scbs_used_eq crm_used_partition(1) by blast
next
  fix cs :: "sCrm \<times> 't sStm"
  assume "\<exists>fl bs. crm_pool (fst cs) fl bs" and ne: "scbs_used cs \<noteq> {..<30}"
  then obtain fl bs where p: "crm_pool (fst cs) fl bs" and r: "crm_rep (fst cs) {} fl bs"
    by (auto simp: crm_pool_def)
  from ne have "fl \<noteq> []" using scbs_used_eq [OF r] crm_used_partition(2) [OF r] by simp
  with scb_take_spec [OF p] obtain c' fl' bs' where t: "scb_take cs = Some (Some (hd fl), c', snd cs)"
    "crm_pool c' fl' bs'" "hd fl \<notin> crm_used bs" "crm_used bs' = insert (hd fl) (crm_used bs)"
    by auto
  moreover have "scbs_used (c', snd cs) = crm_used bs'"
    by (rule scbs_used_eq [of _ fl']) (use t(2) in \<open>simp add: crm_pool_def\<close>)
  ultimately show "\<exists>h s'. scb_take cs = Some (Some h, s') \<and> (\<exists>fl bs. crm_pool (fst s') fl bs) \<and>
      h \<notin> scbs_used cs \<and> scbs_used s' = insert h (scbs_used cs)"
    using scbs_used_eq [OF r] by (intro exI [of _ "hd fl"] exI [of _ "(c', snd cs)"]) auto
next
  fix cs :: "sCrm \<times> 't sStm"
  assume "\<exists>fl bs. crm_pool (fst cs) fl bs" and eq: "scbs_used cs = {..<30}"
  then obtain fl bs where p: "crm_pool (fst cs) fl bs" and r: "crm_rep (fst cs) {} fl bs"
    by (auto simp: crm_pool_def)
  have "fl = []" using eq scbs_used_eq [OF r] crm_used_partition(2) [OF r] by simp
  with scb_take_spec [OF p] p eq show "\<exists>s'. scb_take cs = Some (None, s') \<and>
      (\<exists>fl bs. crm_pool (fst s') fl bs) \<and> scbs_used s' = {..<30}"
    by auto
next
  fix cs :: "sCrm \<times> 't sStm" and i
  assume "\<exists>fl bs. crm_pool (fst cs) fl bs" and i: "i \<in> scbs_used cs"
  then obtain fl bs where p: "crm_pool (fst cs) fl bs" and r: "crm_rep (fst cs) {} fl bs"
    by (auto simp: crm_pool_def)
  obtain cs' fl' bs' where g: "scb_give i cs = Some cs'" "crm_pool (fst cs') fl' bs'"
    "crm_used bs' = crm_used bs - {i}"
    using scb_give_spec [OF p, of i] i scbs_used_eq [OF r] by auto
  moreover have "scbs_used cs' = crm_used bs'"
    by (rule scbs_used_eq [of _ fl']) (use g(2) in \<open>simp add: crm_pool_def\<close>)
  ultimately show "\<exists>s'. scb_give i cs = Some s' \<and> (\<exists>fl bs. crm_pool (fst s') fl bs) \<and>
      scbs_used s' = scbs_used cs - {i}"
    using scbs_used_eq [OF r] by auto
qed

subsection \<open>Properties\<close>

text \<open>The table in memory that has been cleared, and after its initialisation.\<close>

definition crm_zero :: sCrm where
  "crm_zero = \<lparr>scbs = replicate 30 (clearedScb\<lparr>staTimer := 0, teiTimer := 0\<rparr>),
     crmMem = \<lparr>lnk = (\<lambda>_. None), EA = True\<rparr>, scbBucket = replicate 10 \<lparr>head = None, tail = None\<rparr>,
     scbBucketSize = replicate 10 0, freeQueue = \<lparr>head = None, tail = None\<rparr>\<rparr>"

definition crm_start :: sCrm where
  "crm_start = fst (the (CRM_Init crm_zero stm_zero))"

lemma crm_start_rep: "crm_rep crm_start {} [0..<30] (replicate 10 [])"
  "crm_sizes crm_start (replicate 10 [])"
  using crm_init_spec [of crm_zero stm_zero] by (auto simp: crm_start_def crm_zero_def)

text \<open>C8.
  \<open>CRM_AllocScb\<close> takes the SCB at the head of the free queue, gives it a TEI from 1 to 159
  that no SCB in the table has, links it so that every bucket stays ordered by TEI, and counts
  it; it returns \<open>NULL\<close> and changes nothing exactly when there is no free SCB or every bucket
  holds three.  The error branch behind the search for a TEI is unreachable.\<close>

theorem crm_alloc_fresh_tei:
  assumes "crm_rep c {} fl bs" and "crm_sizes c bs"
  shows "if fl = [] \<or> (\<forall>b < 10. 3 \<le> length (bs ! b)) then CRM_AllocScb c = Some (None, c)
    else \<exists>c' bs'. CRM_AllocScb c = Some (Some (hd fl), c') \<and> crm_rep c' {} (tl fl) bs' \<and>
      crm_sizes c' bs' \<and> crm_used bs' = insert (hd fl) (crm_used bs) \<and>
      1 \<le> tei_of c' (hd fl) \<and> tei_of c' (hd fl) < 160 \<and>
      (\<forall>i \<in> crm_used bs. tei_of c' i = tei_of c i \<and> tei_of c i \<noteq> tei_of c' (hd fl))"
proof (cases "fl = [] \<or> (\<forall>b < 10. 3 \<le> length (bs ! b))")
  case True
  with crm_alloc_spec [OF assms] show ?thesis by (simp only: if_True)
next
  case False
  note R = crm_repD [OF assms(1)]
  from crm_alloc_spec [OF assms, unfolded if_not_P [OF False]] obtain c' bs' where
    a: "CRM_AllocScb c = Some (Some (hd fl), c')" "crm_allocated c bs c' (hd fl) (tl fl) bs'" by blast
  then obtain b us vs where b: "b < 10" "bs ! b = us @ vs" "bs' = bs[b := us @ hd fl # vs]"
      "crm_rep c' {} (tl fl) bs'" "crm_sizes c' bs'" "1 \<le> tei_of c' (hd fl)" "tei_of c' (hd fl) < 160"
    and scb: "scbs c' = (scbs c)[hd fl := (scbs c ! hd fl)\<lparr>tei := tei (scbs c' ! hd fl)\<rparr>]"
    by (auto simp: crm_allocated_def)
  have "mset (concat bs') = add_mset (hd fl) (mset (concat bs))"
    using mset_concat_update [of b bs "us @ hd fl # vs"] b(1,2) R(4) unfolding b(3) by simp
  then have used: "crm_used bs' = insert (hd fl) (crm_used bs)"
    unfolding crm_used_def by (metis set_mset_add_mset_insert set_mset_mset)
  have "hd fl \<notin> crm_used bs"
    using R(9) False by (cases fl) (auto simp: crm_used_def)
  then have "tei_of c' i = tei_of c i \<and> tei_of c i \<noteq> tei_of c' (hd fl)" if i: "i \<in> crm_used bs" for i
  proof -
    have "i \<noteq> hd fl" using i \<open>hd fl \<notin> crm_used bs\<close> by auto
    then have same: "tei_of c' i = tei_of c i" unfolding tei_of_def by (subst scb) simp
    with crm_tei_inj [OF b(4), of i "hd fl"] i used \<open>i \<noteq> hd fl\<close> show ?thesis by auto
  qed
  with a(1) b used False show ?thesis by auto
qed

theorem crm_alloc_fresh_tei_witness:
  "\<exists>c' bs'. CRM_AllocScb crm_start = Some (Some 0, c') \<and> crm_rep c' {} [1..<30] bs' \<and>
    crm_used bs' = {0} \<and> 1 \<le> tei_of c' 0"
proof -
  have "\<not> ([0..<30] = [] \<or> (\<forall>b < 10. 3 \<le> length (replicate 10 ([] :: nat list) ! b)))"
    by (auto intro!: exI [of _ 0])
  from crm_alloc_fresh_tei [OF crm_start_rep, unfolded if_not_P [OF this]]
  show ?thesis by (auto simp: upt_conv_Cons crm_used_def)
qed

text \<open>C9.
  Lookup after insertion: when no SCB has the TEI \<open>t\<close> and the free queue is not empty, the SCB
  that \<open>CRM_AddScb\<close> returns is the one \<open>CRM_GetScb\<close> finds under \<open>t\<close> afterwards, the result for
  every other TEI is the same as before, and adding \<open>t\<close> again returns the same SCB.\<close>

theorem crm_add_then_get:
  assumes "crm_rep c {} (i # fl) bs" and "unat t < 160" and "CRM_GetScb c t = Some None"
  shows "\<exists>c'. CRM_AddScb c t = Some (Some i, c') \<and> (\<exists>bs'. crm_rep c' {} fl bs') \<and>
    CRM_GetScb c' t = Some (Some i) \<and> CRM_AddScb c' t = Some (Some i, c') \<and>
    (\<forall>t'. unat t' < 160 \<longrightarrow> t' \<noteq> t \<longrightarrow> CRM_GetScb c' t' = CRM_GetScb c t')"
proof -
  note R = crm_repD [OF assms(1)]
  let ?b = "unat t div 16"
  have new: "\<forall>i \<in> crm_used bs. tei_of c i \<noteq> unat t"
    using crm_getscb_iff(2) [OF assms(1,2)] assms(3) by blast
  obtain c' us vs where a: "CRM_AddScb c t = Some (Some i, c')" "bs ! ?b = us @ vs"
    "crm_rep c' {} fl (bs[?b := us @ i # vs])" "scbs c' = (scbs c)[i := (scbs c ! i)\<lparr>tei := t\<rparr>]"
    using crm_add_spec [OF assms(1,2) new] by auto
  let ?bs = "bs[?b := us @ i # vs]"
  have b: "?b < length bs" using assms(2) R(4) by auto
  have i30: "i < length (scbs c)" using R(1,10) by auto
  have inew: "i \<notin> crm_used bs" using R(9) by (auto simp: crm_used_def)
  have "mset (concat ?bs) = add_mset i (mset (concat bs))"
    using mset_concat_update [OF b, of "us @ i # vs"] a(2) by simp
  then have used: "crm_used ?bs = insert i (crm_used bs)"
    unfolding crm_used_def by (metis set_mset_add_mset_insert set_mset_mset)
  have ti: "tei_of c' i = unat t" using i30 by (simp add: tei_of_def a(4))
  have other: "tei_of c' j = tei_of c j" if "j \<in> crm_used bs" for j
    using that inew i30 by (cases "j = i") (simp_all add: tei_of_def a(4))
  have iu: "i \<in> crm_used ?bs" using used by simp
  have "CRM_GetScb c' t = Some (Some i)"
    using crm_getscb_iff(1) [OF a(3) assms(2)] iu ti by simp
  moreover have "CRM_AddScb c' t = Some (Some i, c')" using crm_add_known [OF a(3) iu ti] .
  moreover have "CRM_GetScb c' t' = CRM_GetScb c t'" if t': "unat t' < 160" "t' \<noteq> t" for t'
  proof (cases "\<exists>j \<in> crm_used bs. tei_of c j = unat t'")
    case True
    then obtain j where "j \<in> crm_used bs" "tei_of c j = unat t'" by blast
    with other used crm_getscb_iff(1) [OF a(3) t'(1), of j] crm_getscb_iff(1) [OF assms(1) t'(1), of j]
    show ?thesis by simp
  next
    case False
    have "unat t \<noteq> unat t'" using t'(2) by (simp add: word_unat_eq_iff)
    with False other used ti crm_getscb_iff(2) [OF a(3) t'(1)] crm_getscb_iff(2) [OF assms(1) t'(1)]
    show ?thesis by auto
  qed
  ultimately show ?thesis using a(1,3) by blast
qed

theorem crm_add_then_get_witness:
  "\<exists>c'. CRM_AddScb crm_start 0x25 = Some (Some 0, c') \<and> CRM_GetScb c' 0x25 = Some (Some 0) \<and>
    CRM_GetScb c' 7 = CRM_GetScb crm_start 7"
proof -
  have r: "crm_rep crm_start {} (0 # [1..<30]) (replicate 10 [])"
    using crm_start_rep(1) by (simp add: upt_conv_Cons)
  have "CRM_GetScb crm_start 0x25 = Some None"
    using crm_getscb_iff(2) [OF r, of "0x25"] by (simp add: crm_used_def)
  from crm_add_then_get [OF r _ this] show ?thesis by auto
qed

text \<open>C10.
  Release: \<open>CRM_FreeScb\<close> on an SCB of the table removes exactly that SCB: its TEI is found no
  more, every other lookup gives the same result as before, the SCB is cleared and goes to the
  end of the free queue.\<close>

theorem crm_free_removes:
  assumes "crm_rep c {} fl bs" and "CRM_GetScb c t = Some (Some i)" and "unat t < 160"
  shows "\<exists>c' st' bs'. CRM_FreeScb c st i = Some (c', st') \<and> crm_rep c' {} (fl @ [i]) bs' \<and>
    CRM_GetScb c' t = Some None \<and> scbs c' ! i = clearedScb \<and>
    (\<forall>t'. unat t' < 160 \<longrightarrow> t' \<noteq> t \<longrightarrow> CRM_GetScb c' t' = CRM_GetScb c t')"
proof -
  note R = crm_repD [OF assms(1)]
  have i: "i \<in> crm_used bs" "tei_of c i = unat t"
    using crm_getscb_iff(1) [OF assms(1,3)] assms(2) by auto
  let ?b = "tei_of c i div 16"
  obtain c' us vs where f: "CRM_FreeScb c st i = Some (c', stm_free_both st (scbs c ! i))"
    "bs ! ?b = us @ i # vs" "crm_rep c' {} (fl @ [i]) (bs[?b := us @ vs])"
    "scbs c' = (scbs c)[i := clearedScb]"
    using crm_free_spec [OF assms(1) i(1), where st = st] by auto
  let ?bs = "bs[?b := us @ vs]"
  have b: "?b < length bs" using assms(3) i(2) R(4) by auto
  have i30: "i < length (scbs c)" using crm_used_bucket(3) [OF assms(1) i(1)] R(1) by simp
  have m: "add_mset i (mset (concat ?bs)) = mset (concat bs)"
    using mset_concat_update [OF b, of "us @ vs"] f(2) by simp
  have d: "distinct (concat bs)" using R(9) by simp
  then have inot: "i \<notin> crm_used ?bs"
    using m unfolding crm_used_def
    by (metis mset_eq_imp_distinct_iff mset.simps(2) distinct.simps(2))
  with m have used: "crm_used bs = insert i (crm_used ?bs)"
    unfolding crm_used_def by (metis set_mset_add_mset_insert set_mset_mset)
  have other: "tei_of c' j = tei_of c j" if "j \<in> crm_used ?bs" for j
    using that inot i30 by (cases "j = i") (simp_all add: tei_of_def f(4))
  have "\<forall>j \<in> crm_used ?bs. tei_of c' j \<noteq> unat t"
    using other used crm_tei_inj [OF assms(1) i(1)] i(2) inot by (metis insertCI)
  then have "CRM_GetScb c' t = Some None" using crm_getscb_iff(2) [OF f(3) assms(3)] by blast
  moreover have "CRM_GetScb c' t' = CRM_GetScb c t'" if t': "unat t' < 160" "t' \<noteq> t" for t'
  proof (cases "\<exists>j \<in> crm_used ?bs. tei_of c' j = unat t'")
    case True
    then obtain j where "j \<in> crm_used ?bs" "tei_of c' j = unat t'" by blast
    with other used crm_getscb_iff(1) [OF f(3) t'(1), of j] crm_getscb_iff(1) [OF assms(1) t'(1), of j]
    show ?thesis by simp
  next
    case False
    have "unat t \<noteq> unat t'" using t'(2) by (simp add: word_unat_eq_iff)
    with False other used i(2) crm_getscb_iff(2) [OF f(3) t'(1)] crm_getscb_iff(2) [OF assms(1) t'(1)]
    show ?thesis by auto
  qed
  moreover have "scbs c' ! i = clearedScb" using i30 f(4) by simp
  ultimately show ?thesis using f(1,3) by blast
qed

definition crm_one :: sCrm where
  "crm_one = snd (the (CRM_AddScb crm_start 0x25))"

lemma crm_one_full: "crm_rep crm_one {} [1..<30] ((replicate 10 [])[2 := [0]])"
  "crm_sizes crm_one ((replicate 10 [])[2 := [0]])" "tei_of crm_one 0 = 0x25"
proof -
  have r: "crm_rep crm_start {} (0 # [1..<30]) (replicate 10 [])"
    using crm_start_rep(1) by (simp add: upt_conv_Cons)
  have "\<forall>i \<in> crm_used (replicate 10 ([] :: nat list)). tei_of crm_start i \<noteq> unat (0x25 :: u8)"
    by (simp add: crm_used_def)
  from crm_add_spec [OF r _ this] obtain c' where a:
    "CRM_AddScb crm_start 0x25 = Some (Some 0, c')"
    "crm_rep c' {} [1..<30] ((replicate 10 [])[2 := [0]])"
    "scbs c' = (scbs crm_start)[0 := (scbs crm_start ! 0)\<lparr>tei := 0x25\<rparr>]"
    "scbBucketSize c' = (scbBucketSize crm_start)[2 := scbBucketSize crm_start ! 2 + 1]"
    by auto
  then have c: "crm_one = c'" by (simp add: crm_one_def)
  then show "crm_rep crm_one {} [1..<30] ((replicate 10 [])[2 := [0]])" using a(2) by simp
  show "crm_sizes crm_one ((replicate 10 [])[2 := [0]])"
    unfolding c using crm_sizes_insert [OF crm_start_rep(2), of 2 "[0]" c'] a(4)
      crm_repD(3) [OF r] by simp
  have "0 < length (scbs crm_start)" using crm_repD(1) [OF r] by simp
  then show "tei_of crm_one 0 = 0x25" unfolding c by (simp add: tei_of_def a(3))
qed

lemma crm_one_used: "0 \<in> crm_used ((replicate 10 [])[2 := [0]])"
  by (simp add: crm_used_def eval_nat_numeral)

lemma crm_one_rep: "\<exists>bs. crm_rep crm_one {} [1..<30] bs"
  "CRM_GetScb crm_one 0x25 = Some (Some 0)"
  using crm_one_full(1) crm_getscb_iff(1) [OF crm_one_full(1), of "0x25" 0] crm_one_used crm_one_full(3)
  by auto

theorem crm_free_removes_witness:
  "\<exists>c' st'. CRM_FreeScb crm_one stm_zero 0 = Some (c', st') \<and> CRM_GetScb c' 0x25 = Some None"
proof -
  obtain bs where r: "crm_rep crm_one {} [1..<30] bs" using crm_one_rep(1) by blast
  from crm_free_removes [OF r crm_one_rep(2), of stm_zero] show ?thesis by auto
qed

text \<open>
  The iteration with \<open>CRM_GetNextScb\<close> visits every SCB of the table once, in ascending order
  of the TEI, and then returns \<open>NULL\<close>; so the lookups by MAC address and by vendor field
  return the SCB with the least TEI that matches, and they return.\<close>

theorem crm_iteration:
  assumes "crm_rep c {} fl bs"
  shows "CRM_GetNextScb c None = Some (first (concat bs)) \<and>
    (\<forall>us i vs. concat bs = us @ i # vs \<longrightarrow> CRM_GetNextScb c (Some i) = Some (first vs)) \<and>
    sorted_wrt (\<lambda>i j. tei_of c i < tei_of c j) (concat bs) \<and>
    CRM_FindScbMacAddr c mac = Some (find (\<lambda>i. macAddr (scbs c ! i) = mac) (concat bs)) \<and>
    CRM_FindScbVendorField c vf =
      Some (map_option (\<lambda>i. macAddr (scbs c ! i)) (find (\<lambda>i. vendor_field (scbs c ! i) = vf) (concat bs)))"
proof (intro conjI allI impI)
  show "CRM_GetNextScb c None = Some (first (concat bs))" by (rule crm_getnext_None [OF assms])
  show "CRM_GetNextScb c (Some i) = Some (first vs)" if "concat bs = us @ i # vs" for us i vs
    using crm_getnext_Some [OF assms that] .
  show "sorted_wrt (\<lambda>i j. tei_of c i < tei_of c j) (concat bs)" by (rule crm_iteration_sorted [OF assms])
  show "CRM_FindScbMacAddr c mac = Some (find (\<lambda>i. macAddr (scbs c ! i) = mac) (concat bs))"
    unfolding CRM_FindScbMacAddr_def by (rule crm_find_spec [OF assms])
  show "CRM_FindScbVendorField c vf =
      Some (map_option (\<lambda>i. macAddr (scbs c ! i)) (find (\<lambda>i. vendor_field (scbs c ! i) = vf) (concat bs)))"
    by (simp add: CRM_FindScbVendorField_def crm_find_spec [OF assms] split: option.split)
qed

theorem crm_iteration_witness:
  "CRM_GetNextScb crm_start None = Some None \<and> CRM_FindScbMacAddr crm_start [1,2,3,4,5,6] = Some None"
  using crm_iteration [OF crm_start_rep(1)] by simp

text \<open>C11.
  Over any sequence of allocations and releases that starts with the initialised table, no
  operation reads outside an array or through a null pointer, and the SCBs a client holds are
  pairwise distinct and are exactly the SCBs in the table.\<close>

theorem crm_pool_run:
  "\<exists>hs cs. pool_run scb_take scb_give cmds ([], crm_start, st) = Some (hs, cs) \<and>
    distinct hs \<and> scbs_used cs = set hs \<and> (\<exists>fl bs. crm_pool (fst cs) fl bs)"
proof -
  have pool: "crm_pool crm_start [0..<30] (replicate 10 [])"
    using crm_start_rep by (simp add: crm_pool_def)
  moreover have "scbs_used (crm_start, st) = set []"
    by (subst scbs_used_eq [of _ "[0..<30]" "replicate 10 []"])
      (use crm_start_rep(1) in \<open>simp_all add: crm_used_def\<close>)
  ultimately show ?thesis using scb.run_distinct [of "(crm_start, st)" "[]" cmds] by fastforce
qed

text \<open>
  An SCB whose station timer is running loses it: \<open>STM_FreeTimer\<close> refuses an active timer, but
  the release overwrites the timer identifier of the SCB all the same, so the timer stays
  allocated and running.\<close>

theorem crm_free_leaks_active_timer:
  assumes "crm_rep c {} fl bs" and "i \<in> crm_used bs" and "stm_inv st q"
    and "unat (staTimer (scbs c ! i)) \<in> set q" and "teiTimer (scbs c ! i) = STM_TIMER_ID_NULL"
  shows "\<exists>c'. CRM_FreeScb c st i = Some (c', st) \<and>
    staTimer (scbs c' ! i) = STM_TIMER_ID_NULL \<and> staTimer (scbs c ! i) \<in> timers_used st"
proof -
  let ?s = "scbs c ! i"
  have t: "unat (staTimer ?s) < STM_TIMER_MAX" "valid (timerCb st ! unat (staTimer ?s))"
    using stm_invD(4,7) [OF assms(3)] assms(4) by auto
  then have f1: "STM_FreeTimer st (staTimer ?s) = (st, STATUS_FAILURE)"
    using stm_free_spec [OF assms(3) t] assms(4) by simp
  have f2: "STM_FreeTimer st (teiTimer ?s) = (st, STATUS_SUCCESS)"
    by (simp add: STM_FreeTimer_def assms(5) STM_TIMER_ID_NULL_def STM_TIMER_MAX_def)
  obtain c' where c': "CRM_FreeScb c st i = Some (c', stm_free_both st ?s)"
      "scbs c' = (scbs c)[i := clearedScb]"
    using crm_free_spec [OF assms(1,2), where st = st] by auto
  have "i < length (scbs c)"
    using crm_used_bucket(3) [OF assms(1,2)] crm_repD(1) [OF assms(1)] by simp
  with c' f1 f2 t show ?thesis
    by (simp add: stm_free_both_def clearedScb_def timers_used_def)
qed

theorem crm_free_leaks_active_timer_witness:
  "\<exists>st c'. STM_StartTimer stm_one 0 500 = Some (st, STATUS_SUCCESS) \<and>
    CRM_FreeScb (upd_scb 0 (\<lambda>s. s\<lparr>staTimer := 0, teiTimer := STM_TIMER_ID_NULL\<rparr>) crm_one) st 0 = Some (c', st) \<and>
    0 \<in> timers_used st"
proof -
  let ?c = "upd_scb 0 (\<lambda>s. s\<lparr>staTimer := 0, teiTimer := STM_TIMER_ID_NULL\<rparr>) crm_one"
  have r: "crm_rep ?c {} [1..<30] ((replicate 10 [])[2 := [0]])"
    by (rule crm_rep_upd_scb [OF crm_one_full(1)]) simp
  have "0 < length (scbs crm_one)" using crm_repD(1) [OF crm_one_full(1)] by simp
  then have s: "staTimer (scbs ?c ! 0) = 0" "teiTimer (scbs ?c ! 0) = STM_TIMER_ID_NULL"
    by (simp_all add: upd_scb_def)
  obtain st where st: "STM_StartTimer stm_one 0 500 = Some (st, STATUS_SUCCESS)" "stm_inv st [0]"
    using stm_start_spec [OF stm_one_inv, of 0 500] stm_one_valid
    by (auto simp: STM_TIMER_MAX_def insert_timer_def)
  from crm_free_leaks_active_timer [OF r crm_one_used st(2)] s st(1) show ?thesis by auto
qed

text \<open>
  A TEI of 160 or more names a bucket beyond the ten of the table: insertion and lookup read
  the bucket array out of bounds.\<close>

theorem crm_tei_out_of_bounds:
  assumes "length (scbBucket c) = 10" and "160 \<le> unat t"
  shows "CRM_AddScb c t = None \<and> CRM_GetScb c t = None \<and> CRM_GetMacAddr c t = None"
  using assms by (simp add: CRM_AddScb_def CRM_GetScb_def CRM_GetMacAddr_def unat_drop_bit4)

theorem crm_tei_out_of_bounds_witness: "CRM_AddScb crm_start 0xA0 = None"
  using crm_tei_out_of_bounds [of crm_start "0xA0"] crm_repD(2) [OF crm_start_rep(1)] by simp

text \<open>
  The branch of \<open>CRM_AddScb\<close> that links behind an existing SCB does not count it: with one SCB
  in a bucket, adding one with a higher TEI of the same bucket leaves the size at one, and
  releasing both wraps the size of the then empty bucket to 65535.\<close>

theorem crm_add_uncounted:
  assumes "crm_rep c {} (i # fl) bs" and "crm_sizes c bs" and "bs ! (unat t div 16) = [h]"
    and "tei_of c h < unat t" and "unat t < 160"
  shows "\<exists>c1 c2 c3 st2 st3. CRM_AddScb c t = Some (Some i, c1) \<and>
    CRM_FreeScb c1 st i = Some (c2, st2) \<and> CRM_FreeScb c2 st2 h = Some (c3, st3) \<and>
    SLIST_IsEmpty (scbBucket c3 ! (unat t div 16)) \<and> scbBucketSize c3 ! (unat t div 16) = 0xFFFF"
proof -
  let ?b = "unat t div 16"
  note R = crm_repD [OF assms(1)]
  have b: "?b < 10" "?b < length bs" using assms(5) R(4) by auto
  have th: "tei_of c h div 16 = ?b" using R(8) [OF b(1), of h] assms(3) by simp
  have ih: "i \<noteq> h" using crm_rep_bucket_set(3) [OF assms(1) b(1), of h] assms(3) by auto
  have i30: "i < length (scbs c)" using R(1,10) by auto
  have hu: "h \<in> crm_used bs" using crm_used_iff [OF R(4)] b(1) assms(3) by auto
  have new: "\<forall>j \<in> crm_used bs. tei_of c j \<noteq> unat t"
  proof
    fix j assume j: "j \<in> crm_used bs"
    show "tei_of c j \<noteq> unat t"
      using crm_used_bucket(2) [OF assms(1) j] assms(3,4) by auto
  qed
  obtain c1 us vs where a: "CRM_AddScb c t = Some (Some i, c1)" "us @ vs = [h]"
    "crm_rep c1 {} fl (bs[?b := us @ i # vs])" "scbs c1 = (scbs c)[i := (scbs c ! i)\<lparr>tei := t\<rparr>]"
    "scbBucketSize c1 = scbBucketSize c"
    using crm_add_spec [OF assms(1,5) new] assms(3,4) by auto
  let ?bs1 = "bs[?b := us @ i # vs]"
  have l1: "length ?bs1 = 10" using R(4) by simp
  have b1: "?bs1 ! ?b = us @ i # vs" using b(2) by simp
  have iu: "i \<in> crm_used ?bs1" using crm_used_iff [OF l1] b(1) b1 by (metis in_set_conv_decomp)
  have ti: "tei_of c1 i div 16 = ?b" using i30 by (simp add: tei_of_def a(4))
  obtain c2 us2 vs2 where f: "CRM_FreeScb c1 st i = Some (c2, stm_free_both st (scbs c1 ! i))"
    "us @ i # vs = us2 @ i # vs2" "crm_rep c2 {} (fl @ [i]) (?bs1[?b := us2 @ vs2])"
    "scbs c2 = (scbs c1)[i := clearedScb]"
    "scbBucketSize c2 = (scbBucketSize c1)[?b := scbBucketSize c1 ! ?b - 1]"
    using crm_free_spec [OF a(3) iu, where st = st] ti b1 by auto
  have "us = [h] \<and> vs = [] \<or> us = [] \<and> vs = [h]" using a(2) by (cases us) auto
  then have "us2 @ vs2 = [h]" using f(2) ih by (auto simp: Cons_eq_append_conv)
  then have r2: "crm_rep c2 {} (fl @ [i]) (?bs1[?b := [h]])" using f(3) by simp
  have hu2: "h \<in> crm_used (?bs1[?b := [h]])"
    using crm_used_iff [of "?bs1[?b := [h]]" h] R(4) b by auto
  have th2: "tei_of c2 h div 16 = ?b"
    using th ih by (simp add: tei_of_def f(4) a(4))
  obtain c3 us3 vs3 where g: "CRM_FreeScb c2 (stm_free_both st (scbs c1 ! i)) h =
      Some (c3, stm_free_both (stm_free_both st (scbs c1 ! i)) (scbs c2 ! h))"
    "[h] = us3 @ h # vs3" "crm_rep c3 {} ((fl @ [i]) @ [h]) (?bs1[?b := [h], ?b := us3 @ vs3])"
    "scbBucketSize c3 = (scbBucketSize c2)[?b := scbBucketSize c2 ! ?b - 1]"
    using crm_free_spec [OF r2 hu2, where st = "stm_free_both st (scbs c1 ! i)"] th2 b(2) by auto
  have "us3 @ vs3 = []" using g(2) by (cases us3) auto
  then have "slist_rep (crmMem c3) (scbBucket c3 ! ?b) []"
    using crm_repD(6) [OF g(3) b(1)] b(2) by simp
  then have "SLIST_IsEmpty (scbBucket c3 ! ?b)" by (simp add: SLIST_IsEmpty_def)
  moreover have "scbBucketSize c ! ?b = 1"
    using assms(2,3) b(1) by (simp add: crm_sizes_def word_unat_eq_iff)
  then have "scbBucketSize c3 ! ?b = 0xFFFF"
    using g(4) f(5) a(5) R(3) b(1) by simp
  ultimately show ?thesis using a(1) f(1) g(1) by blast
qed

theorem crm_add_uncounted_witness:
  "\<exists>c1 c2 c3 st2 st3. CRM_AddScb crm_one 0x26 = Some (Some 1, c1) \<and>
    CRM_FreeScb c1 stm_zero 1 = Some (c2, st2) \<and> CRM_FreeScb c2 st2 0 = Some (c3, st3) \<and>
    SLIST_IsEmpty (scbBucket c3 ! 2) \<and> scbBucketSize c3 ! 2 = 0xFFFF"
proof -
  have "[1..<30] = 1 # [2..<30]" using upt_conv_Cons [of 1 30] by (metis Suc_1 one_less_numeral_iff semiring_norm(76) numeral_less_iff upt_conv_Cons)
  then have r: "crm_rep crm_one {} (1 # [2..<30]) ((replicate 10 [])[2 := [0]])"
    using crm_one_full(1) by (simp only:)
  from crm_add_uncounted [OF r crm_one_full(2), of "0x26" 0 stm_zero] crm_one_full(3)
  show ?thesis by simp
qed

end
