(* ===== verification/Utils.thy ===== *)
theory Utils
  imports FwPrelude
begin

text \<open>
  Byte order and check sums: the conversions of \<^verbatim>\<open>firmware/common/utils.c\<close>, the byte-order
  macros of \<^verbatim>\<open>papdef.h\<close> in the big-endian configuration of the 8051 compiler, and the
  reversing copies of the host, \<^verbatim>\<open>gvhost/utils.c\<close>.

  A 64-bit integer of the firmware is the pair of its halves.  Memory is a list of bytes; on the
  big-endian target the first byte of an integer in memory is its most significant one.
\<close>

record u64 =
  hi_u32 :: u32
  lo_u32 :: u32

definition lo8 :: "u16 \<Rightarrow> u8" where "lo8 w = ucast w"
definition hi8 :: "u16 \<Rightarrow> u8" where "hi8 w = ucast (drop_bit 8 w)"

subsection \<open>The byte-order macros\<close>

definition cpu_to_le16 :: "u16 \<Rightarrow> u16" where
  "cpu_to_le16 n = push_bit 8 (n AND 0xFF) OR drop_bit 8 (n AND 0xFF00)"

definition cpu_to_le32 :: "u32 \<Rightarrow> u32" where
  "cpu_to_le32 n = push_bit 24 (n AND 0xFF) OR push_bit 8 (n AND 0xFF00) OR
     drop_bit 8 (n AND 0xFF0000) OR drop_bit 24 (n AND 0xFF000000)"

definition le16_to_cpu :: "u16 \<Rightarrow> u16" where
  "le16_to_cpu n = push_bit 8 (n AND 0xFF) OR drop_bit 8 (n AND 0xFF00)"

definition le32_to_cpu :: "u32 \<Rightarrow> u32" where
  "le32_to_cpu n = push_bit 24 (n AND 0xFF) OR push_bit 8 (n AND 0xFF00) OR
     drop_bit 8 (n AND 0xFF0000) OR drop_bit 24 (n AND 0xFF000000)"

subsection \<open>Integers and byte arrays\<close>

definition mac_utils_16_bit_to_byte_array :: "u16 \<Rightarrow> u8 list" where
  "mac_utils_16_bit_to_byte_array v = [ucast (v AND 0xFF), ucast (drop_bit 8 v AND 0xFF)]"

text \<open>The loop that writes \<open>n\<close> bytes, least significant first.\<close>

primrec bytes_le :: "nat \<Rightarrow> u32 \<Rightarrow> u8 list" where
  "bytes_le 0 v = []"
| "bytes_le (Suc n) v = ucast (v AND 0xFF) # bytes_le n (drop_bit 8 v)"

definition mac_utils_32_bit_to_byte_array :: "u32 \<Rightarrow> u8 list" where
  "mac_utils_32_bit_to_byte_array v = bytes_le 4 v"

definition mac_utils_64_bit_to_byte_array :: "u64 \<Rightarrow> u8 list" where
  "mac_utils_64_bit_to_byte_array v = bytes_le 4 (lo_u32 v) @ bytes_le 4 (hi_u32 v)"

definition mac_utils_byte_array_to_16_bit :: "u8 list \<Rightarrow> u16 option" where
  "mac_utils_byte_array_to_16_bit p = do {
     b0 \<leftarrow> arr_get p 0;
     b1 \<leftarrow> arr_get p 1;
     Some (ucast b0 OR push_bit 8 (ucast b1))
   }"

text \<open>
  The union of a 32-bit integer with its four bytes in memory (big-endian), filled from the last
  byte to the first.
\<close>

definition val32 :: "u8 list \<Rightarrow> u32" where
  "val32 b = push_bit 24 (ucast (b ! 0)) OR push_bit 16 (ucast (b ! 1)) OR
     push_bit 8 (ucast (b ! 2)) OR ucast (b ! 3)"

primrec fill_val8 :: "nat \<Rightarrow> u8 list \<Rightarrow> u8 list \<Rightarrow> u8 list option" where
  "fill_val8 0 p val8 = Some val8"
| "fill_val8 (Suc index) p val8 =
     (case p of [] \<Rightarrow> None | b # p \<Rightarrow> fill_val8 index p (val8[index := b]))"

definition mac_utils_byte_array_to_32_bit :: "u8 list \<Rightarrow> u32 option" where
  "mac_utils_byte_array_to_32_bit p = map_option val32 (fill_val8 4 p (replicate 4 0))"

definition mac_utils_byte_array_to_64_bit :: "u8 list \<Rightarrow> u64 option" where
  "mac_utils_byte_array_to_64_bit p = do {
     lo \<leftarrow> mac_utils_byte_array_to_32_bit p;
     hi \<leftarrow> mac_utils_byte_array_to_32_bit (drop 4 p);
     Some \<lparr>hi_u32 = hi, lo_u32 = lo\<rparr>
   }"

definition EXT_ADDR_MATCH :: "u64 \<Rightarrow> u64 \<Rightarrow> bool" where
  "EXT_ADDR_MATCH a b \<longleftrightarrow> hi_u32 a = hi_u32 b \<and> lo_u32 a = lo_u32 b"

subsection \<open>Bytes in memory\<close>

text \<open>The bytes of an integer in memory, most significant first, and back.\<close>

definition be16 :: "u16 \<Rightarrow> u8 list" where "be16 w = [hi8 w, lo8 w]"

definition be32 :: "u32 \<Rightarrow> u8 list" where
  "be32 w = [ucast (drop_bit 24 w), ucast (drop_bit 16 w), ucast (drop_bit 8 w), ucast w]"

definition be64 :: "u64 \<Rightarrow> u8 list" where "be64 w = be32 (hi_u32 w) @ be32 (lo_u32 w)"

definition val16 :: "u8 list \<Rightarrow> u16" where
  "val16 b = push_bit 8 (ucast (b ! 0)) OR ucast (b ! 1)"

definition get16 :: "nat \<Rightarrow> u8 list \<Rightarrow> u16" where "get16 i b = val16 (drop i b)"
definition get32 :: "nat \<Rightarrow> u8 list \<Rightarrow> u32" where "get32 i b = val32 (drop i b)"

definition put_at :: "nat \<Rightarrow> u8 list \<Rightarrow> u8 list \<Rightarrow> u8 list" where
  "put_at i v b = take i b @ v @ drop (i + length v) b"

definition memcpy_from :: "u8 list \<Rightarrow> nat \<Rightarrow> u8 list option" where
  "memcpy_from src n = (if n \<le> length src then Some (take n src) else None)"

subsection \<open>Reversing copies and comparisons\<close>

text \<open>\<open>memcpy_cpu_to_le\<close>, with the 16-bit loop counter of the firmware.\<close>

partial_function (option) rev_copy16 :: "nat \<Rightarrow> u8 list \<Rightarrow> u16 \<Rightarrow> u8 list \<Rightarrow> u8 list option" where
  "rev_copy16 len src i dst =
     (if unat i < len then do {
        b \<leftarrow> arr_get src (unat i);
        dst \<leftarrow> arr_set dst (len - 1 - unat i) b;
        rev_copy16 len src (i + 1) dst
      }
      else Some dst)"

definition memcpy_cpu_to_le :: "u8 list \<Rightarrow> u8 list \<Rightarrow> u16 \<Rightarrow> u8 list option" where
  "memcpy_cpu_to_le dst src len = rev_copy16 (unat len) src 0 dst"

text \<open>\<open>memcmp_cpu_to_le\<close> of the firmware and \<open>memcmp_rev\<close> of the host.\<close>

partial_function (option) rev_compare :: "nat \<Rightarrow> u8 list \<Rightarrow> u8 list \<Rightarrow> u16 \<Rightarrow> int option" where
  "rev_compare len dst src i =
     (if unat i < len then do {
        d \<leftarrow> arr_get dst (len - 1 - unat i);
        s \<leftarrow> arr_get src (unat i);
        if d \<noteq> s then Some (if s < d then 1 else -1) else rev_compare len dst src (i + 1)
      }
      else Some 0)"

definition memcmp_cpu_to_le :: "u8 list \<Rightarrow> u8 list \<Rightarrow> u16 \<Rightarrow> int option" where
  "memcmp_cpu_to_le dst src len = rev_compare (unat len) dst src 0"

text \<open>\<open>memcpy_rev\<close> of the host has an 8-bit loop counter and a 32-bit cnt.\<close>

partial_function (option) rev_copy8 :: "nat \<Rightarrow> u8 list \<Rightarrow> u8 \<Rightarrow> u8 list \<Rightarrow> u8 list option" where
  "rev_copy8 cnt src i dst =
     (if unat i < cnt then do {
        b \<leftarrow> arr_get src (unat i);
        dst \<leftarrow> arr_set dst (cnt - 1 - unat i) b;
        rev_copy8 cnt src (i + 1) dst
      }
      else Some dst)"

definition memcpy_rev :: "u8 list \<Rightarrow> u8 list \<Rightarrow> nat \<Rightarrow> u8 list option" where
  "memcpy_rev dst src cnt = rev_copy8 cnt src 0 dst"

text \<open>The variable \<open>0xcafe\<close> in memory tells the byte order of the machine.\<close>

definition is_little_endian :: "u8 list \<Rightarrow> bool" where
  "is_little_endian var \<longleftrightarrow> var ! 0 = 0xfe \<and> var ! 1 = 0xca"

definition memcpy_be_to_le :: "u8 list \<Rightarrow> u8 list \<Rightarrow> u8 list \<Rightarrow> nat \<Rightarrow> u8 list option" where
  "memcpy_be_to_le var dst src cnt =
     (if \<not> is_little_endian var
      then (if cnt \<le> length src \<and> cnt \<le> length dst
            then Some (take cnt src @ drop cnt dst) else None)
      else rev_copy8 cnt src 0 dst)"

definition memcpy_rev_end :: "u8 list \<Rightarrow> u8 list \<Rightarrow> u8 list \<Rightarrow> nat \<Rightarrow> u8 list option" where
  "memcpy_rev_end var dst src cnt =
     (if is_little_endian var
      then (if cnt \<le> length src \<and> cnt \<le> length dst
            then Some (take cnt src @ drop cnt dst) else None)
      else rev_copy8 cnt src 0 dst)"

subsection \<open>The CCITT check sum\<close>

definition crc_ccitt_update :: "u16 \<Rightarrow> u8 \<Rightarrow> u16" where
  "crc_ccitt_update crc data_byte =
     (let data_byte = data_byte XOR lo8 crc;
          data_byte = data_byte XOR push_bit 4 data_byte
      in (push_bit 8 (ucast data_byte) OR ucast (hi8 crc)) XOR
           ucast (drop_bit 4 data_byte) XOR push_bit 3 (ucast data_byte))"

declare rev_copy16.simps [code]
  and rev_compare.simps [code]
  and rev_copy8.simps [code]

end
