(* ===== verification/UtilsProps.thy ===== *)
theory UtilsProps
  imports Utils
begin

text \<open>
  What the byte-order routines compute: round trips, reversal, termination of the copy loops.
\<close>

lemma u8_high: "8 \<le> n \<Longrightarrow> \<not> bit (b :: u8) n"
  using bit_imp_le_length [of b n] by auto

lemma u16_high: "16 \<le> n \<Longrightarrow> \<not> bit (b :: u16) n"
  using bit_imp_le_length [of b n] by auto

subsection \<open>Integers and byte arrays\<close>

lemma low_byte: "ucast (v AND 0xFF) = (ucast (v::'a::len word) :: u8)"
proof -
  have "v AND 0xFF = take_bit 8 v" by (simp add: take_bit_eq_mask mask_eq_exp_minus_1)
  then show ?thesis
    by (auto intro!: bit_word_eqI simp: bit_unsigned_iff bit_take_bit_iff dest: bit_imp_le_length)
qed

lemma byte_list_16:
  "(ucast (ucast v :: u8) OR push_bit 8 (ucast (ucast (drop_bit 8 v) :: u8)) :: u16) = v"
  by (rule bit_word_eqI) (auto simp: bit_or_iff bit_push_bit_iff bit_unsigned_iff bit_drop_bit_eq u8_high not_less)

lemma mac_utils_16_roundtrip:
  "mac_utils_byte_array_to_16_bit (mac_utils_16_bit_to_byte_array v @ rest) = Some v"
  unfolding mac_utils_byte_array_to_16_bit_def mac_utils_16_bit_to_byte_array_def low_byte
  by (simp add: arr_get_def byte_list_16 del: One_nat_def)

lemma byte_list_32:
  "(push_bit 24 (ucast (ucast (drop_bit 24 v) :: u8)) OR push_bit 16 (ucast (ucast (drop_bit 16 v) :: u8)) OR
     push_bit 8 (ucast (ucast (drop_bit 8 v) :: u8)) OR ucast (ucast v :: u8) :: u32) = v"
proof (rule bit_word_eqI)
  fix n assume "n < LENGTH(32)"
  then consider "n < 8" | "8 \<le> n" "n < 16" | "16 \<le> n" "n < 24" | "24 \<le> n" "n < 32" by fastforce
  then show "bit (push_bit 24 (ucast (ucast (drop_bit 24 v) :: u8)) OR push_bit 16 (ucast (ucast (drop_bit 16 v) :: u8)) OR
     push_bit 8 (ucast (ucast (drop_bit 8 v) :: u8)) OR ucast (ucast v :: u8) :: u32) n = bit v n"
    by cases (auto simp: bit_or_iff bit_push_bit_iff bit_unsigned_iff bit_drop_bit_eq u8_high not_less)
qed

lemma get32_be32: "get32 0 (be32 w @ rest) = w"
  unfolding get32_def be32_def drop_0 append_Cons append_Nil val32_def
  by (simp add: byte_list_32 [simplified])

lemma get32_be32_second: "get32 4 (be32 v @ be32 w @ rest) = w"
proof -
  have "drop 4 (be32 v @ be32 w @ rest) = drop 0 (be32 w @ rest)" by (simp add: be32_def)
  then show ?thesis unfolding get32_def using get32_be32 [of w rest] by (simp add: get32_def)
qed

lemma get16_be16: "get16 0 (be16 w @ rest) = w"
  using byte_list_16 [of w] by (simp add: get16_def be16_def val16_def hi8_def lo8_def or.commute)

lemma length_be32 [simp]: "length (be32 w) = 4" by (simp add: be32_def)
lemma length_be16 [simp]: "length (be16 w) = 2" by (simp add: be16_def)
lemma length_be64 [simp]: "length (be64 w) = 8" by (simp add: be64_def)

text \<open>Storing an integer that was read from bytes gives the bytes back.\<close>

lemma be16_val16: "be16 (val16 [a, b]) = [a, b]"
proof -
  have "ucast (drop_bit 8 (val16 [a, b])) = a"
    by (rule bit_word_eqI) (auto simp: val16_def bit_or_iff bit_push_bit_iff bit_unsigned_iff bit_drop_bit_eq u8_high)
  moreover have "ucast (val16 [a, b]) = b"
    by (rule bit_word_eqI) (auto simp: val16_def bit_or_iff bit_push_bit_iff bit_unsigned_iff bit_drop_bit_eq)
  ultimately show ?thesis by (simp add: be16_def hi8_def lo8_def)
qed

lemma val32_4: "val32 [d, c, b, a] = push_bit 24 (ucast d) OR push_bit 16 (ucast c) OR push_bit 8 (ucast b) OR ucast a"
  by (simp add: val32_def numeral_eq_Suc)

lemma be32_val32: "be32 (val32 [a, b, c, d]) = [a, b, c, d]"
proof -
  note bits = val32_4 bit_or_iff bit_push_bit_iff bit_unsigned_iff bit_drop_bit_eq
  have "ucast (drop_bit 24 (val32 [a, b, c, d])) = a" by (rule bit_word_eqI) (auto simp: bits u8_high)
  moreover have "ucast (drop_bit 16 (val32 [a, b, c, d])) = b" by (rule bit_word_eqI) (auto simp: bits u8_high)
  moreover have "ucast (drop_bit 8 (val32 [a, b, c, d])) = c" by (rule bit_word_eqI) (auto simp: bits u8_high)
  moreover have "ucast (val32 [a, b, c, d]) = d" by (rule bit_word_eqI) (auto simp: bits u8_high)
  ultimately show ?thesis by (simp add: be32_def)
qed

lemma bytes_le_4: "bytes_le 4 v = [ucast v, ucast (drop_bit 8 v), ucast (drop_bit 16 v), ucast (drop_bit 24 v)]"
proof -
  have "bytes_le (Suc (Suc (Suc (Suc 0)))) v = [ucast v, ucast (drop_bit 8 v), ucast (drop_bit 16 v), ucast (drop_bit 24 v)]"
    by (simp only: bytes_le.simps low_byte drop_bit_drop_bit) simp
  then show ?thesis by (simp only: numeral_eq_Suc BitM.simps pred_numeral_simps)
qed

lemma fill_val8_4: "fill_val8 4 (a # b # c # d # rest) (replicate 4 0) = Some [d, c, b, a]"
  by (simp add: numeral_eq_Suc)

lemma mac_utils_32_roundtrip:
  "mac_utils_byte_array_to_32_bit (bytes_le 4 v @ rest) = Some v"
  unfolding mac_utils_byte_array_to_32_bit_def bytes_le_4 append_Cons fill_val8_4 option.map val32_4 byte_list_32 ..

lemma length_bytes_le: "length (bytes_le n v) = n" by (induction n arbitrary: v) auto

lemma mac_utils_64_roundtrip:
  "mac_utils_byte_array_to_64_bit (mac_utils_64_bit_to_byte_array v @ rest) = Some v"
  unfolding mac_utils_byte_array_to_64_bit_def mac_utils_64_bit_to_byte_array_def append_assoc
    mac_utils_32_roundtrip
  by (simp add: length_bytes_le mac_utils_32_roundtrip)

text \<open>C19.
  The conversions between integers and little-endian byte arrays are inverse to each other at
  all three widths, whatever follows the bytes in memory.\<close>

theorem mac_utils_byte_array_roundtrip:
  "mac_utils_byte_array_to_16_bit (mac_utils_16_bit_to_byte_array v16 @ rest) = Some v16 \<and>
   mac_utils_byte_array_to_32_bit (mac_utils_32_bit_to_byte_array v32 @ rest) = Some v32 \<and>
   mac_utils_byte_array_to_64_bit (mac_utils_64_bit_to_byte_array v64 @ rest) = Some v64"
  by (simp add: mac_utils_16_roundtrip mac_utils_32_roundtrip mac_utils_64_roundtrip
      mac_utils_32_bit_to_byte_array_def)


subsection \<open>Reversing copies\<close>

text \<open>The destination after \<open>i\<close> rounds.\<close>

definition rev_state :: "nat \<Rightarrow> 'a list \<Rightarrow> 'a list \<Rightarrow> nat \<Rightarrow> 'a list" where
  "rev_state n src dst i = take (n - i) dst @ rev (take i src) @ drop n dst"

lemma rev_state_step:
  assumes "i < n" "n \<le> length src" "n \<le> length dst"
  shows "arr_set (rev_state n src dst i) (n - 1 - i) (src ! i) = Some (rev_state n src dst (Suc i))"
proof -
  have t: "take (n - i) dst = take (n - Suc i) dst @ [dst ! (n - Suc i)]"
    using assms by (simp add: take_Suc_conv_app_nth [symmetric] Suc_diff_Suc)
  have "rev (take (Suc i) src) = src ! i # rev (take i src)" and m: "min (length dst) (n - Suc i) = n - Suc i"
    "n - Suc i < length dst"
    using assms by (auto simp: take_Suc_conv_app_nth)
  then show ?thesis
    using assms unfolding rev_state_def t by (simp add: arr_set_def list_update_append m)
qed

lemma rev_copy16_reverses:
  assumes "n < 2 ^ 16" "n \<le> length src" "n \<le> length dst" "unat i \<le> n"
  shows "rev_copy16 n src i (rev_state n src dst (unat i)) = Some (rev_state n src dst n)"
  using assms
proof (induction "n - unat i" arbitrary: i)
  case 0
  then show ?case by (subst rev_copy16.simps) simp
next
  case (Suc k)
  then have less: "unat i < n" by simp
  have i1: "unat (i + 1) = Suc (unat i)" using less Suc.prems(1) by (simp add: unat_word_ariths)
  show ?case
    using less Suc.prems Suc.hyps(1) [of "i + 1"] Suc.hyps(2) i1 rev_state_step [OF less Suc.prems(2,3)]
    by (subst rev_copy16.simps) (simp add: arr_get_def)
qed

lemma rev_copy8_reverses:
  assumes "n < 2 ^ 8" "n \<le> length src" "n \<le> length dst" "unat i \<le> n"
  shows "rev_copy8 n src i (rev_state n src dst (unat i)) = Some (rev_state n src dst n)"
  using assms
proof (induction "n - unat i" arbitrary: i)
  case 0
  then show ?case by (subst rev_copy8.simps) simp
next
  case (Suc k)
  then have less: "unat i < n" by simp
  have i1: "unat (i + 1) = Suc (unat i)" using less Suc.prems(1) by (simp add: unat_word_ariths)
  show ?case
    using less Suc.prems Suc.hyps(1) [of "i + 1"] Suc.hyps(2) i1 rev_state_step [OF less Suc.prems(2,3)]
    by (subst rev_copy8.simps) (simp add: arr_get_def)
qed

lemma rev_state_0: "rev_state n src dst 0 = dst" by (simp add: rev_state_def)

lemma rev_state_full: "rev_state n src dst n = rev (take n src) @ drop n dst" by (simp add: rev_state_def)

lemma rev_copy8_returns_small:
  assumes "rev_copy8 n src i dst = Some r"
  shows "n \<le> 255"
proof (rule rev_copy8.raw_induct [where P = "\<lambda>n src i dst r. n \<le> 255", OF _ assms], goal_cases)
  case (1 loop n src i dst r)
  show ?case
  proof (cases "unat i < n")
    case True
    with 1(2) obtain d where "loop n src (i + 1) d = Some r"
      by (auto simp: Option.bind_eq_Some_conv)
    then show ?thesis by (rule 1(1))
  next
    case False
    then show ?thesis using unat_u8_less [of i] by simp
  qed
qed

lemma rev_compare_equal:
  assumes "n < 2 ^ 16" "n \<le> length src" "n \<le> length dst" "unat i \<le> n"
    "\<And>j. unat i \<le> j \<Longrightarrow> j < n \<Longrightarrow> dst ! (n - 1 - j) = src ! j"
  shows "rev_compare n dst src i = Some 0"
  using assms
proof (induction "n - unat i" arbitrary: i)
  case 0
  then show ?case by (subst rev_compare.simps) simp
next
  case (Suc k)
  then have less: "unat i < n" by simp
  have i1: "unat (i + 1) = Suc (unat i)" using less Suc.prems(1) by (simp add: unat_word_ariths)
  have "dst ! (n - 1 - unat i) = src ! unat i" using Suc.prems(5) less by blast
  then show ?case
    using less Suc.prems i1 Suc.hyps(1) [of "i + 1"] Suc.hyps(2)
    by (subst rev_compare.simps) (simp add: arr_get_def)
qed

lemma rev_compare_zero:
  assumes "n < 2 ^ 16" "n \<le> length src" "n \<le> length dst" "unat i \<le> n"
    "rev_compare n dst src i = Some 0" "unat i \<le> j" "j < n"
  shows "dst ! (n - 1 - j) = src ! j"
  using assms
proof (induction "n - unat i" arbitrary: i)
  case 0
  then show ?case by simp
next
  case (Suc k)
  then have less: "unat i < n" by simp
  have i1: "unat (i + 1) = Suc (unat i)" using less Suc.prems(1) by (simp add: unat_word_ariths)
  have "n - Suc (unat i) < length dst" using less Suc.prems by simp
  then have step: "rev_compare n dst src i =
      (if dst ! (n - 1 - unat i) \<noteq> src ! unat i
       then Some (if src ! unat i < dst ! (n - 1 - unat i) then 1 else -1) else rev_compare n dst src (i + 1))"
    using less Suc.prems by (subst rev_compare.simps) (simp add: arr_get_def)
  have e: "dst ! (n - 1 - unat i) = src ! unat i" and r: "rev_compare n dst src (i + 1) = Some 0"
    using Suc.prems(5) unfolding step by (auto split: if_splits)
  show ?case
  proof (cases "j = unat i")
    case True
    then show ?thesis using e by simp
  next
    case False
    then show ?thesis using Suc.hyps(1) [of "i + 1"] Suc.hyps(2) Suc.prems r i1 by simp
  qed
qed

text \<open>
  \<open>memcpy_cpu_to_le\<close> writes the first \<open>len\<close> bytes of the source in reverse order and nothing
  else, and \<open>memcmp_cpu_to_le\<close> answers zero exactly when one array is the reverse of the other;
  both end for every 16-bit length, and together they give that a copy compares as equal.\<close>

theorem memcpy_cpu_to_le_reverses:
  assumes "unat len \<le> length src" "unat len \<le> length dst"
  shows "memcpy_cpu_to_le dst src len = Some (rev (take (unat len) src) @ drop (unat len) dst) \<and>
    (memcmp_cpu_to_le dst src len = Some 0 \<longleftrightarrow> take (unat len) dst = rev (take (unat len) src))"
proof
  have l: "unat len < 2 ^ 16" using unat_u16_less [of len] by simp
  show "memcpy_cpu_to_le dst src len = Some (rev (take (unat len) src) @ drop (unat len) dst)"
    using rev_copy16_reverses [OF l assms, of 0] by (simp add: memcpy_cpu_to_le_def rev_state_0 rev_state_full)
  have "take (unat len) dst = rev (take (unat len) src) \<longleftrightarrow> (\<forall>j < unat len. dst ! (unat len - 1 - j) = src ! j)"
    (is "?l \<longleftrightarrow> ?r")
  proof
    assume ?l
    show ?r
    proof (intro allI impI)
      fix j assume j: "j < unat len"
      then have k: "unat len - 1 - j < unat len" by simp
      then have "dst ! (unat len - 1 - j) = take (unat len) dst ! (unat len - 1 - j)" by (simp del: diff_diff_left)
      also have "\<dots> = rev (take (unat len) src) ! (unat len - 1 - j)" using \<open>?l\<close> by (simp del: diff_diff_left)
      also have "\<dots> = src ! j" using j k assms by (simp add: rev_nth min_def)
      finally show "dst ! (unat len - 1 - j) = src ! j" .
    qed
  next
    assume r: ?r
    show ?l
    proof (rule nth_equalityI)
      fix k assume "k < length (take (unat len) dst)"
      then have k: "k < unat len" by simp
      then have "dst ! k = src ! (unat len - Suc k)" using r [rule_format, of "unat len - 1 - k"] by simp
      with k assms show "take (unat len) dst ! k = rev (take (unat len) src) ! k"
        by (simp add: rev_nth min_def)
    qed (use assms in simp)
  qed
  then show "memcmp_cpu_to_le dst src len = Some 0 \<longleftrightarrow> take (unat len) dst = rev (take (unat len) src)"
    using rev_compare_equal [OF l assms, of 0] rev_compare_zero [OF l assms, of 0]
    by (auto simp: memcmp_cpu_to_le_def)
qed

theorem memcpy_cpu_to_le_reverses_witness:
  "memcpy_cpu_to_le [0, 0, 0, 9] [1, 2, 3] 3 = Some [3, 2, 1, 9]"
  using memcpy_cpu_to_le_reverses [of 3 "[1, 2, 3]" "[0, 0, 0, 9]"] by simp

text \<open>
  \<open>memcpy_rev\<close> of the host, with its 8-bit loop counter, reverses its source for counts up to
  255 and does not end for any larger count: on no memory does a call with a count of 256 or more
  return.\<close>

theorem memcpy_rev_hangs_above_255:
  assumes "cnt \<le> length src" "cnt \<le> length dst"
  shows "memcpy_rev dst src cnt =
    (if cnt \<le> 255 then Some (rev (take cnt src) @ drop cnt dst) else None)"
proof (cases "cnt \<le> 255")
  case True
  then show ?thesis
    using rev_copy8_reverses [of cnt src dst 0] assms by (simp add: memcpy_rev_def rev_state_0 rev_state_full)
next
  case False
  then show ?thesis
    using rev_copy8_returns_small [of cnt src 0 dst] by (cases "memcpy_rev dst src cnt") (auto simp: memcpy_rev_def)
qed

theorem memcpy_rev_hangs_above_255_witness:
  "memcpy_rev (replicate 300 0) (replicate 300 1) 256 = None"
  using memcpy_rev_hangs_above_255 [of 256 "replicate 300 1" "replicate 300 0"] by simp

subsection \<open>The byte-order macros\<close>

lemma cpu_to_le_agree: "le16_to_cpu n = cpu_to_le16 n" "le32_to_cpu m = cpu_to_le32 m"
  by (simp_all add: le16_to_cpu_def cpu_to_le16_def le32_to_cpu_def cpu_to_le32_def)

lemma bit_masks:
  "bit (255 :: int) n \<longleftrightarrow> n < 8"
  "bit (65280 :: int) n \<longleftrightarrow> 8 \<le> n \<and> n < 16"
  "bit (16711680 :: int) n \<longleftrightarrow> 16 \<le> n \<and> n < 24"
  "bit (4278190080 :: int) n \<longleftrightarrow> 24 \<le> n \<and> n < 32"
proof -
  have "(255 :: int) = mask 8" "65280 = push_bit 8 (mask 8 :: int)" "16711680 = push_bit 16 (mask 8 :: int)"
    "4278190080 = push_bit 24 (mask 8 :: int)" by (simp_all add: mask_eq_exp_minus_1)
  then show "bit (255 :: int) n \<longleftrightarrow> n < 8" "bit (65280 :: int) n \<longleftrightarrow> 8 \<le> n \<and> n < 16"
    "bit (16711680 :: int) n \<longleftrightarrow> 16 \<le> n \<and> n < 24" "bit (4278190080 :: int) n \<longleftrightarrow> 24 \<le> n \<and> n < 32"
    by (auto simp only: bit_push_bit_iff bit_mask_iff) auto
qed

lemma cpu_to_le16_bit: "bit (cpu_to_le16 n) k \<longleftrightarrow> (if k < 8 then bit n (8 + k) else k < 16 \<and> bit n (k - 8))"
  by (auto simp: cpu_to_le16_def bit_or_iff bit_push_bit_iff bit_drop_bit_eq bit_and_iff bit_masks)

lemma cpu_to_le32_bit: "bit (cpu_to_le32 n) k \<longleftrightarrow>
   (if k < 8 then bit n (24 + k) else if k < 16 then bit n (8 + k) else if k < 24 then bit n (k - 8) else k < 32 \<and> bit n (k - 24))"
  by (auto simp: cpu_to_le32_def bit_or_iff bit_push_bit_iff bit_drop_bit_eq bit_and_iff bit_masks)

text \<open>
  The byte-order macros are involutions, so that what one side converts the other converts back,
  and the byte an integer has first in memory on the big-endian target is, after the conversion,
  the one that \<open>mac_utils_byte_array_to_16_bit\<close> reads as least significant.\<close>

theorem cpu_to_le_involution:
  "le16_to_cpu (cpu_to_le16 n) = n \<and> le32_to_cpu (cpu_to_le32 m) = m \<and>
   mac_utils_byte_array_to_16_bit [hi8 (cpu_to_le16 n), lo8 (cpu_to_le16 n)] = Some n"
proof -
  have "le16_to_cpu (cpu_to_le16 n) = n" "le32_to_cpu (cpu_to_le32 m) = m"
    unfolding cpu_to_le_agree
    by (rule bit_word_eqI; auto simp: cpu_to_le16_bit cpu_to_le32_bit; fail)+
  moreover have "mac_utils_byte_array_to_16_bit [hi8 (cpu_to_le16 n), lo8 (cpu_to_le16 n)] = Some n"
    unfolding mac_utils_byte_array_to_16_bit_def
    by (auto simp: arr_get_def hi8_def lo8_def cpu_to_le16_bit bit_or_iff bit_push_bit_iff bit_unsigned_iff
        bit_drop_bit_eq intro!: bit_word_eqI)
  ultimately show ?thesis by simp
qed

end
