(* ===== verification/Ccitt.thy ===== *)
theory Ccitt
  imports UtilsProps
begin

text \<open>
  The 16-bit check sum of the firmware: the shift-and-fold step of \<open>crc_ccitt_update\<close> is eight
  steps of the bit-serial CRC.
\<close>

subsection \<open>The check sum\<close>

text \<open>The reference: shift in one bit, with the reflected CCITT polynomial \<open>0x8408\<close>.\<close>

definition crc_bit :: "u16 \<Rightarrow> u16" where
  "crc_bit c = (if bit c 0 then drop_bit 1 c XOR 0x8408 else drop_bit 1 c)"

definition crc_reference :: "u16 \<Rightarrow> u8 \<Rightarrow> u16" where
  "crc_reference c b = (crc_bit ^^ 8) (c XOR ucast b)"

text \<open>The bit positions of a half word, highest first.\<close>

lemma half_word_positions:
  "n < (16 :: nat) \<Longrightarrow> n \<in> {15, 14, 13, 12, 11, 10, 9, 8} \<union> {7, 6, 5, 4, 3, 2, Suc 0, 0}"
  by (simp only: Un_iff insert_iff empty_iff) presburger

lemmas position_cases = half_word_positions [unfolded Un_iff insert_iff empty_iff]

lemma bit_crc_poly: "bit (0x8408::u16) n \<longleftrightarrow> n = 15 \<or> n = 10 \<or> n = 3"
proof (cases "n < 16")
  case True
  from position_cases [OF this] show ?thesis by (elim disjE FalseE) simp_all
next
  case False
  then show ?thesis using bit_imp_le_length [of "0x8408::u16" n] by auto
qed

lemma crc_bit_bit: "bit (crc_bit c) n = (bit c (Suc n) \<noteq> (bit c 0 \<and> (n = 15 \<or> n = 10 \<or> n = 3)))"
proof (cases "bit c 0")
  case True
  then have "bit (crc_bit c) n = (bit (drop_bit 1 c) n \<noteq> bit (0x8408::u16) n)"
    by (simp only: crc_bit_def if_True bit_xor_iff)
  with True show ?thesis unfolding bit_crc_poly by (simp add: bit_drop_bit_eq)
next
  case False
  then show ?thesis by (simp add: crc_bit_def bit_drop_bit_eq)
qed


lemma bit_fold: "bit (d XOR push_bit 4 d :: u8) n \<longleftrightarrow> n < 8 \<and> (bit d n \<noteq> (4 \<le> n \<and> bit d (n - 4)))"
  using bit_imp_le_length [of d n] by (auto simp: bit_xor_iff bit_push_bit_iff)

lemma bit_crc_fold: "n < 16 \<Longrightarrow> bit ((push_bit 8 (ucast e) OR ucast (hi8 c)) XOR ucast (drop_bit 4 e) XOR push_bit 3 (ucast (e :: u8)) :: u16) n \<longleftrightarrow>
   ((8 \<le> n \<and> bit e (n - 8) \<or> n < 8 \<and> bit c (8 + n)) \<noteq> bit e (4 + n)) \<noteq> (3 \<le> n \<and> bit e (n - 3))"
  using u8_high [of "4 + n" e] u8_high [of "n - 3" e] u8_high [of n "hi8 c"]
  unfolding bit_xor_iff bit_or_iff bit_push_bit_iff bit_unsigned_iff bit_drop_bit_eq o_apply hi8_def
  by auto

text \<open>C18.
  \<open>crc_ccitt_update\<close>, which folds a byte into the check sum with a few shifts, computes the same
  as eight steps of the bit-serial CRC with polynomial \<open>0x8408\<close>, for every check sum and every
  byte.\<close>

theorem crc_ccitt_update_correct: "crc_ccitt_update c b = crc_reference c b"
proof -
  have "bit (crc_ccitt_update c b) n = bit (crc_reference c b) n" if "n < 16" for n
    unfolding crc_ccitt_update_def Let_def bit_crc_fold [OF that] bit_fold
    using position_cases [OF that]
    by (elim disjE FalseE; simp add: crc_reference_def crc_bit_bit bit_xor_iff bit_unsigned_iff
        numeral_eq_Suc lo8_def u8_high u16_high; sat)
  then show ?thesis by (auto intro: bit_word_eqI)
qed

end
