(* ===== verification/Crc32.thy ===== *)
theory Crc32
  imports FwPrelude
begin

unbundle bit_operations_syntax

text \<open>
  The CRC-32 of the flash profiles, \<^verbatim>\<open>firmware/hpgp/src/crypto/crc32.c\<close>: the table generator,
  the table-driven sum, and the proof that with the generated table the sum is the bit-serial
  CRC-32 with the reflected polynomial \<open>0xEDB88320\<close>.  The table is a global array of the code
  and an argument here, because the sum reads whatever the array holds.
\<close>

definition crc32_poly :: u32 where "crc32_poly = 0xEDB88320"

text \<open>The body of the inner loop of \<open>chksum_crc32gentab\<close>.\<close>

definition crc32_bit :: "u32 \<Rightarrow> u32" where
  "crc32_bit crc = (if crc AND 1 \<noteq> 0 then drop_bit 1 crc XOR crc32_poly else drop_bit 1 crc)"

primrec crc32_loop :: "nat \<Rightarrow> u32 \<Rightarrow> u32" where
  "crc32_loop 0 crc = crc"
| "crc32_loop (Suc j) crc = crc32_loop j (crc32_bit crc)"

definition chksum_crc32gentab :: "u32 list" where
  "chksum_crc32gentab = map (\<lambda>i. crc32_loop 8 (of_nat i)) [0..<256]"

definition crc32_step :: "u32 list \<Rightarrow> u32 \<Rightarrow> u8 \<Rightarrow> u32" where
  "crc32_step crc_tab crc b =
     (drop_bit 8 crc AND 0x00FFFFFF) XOR crc_tab ! unat ((crc XOR ucast b) AND 0xFF)"

definition chksum_crc32 :: "u32 list \<Rightarrow> u8 list \<Rightarrow> u32" where
  "chksum_crc32 crc_tab block = foldl (crc32_step crc_tab) 0xFFFFFFFF block XOR 0xFFFFFFFF"

subsection \<open>Equivalence with the bit-serial sum\<close>

definition crc32_byte :: "u32 \<Rightarrow> u8 \<Rightarrow> u32" where
  "crc32_byte crc b = crc32_loop 8 (crc XOR ucast b)"

definition crc32_reference :: "u8 list \<Rightarrow> u32" where
  "crc32_reference block = foldl crc32_byte 0xFFFFFFFF block XOR 0xFFFFFFFF"

lemma crc32_bit_alt: "crc32_bit c = (if bit c 0 then drop_bit 1 c XOR crc32_poly else drop_bit 1 c)"
  by (auto simp: crc32_bit_def and_one_eq bit_0 even_iff_mod_2_eq_zero)

lemma crc32_bit_xor: "crc32_bit (a XOR b) = crc32_bit a XOR crc32_bit b"
  by (rule bit_word_eqI) (auto simp: crc32_bit_alt bit_xor_iff bit_drop_bit_eq)

lemma crc32_loop_xor: "crc32_loop k (a XOR b) = crc32_loop k a XOR crc32_loop k b"
  by (induction k arbitrary: a b) (simp_all add: crc32_bit_xor)

lemma crc32_loop_high: "(\<And>n. n < k \<Longrightarrow> \<not> bit a n) \<Longrightarrow> crc32_loop k a = drop_bit k a"
proof (induction k arbitrary: a)
  case 0
  then show ?case by simp
next
  case (Suc k)
  have "crc32_bit a = drop_bit 1 a" using Suc.prems [of 0] by (simp add: crc32_bit_alt)
  moreover have "crc32_loop k (drop_bit 1 a) = drop_bit k (drop_bit 1 a)"
    using Suc.prems by (intro Suc.IH) (simp add: bit_drop_bit_eq)
  ultimately show ?case by (simp add: drop_bit_drop_bit)
qed

lemma and_byte_take_bit: "(x :: u32) AND 0xFF = take_bit 8 x"
  by (simp add: take_bit_eq_mask mask_eq_exp_minus_1)

lemma crc32_split: "x = take_bit 8 x XOR push_bit 8 (drop_bit 8 (x :: u32))"
  by (rule bit_word_eqI) (auto simp: bit_xor_iff bit_take_bit_iff bit_push_bit_iff bit_drop_bit_eq)

lemma crc32_loop_8: "crc32_loop 8 x = drop_bit 8 x XOR chksum_crc32gentab ! unat (x AND 0xFF)"
proof -
  have "unat (take_bit 8 x) < 256" by (simp add: unsigned_take_bit_eq take_bit_nat_def)
  then have t: "chksum_crc32gentab ! unat (x AND 0xFF) = crc32_loop 8 (take_bit 8 x)"
    by (simp add: chksum_crc32gentab_def and_byte_take_bit)
  have "crc32_loop 8 (push_bit 8 (drop_bit 8 x)) = drop_bit 8 (push_bit 8 (drop_bit 8 x))"
    by (rule crc32_loop_high) (simp add: bit_push_bit_iff)
  also have "\<dots> = drop_bit 8 x"
    by (rule bit_word_eqI) (auto simp: bit_drop_bit_eq bit_push_bit_iff dest: bit_imp_le_length)
  finally have h: "crc32_loop 8 (push_bit 8 (drop_bit 8 x)) = drop_bit 8 x" .
  have "crc32_loop 8 x = crc32_loop 8 (take_bit 8 x) XOR crc32_loop 8 (push_bit 8 (drop_bit 8 x))"
    by (subst crc32_split [of x]) (rule crc32_loop_xor)
  then show ?thesis unfolding t h by (simp add: xor.commute)
qed

lemma crc32_step_byte: "crc32_step chksum_crc32gentab c b = crc32_byte c b"
proof -
  have "drop_bit 8 (c XOR ucast b) = drop_bit 8 c"
    by (rule bit_word_eqI)
      (auto simp: bit_drop_bit_eq bit_xor_iff bit_unsigned_iff dest: bit_imp_le_length)
  moreover have "drop_bit 8 c AND 0x00FFFFFF = drop_bit 8 c"
  proof -
    have "(0x00FFFFFF :: u32) = mask 24" by (simp add: mask_eq_exp_minus_1)
    then have "drop_bit 8 c AND 0x00FFFFFF = take_bit 24 (drop_bit 8 c)" by (simp only: take_bit_eq_mask)
    also have "\<dots> = drop_bit 8 c"
      by (rule bit_word_eqI) (auto simp: bit_take_bit_iff bit_drop_bit_eq dest: bit_imp_le_length)
    finally show ?thesis .
  qed
  ultimately show ?thesis
    unfolding crc32_step_def crc32_byte_def crc32_loop_8 by simp
qed

text \<open>C17.
  With the table that \<open>chksum_crc32gentab\<close> builds, the table-driven \<open>chksum_crc32\<close> is the
  bit-serial CRC-32 of the block; the check value of the standard test string confirms that it
  is the usual CRC-32.\<close>

theorem chksum_crc32_correct:
  "chksum_crc32 chksum_crc32gentab block = crc32_reference block \<and>
   crc32_reference (map of_nat [0x31, 0x32, 0x33, 0x34, 0x35, 0x36, 0x37, 0x38, 0x39]) = 0xCBF43926"
proof -
  have "crc32_step chksum_crc32gentab = crc32_byte" by (intro ext) (rule crc32_step_byte)
  then have "chksum_crc32 chksum_crc32gentab block = crc32_reference block"
    by (simp add: chksum_crc32_def crc32_reference_def)
  moreover have "crc32_reference (map of_nat [0x31, 0x32, 0x33, 0x34, 0x35, 0x36, 0x37, 0x38, 0x39]) = 0xCBF43926"
    by code_simp
  ultimately show ?thesis by simp
qed

end
