(* ===== verification/Flash.thy ===== *)
theory Flash
  imports FwPrelude
begin

text \<open>
  The flash profiles of \<^verbatim>\<open>firmware/project/hal/src/hal_rf_prod_test.c\<close>.

  The memory is a map from addresses to bytes.  \<open>spiflash_eraseSector\<close>,
  \<open>spiflash_WriteByte\<close> and \<open>spiflash_ReadByte\<close> are the documented behaviour of a NOR flash:
  erasing sets a sector of 4096 bytes to \<open>0xFF\<close>, programming a byte can only clear bits.  The
  locale \<open>nor_flash\<close> states what the profile routines rely on.
\<close>

type_synonym flash = "u32 \<Rightarrow> u8"

definition FLASH_SECTOR_SIZE :: u32 where "FLASH_SECTOR_SIZE = 4096"
definition FLASH_DEFAULT_MEM_VALUE :: u8 where "FLASH_DEFAULT_MEM_VALUE = 0xFF"
definition FLASH_ENTIRE_SECTOR :: u16 where "FLASH_ENTIRE_SECTOR = 0"
definition PROD_CONFIG_SECTOR :: u32 where "PROD_CONFIG_SECTOR = 300"
definition MFG_PARAM_SECTOR :: u32 where "MFG_PARAM_SECTOR = 301"
definition LED_CFG_SECTOR :: u32 where "LED_CFG_SECTOR = 257 + 11"

definition sector_of :: "u32 \<Rightarrow> u32" where "sector_of a = a div FLASH_SECTOR_SIZE"

definition spiflash_eraseSector :: "u32 \<Rightarrow> flash \<Rightarrow> flash" where
  "spiflash_eraseSector n f = (\<lambda>a. if sector_of a = n then FLASH_DEFAULT_MEM_VALUE else f a)"

definition spiflash_WriteByte :: "u32 \<Rightarrow> u8 \<Rightarrow> flash \<Rightarrow> flash" where
  "spiflash_WriteByte a v f = f(a := f a AND v)"

definition spiflash_ReadByte :: "u32 \<Rightarrow> flash \<Rightarrow> u8" where
  "spiflash_ReadByte a f = f a"

subsection \<open>The interface and its clients\<close>

text \<open>The byte loops, over any program and read operation.\<close>

primrec program_from :: "(u32 \<Rightarrow> u8 \<Rightarrow> 'f \<Rightarrow> 'f) \<Rightarrow> u32 \<Rightarrow> u8 list \<Rightarrow> 'f \<Rightarrow> 'f" where
  "program_from prg a [] f = f"
| "program_from prg a (b # bs) f = program_from prg (a + 1) bs (prg a b f)"

definition read_from :: "(u32 \<Rightarrow> 'f \<Rightarrow> u8) \<Rightarrow> u32 \<Rightarrow> nat \<Rightarrow> 'f \<Rightarrow> u8 list" where
  "read_from rd a n f = map (\<lambda>i. rd (a + of_nat i) f) [0..<n]"

locale nor_flash =
  fixes erase :: "u32 \<Rightarrow> 'f \<Rightarrow> 'f"
    and prg :: "u32 \<Rightarrow> u8 \<Rightarrow> 'f \<Rightarrow> 'f"
    and rd :: "u32 \<Rightarrow> 'f \<Rightarrow> u8"
  assumes read_erased: "sector_of a = n \<Longrightarrow> rd a (erase n f) = 0xFF"
    and read_erased_other: "sector_of a \<noteq> n \<Longrightarrow> rd a (erase n f) = rd a f"
    and read_programmed: "rd a f = 0xFF \<Longrightarrow> rd a (prg a v f) = v"
    and read_programmed_other: "a \<noteq> b \<Longrightarrow> rd a (prg b v f) = rd a f"
begin

lemma program_from_other:
  "(\<And>i. i < length bs \<Longrightarrow> a \<noteq> c + of_nat i) \<Longrightarrow> rd a (program_from prg c bs f) = rd a f"
proof (induction bs arbitrary: c f)
  case Nil
  then show ?case by simp
next
  case (Cons b bs)
  have "a \<noteq> c" using Cons.prems [of 0] by simp
  moreover have "rd a (program_from prg (c + 1) bs (prg c b f)) = rd a (prg c b f)"
  proof (rule Cons.IH)
    fix i assume "i < length bs"
    then show "a \<noteq> c + 1 + of_nat i" using Cons.prems [of "Suc i"] by (simp add: ac_simps)
  qed
  ultimately show ?case by (simp add: read_programmed_other)
qed

lemma program_from_read:
  "\<lbrakk>length bs \<le> 2 ^ 32; \<And>i. i < length bs \<Longrightarrow> rd (c + of_nat i) f = 0xFF; i < length bs\<rbrakk> \<Longrightarrow>
   rd (c + of_nat i) (program_from prg c bs f) = bs ! i"
proof (induction bs arbitrary: c f i)
  case Nil
  then show ?case by simp
next
  case (Cons b bs)
  show ?case
  proof (cases i)
    case 0
    have "rd c (program_from prg (c + 1) bs (prg c b f)) = rd c (prg c b f)"
    proof (rule program_from_other)
      fix j assume "j < length bs"
      then have "Suc j < 2 ^ 32" using Cons.prems(1) by simp
      then have "unat (of_nat (Suc j) :: u32) = Suc j"
        by (simp only: unat_of_nat len_of_numeral_defs) (simp add: take_bit_nat_eq_self)
      then have "(of_nat (Suc j) :: u32) \<noteq> 0" by (metis nat.simps(3) unat_0)
      then show "c \<noteq> c + 1 + of_nat j" by (simp add: add.assoc)
    qed
    then show ?thesis using 0 Cons.prems(2) [of 0] by (simp add: read_programmed)
  next
    case (Suc k)
    have "rd (c + 1 + of_nat k) (program_from prg (c + 1) bs (prg c b f)) = bs ! k"
    proof (rule Cons.IH)
      fix j assume j: "j < length bs"
      then have "Suc j < 2 ^ 32" using Cons.prems(1) by simp
      then have "unat (of_nat (Suc j) :: u32) = Suc j"
        by (simp only: unat_of_nat len_of_numeral_defs) (simp add: take_bit_nat_eq_self)
      then have "(of_nat (Suc j) :: u32) \<noteq> 0" by (metis nat.simps(3) unat_0)
      then have "c + 1 + of_nat j \<noteq> c" by (simp add: add.assoc)
      then show "rd (c + 1 + of_nat j) (prg c b f) = 0xFF"
        using Cons.prems(2) [of "Suc j"] j by (simp add: read_programmed_other add.assoc)
    qed (use Suc Cons.prems in simp_all)
    then show ?thesis by (simp add: Suc add.assoc)
  qed
qed

text \<open>A profile written into an erased sector is read back.\<close>

lemma profile_roundtrip:
  assumes "length bs \<le> 2 ^ 32" "\<And>i. i < length bs \<Longrightarrow> sector_of (c + of_nat i) = n"
  shows "read_from rd c (length bs) (program_from prg c bs (erase n f)) = bs"
  using assms by (auto simp: read_from_def program_from_read read_erased intro!: nth_equalityI)

lemma profile_frame:
  assumes "\<And>i. i < length bs \<Longrightarrow> sector_of (c + of_nat i) = n" "sector_of a \<noteq> n"
  shows "rd a (program_from prg c bs (erase n f)) = rd a f"
  using assms by (subst program_from_other) (auto simp: read_erased_other)

end

interpretation spiflash: nor_flash spiflash_eraseSector spiflash_WriteByte spiflash_ReadByte
proof unfold_locales
  fix a v and f :: flash
  have "(255 :: u8) = -1" by simp
  then have "(255 :: u8) AND v = v" by (simp only: and.left_neutral)
  then show "spiflash_ReadByte a f = 0xFF \<Longrightarrow> spiflash_ReadByte a (spiflash_WriteByte a v f) = v"
    by (simp add: spiflash_ReadByte_def spiflash_WriteByte_def)
qed (simp_all add: spiflash_eraseSector_def spiflash_WriteByte_def spiflash_ReadByte_def
    FLASH_DEFAULT_MEM_VALUE_def)

subsection \<open>The operations\<close>

definition Gv701x_CheckFlashSectorErased :: "u32 \<Rightarrow> u16 \<Rightarrow> flash \<Rightarrow> eStatus" where
  "Gv701x_CheckFlashSectorErased sectorNo byteCount f =
     (let address = sectorNo * FLASH_SECTOR_SIZE in
      if byteCount = FLASH_ENTIRE_SECTOR
      then if list_all (\<lambda>b. b = FLASH_DEFAULT_MEM_VALUE)
                (read_from spiflash_ReadByte address (unat FLASH_SECTOR_SIZE) f)
           then STATUS_SUCCESS else STATUS_FAILURE
      else if ucast byteCount > FLASH_SECTOR_SIZE then STATUS_FAILURE
      else if list_all (\<lambda>b. b = FLASH_DEFAULT_MEM_VALUE)
                (read_from spiflash_ReadByte address (unat byteCount) f)
           then STATUS_SUCCESS else STATUS_FAILURE)"

definition checksum16_step :: "u16 \<Rightarrow> u8 \<Rightarrow> u16" where
  "checksum16_step checksum b =
     (let checksum = drop_bit 1 checksum + push_bit 15 (checksum AND 1);
          checksum = checksum + ucast b
      in checksum AND 0xFFFF)"

definition Gv701x_CalcCheckSum16 :: "u8 list \<Rightarrow> u16" where
  "Gv701x_CalcCheckSum16 block = foldl checksum16_step 0 block"

definition Gv701x_CheckSum16Valid :: "u8 list \<Rightarrow> eStatus" where
  "Gv701x_CheckSum16Valid block =
     (if Gv701x_CalcCheckSum16 block \<noteq> 0 then STATUS_FAILURE else STATUS_SUCCESS)"

definition Gv701x_FlashWriteMemProfile :: "u32 \<Rightarrow> u8 list \<Rightarrow> flash \<Rightarrow> flash" where
  "Gv701x_FlashWriteMemProfile sectorNo profile f =
     program_from spiflash_WriteByte (sectorNo * FLASH_SECTOR_SIZE) profile
       (spiflash_eraseSector sectorNo f)"

definition Gv701x_FlashReadMemProfile :: "u32 \<Rightarrow> nat \<Rightarrow> flash \<Rightarrow> u8 list" where
  "Gv701x_FlashReadMemProfile sectorNo len f =
     read_from spiflash_ReadByte (sectorNo * FLASH_SECTOR_SIZE) len f"

text \<open>The two routines for the production profile have the same bodies over its own size.\<close>

definition Gv701x_FlashWriteProdProfile :: "u32 \<Rightarrow> u8 list \<Rightarrow> flash \<Rightarrow> flash" where
  "Gv701x_FlashWriteProdProfile sectorNo profile f =
     program_from spiflash_WriteByte (sectorNo * FLASH_SECTOR_SIZE) profile
       (spiflash_eraseSector sectorNo f)"

definition Gv701x_FlashReadProdProfile :: "u32 \<Rightarrow> nat \<Rightarrow> flash \<Rightarrow> u8 list" where
  "Gv701x_FlashReadProdProfile sectorNo len f =
     read_from spiflash_ReadByte (sectorNo * FLASH_SECTOR_SIZE) len f"

subsection \<open>Round trip\<close>

lemma sector_of_offset:
  assumes "unat n < 2 ^ 20" "i < 4096"
  shows "sector_of (n * FLASH_SECTOR_SIZE + of_nat i) = n"
proof -
  have "unat n * 4096 + i < 2 ^ 32" using assms by simp
  moreover have "n * 4096 + of_nat i = of_nat (unat n * 4096 + i)" by simp
  ultimately have "unat (n * 4096 + of_nat i) = unat n * 4096 + i"
    by (simp only: unat_of_nat) simp
  then show ?thesis
    using assms by (simp add: sector_of_def FLASH_SECTOR_SIZE_def word_unat_eq_iff unat_div)
qed

lemma mem_profile_roundtrip:
  assumes "unat n < 2 ^ 20" "length bs \<le> 4096"
  shows "Gv701x_FlashReadMemProfile n (length bs) (Gv701x_FlashWriteMemProfile n bs f) = bs"
  unfolding Gv701x_FlashReadMemProfile_def Gv701x_FlashWriteMemProfile_def
  using assms by (intro spiflash.profile_roundtrip) (auto intro: sector_of_offset)

lemma mem_profile_frame:
  assumes "unat n < 2 ^ 20" "length bs \<le> 4096" "sector_of a \<noteq> n"
  shows "Gv701x_FlashWriteMemProfile n bs f a = f a"
proof -
  have "spiflash_ReadByte a (Gv701x_FlashWriteMemProfile n bs f) = spiflash_ReadByte a f"
    unfolding Gv701x_FlashWriteMemProfile_def
    using assms by (intro spiflash.profile_frame) (auto intro: sector_of_offset)
  then show ?thesis by (simp add: spiflash_ReadByte_def)
qed

lemma prod_profile_eq_mem:
  "Gv701x_FlashWriteProdProfile = Gv701x_FlashWriteMemProfile"
  "Gv701x_FlashReadProdProfile = Gv701x_FlashReadMemProfile"
  by (auto simp: fun_eq_iff Gv701x_FlashWriteProdProfile_def Gv701x_FlashWriteMemProfile_def
      Gv701x_FlashReadProdProfile_def Gv701x_FlashReadMemProfile_def)

end
