(* ===== verification/MacAttr.thy ===== *)
theory MacAttr
  imports FwPrelude
begin

unbundle bit_operations_syntax

text \<open>
  The names that the MAC and its clients share: the attributes of the PAN information base with
  their identifiers (\<^verbatim>\<open>components/ieee802154/inc/mac_const.h\<close>, and \<open>I_AM_PAN_COORDINATOR\<close> of
  \<^verbatim>\<open>mac_hal.h\<close>), and the bits of the radio control and interrupt registers that both set
  (\<^verbatim>\<open>hybrii_802_15_4_regs.h\<close>, \<^verbatim>\<open>hal_reg.h\<close>).
\<close>

datatype (plugins only: size code) pib_attr =
    phyCurrentChannel | phyChannelsSupported | phyTransmitPower | phyCCAMode | phyCurrentPage
    | phyMaxFrameDuration | phySHRDuration | phySymbolsPerOctet | I_AM_PAN_COORDINATOR
    | macAckWaitDuration | macAssociationPermit | macAutoRequest | macBattLifeExt
    | macBattLifeExtPeriods | macBeaconPayload | macBeaconPayloadLength | macBeaconOrder
    | macBeaconTxTime | macBSN | macCoordExtendedAddress | macCoordShortAddress | macDSN
    | macGTSPermit | macMaxCSMABackoffs | macMinBE | macPANId | macPromiscuousMode
    | macRxOnWhenIdle | macShortAddress | macSuperframeOrder | macTransactionPersistenceTime
    | macAssociatedPANCoord | macMaxBE | macMaxFrameTotalWaitTime | macMaxFrameRetries
    | macResponseWaitTime | macSyncSymbolOffset | macTimestampSupported | macSecurityEnabled
    | macMinLIFSPeriod | macMinSIFSPeriod | macKeyTable | macKeyTableEntries | macDeviceTable
    | macDeviceTableEntries | macSecurityLevelTable | macSecurityLevelTableEntries
    | macFrameCounter | macAutoRequestSecurityLevel | macAutoRequestKeyIdMode
    | macAutoRequestKeySource | macAutoRequestKeyIndex | macDefaultKeySource
    | macPANCoordExtendedAddress | macPANCoordShortAddress | macIeeeAddress

text \<open>The identifiers.\<close>

primrec pib_id :: "pib_attr \<Rightarrow> u8" where
  "pib_id phyCurrentChannel = 0x00"
| "pib_id phyChannelsSupported = 0x01"
| "pib_id phyTransmitPower = 0x02"
| "pib_id phyCCAMode = 0x03"
| "pib_id phyCurrentPage = 0x04"
| "pib_id phyMaxFrameDuration = 0x05"
| "pib_id phySHRDuration = 0x06"
| "pib_id phySymbolsPerOctet = 0x07"
| "pib_id I_AM_PAN_COORDINATOR = 0x0B"
| "pib_id macAckWaitDuration = 0x40"
| "pib_id macAssociationPermit = 0x41"
| "pib_id macAutoRequest = 0x42"
| "pib_id macBattLifeExt = 0x43"
| "pib_id macBattLifeExtPeriods = 0x44"
| "pib_id macBeaconPayload = 0x45"
| "pib_id macBeaconPayloadLength = 0x46"
| "pib_id macBeaconOrder = 0x47"
| "pib_id macBeaconTxTime = 0x48"
| "pib_id macBSN = 0x49"
| "pib_id macCoordExtendedAddress = 0x4A"
| "pib_id macCoordShortAddress = 0x4B"
| "pib_id macDSN = 0x4C"
| "pib_id macGTSPermit = 0x4D"
| "pib_id macMaxCSMABackoffs = 0x4E"
| "pib_id macMinBE = 0x4F"
| "pib_id macPANId = 0x50"
| "pib_id macPromiscuousMode = 0x51"
| "pib_id macRxOnWhenIdle = 0x52"
| "pib_id macShortAddress = 0x53"
| "pib_id macSuperframeOrder = 0x54"
| "pib_id macTransactionPersistenceTime = 0x55"
| "pib_id macAssociatedPANCoord = 0x56"
| "pib_id macMaxBE = 0x57"
| "pib_id macMaxFrameTotalWaitTime = 0x58"
| "pib_id macMaxFrameRetries = 0x59"
| "pib_id macResponseWaitTime = 0x5A"
| "pib_id macSyncSymbolOffset = 0x5B"
| "pib_id macTimestampSupported = 0x5C"
| "pib_id macSecurityEnabled = 0x5D"
| "pib_id macMinLIFSPeriod = 0x5E"
| "pib_id macMinSIFSPeriod = 0x5F"
| "pib_id macKeyTable = 0x71"
| "pib_id macKeyTableEntries = 0x72"
| "pib_id macDeviceTable = 0x73"
| "pib_id macDeviceTableEntries = 0x74"
| "pib_id macSecurityLevelTable = 0x75"
| "pib_id macSecurityLevelTableEntries = 0x76"
| "pib_id macFrameCounter = 0x77"
| "pib_id macAutoRequestSecurityLevel = 0x78"
| "pib_id macAutoRequestKeyIdMode = 0x79"
| "pib_id macAutoRequestKeySource = 0x7A"
| "pib_id macAutoRequestKeyIndex = 0x7B"
| "pib_id macDefaultKeySource = 0x7C"
| "pib_id macPANCoordExtendedAddress = 0x7D"
| "pib_id macPANCoordShortAddress = 0x7E"
| "pib_id macIeeeAddress = 0xF0"

definition pib_attrs :: "pib_attr list" where
  "pib_attrs =
    [phyCurrentChannel, phyChannelsSupported, phyTransmitPower, phyCCAMode, phyCurrentPage,
     phyMaxFrameDuration, phySHRDuration, phySymbolsPerOctet, I_AM_PAN_COORDINATOR,
     macAckWaitDuration, macAssociationPermit, macAutoRequest, macBattLifeExt,
     macBattLifeExtPeriods, macBeaconPayload, macBeaconPayloadLength, macBeaconOrder,
     macBeaconTxTime, macBSN, macCoordExtendedAddress, macCoordShortAddress, macDSN,
     macGTSPermit, macMaxCSMABackoffs, macMinBE, macPANId, macPromiscuousMode, macRxOnWhenIdle,
     macShortAddress, macSuperframeOrder, macTransactionPersistenceTime, macAssociatedPANCoord,
     macMaxBE, macMaxFrameTotalWaitTime, macMaxFrameRetries, macResponseWaitTime,
     macSyncSymbolOffset, macTimestampSupported, macSecurityEnabled, macMinLIFSPeriod,
     macMinSIFSPeriod, macKeyTable, macKeyTableEntries, macDeviceTable, macDeviceTableEntries,
     macSecurityLevelTable, macSecurityLevelTableEntries, macFrameCounter,
     macAutoRequestSecurityLevel, macAutoRequestKeyIdMode, macAutoRequestKeySource,
     macAutoRequestKeyIndex, macDefaultKeySource, macPANCoordExtendedAddress,
     macPANCoordShortAddress, macIeeeAddress]"

text \<open>The \<open>case\<close> labels: the attribute with an identifier.\<close>

definition attr_of :: "u8 \<Rightarrow> pib_attr option" where
  "attr_of i = map_of (map (\<lambda>a. (pib_id a, a)) pib_attrs) i"

subsection \<open>Bits of the radio and interrupt registers\<close>

definition ZIG_CTRL_TX_EN :: u32 where "ZIG_CTRL_TX_EN = push_bit 0 1"
definition ZIG_CTRL_ACK_EN :: u32 where "ZIG_CTRL_ACK_EN = push_bit 2 1"
definition ZIG_CTRL_RX_EN :: u32 where "ZIG_CTRL_RX_EN = push_bit 16 1"
definition ZIG_CTRL_NON_BEACON :: u32 where "ZIG_CTRL_NON_BEACON = push_bit 28 1"
definition CPU_INT_ZB_BC_TX_TIME :: u32 where "CPU_INT_ZB_BC_TX_TIME = push_bit 11 1"
definition CPU_INT_ZB_PRE_BC_TX_TIME :: u32 where "CPU_INT_ZB_PRE_BC_TX_TIME = push_bit 17 1"

subsection \<open>The identifiers are unambiguous\<close>

lemma distinct_pib_ids: "distinct (map pib_id pib_attrs)"
  by (simp add: pib_attrs_def)

lemma pib_attrs_all [simp]: "a \<in> set pib_attrs"
  by (cases a) (simp_all add: pib_attrs_def)

lemma attr_of_eq_Some: "attr_of i = Some a \<longleftrightarrow> pib_id a = i"
  unfolding attr_of_def
  by (subst map_of_eq_Some_iff) (auto simp: distinct_pib_ids comp_def)

lemma attr_of_pib_id [simp]: "attr_of (pib_id a) = Some a"
  by (simp add: attr_of_eq_Some)

lemma pib_id_eq [simp]: "pib_id a = pib_id b \<longleftrightarrow> a = b"
  by (metis attr_of_pib_id option.inject)

end
