(* ===== verification/ProdTest.thy ===== *)
theory ProdTest
  imports Stm Utils Crc32 Flash MacAttr
begin

unbundle bit_operations_syntax

text \<open>
  The production-test agent of the firmware: \<^verbatim>\<open>project/hal/src/hal_prod_tst.c\<close>,
  \<^verbatim>\<open>hal_rf_prod_test.c\<close>, \<^verbatim>\<open>prod_test_correct_endieness.c\<close>, the boot-time check of the stored
  profile in \<^verbatim>\<open>hal_main.C\<close> and the retry loop of the RF calibration in
  \<^verbatim>\<open>common/gv701x_cfg.c\<close>.  The configuration is the RF and PLC build of the DUT and of the
  reference board (\<open>PROD_TEST\<close>, \<open>HYBRII_802154\<close>, \<open>HYBRII_HPGP\<close>); \<open>TYPE_DUT\<close> is a field of the
  environment.

  Every effect on the hardware is an \<open>action\<close> appended to a trace, in program order: frames
  handed to the SPI driver, register writes, PIB attributes of the 802.15.4 MAC, the PLC
  transmit engine, a chip reset.  What the hardware and the MAC answer is given by the
  environment, as functions of the trace so far.  Structures that the code overlays on bytes
  (test parameters, the stored profile) are byte lists with the offsets of the packed
  big-endian layout of the 8051 compiler.
\<close>

subsection \<open>Constants\<close>

definition DEV_DUT :: u8 where "DEV_DUT = 0"
definition DEV_REF :: u8 where "DEV_REF = 1"

definition TOOL_CMD_PREPARE_DUT :: u8 where "TOOL_CMD_PREPARE_DUT = 0"
definition TOOL_CMD_PREPARE_REF :: u8 where "TOOL_CMD_PREPARE_REF = 1"
definition TOOL_CMD_START_TEST :: u8 where "TOOL_CMD_START_TEST = 2"
definition TOOL_CMD_STOP_TEST :: u8 where "TOOL_CMD_STOP_TEST = 3"
definition TOOL_CMD_DEV_RESET :: u8 where "TOOL_CMD_DEV_RESET = 4"
definition TOOL_CMD_GET_RESULT :: u8 where "TOOL_CMD_GET_RESULT = 5"
definition TOOL_CMD_DEV_SEARCH :: u8 where "TOOL_CMD_DEV_SEARCH = 6"
definition TOOL_CMD_DEVICE_FLASH_PARAM :: u8 where "TOOL_CMD_DEVICE_FLASH_PARAM = 7"

text \<open>The confirmation of a command, \<open>cmd | CMD_ID_MASK\<close>.\<close>

definition CNF :: "u8 \<Rightarrow> u8" where "CNF cmd = cmd OR 0x80"

definition EVENT_DEVICE_UP :: u8 where "EVENT_DEVICE_UP = 0"
definition EVENT_TEST_DONE :: u8 where "EVENT_TEST_DONE = 1"
definition headerEvent :: u8 where "headerEvent = 0"
definition headerRequest :: u8 where "headerRequest = 1"
definition headerResponse :: u8 where "headerResponse = 2"

definition TEST_ID_PLC_TX :: u8 where "TEST_ID_PLC_TX = 0"
definition TEST_ID_PLC_RX :: u8 where "TEST_ID_PLC_RX = 1"
definition TEST_ID_802_15_4_TX :: u8 where "TEST_ID_802_15_4_TX = 32"
definition TEST_ID_802_15_4_RX :: u8 where "TEST_ID_802_15_4_RX = 33"

definition PRODTEST_STAT_SUCCESS :: u8 where "PRODTEST_STAT_SUCCESS = 0"
definition PRODTEST_STAT_INVALID_DEV :: u8 where "PRODTEST_STAT_INVALID_DEV = 1"
definition PRODTEST_STAT_INVALID_TEST :: u8 where "PRODTEST_STAT_INVALID_TEST = 2"
definition PRODTEST_STAT_FAILURE :: u8 where "PRODTEST_STAT_FAILURE = 0xFF"

definition TEST_PLC_ID :: u8 where "TEST_PLC_ID = 0"
definition TEST_802_15_5_ID :: u8 where "TEST_802_15_5_ID = 1"
definition PROD_TOOL_PROTOCOL :: u8 where "PROD_TOOL_PROTOCOL = 0x8F"

definition RF_CALIBRATION_FAILED :: u8 where "RF_CALIBRATION_FAILED = 0"
definition RF_CALIBRATED :: u8 where "RF_CALIBRATED = 1"
definition RF_NOT_CALIBRATED :: u8 where "RF_NOT_CALIBRATED = 0xFF"
definition RF_CAL_MANUAL :: u8 where "RF_CAL_MANUAL = 0"
definition RF_CAL_AUTO :: u8 where "RF_CAL_AUTO = 1"
definition PROD_VALID_SIGNATURE :: u32 where "PROD_VALID_SIGNATURE = 0x47565052"
definition MAC_SER_VALID_SIGNATURE :: u32 where "MAC_SER_VALID_SIGNATURE = 0x47564D53"
definition TXLO_CAL_TRY_MAX :: u8 where "TXLO_CAL_TRY_MAX = 20"

definition PROD_RF_TEST_TIMER :: u16 where "PROD_RF_TEST_TIMER = 8"
definition FCF_SHORT_ADDR :: u8 where "FCF_SHORT_ADDR = 2"
definition TX_CAP_ACK :: u8 where "TX_CAP_ACK = 1"

text \<open>Sizes of the packed structures.\<close>

definition sz_plc :: nat where "sz_plc = 37"
definition sz_rf_tx :: nat where "sz_rf_tx = 20"
definition sz_rf_rx :: nat where "sz_rf_rx = 15"

subsection \<open>State\<close>

datatype hwreg = PLC_ADDRFILTERERRCNT_REG | PLC_FCCSERRCNT_REG | PLC_ICVERRCNT_REG

datatype action =
    SpiTx "u8 list"
  | WaitSpiTx
  | WriteU8Reg u16 u8
  | AfeWrite u8 u8
  | AddNEK u8
  | SetTei u8
  | SetSnid u8
  | SimulateTx "u8 list"
  | ChipReset
  | MlmeSet pib_attr "u8 list"
  | PibSet pib_attr u8
  | ZigCtrlSet u32
  | ZbIntDisable u32
  | McpsDataReq u8 u8 u16 u16 u8 u8 u8

datatype eRfTestType = RF_TX | RF_RX

text \<open>The pointers that timers carry: the cookie of the RF test or one of another module.\<close>

datatype cookie_ref = RfTxConfigStats | OtherCookie nat

record sProdConfigProfile =
  signature :: u32
  crc :: u32
  pTestIntf :: u8
  rfCalStatus :: u8
  rfCalAttemptCount :: u8
  autoCalibrated :: u8
  reg23 :: u8
  reg24 :: u8
  pCmdId :: u8
  pTestId :: u8
  testActionPreparePending :: u8
  rxTestParams :: "u8 list"
  txTestParams :: "u8 list"

record sHalStats =
  TotalRxGoodFrmCnt :: u32
  TotalRxBytesCnt :: u32
  RxGoodDataCnt :: u32
  RxGoodMgmtCnt :: u32
  DuplicateRxCnt :: u32

record sRfStats =
  rx_count :: u32
  rx_bytes :: u32
  decrypt_err :: u16
  tx_stats :: "u16 list"

record sRfTxTimerCookie =
  cTestInterface :: u8
  cTestId :: u32
  cSrcAddrMode :: u8
  cDstAddrMode :: u8
  cDstAddr :: u16
  cDstPan :: u16
  cMsduLength :: u8
  cFrameTxCount :: u16
  cFrameTxDoneCount :: u16
  cInterFrameDelay :: u16
  cMsduHandle :: u8
  cTxOptions :: u8

record prodState =
  prepCmdId :: u8
  prepTestId :: u8
  prepParms :: "u8 list"
  devType :: u8
  preAddrFilterErrCnt :: u32
  preFrameCtrlErrCnt :: u32
  preICVErrCnt :: u32
  profile :: sProdConfigProfile
  prodTestDevType :: u8
  prodTestIsPLCTxTestActive :: u8
  halStats :: sHalStats
  selfTei :: u8
  remoteTei :: u8
  snid :: u8
  gRfStats :: sRfStats
  prod_test_rf_timer :: u8
  rfTxConfigStats :: sRfTxTimerCookie
  stm :: "cookie_ref sStm"
  flashMem :: flash
  crc_tab :: "u32 list"
  hybrii_mode :: bool
  trace :: "action list"

record prodEnv =
  type_dut :: bool
  reg_read :: "action list \<Rightarrow> hwreg \<Rightarrow> u32"
  mlme_ok :: "action list \<Rightarrow> bool"
  pib_ok :: "action list \<Rightarrow> bool"
  pn_fields :: "u8 \<Rightarrow> u8 \<Rightarrow> u8 list"

record sprodTstCmd =
  cmdId :: u8
  testIntf :: u8
  testId :: u8
  parms :: "u8 list"

text \<open>
  How a command ends: the \<open>break\<close> of its case, or a chip reset followed by an endless loop.
  \<open>FallThrough\<close> is the value of the inner blocks when no \<open>break\<close> was taken.
\<close>

datatype flow = FallThrough | Break | Resetting

definition act :: "action \<Rightarrow> prodState \<Rightarrow> prodState" where
  "act a s = s\<lparr>trace := trace s @ [a]\<rparr>"

text \<open>The stored profile: signature, CRC and the 44 bytes that the CRC covers.\<close>

definition profile_body :: "sProdConfigProfile \<Rightarrow> u8 list" where
  "profile_body p = [pTestIntf p, rfCalStatus p, rfCalAttemptCount p, autoCalibrated p,
     reg23 p, reg24 p, pCmdId p, pTestId p, testActionPreparePending p] @
     rxTestParams p @ txTestParams p"

definition profile_bytes :: "sProdConfigProfile \<Rightarrow> u8 list" where
  "profile_bytes p = be32 (signature p) @ be32 (crc p) @ profile_body p"

definition profile_of_bytes :: "u8 list \<Rightarrow> sProdConfigProfile" where
  "profile_of_bytes b =
     \<lparr>signature = get32 0 b, crc = get32 4 b, pTestIntf = b ! 8, rfCalStatus = b ! 9,
      rfCalAttemptCount = b ! 10, autoCalibrated = b ! 11, reg23 = b ! 12, reg24 = b ! 13,
      pCmdId = b ! 14, pTestId = b ! 15, testActionPreparePending = b ! 16,
      rxTestParams = take sz_rf_rx (drop 17 b), txTestParams = take sz_rf_tx (drop 32 b)\<rparr>"

definition sz_profile :: nat where "sz_profile = 52"

text \<open>The recurring pair of statements: new CRC, then write the profile to its sector.\<close>

definition store_profile :: "prodState \<Rightarrow> prodState" where
  "store_profile s =
     (let s = s\<lparr>profile := (profile s)\<lparr>crc := chksum_crc32 (crc_tab s) (profile_body (profile s))\<rparr>\<rparr>
      in s\<lparr>flashMem := Gv701x_FlashWriteProdProfile PROD_CONFIG_SECTOR (profile_bytes (profile s))
             (flashMem s)\<rparr>)"

subsection \<open>Byte order of the test parameters\<close>

definition swap16_at :: "nat \<Rightarrow> u8 list \<Rightarrow> u8 list" where
  "swap16_at i b = put_at i (be16 (le16_to_cpu (get16 i b))) b"

definition swap32_at :: "nat \<Rightarrow> u8 list \<Rightarrow> u8 list" where
  "swap32_at i b = put_at i (be32 (le32_to_cpu (get32 i b))) b"

text \<open>\<open>frmLen\<close>, \<open>numFrames\<close> and \<open>delay\<close>.\<close>

definition correctEndieness_sPlcSimTxTestParams :: "u8 list \<Rightarrow> u8 list" where
  "correctEndieness_sPlcSimTxTestParams b = swap32_at 21 (swap32_at 17 (swap16_at 15 b))"

text \<open>Source and destination address, PAN, frame count and delay.\<close>

definition correctEndieness_sRfTxTestHostParams :: "u8 list \<Rightarrow> u8 list" where
  "correctEndieness_sRfTxTestHostParams b =
     swap16_at 18 (swap16_at 16 (swap16_at 13 (swap16_at 10 (swap16_at 8 b))))"

definition correctEndieness_sRfRxTestHostParams :: "u8 list \<Rightarrow> u8 list" where
  "correctEndieness_sRfRxTestHostParams b = swap16_at 13 (swap16_at 10 (swap16_at 8 b))"

subsection \<open>Frames to the host\<close>

definition fill_Tool_header :: "u8 \<Rightarrow> u16 \<Rightarrow> u8 \<Rightarrow> u8 list" where
  "fill_Tool_header frmType sz i =
     [PROD_TOOL_PROTOCOL] @ be16 (cpu_to_le16 sz) @ [frmType, i]"

definition prodTestSendRespOrEvent :: "u8 \<Rightarrow> u8 \<Rightarrow> u8 \<Rightarrow> prodState \<Rightarrow> prodState" where
  "prodTestSendRespOrEvent frmType cmd status =
     act (SpiTx (fill_Tool_header frmType 1 cmd @ [status]))"

definition prodTestSendRespOrEventPayload ::
  "u8 \<Rightarrow> u8 \<Rightarrow> u8 \<Rightarrow> u8 list \<Rightarrow> prodState \<Rightarrow> prodState" where
  "prodTestSendRespOrEventPayload frmType cmd status payload =
     act (SpiTx (fill_Tool_header frmType 1 cmd @ [status] @ payload))"

text \<open>
  The command in a cell of the receive buffer: 14 bytes of Ethernet header, four of the
  protocol header, then the command.
\<close>

definition isProdTstCmd :: "u8 list \<Rightarrow> sprodTstCmd option option" where
  "isProdTstCmd cp = do {
     protocolID \<leftarrow> arr_get cp 14;
     if protocolID \<noteq> PROD_TOOL_PROTOCOL then Some None
     else do {
       c \<leftarrow> arr_get cp 18;
       i \<leftarrow> arr_get cp 19;
       t \<leftarrow> arr_get cp 20;
       Some (Some \<lparr>cmdId = c, testIntf = i, testId = t, parms = drop 21 cp\<rparr>)
     }
   }"

subsection \<open>Configuration of the radio and of the PLC modem\<close>

definition beacon_payload_prod :: "u8 list" where
  "beacon_payload_prod = map of_nat ([0x51..<0x75] @ [0x75, 0x75] @ [0x77..<0x81])"


definition mac_diag_config_tx_rx :: "u8 \<Rightarrow> prodState \<Rightarrow> prodState" where
  "mac_diag_config_tx_rx promis_en s =
     (let s = s\<lparr>hybrii_mode := True\<rparr>;
          s = act (ZigCtrlSet (ZIG_CTRL_TX_EN OR ZIG_CTRL_RX_EN OR ZIG_CTRL_ACK_EN OR
                ZIG_CTRL_NON_BEACON)) s;
          s = act (PibSet macPromiscuousMode promis_en) s
      in act (ZbIntDisable (CPU_INT_ZB_BC_TX_TIME OR CPU_INT_ZB_PRE_BC_TX_TIME)) s)"

text \<open>The sequence of \<open>mlme_set\<close> calls; the first one that fails ends it.\<close>

primrec mlme_set_all ::
  "prodEnv \<Rightarrow> (pib_attr \<times> u8 list) list \<Rightarrow> prodState \<Rightarrow> prodState \<times> eStatus" where
  "mlme_set_all env [] s = (s, STATUS_SUCCESS)"
| "mlme_set_all env (av # avs) s =
     (let s = act (MlmeSet (fst av) (snd av)) s in
      if mlme_ok env (trace s) then mlme_set_all env avs s else (s, STATUS_FAILURE))"

definition rf_attributes :: "u8 list \<Rightarrow> (pib_attr \<times> u8 list) list" where
  "rf_attributes p =
     [(macAutoRequest, [1]), (macPANId, take 2 (drop 13 p)), (macIeeeAddress, take 8 p),
      (phyCurrentChannel, [p ! 12]), (macShortAddress, take 2 (drop 8 p)),
      (macBeaconPayloadLength, [10]), (macBeaconPayload, beacon_payload_prod),
      (macBSN, [0x84])]"

definition config_rf_test_parameters ::
  "prodEnv \<Rightarrow> u8 list \<Rightarrow> eRfTestType \<Rightarrow> prodState \<Rightarrow> prodState \<times> eStatus" where
  "config_rf_test_parameters env testParameters testType s =
     (case mlme_set_all env (rf_attributes testParameters) s of
        (s, STATUS_SUCCESS) \<Rightarrow>
          (if testType = RF_RX
           then let s = mac_diag_config_tx_rx 0 s;
                    s = act (PibSet I_AM_PAN_COORDINATOR 0) s
                in if pib_ok env (trace s)
                   then (act (ZigCtrlSet ZIG_CTRL_ACK_EN) s, STATUS_SUCCESS)
                   else (s, STATUS_FAILURE)
           else (s, STATUS_SUCCESS))
      | (s, _) \<Rightarrow> (s, STATUS_FAILURE))"

definition zeroHalStats :: sHalStats where
  "zeroHalStats = \<lparr>TotalRxGoodFrmCnt = 0, TotalRxBytesCnt = 0, RxGoodDataCnt = 0,
     RxGoodMgmtCnt = 0, DuplicateRxCnt = 0\<rparr>"

definition zeroRfStats :: sRfStats where
  "zeroRfStats = \<lparr>rx_count = 0, rx_bytes = 0, decrypt_err = 0, tx_stats = replicate 12 0\<rparr>"

definition AUTOMOTIVE_TX_POWER_MODE :: u8 where "AUTOMOTIVE_TX_POWER_MODE = 0"
definition NORMAL_TX_POWER_MODE :: u8 where "NORMAL_TX_POWER_MODE = 1"
definition HIGH_TX_POWER_MODE :: u8 where "HIGH_TX_POWER_MODE = 2"

definition plc_tx_power :: "u8 \<Rightarrow> prodState \<Rightarrow> prodState" where
  "plc_tx_power mode s =
     (let s = (if mode = AUTOMOTIVE_TX_POWER_MODE
               then act (AfeWrite 0x35 0x30) (act (AfeWrite 0x34 0x08) s) else s);
          s = (if mode = NORMAL_TX_POWER_MODE
               then act (AfeWrite 0x35 0) (act (AfeWrite 0x34 0) s) else s)
      in if mode = HIGH_TX_POWER_MODE
         then act (AfeWrite 0x35 0x0f) (act (AfeWrite 0x34 0) s) else s)"

text \<open>The fields \<open>snid\<close>, \<open>dtei\<close>, \<open>stei\<close>, \<open>txpowermode\<close> and \<open>ermode\<close> are bytes 32 to 36.\<close>

definition config_plc_test_parameters :: "u8 list \<Rightarrow> prodState \<Rightarrow> prodState option" where
  "config_plc_test_parameters p s = do {
     ermode \<leftarrow> arr_get p 36;
     let s = act (WriteU8Reg 0x4F0 (if ermode = 1 then 0x80 else 0)) s;
     txpowermode \<leftarrow> arr_get p 35;
     let s = plc_tx_power txpowermode s;
     let s = s\<lparr>halStats := zeroHalStats\<rparr>;
     stei \<leftarrow> arr_get p 34;
     dtei \<leftarrow> arr_get p 33;
     sn \<leftarrow> arr_get p 32;
     let s = s\<lparr>selfTei := stei, remoteTei := dtei, snid := sn\<rparr>;
     let s = act (SetTei (selfTei s)) s;
     Some (act (SetSnid (snid s)) s)
   }"

definition copy_plcTxTestStats :: "prodEnv \<Rightarrow> prodState \<Rightarrow> u8 list" where
  "copy_plcTxTestStats env s =
     (let h = halStats s;
          AddrFilterErrCnt = reg_read env (trace s) PLC_ADDRFILTERERRCNT_REG - preAddrFilterErrCnt s;
          FrameCtrlErrCnt = reg_read env (trace s) PLC_FCCSERRCNT_REG - preFrameCtrlErrCnt s;
          ICVErrCnt = reg_read env (trace s) PLC_ICVERRCNT_REG - preICVErrCnt s
      in concat (map (\<lambda>v. be32 (cpu_to_le32 v))
           [TotalRxGoodFrmCnt h, TotalRxBytesCnt h, RxGoodDataCnt h - DuplicateRxCnt h,
            RxGoodMgmtCnt h, DuplicateRxCnt h, AddrFilterErrCnt, FrameCtrlErrCnt, ICVErrCnt]))"

subsection \<open>The timed RF transmission\<close>

definition zeroCookie :: sRfTxTimerCookie where
  "zeroCookie = \<lparr>cTestInterface = 0, cTestId = 0, cSrcAddrMode = 0, cDstAddrMode = 0,
     cDstAddr = 0, cDstPan = 0, cMsduLength = 0, cFrameTxCount = 0, cFrameTxDoneCount = 0,
     cInterFrameDelay = 0, cMsduHandle = 0, cTxOptions = 0\<rparr>"

definition rfStartTxTest :: "u8 list \<Rightarrow> prodState \<Rightarrow> (prodState \<times> eStatus) option" where
  "rfStartTxTest p s =
     (let s = s\<lparr>rfTxConfigStats := zeroCookie\<lparr>cTestInterface := TEST_802_15_5_ID,
                cTestId := ucast TEST_ID_802_15_4_TX, cSrcAddrMode := FCF_SHORT_ADDR,
                cDstAddrMode := FCF_SHORT_ADDR, cDstAddr := get16 10 p, cDstPan := get16 13 p\<rparr>\<rparr>
      in
      if \<not> p ! 15 > 0 then Some (s, STATUS_FAILURE)
      else
      let s = s\<lparr>rfTxConfigStats := (rfTxConfigStats s)\<lparr>cMsduLength := p ! 15\<rparr>\<rparr> in
      if \<not> get16 16 p > 0 then Some (s, STATUS_FAILURE)
      else
      let s = s\<lparr>rfTxConfigStats := (rfTxConfigStats s)\<lparr>cFrameTxCount := get16 16 p,
                cFrameTxDoneCount := 0, cInterFrameDelay := get16 18 p, cMsduHandle := 0,
                cTxOptions := TX_CAP_ACK\<rparr>\<rparr>;
          (m, t) = STM_AllocTimer (stm s) ZB_LAYER_TYPE_MAC PROD_RF_TEST_TIMER (Some RfTxConfigStats);
          s = s\<lparr>stm := m, prod_test_rf_timer := t\<rparr>
      in
      if prod_test_rf_timer s = STM_TIMER_ID_NULL
      then Some (prodTestSendRespOrEvent headerEvent EVENT_TEST_DONE PRODTEST_STAT_FAILURE s,
                 STATUS_FAILURE)
      else do {
        (m, st) \<leftarrow> STM_StartTimer (stm s) (prod_test_rf_timer s)
                    (ucast (cInterFrameDelay (rfTxConfigStats s)));
        let s = s\<lparr>stm := m\<rparr>;
        if st \<noteq> STATUS_SUCCESS
        then Some (prodTestSendRespOrEvent headerEvent EVENT_TEST_DONE PRODTEST_STAT_FAILURE s,
                   STATUS_FAILURE)
        else Some (s, STATUS_SUCCESS)
      })"

definition prod_rf_test_timer_cb :: "prodState \<Rightarrow> prodState option" where
  "prod_rf_test_timer_cb s =
     (let c = rfTxConfigStats s;
          s = act (McpsDataReq (cSrcAddrMode c) (cDstAddrMode c) (cDstAddr c) (cDstPan c)
                (cMsduLength c) (cMsduHandle c) (cTxOptions c)) s;
          s = s\<lparr>rfTxConfigStats := c\<lparr>cMsduHandle := cMsduHandle c + 1,
                cFrameTxDoneCount := cFrameTxDoneCount c + 1\<rparr>\<rparr>
      in
      if cFrameTxCount (rfTxConfigStats s) > cFrameTxDoneCount (rfTxConfigStats s)
      then do {
        (m, st) \<leftarrow> STM_StartTimer (stm s) (prod_test_rf_timer s)
                    (ucast (cInterFrameDelay (rfTxConfigStats s)));
        let s = s\<lparr>stm := m\<rparr>;
        if st \<noteq> STATUS_SUCCESS
        then Some (prodTestSendRespOrEvent headerEvent EVENT_TEST_DONE PRODTEST_STAT_FAILURE s)
        else Some s
      }
      else
        let s = s\<lparr>stm := fst (STM_FreeTimer (stm s) (prod_test_rf_timer s))\<rparr>;
            s = act WaitSpiTx s
        in Some (prodTestSendRespOrEvent headerEvent EVENT_TEST_DONE PRODTEST_STAT_SUCCESS s))"

subsection \<open>Preparing a test\<close>

definition rf_cnf :: "u8 \<Rightarrow> u8 \<Rightarrow> u8 \<Rightarrow> prodState \<Rightarrow> prodState" where
  "rf_cnf cnf status calStatus =
     prodTestSendRespOrEventPayload headerResponse cnf status [calStatus]"

text \<open>\<open>memcpy(prepProdCmd.parms, parms, n)\<close>.\<close>

definition copy_parms :: "u8 list \<Rightarrow> nat \<Rightarrow> prodState \<Rightarrow> prodState option" where
  "copy_parms src n s = do {
     b \<leftarrow> memcpy_from src n;
     Some (s\<lparr>prepParms := put_at 0 b (prepParms s)\<rparr>)
   }"

definition fix_parms :: "(u8 list \<Rightarrow> u8 list) \<Rightarrow> prodState \<Rightarrow> prodState" where
  "fix_parms f s = s\<lparr>prepParms := f (prepParms s)\<rparr>"

definition prepare_plc ::
  "u8 \<Rightarrow> u8 \<Rightarrow> u8 \<Rightarrow> sprodTstCmd \<Rightarrow> prodState \<Rightarrow> (prodState \<times> flow) option" where
  "prepare_plc dev cnf tst c s =
     (if devType s \<noteq> dev
      then Some (rf_cnf cnf PRODTEST_STAT_INVALID_DEV (rfCalStatus (profile s)) s, Break)
      else do {
        let s = s\<lparr>prepCmdId := cmdId c, prepTestId := testId c, prepParms := replicate sz_plc 0\<rparr>;
        s \<leftarrow> (if prepTestId s = tst then copy_parms (parms c) sz_plc s else Some s);
        s \<leftarrow> config_plc_test_parameters (parms c) s;
        Some (s, FallThrough)
      })"

text \<open>
  A prepare command on a radio that is not calibrated is kept in flash and resumed after a
  reset, for a limited number of attempts.
\<close>

definition rf_keep_pending :: "eRfTestType \<Rightarrow> sprodTstCmd \<Rightarrow> prodState \<Rightarrow> prodState" where
  "rf_keep_pending tt c s =
     (let p = profile s;
          p = (case tt of RF_TX \<Rightarrow> p\<lparr>txTestParams := take sz_rf_tx (prepParms s)\<rparr>
                        | RF_RX \<Rightarrow> p\<lparr>rxTestParams := take sz_rf_rx (prepParms s)\<rparr>);
          p = p\<lparr>testActionPreparePending := 1, pTestId := prepTestId s, pCmdId := cmdId c,
                signature := PROD_VALID_SIGNATURE, pTestIntf := TEST_802_15_5_ID,
                autoCalibrated := RF_CAL_MANUAL, reg23 := 0xff, reg24 := 0xff\<rparr>
      in act ChipReset (store_profile (s\<lparr>profile := p\<rparr>)))"

definition rf_prepare_calibrated ::
  "u8 \<Rightarrow> eRfTestType \<Rightarrow> sprodTstCmd \<Rightarrow> prodState \<Rightarrow> prodState \<times> flow" where
  "rf_prepare_calibrated cnf tt c s =
     (let st = rfCalStatus (profile s); n = rfCalAttemptCount (profile s) in
      if (st = RF_NOT_CALIBRATED \<or> st = RF_CALIBRATION_FAILED) \<and> n < TXLO_CAL_TRY_MAX
      then (rf_keep_pending tt c s, Resetting)
      else if st = RF_CALIBRATION_FAILED \<and> n \<ge> TXLO_CAL_TRY_MAX
      then (rf_cnf cnf PRODTEST_STAT_FAILURE st s, Break)
      else (s, FallThrough))"

definition rf_prepare_tx ::
  "prodEnv \<Rightarrow> u8 \<Rightarrow> sprodTstCmd \<Rightarrow> prodState \<Rightarrow> (prodState \<times> flow) option" where
  "rf_prepare_tx env cnf c s = do {
     s \<leftarrow> copy_parms (parms c) sz_rf_tx s;
     let s = fix_parms correctEndieness_sRfTxTestHostParams s;
     case config_rf_test_parameters env (prepParms s) RF_TX s of
       (s, STATUS_SUCCESS) \<Rightarrow> Some (rf_prepare_calibrated cnf RF_TX c s)
     | (s, _) \<Rightarrow> Some (rf_cnf cnf PRODTEST_STAT_INVALID_TEST (rfCalStatus (profile s)) s, Break)
   }"

definition rf_prepare_rx ::
  "prodEnv \<Rightarrow> u8 \<Rightarrow> sprodTstCmd \<Rightarrow> prodState \<Rightarrow> (prodState \<times> flow) option" where
  "rf_prepare_rx env cnf c s = do {
     s \<leftarrow> copy_parms (parms c) sz_rf_rx s;
     let s = fix_parms correctEndieness_sRfRxTestHostParams s;
     case config_rf_test_parameters env (prepParms s) RF_RX s of
       (s, STATUS_SUCCESS) \<Rightarrow> Some (rf_prepare_calibrated cnf RF_RX c s)
     | (s, _) \<Rightarrow> Some (rf_cnf cnf PRODTEST_STAT_INVALID_TEST (rfCalStatus (profile s)) s, Break)
   }"

text \<open>
  \<open>memset(&prepProdCmd, 0, sizeof(sRfTxTestHostParams))\<close>: the two identifiers and the first 18
  bytes of the parameters.
\<close>

definition rf_clear_prep :: "prodState \<Rightarrow> prodState" where
  "rf_clear_prep s = s\<lparr>prepCmdId := 0, prepTestId := 0,
     prepParms := put_at 0 (replicate (sz_rf_tx - 2) 0) (prepParms s)\<rparr>"

definition prepare_dut_rf ::
  "prodEnv \<Rightarrow> sprodTstCmd \<Rightarrow> prodState \<Rightarrow> (prodState \<times> flow) option" where
  "prepare_dut_rf env c s =
     (let cnf = CNF TOOL_CMD_PREPARE_DUT in
      if devType s \<noteq> DEV_DUT
      then Some (rf_cnf cnf PRODTEST_STAT_INVALID_DEV (rfCalStatus (profile s)) s, Break)
      else
        let s = rf_clear_prep s; s = s\<lparr>prepCmdId := cmdId c, prepTestId := testId c\<rparr> in
        if prepTestId s = TEST_ID_802_15_4_TX then rf_prepare_tx env cnf c s
        else if prepTestId s = TEST_ID_802_15_4_RX then rf_prepare_rx env cnf c s
        else Some (s, FallThrough))"

text \<open>The reference board receives when the DUT transmits, and answers a wrong device with
  the confirmation of the other command.\<close>

definition prepare_ref_rf ::
  "prodEnv \<Rightarrow> sprodTstCmd \<Rightarrow> prodState \<Rightarrow> (prodState \<times> flow) option" where
  "prepare_ref_rf env c s =
     (let cnf = CNF TOOL_CMD_PREPARE_REF in
      if devType s \<noteq> DEV_REF
      then Some (rf_cnf (CNF TOOL_CMD_PREPARE_DUT) PRODTEST_STAT_INVALID_DEV
                   (rfCalStatus (profile s)) s, Break)
      else
        let s = rf_clear_prep s; s = s\<lparr>prepCmdId := cmdId c, prepTestId := testId c\<rparr> in
        if prepTestId s = TEST_ID_802_15_4_TX then rf_prepare_rx env cnf c s
        else if prepTestId s = TEST_ID_802_15_4_RX then rf_prepare_tx env cnf c s
        else Some (s, FallThrough))"

text \<open>The confirmation at the end of both prepare cases.\<close>

definition prepare_confirm :: "u8 \<Rightarrow> sprodTstCmd \<Rightarrow> prodState \<Rightarrow> prodState" where
  "prepare_confirm cnf c s =
     (if testIntf c = TEST_PLC_ID
      then rf_cnf cnf PRODTEST_STAT_SUCCESS (rfCalStatus (profile s)) s
      else if testIntf c = TEST_802_15_5_ID
      then (if rfCalStatus (profile s) = RF_CALIBRATED
            then rf_cnf cnf PRODTEST_STAT_SUCCESS RF_CALIBRATED s else s)
      else s)"

definition after_prepare :: "u8 \<Rightarrow> sprodTstCmd \<Rightarrow> prodState \<times> flow \<Rightarrow> prodState \<times> flow" where
  "after_prepare cnf c r =
     (case r of (s, FallThrough) \<Rightarrow> (prepare_confirm cnf c s, Break) | _ \<Rightarrow> r)"

definition exec_prepare_dut ::
  "prodEnv \<Rightarrow> sprodTstCmd \<Rightarrow> prodState \<Rightarrow> (prodState \<times> flow) option" where
  "exec_prepare_dut env c s = do {
     r \<leftarrow> (if testIntf c = TEST_PLC_ID
          then prepare_plc DEV_DUT (CNF TOOL_CMD_PREPARE_DUT) TEST_ID_PLC_TX c s
          else if testIntf c = TEST_802_15_5_ID then prepare_dut_rf env c s
          else Some (s, FallThrough));
     Some (after_prepare (CNF TOOL_CMD_PREPARE_DUT) c r)
   }"

definition exec_prepare_ref ::
  "prodEnv \<Rightarrow> sprodTstCmd \<Rightarrow> prodState \<Rightarrow> (prodState \<times> flow) option" where
  "exec_prepare_ref env c s = do {
     r \<leftarrow> (if testIntf c = TEST_PLC_ID
          then prepare_plc DEV_REF (CNF TOOL_CMD_PREPARE_REF) TEST_ID_PLC_RX c s
          else if testIntf c = TEST_802_15_5_ID then prepare_ref_rf env c s
          else Some (s, FallThrough));
     Some (after_prepare (CNF TOOL_CMD_PREPARE_REF) c r)
   }"

subsection \<open>Starting and stopping a test, results\<close>

text \<open>Both boards as PLC transmitters: the DUT in the TX test, the reference in the RX test.\<close>

definition plc_transmit :: "prodEnv \<Rightarrow> prodState \<Rightarrow> prodState" where
  "plc_transmit env s =
     (let s = fix_parms correctEndieness_sPlcSimTxTestParams s;
          s = s\<lparr>preAddrFilterErrCnt := reg_read env (trace s) PLC_ADDRFILTERERRCNT_REG\<rparr>;
          s = s\<lparr>preFrameCtrlErrCnt := reg_read env (trace s) PLC_FCCSERRCNT_REG\<rparr>;
          s = s\<lparr>preICVErrCnt := reg_read env (trace s) PLC_ICVERRCNT_REG\<rparr>;
          s = act (SimulateTx (prepParms s)) s;
          s = act WaitSpiTx s
      in prodTestSendRespOrEvent headerEvent EVENT_TEST_DONE PRODTEST_STAT_SUCCESS s)"

definition start_plc :: "prodEnv \<Rightarrow> prodState \<Rightarrow> prodState" where
  "start_plc env s =
     (let s = s\<lparr>preAddrFilterErrCnt := 0, preFrameCtrlErrCnt := 0, preICVErrCnt := 0\<rparr> in
      if prodTestDevType s = DEV_DUT
      then if prepTestId s = TEST_ID_PLC_TX then plc_transmit env s
           else if prepTestId s = TEST_ID_PLC_RX then s\<lparr>prodTestIsPLCTxTestActive := 1\<rparr>
           else s
      else if prepTestId s = TEST_ID_PLC_TX then s\<lparr>prodTestIsPLCTxTestActive := 1\<rparr>
           else if prepTestId s = TEST_ID_PLC_RX then plc_transmit env s
           else s)"

definition rf_transmit :: "prodState \<Rightarrow> prodState option" where
  "rf_transmit s =
     (let s = s\<lparr>gRfStats := zeroRfStats\<rparr> in map_option fst (rfStartTxTest (prepParms s) s))"

definition start_rf :: "prodState \<Rightarrow> prodState option" where
  "start_rf s =
     (if prodTestDevType s = DEV_DUT
      then if prepTestId s = TEST_ID_802_15_4_TX then rf_transmit s
           else if prepTestId s = TEST_ID_802_15_4_RX then Some (s\<lparr>gRfStats := zeroRfStats\<rparr>)
           else Some s
      else if prepTestId s = TEST_ID_802_15_4_RX then rf_transmit s
           else if prepTestId s = TEST_ID_802_15_4_TX then Some (s\<lparr>gRfStats := zeroRfStats\<rparr>)
           else Some s)"

definition exec_start_test ::
  "prodEnv \<Rightarrow> sprodTstCmd \<Rightarrow> prodState \<Rightarrow> prodState option" where
  "exec_start_test env c s =
     (if prepCmdId s \<noteq> TOOL_CMD_PREPARE_DUT \<and> prepCmdId s \<noteq> TOOL_CMD_PREPARE_REF then Some s
      else if prepTestId s \<noteq> testId c
      then Some (prodTestSendRespOrEvent headerResponse (CNF TOOL_CMD_START_TEST)
                   PRODTEST_STAT_INVALID_TEST s)
      else
        let s = prodTestSendRespOrEvent headerResponse (CNF TOOL_CMD_START_TEST)
                  PRODTEST_STAT_SUCCESS s in
        if testIntf c = TEST_PLC_ID then Some (start_plc env s)
        else if testIntf c = TEST_802_15_5_ID then start_rf s
        else Some s)"

definition exec_stop_test :: "prodState \<Rightarrow> prodState" where
  "exec_stop_test s =
     (if devType s = DEV_REF \<or> devType s = DEV_DUT
      then let s = s\<lparr>prodTestIsPLCTxTestActive := 0\<rparr>;
               s = (if STM_TIMER_ID_NULL \<noteq> prod_test_rf_timer s
                    then s\<lparr>stm := fst (STM_FreeTimer (stm s) (prod_test_rf_timer s))\<rparr> else s)
           in prodTestSendRespOrEvent headerResponse (CNF TOOL_CMD_STOP_TEST)
                PRODTEST_STAT_SUCCESS s
      else s)"

text \<open>The RF results: of the counters, only the three of the receiver are filled in.\<close>

definition rf_result_payload :: "prodState \<Rightarrow> u8 list" where
  "rf_result_payload s =
     be32 (cpu_to_le32 (rx_count (gRfStats s))) @ be32 (cpu_to_le32 (rx_bytes (gRfStats s))) @
     be16 (cpu_to_le16 (decrypt_err (gRfStats s))) @ replicate 24 0 @
     [rfCalAttemptCount (profile s), autoCalibrated (profile s)]"

definition exec_get_result :: "prodEnv \<Rightarrow> sprodTstCmd \<Rightarrow> prodState \<Rightarrow> prodState" where
  "exec_get_result env c s =
     (if testIntf c = TEST_802_15_5_ID
      then if prepTestId s = TEST_ID_802_15_4_RX \<or> prepTestId s = TEST_ID_802_15_4_TX
           then act (SpiTx (fill_Tool_header headerResponse 36 (CNF TOOL_CMD_GET_RESULT) @
                  rf_result_payload s)) s
           else s
      else if testIntf c = TEST_PLC_ID
      then if prepTestId s = TEST_ID_PLC_TX \<or> prepTestId s = TEST_ID_PLC_RX
           then act (SpiTx (fill_Tool_header headerResponse 32 (CNF TOOL_CMD_GET_RESULT) @
                  copy_plcTxTestStats env s)) s
           else s
      else s)"

subsection \<open>Resuming a pending prepare command, and the start of the agent\<close>

text \<open>
  The two arms of the reconfiguration.  A failed configuration is answered at once and
  suppresses the success at the end; an unknown test is answered with success.
\<close>

definition reconfig_as ::
  "prodEnv \<Rightarrow> u8 \<Rightarrow> eRfTestType \<Rightarrow> prodState \<Rightarrow> prodState \<times> eStatus" where
  "reconfig_as env cnf tt s =
     (let cal = rfCalStatus (profile s);
          p = (case tt of RF_TX \<Rightarrow> txTestParams (profile s) | RF_RX \<Rightarrow> rxTestParams (profile s));
          s = s\<lparr>prepParms := put_at 0 p (prepParms s)\<rparr>
      in case config_rf_test_parameters env (prepParms s) tt s of
           (s, STATUS_SUCCESS) \<Rightarrow> (s, STATUS_SUCCESS)
         | (s, _) \<Rightarrow> (rf_cnf cnf PRODTEST_STAT_INVALID_TEST cal s, STATUS_FAILURE))"

definition reconfig_end :: "u8 \<Rightarrow> u8 \<Rightarrow> prodState \<times> eStatus \<Rightarrow> prodState" where
  "reconfig_end cnf cal r =
     (if snd r = STATUS_SUCCESS then rf_cnf cnf PRODTEST_STAT_SUCCESS cal (fst r) else fst r)"

definition rf_test_prepare_reconfig :: "prodEnv \<Rightarrow> prodState \<Rightarrow> prodState" where
  "rf_test_prepare_reconfig env s =
     (let cal = rfCalStatus (profile s);
          s = s\<lparr>prepCmdId := pCmdId (profile s), prepTestId := pTestId (profile s)\<rparr>
      in
      if devType s = DEV_DUT
      then let cnf = CNF TOOL_CMD_PREPARE_DUT in
        reconfig_end cnf cal
          (if prepTestId s = TEST_ID_802_15_4_TX then reconfig_as env cnf RF_TX s
           else if prepTestId s = TEST_ID_802_15_4_RX then reconfig_as env cnf RF_RX s
           else (s, STATUS_SUCCESS))
      else if devType s = DEV_REF
      then let cnf = CNF TOOL_CMD_PREPARE_REF in
        reconfig_end cnf cal
          (if prepTestId s = TEST_ID_802_15_4_TX then reconfig_as env cnf RF_RX s
           else if prepTestId s = TEST_ID_802_15_4_RX then reconfig_as env cnf RF_TX s
           else (s, STATUS_SUCCESS))
      else s)"

definition PLC_NIC :: u8 where "PLC_NIC = push_bit 0 1"
definition RF_NIC :: u8 where "RF_NIC = push_bit 1 1"

text \<open>The event that announces the device: 22 bytes of payload.\<close>

definition device_up_frame :: "u8 \<Rightarrow> u8 list" where
  "device_up_frame dev = fill_Tool_header headerEvent 22 EVENT_DEVICE_UP @
     [dev, PLC_NIC OR RF_NIC] @ replicate 16 1 @ be32 (cpu_to_le32 0x0F)"

definition prodTest_init :: "prodEnv \<Rightarrow> u8 \<Rightarrow> prodState \<Rightarrow> prodState" where
  "prodTest_init env resetFlag s =
     (let s = s\<lparr>prodTestDevType := if type_dut env then DEV_DUT else DEV_REF\<rparr>;
          s = fold (\<lambda>i. act (AddNEK i)) [0, 1, 2, 3, 4, 5, 6] s;
          s = s\<lparr>devType := prodTestDevType s\<rparr>;
          spiTXBuf = device_up_frame (prodTestDevType s);
          s = (if resetFlag = 1
               then store_profile (s\<lparr>profile := (profile s)\<lparr>testActionPreparePending := 0\<rparr>\<rparr>)
               else s)
      in
      if testActionPreparePending (profile s) \<noteq> 1 then act (SpiTx spiTXBuf) s
      else if rfCalStatus (profile s) = RF_CALIBRATED then rf_test_prepare_reconfig env s
      else if rfCalStatus (profile s) = RF_CALIBRATION_FAILED \<and>
              rfCalAttemptCount (profile s) \<ge> TXLO_CAL_TRY_MAX \<and>
              testActionPreparePending (profile s) = 1
      then let s = store_profile (s\<lparr>profile := (profile s)\<lparr>testActionPreparePending := 0\<rparr>\<rparr>)
           in rf_cnf (if prodTestDevType s = DEV_DUT then CNF TOOL_CMD_PREPARE_DUT
                      else CNF TOOL_CMD_PREPARE_REF)
                PRODTEST_STAT_FAILURE RF_CALIBRATION_FAILED s
      else s)"

subsection \<open>The parameters of the device\<close>

definition MAC_ADDR_LEN :: nat where "MAC_ADDR_LEN = 6"
definition SR_NO_LEN :: nat where "SR_NO_LEN = 18"

text \<open>\<open>sMacSerInfoProfile\<close> in memory: signature, CRC, address (reversed), serial number.\<close>

definition mac_ser_body :: "u8 list \<Rightarrow> u8 list \<Rightarrow> u8 list" where
  "mac_ser_body mac serial = rev mac @ serial"

definition mac_ser_bytes :: "u32 list \<Rightarrow> u8 list \<Rightarrow> u8 list \<Rightarrow> u8 list" where
  "mac_ser_bytes tab mac serial =
     be32 MAC_SER_VALID_SIGNATURE @ be32 (chksum_crc32 tab (mac_ser_body mac serial)) @
     mac_ser_body mac serial"

definition exec_flash_param ::
  "prodEnv \<Rightarrow> sprodTstCmd \<Rightarrow> prodState \<Rightarrow> prodState option" where
  "exec_flash_param env c s =
     (if testIntf c = TEST_PLC_ID
      then do {
        b \<leftarrow> memcpy_from (parms c) (2 + MAC_ADDR_LEN + SR_NO_LEN);
        let sector_address = le16_to_cpu (get16 0 b);
        let mac = take MAC_ADDR_LEN (drop 2 b);
        let serialNo = drop (2 + MAC_ADDR_LEN) b;
        let s = s\<lparr>flashMem := Gv701x_FlashWriteMemProfile (ucast sector_address)
                    (mac_ser_bytes (crc_tab s) mac serialNo) (flashMem s)\<rparr>;
        let ioCfg = pn_fields env (serialNo ! 0) (serialNo ! 1) @ [0, 0];
        let s = s\<lparr>flashMem := Gv701x_FlashWriteMemProfile LED_CFG_SECTOR ioCfg (flashMem s)\<rparr>;
        Some (prodTestSendRespOrEvent headerResponse (CNF TOOL_CMD_DEVICE_FLASH_PARAM)
                PRODTEST_STAT_SUCCESS s)
      }
      else Some s)"

subsection \<open>The dispatcher\<close>

definition prodTestExecCmd ::
  "prodEnv \<Rightarrow> sprodTstCmd \<Rightarrow> prodState \<Rightarrow> (prodState \<times> flow) option" where
  "prodTestExecCmd env c s =
     (if cmdId c = TOOL_CMD_PREPARE_DUT then exec_prepare_dut env c s
      else if cmdId c = TOOL_CMD_PREPARE_REF then exec_prepare_ref env c s
      else if cmdId c = TOOL_CMD_START_TEST
      then map_option (\<lambda>s. (s, Break)) (exec_start_test env c s)
      else if cmdId c = TOOL_CMD_STOP_TEST then Some (exec_stop_test s, Break)
      else if cmdId c = TOOL_CMD_GET_RESULT then Some (exec_get_result env c s, Break)
      else if cmdId c = TOOL_CMD_DEV_SEARCH
      then Some (act WaitSpiTx (prodTest_init env 1 s), Break)
      else if cmdId c = TOOL_CMD_DEV_RESET
      then Some (prodTestSendRespOrEvent headerResponse (CNF TOOL_CMD_DEV_RESET)
                   PRODTEST_STAT_SUCCESS s, Break)
      else if cmdId c = TOOL_CMD_DEVICE_FLASH_PARAM
      then map_option (\<lambda>s. (s, Break)) (exec_flash_param env c s)
      else Some (s, Break))"

text \<open>The receive path of \<^verbatim>\<open>hal_spi.c\<close>: a cell that holds a production frame is executed.\<close>

definition spi_rx_prod :: "prodEnv \<Rightarrow> u8 list \<Rightarrow> prodState \<Rightarrow> (prodState \<times> flow) option" where
  "spi_rx_prod env cp s = do {
     m \<leftarrow> isProdTstCmd cp;
     case m of Some c \<Rightarrow> prodTestExecCmd env c s | None \<Rightarrow> Some (s, Break)
   }"

subsection \<open>After a reset: the stored profile and the calibration\<close>

definition default_profile :: sProdConfigProfile where
  "default_profile =
     \<lparr>signature = PROD_VALID_SIGNATURE, crc = 0, pTestIntf = 0, rfCalStatus = RF_NOT_CALIBRATED,
      rfCalAttemptCount = 0, autoCalibrated = RF_CAL_MANUAL, reg23 = 0xff, reg24 = 0xff,
      pCmdId = 0, pTestId = 0, testActionPreparePending = 0,
      rxTestParams = replicate sz_rf_rx 0, txTestParams = replicate sz_rf_tx 0\<rparr>"

definition boot_profile :: "prodState \<Rightarrow> prodState" where
  "boot_profile s =
     (let s = s\<lparr>crc_tab := chksum_crc32gentab\<rparr>;
          s = s\<lparr>profile := profile_of_bytes
                (Gv701x_FlashReadProdProfile PROD_CONFIG_SECTOR sz_profile (flashMem s))\<rparr>
      in
      if signature (profile s) \<noteq> PROD_VALID_SIGNATURE
      then store_profile (s\<lparr>profile := default_profile\<rparr>)
      else if chksum_crc32 (crc_tab s) (profile_body (profile s)) \<noteq> crc (profile s)
      then store_profile (s\<lparr>profile := default_profile\<rparr>)
      else s)"

text \<open>The check of the address and serial number that follows, as a verdict.\<close>

definition boot_mac_ser_ok :: "prodState \<Rightarrow> bool" where
  "boot_mac_ser_ok s =
     (let b = Gv701x_FlashReadMemProfile MFG_PARAM_SECTOR (8 + MAC_ADDR_LEN + SR_NO_LEN) (flashMem s)
      in get32 0 b = MAC_SER_VALID_SIGNATURE \<and>
         chksum_crc32 (crc_tab s) (drop 8 b) = get32 4 b)"

text \<open>
  One sweep of the calibration is a measurement: whether its reading is valid and the register
  values with the least leakage.  The loop repeats it until a reading is valid or
  \<open>prod_dco_cal_failed\<close>, an 8-bit counter, has reached its limit.
\<close>

lemma unat_numeral_u8_255: "unat (0xFF :: u8) = 255" by simp

function cal_loop ::
  "(nat \<Rightarrow> bool) \<Rightarrow> nat \<Rightarrow> u8 \<Rightarrow> sProdConfigProfile \<Rightarrow> nat \<times> bool \<times> sProdConfigProfile" where
  "cal_loop reading_valid n failed p =
     (if reading_valid n then (Suc n, True, p)
      else
        let failed = failed + 1 in
        if failed < TXLO_CAL_TRY_MAX
        then cal_loop reading_valid (Suc n) failed (p\<lparr>rfCalAttemptCount := failed\<rparr>)
        else (Suc n, False, p\<lparr>rfCalAttemptCount := failed\<rparr>))"
  by pat_completeness auto

termination
proof (relation "measure (\<lambda>(_, _, failed, _). if failed = 0xFF then 21 else 20 - unat failed)")
  fix v :: "nat \<Rightarrow> bool" and n failed x and p :: sProdConfigProfile
  assume x: "x = failed + 1" "x < TXLO_CAL_TRY_MAX"
  then have lt: "unat x < 20" by (simp add: TXLO_CAL_TRY_MAX_def word_less_nat_alt)
  then have "x \<noteq> 0xFF" by auto
  moreover have "unat x = unat failed + 1" if "failed \<noteq> 0xFF"
  proof -
    from that have "unat failed \<noteq> 255" by (metis unat_numeral_u8_255 word_unat_eq_iff)
    then show ?thesis using unat_u8_less [of failed] by (simp add: x(1) unat_word_ariths)
  qed
  ultimately show "((v, Suc n, x, p\<lparr>rfCalAttemptCount := x\<rparr>), v, n, failed, p)
      \<in> measure (\<lambda>(_, _, failed, _). if failed = 0xFF then 21 else 20 - unat failed)"
    using lt by auto
qed simp

declare cal_loop.simps [simp del]

text \<open>
  The calibration at start-up.  A sweep also yields the two register values, \<open>regs n\<close>; the loop
  starts from 0xFF for a board that was never calibrated and from the stored count otherwise.
\<close>

definition zb_lo_leakage_calibration ::
  "(nat \<Rightarrow> bool) \<Rightarrow> (nat \<Rightarrow> u8 \<times> u8) \<Rightarrow> prodState \<Rightarrow> prodState" where
  "zb_lo_leakage_calibration reading_valid regs s =
     (let st = rfCalStatus (profile s) in
      if st = RF_NOT_CALIBRATED \<or> st = RF_CALIBRATION_FAILED
      then
        let start = (if st = RF_NOT_CALIBRATED then 0xFF else rfCalAttemptCount (profile s));
            (n, good, p) = cal_loop reading_valid 0 start (profile s);
            (i, q) = regs (n - 1);
            p = (if good
                 then p\<lparr>rfCalStatus := RF_CALIBRATED, autoCalibrated := RF_CAL_AUTO,
                        reg23 := i, reg24 := q\<rparr>
                 else if st = RF_NOT_CALIBRATED
                 then p\<lparr>rfCalStatus := RF_CALIBRATION_FAILED, autoCalibrated := RF_CAL_MANUAL\<rparr>
                 else p\<lparr>rfCalStatus := RF_CALIBRATION_FAILED,
                        rfCalAttemptCount := rfCalAttemptCount p + 1,
                        autoCalibrated := RF_CAL_MANUAL\<rparr>)
        in store_profile (s\<lparr>profile := p\<rparr>)
      else s)"

text \<open>
  A start of the board: the globals of the agent are cleared (the C start-up code), the timer
  manager is initialised, the flash is kept.
\<close>

definition power_on :: "cookie_ref sStm \<Rightarrow> prodState \<Rightarrow> prodState" where
  "power_on m s = s\<lparr>prepCmdId := 0, prepTestId := 0, prepParms := replicate sz_plc 0, devType := 0,
     preAddrFilterErrCnt := 0, preFrameCtrlErrCnt := 0, preICVErrCnt := 0,
     prodTestDevType := 0, prodTestIsPLCTxTestActive := 0, halStats := zeroHalStats,
     selfTei := 0, remoteTei := 0, snid := 0, gRfStats := zeroRfStats,
     prod_test_rf_timer := STM_TIMER_ID_NULL, rfTxConfigStats := zeroCookie,
     stm := fst (STM_Init m), hybrii_mode := True\<rparr>"

definition board_start ::
  "prodEnv \<Rightarrow> (nat \<Rightarrow> bool) \<Rightarrow> (nat \<Rightarrow> u8 \<times> u8) \<Rightarrow> prodState \<Rightarrow> prodState" where
  "board_start env reading_valid regs s =
     (let s = power_on (stm s) s;
          s = boot_profile s;
          s = zb_lo_leakage_calibration reading_valid regs s
      in prodTest_init env 0 s)"

end
