(* ===== verification/ProdProfile.thy ===== *)
theory ProdProfile
  imports ProdTest UtilsProps
begin

text \<open>
  The stored profile of the production-test agent: its layout in flash, its survival of a reset,
  the device parameters, and the calibration retries.
\<close>

subsection \<open>Layout\<close>

definition wf_profile :: "sProdConfigProfile \<Rightarrow> bool" where
  "wf_profile p \<longleftrightarrow> length (rxTestParams p) = sz_rf_rx \<and> length (txTestParams p) = sz_rf_tx"

lemma length_profile_bytes: "wf_profile p \<Longrightarrow> length (profile_bytes p) = sz_profile"
  by (simp add: wf_profile_def profile_bytes_def profile_body_def sz_rf_rx_def sz_rf_tx_def sz_profile_def)

lemma profile_bytes_roundtrip:
  assumes "wf_profile p"
  shows "profile_of_bytes (profile_bytes p) = p"
proof -
  obtain a b c d where v: "be32 (signature p) = [a, b, c, d]" by (simp add: be32_def)
  obtain e f g h where w: "be32 (crc p) = [e, f, g, h]" by (simp add: be32_def)
  have s: "get32 0 (profile_bytes p) = signature p" unfolding profile_bytes_def by (rule get32_be32)
  have r: "get32 4 (profile_bytes p) = crc p" unfolding profile_bytes_def by (rule get32_be32_second)
  show ?thesis
    unfolding profile_of_bytes_def s r using assms
    by (simp add: profile_bytes_def profile_body_def v w wf_profile_def sz_rf_rx_def sz_rf_tx_def)
qed

subsection \<open>What the small steps change\<close>

definition is_spi :: "action \<Rightarrow> bool" where
  "is_spi a = (case a of SpiTx _ \<Rightarrow> True | _ \<Rightarrow> False)"

text \<open>\<open>quiet s s'\<close>: only the trace grew, without a frame, and perhaps \<open>hybrii_mode\<close> was set.\<close>

definition quiet :: "prodState \<Rightarrow> prodState \<Rightarrow> bool" where
  "quiet s s' \<longleftrightarrow> (\<exists>as h. s' = s\<lparr>hybrii_mode := h, trace := trace s @ as\<rparr> \<and> list_all (\<lambda>a. \<not> is_spi a) as)"

lemma quiet_refl [simp]: "quiet s s"
  unfolding quiet_def by (rule exI [of _ "[]"], rule exI [of _ "hybrii_mode s"]) simp

lemma quiet_trans: "quiet s t \<Longrightarrow> quiet t u \<Longrightarrow> quiet s u"
  unfolding quiet_def
proof (elim exE conjE)
  fix as h bs k
  assume "t = s\<lparr>hybrii_mode := h, trace := trace s @ as\<rparr>" "list_all (\<lambda>a. \<not> is_spi a) as"
    "u = t\<lparr>hybrii_mode := k, trace := trace t @ bs\<rparr>" "list_all (\<lambda>a. \<not> is_spi a) bs"
  then show "\<exists>as h. u = s\<lparr>hybrii_mode := h, trace := trace s @ as\<rparr> \<and> list_all (\<lambda>a. \<not> is_spi a) as"
    by (intro exI [of _ "as @ bs"] exI [of _ k]) simp
qed

lemma quiet_act: "\<not> is_spi a \<Longrightarrow> quiet s (act a s)"
  unfolding quiet_def by (rule exI [of _ "[a]"], rule exI [of _ "hybrii_mode s"]) (simp add: act_def)

lemma quiet_fields:
  assumes "quiet s s'"
  shows "prepCmdId s' = prepCmdId s" "prepTestId s' = prepTestId s" "prepParms s' = prepParms s"
    "devType s' = devType s" "profile s' = profile s" "crc_tab s' = crc_tab s"
    "flashMem s' = flashMem s" "stm s' = stm s" "prodTestDevType s' = prodTestDevType s"
    "prod_test_rf_timer s' = prod_test_rf_timer s"
  using assms by (auto simp: quiet_def)

lemma quiet_mlme: "quiet s (fst (mlme_set_all env avs s))"
proof (induction avs arbitrary: s)
  case (Cons av avs)
  have "quiet s (act (MlmeSet (fst av) (snd av)) s)" by (rule quiet_act) (simp add: is_spi_def)
  then show ?case using Cons.IH by (auto simp: Let_def intro: quiet_trans)
qed simp

lemma quiet_mac_diag: "quiet s (mac_diag_config_tx_rx b s)"
proof -
  have h: "quiet s (s\<lparr>hybrii_mode := True\<rparr>)"
    unfolding quiet_def by (rule exI [of _ "[]"], rule exI [of _ True]) simp
  show ?thesis
    unfolding mac_diag_config_tx_rx_def Let_def
    by (rule quiet_trans [OF _ quiet_act])+ (use h in \<open>simp_all add: is_spi_def\<close>)
qed

lemma quiet_config: "quiet s (fst (config_rf_test_parameters env p tt s))"
proof -
  have m: "quiet s (fst (mlme_set_all env (rf_attributes p) s))" by (rule quiet_mlme)
  obtain s1 st where r: "mlme_set_all env (rf_attributes p) s = (s1, st)" by fastforce
  have d: "quiet s1 (mac_diag_config_tx_rx 0 s1)" by (rule quiet_mac_diag)
  have "quiet s1 (act (PibSet I_AM_PAN_COORDINATOR 0) (mac_diag_config_tx_rx 0 s1))"
    by (rule quiet_trans [OF d quiet_act]) (simp add: is_spi_def)
  moreover have "quiet t (act (ZigCtrlSet v) t)" for t v by (rule quiet_act) (simp add: is_spi_def)
  ultimately show ?thesis
    using m unfolding config_rf_test_parameters_def r
    by (cases st) (auto simp: Let_def intro: quiet_trans)
qed

lemma mlme_set_all_ok:
  "(\<And>t. mlme_ok env t) \<Longrightarrow> mlme_set_all env avs s =
     (s\<lparr>trace := trace s @ map (\<lambda>av. MlmeSet (fst av) (snd av)) avs\<rparr>, STATUS_SUCCESS)"
  by (induction avs arbitrary: s) (simp_all add: Let_def act_def)

lemma config_ok:
  assumes "\<And>t. mlme_ok env t" "\<And>t. pib_ok env t"
  shows "snd (config_rf_test_parameters env p tt s) = STATUS_SUCCESS"
  unfolding config_rf_test_parameters_def mlme_set_all_ok [OF assms(1)]
  by (cases tt) (simp_all add: Let_def assms(2))

lemma config_ok_pair:
  assumes "\<And>t. mlme_ok env t" "\<And>t. pib_ok env t"
  shows "config_rf_test_parameters env p tt s =
    (fst (config_rf_test_parameters env p tt s), STATUS_SUCCESS)"
  using config_ok [OF assms] by (metis prod.collapse)

subsection \<open>Writing and reading back\<close>

lemma PROD_CONFIG_SECTOR_small: "unat PROD_CONFIG_SECTOR < 2 ^ 20"
  by (simp add: PROD_CONFIG_SECTOR_def)

lemma store_profile_fields [simp]:
  "trace (store_profile s) = trace s" "prepParms (store_profile s) = prepParms s"
  "crc_tab (store_profile s) = crc_tab s" "devType (store_profile s) = devType s"
  "prodTestDevType (store_profile s) = prodTestDevType s" "stm (store_profile s) = stm s"
  "prepCmdId (store_profile s) = prepCmdId s" "prepTestId (store_profile s) = prepTestId s"
  "prod_test_rf_timer (store_profile s) = prod_test_rf_timer s"
  by (simp_all add: store_profile_def Let_def)

lemma store_profile_profile:
  "profile (store_profile s) =
     (profile s)\<lparr>crc := chksum_crc32 (crc_tab s) (profile_body (profile s))\<rparr>"
  by (simp add: store_profile_def Let_def)

lemma profile_body_crc [simp]: "profile_body (p\<lparr>crc := x\<rparr>) = profile_body p"
  by (simp add: profile_body_def)

lemma store_profile_read:
  assumes "wf_profile (profile s)"
  shows "Gv701x_FlashReadProdProfile PROD_CONFIG_SECTOR sz_profile (flashMem (store_profile s)) =
    profile_bytes (profile (store_profile s))"
proof -
  let ?p = "(profile s)\<lparr>crc := chksum_crc32 (crc_tab s) (profile_body (profile s))\<rparr>"
  have len: "length (profile_bytes ?p) = sz_profile"
    using assms by (intro length_profile_bytes) (simp add: wf_profile_def)
  have "Gv701x_FlashReadMemProfile PROD_CONFIG_SECTOR (length (profile_bytes ?p))
      (Gv701x_FlashWriteMemProfile PROD_CONFIG_SECTOR (profile_bytes ?p) (flashMem s)) = profile_bytes ?p"
    by (rule mem_profile_roundtrip [OF PROD_CONFIG_SECTOR_small]) (simp add: len sz_profile_def)
  then show ?thesis
    unfolding len by (simp add: store_profile_def Let_def prod_profile_eq_mem)
qed

lemma boot_profile_stored:
  assumes wf: "wf_profile (profile s)" and sig: "signature (profile s) = PROD_VALID_SIGNATURE"
    and tab: "crc_tab s = chksum_crc32gentab" and f: "flashMem t = flashMem (store_profile s)"
  shows "boot_profile t = t\<lparr>crc_tab := chksum_crc32gentab, profile := profile (store_profile s)\<rparr>"
proof -
  have "wf_profile (profile (store_profile s))" using wf by (simp add: wf_profile_def store_profile_profile)
  then have "profile_of_bytes (profile_bytes (profile (store_profile s))) = profile (store_profile s)"
    by (rule profile_bytes_roundtrip)
  then have "profile_of_bytes (Gv701x_FlashReadProdProfile PROD_CONFIG_SECTOR sz_profile (flashMem t)) =
      profile (store_profile s)"
    using store_profile_read [OF wf] f by simp
  then show ?thesis
    using sig tab by (simp add: boot_profile_def Let_def store_profile_profile)
qed

lemma default_profile_wf [simp]: "wf_profile default_profile"
  by (simp add: wf_profile_def default_profile_def)

lemma boot_profile_cases:
  "profile (boot_profile t) = default_profile\<lparr>crc := chksum_crc32 chksum_crc32gentab (profile_body default_profile)\<rparr> \<or>
   signature (profile (boot_profile t)) = PROD_VALID_SIGNATURE \<and>
   crc (profile (boot_profile t)) = chksum_crc32 chksum_crc32gentab (profile_body (profile (boot_profile t)))"
  by (simp add: boot_profile_def Let_def store_profile_profile)

lemma boot_profile_valid:
  "signature (profile (boot_profile t)) = PROD_VALID_SIGNATURE"
  "crc (profile (boot_profile t)) = chksum_crc32 chksum_crc32gentab (profile_body (profile (boot_profile t)))"
  using boot_profile_cases [of t] by (auto simp: default_profile_def profile_body_def)

text \<open>
  A profile that the agent stores is loaded unchanged by the next start of the board, whatever
  the rest of the state; and whatever the flash holds, the profile in use after the start has a
  valid signature and a matching CRC.\<close>

theorem prod_profile_survives_reset:
  assumes "wf_profile (profile s)" "signature (profile s) = PROD_VALID_SIGNATURE"
    "crc_tab s = chksum_crc32gentab" "flashMem t = flashMem (store_profile s)"
  shows "profile (boot_profile t) = profile (store_profile s) \<and> flashMem (boot_profile t) = flashMem t \<and>
    signature (profile (boot_profile u)) = PROD_VALID_SIGNATURE \<and>
    crc (profile (boot_profile u)) = chksum_crc32 chksum_crc32gentab (profile_body (profile (boot_profile u)))"
  using boot_profile_stored [OF assms] boot_profile_valid [of u] by simp

definition blank_state :: "prodState" where
  "blank_state = \<lparr>prepCmdId = 0, prepTestId = 0, prepParms = replicate sz_plc 0, devType = 0,
     preAddrFilterErrCnt = 0, preFrameCtrlErrCnt = 0, preICVErrCnt = 0, profile = default_profile,
     prodTestDevType = 0, prodTestIsPLCTxTestActive = 0, halStats = zeroHalStats, selfTei = 0,
     remoteTei = 0, snid = 0, gRfStats = zeroRfStats, prod_test_rf_timer = STM_TIMER_ID_NULL,
     rfTxConfigStats = zeroCookie,
     stm = fst (STM_Init \<lparr>timerCb = [], timeTick = 0, stmSector = False,
       links = \<lparr>nxt = \<lambda>_. None, prv = \<lambda>_. None\<rparr>, irqEA = True\<rparr>),
     flashMem = (\<lambda>_. 0xFF), crc_tab = chksum_crc32gentab, hybrii_mode = True, trace = []\<rparr>"

theorem prod_profile_survives_reset_witness:
  "profile (boot_profile (store_profile blank_state)) = profile (store_profile blank_state)"
proof -
  have "wf_profile (profile blank_state)" "signature (profile blank_state) = PROD_VALID_SIGNATURE"
    "crc_tab blank_state = chksum_crc32gentab"
    by (simp_all add: blank_state_def) (simp add: default_profile_def)
  from prod_profile_survives_reset [OF this refl] show ?thesis by simp
qed

subsection \<open>The calibration loop\<close>

text \<open>The number of sweeps that a starting value of the counter allows.\<close>

definition cal_tries :: "u8 \<Rightarrow> nat" where
  "cal_tries c = (if c = 0xFF then 21 else if unat c < 20 then 20 - unat c else 1)"

lemma u8_Suc: "c \<noteq> 0xFF \<Longrightarrow> unat (c + 1 :: u8) = Suc (unat c)"
proof -
  assume "c \<noteq> 0xFF"
  then have "unat c \<noteq> 255" by (metis unat_numeral_u8_255 word_unat_eq_iff)
  then show ?thesis using unat_u8_less [of c] by (simp add: unat_word_ariths)
qed

lemma cal_tries_next:
  assumes "c + 1 < TXLO_CAL_TRY_MAX"
  shows "cal_tries c = Suc (cal_tries (c + 1))"
proof (cases "c = 0xFF")
  case True
  then show ?thesis by (simp add: cal_tries_def)
next
  case False
  have lt: "unat (c + 1) < 20" using assms by (simp add: TXLO_CAL_TRY_MAX_def word_less_nat_alt)
  then have "c + 1 \<noteq> 0xFF" by auto
  then show ?thesis using False lt u8_Suc [OF False] by (simp add: cal_tries_def)
qed

lemma cal_tries_last:
  assumes "\<not> c + 1 < TXLO_CAL_TRY_MAX"
  shows "cal_tries c = 1"
proof -
  have "c \<noteq> 0xFF" using assms by (auto simp: TXLO_CAL_TRY_MAX_def)
  then show ?thesis
    using assms u8_Suc [of c] by (auto simp: cal_tries_def TXLO_CAL_TRY_MAX_def word_less_nat_alt)
qed

lemma cal_loop_spec:
  "cal_loop v n c p =
     (case find (\<lambda>i. v (n + i)) [0..<cal_tries c] of
        Some i \<Rightarrow> (n + i + 1, True, if i = 0 then p else p\<lparr>rfCalAttemptCount := c + of_nat i\<rparr>)
      | None \<Rightarrow> (n + cal_tries c, False, p\<lparr>rfCalAttemptCount := c + of_nat (cal_tries c)\<rparr>))"
proof (induction v n c p rule: cal_loop.induct)
  case (1 v n c p)
  have upt: "[0..<Suc k] = 0 # map Suc [0..<k]" for k by (simp add: map_Suc_upt upt_conv_Cons)
  have find_map: "find P (map Suc xs) = map_option Suc (find (\<lambda>i. P (Suc i)) xs)" for P xs
    by (induction xs) auto
  consider "v n" | "\<not> v n" "c + 1 < TXLO_CAL_TRY_MAX" | "\<not> v n" "\<not> c + 1 < TXLO_CAL_TRY_MAX" by blast
  then show ?case
  proof cases
    case 1
    have "cal_tries c \<noteq> 0" by (simp add: cal_tries_def)
    then obtain k where "cal_tries c = Suc k" by (cases "cal_tries c") auto
    with 1 show ?thesis by (simp add: cal_loop.simps upt del: upt_Suc)
  next
    case 2
    have "cal_loop v n c p = cal_loop v (Suc n) (c + 1) (p\<lparr>rfCalAttemptCount := c + 1\<rparr>)"
      using 2 by (simp add: cal_loop.simps [of v n c p] Let_def)
    also note 1 [OF 2(1) refl 2(2)]
    finally show ?thesis
      using 2 unfolding cal_tries_next [OF 2(2)] upt
      by (cases "find (\<lambda>i. v (Suc (n + i))) [0..<cal_tries (c + 1)]")
        (simp_all add: find_map add.assoc add.commute [of 1] del: upt_Suc)
  next
    case 3
    then show ?thesis by (simp add: cal_loop.simps Let_def cal_tries_last)
  qed
qed

lemma find_upt_Some: "find P [0..<k] = Some i \<longleftrightarrow> i < k \<and> P i \<and> (\<forall>j < i. \<not> P j)"
  by (auto simp: find_Some_iff)

lemma find_upt_None: "find P [0..<k] = None \<longleftrightarrow> (\<forall>i < k. \<not> P i)"
  by (auto simp: find_None_iff)

text \<open>
  The calibration repeats its sweep until a reading is valid, at most 21 times on a board that
  was never calibrated (whose counter starts at 0xFF and wraps) and otherwise until the counter
  reaches 20; it succeeds exactly when one of these readings is valid, stops at the first valid
  one, and after a failure the counter says how many sweeps were made.\<close>

theorem calibration_tries:
  "case cal_loop v 0 c p of (m, good, p') \<Rightarrow>
     m \<le> cal_tries c \<and> cal_tries c \<le> 21 \<and> good = (\<exists>i < cal_tries c. v i) \<and>
     (good \<longrightarrow> v (m - 1) \<and> (\<forall>i < m - 1. \<not> v i)) \<and>
     (\<not> good \<longrightarrow> m = cal_tries c \<and> rfCalAttemptCount p' = c + of_nat m)"
proof -
  have "cal_tries c \<le> 21" by (auto simp: cal_tries_def intro: order.trans [OF diff_le_self])
  moreover have "cal_loop v 0 c p = (case find v [0..<cal_tries c] of
      Some i \<Rightarrow> (i + 1, True, if i = 0 then p else p\<lparr>rfCalAttemptCount := c + of_nat i\<rparr>)
    | None \<Rightarrow> (cal_tries c, False, p\<lparr>rfCalAttemptCount := c + of_nat (cal_tries c)\<rparr>))"
    unfolding cal_loop_spec add_0 by (rule refl)
  ultimately show ?thesis
  proof (cases "find v [0..<cal_tries c]")
    case None
    with \<open>cal_loop v 0 c p = _\<close> \<open>cal_tries c \<le> 21\<close> show ?thesis
      by (simp del: find_None_iff2) (simp add: find_upt_None)
  next
    case (Some i)
    then have "i < cal_tries c" "v i" "\<forall>j < i. \<not> v j" by (simp_all add: find_upt_Some)
    with Some \<open>cal_loop v 0 c p = _\<close> \<open>cal_tries c \<le> 21\<close> show ?thesis
      by auto
  qed
qed

theorem calibration_tries_witness:
  "fst (cal_loop (\<lambda>_. False) 0 0xFF default_profile) = 21 \<and>
   rfCalAttemptCount (snd (snd (cal_loop (\<lambda>_. False) 0 0xFF default_profile))) = 20"
  using calibration_tries [where v = "\<lambda>_. False" and c = "0xFF" and p = default_profile]
  by (auto simp: cal_tries_def split: prod.splits)

lemma calibration_profile:
  "profile (zb_lo_leakage_calibration v regs s) =
     (let p = profile s; st = rfCalStatus p in
      if st = RF_NOT_CALIBRATED \<or> st = RF_CALIBRATION_FAILED
      then
        let start = (if st = RF_NOT_CALIBRATED then 0xFF else rfCalAttemptCount p);
            (n, good, p) = cal_loop v 0 start p;
            (i, q) = regs (n - 1);
            p = (if good
                 then p\<lparr>rfCalStatus := RF_CALIBRATED, autoCalibrated := RF_CAL_AUTO, reg23 := i, reg24 := q\<rparr>
                 else if st = RF_NOT_CALIBRATED
                 then p\<lparr>rfCalStatus := RF_CALIBRATION_FAILED, autoCalibrated := RF_CAL_MANUAL\<rparr>
                 else p\<lparr>rfCalStatus := RF_CALIBRATION_FAILED, rfCalAttemptCount := rfCalAttemptCount p + 1,
                        autoCalibrated := RF_CAL_MANUAL\<rparr>)
        in p\<lparr>crc := chksum_crc32 (crc_tab s) (profile_body p)\<rparr>
      else p)"
  by (simp add: zb_lo_leakage_calibration_def Let_def store_profile_profile split_def)

lemma rf_status_distinct:
  "RF_CALIBRATED \<noteq> RF_CALIBRATION_FAILED" "RF_CALIBRATED \<noteq> RF_NOT_CALIBRATED"
  "RF_NOT_CALIBRATED \<noteq> RF_CALIBRATION_FAILED"
  by (simp_all add: RF_CALIBRATED_def RF_CALIBRATION_FAILED_def RF_NOT_CALIBRATED_def)

text \<open>The counter after a failed calibration that began with \<open>c\<close>.\<close>

lemma cal_count_small: "(c + of_nat (cal_tries c) + 1 :: u8) < TXLO_CAL_TRY_MAX \<longleftrightarrow> c = 254"
proof (cases "c = 0xFF")
  case True
  then show ?thesis by (simp add: cal_tries_def TXLO_CAL_TRY_MAX_def)
next
  case False
  show ?thesis
  proof (cases "unat c < 20")
    case True
    then have "c + of_nat (cal_tries c) = 20" and "c \<noteq> 254"
      using False by (auto simp: cal_tries_def word_unat_eq_iff unat_word_ariths unat_of_nat)
    then show ?thesis by (simp add: TXLO_CAL_TRY_MAX_def)
  next
    case n: False
    then have "unat (c + of_nat (cal_tries c) + 1) = (unat c + 2) mod 256"
      using False by (simp add: cal_tries_def unat_word_ariths mod_simps)
    moreover have "unat c \<noteq> 255" "unat c < 256" using False unat_u8_less [of c] by (auto simp: word_unat_eq_iff)
    moreover have "c = 254 \<longleftrightarrow> unat c = 254" by (simp add: word_unat_eq_iff)
    ultimately show ?thesis using n by (auto simp: TXLO_CAL_TRY_MAX_def word_less_nat_alt mod_if)
  qed
qed

text \<open>
  The retry of a prepare command through a reset is all but unreachable.  After the calibration
  at start-up, an RF prepare command keeps itself in flash and resets the board only if the
  calibration had failed before with the attempt counter at 254 and failed again, so that the
  8-bit counter wrapped to zero: the first attempts of a board, which the retry is meant for,
  all end inside the loop of the calibration.\<close>

theorem rf_retry_needs_counter_overflow:
  "snd (rf_prepare_calibrated cnf tt c (zb_lo_leakage_calibration v regs s)) = Resetting \<longleftrightarrow>
   rfCalStatus (profile s) = RF_CALIBRATION_FAILED \<and> rfCalAttemptCount (profile s) = 254 \<and> \<not> v 0"
proof -
  have r: "snd (rf_prepare_calibrated cnf tt c t) = Resetting \<longleftrightarrow>
      (rfCalStatus (profile t) = RF_NOT_CALIBRATED \<or> rfCalStatus (profile t) = RF_CALIBRATION_FAILED) \<and>
      rfCalAttemptCount (profile t) < TXLO_CAL_TRY_MAX" for t
    by (simp add: rf_prepare_calibrated_def Let_def)
  consider (not) "rfCalStatus (profile s) = RF_NOT_CALIBRATED"
    | (failed) "rfCalStatus (profile s) = RF_CALIBRATION_FAILED"
    | (other) "rfCalStatus (profile s) \<noteq> RF_NOT_CALIBRATED" "rfCalStatus (profile s) \<noteq> RF_CALIBRATION_FAILED"
    by blast
  then show ?thesis
  proof cases
    case not
    have "\<not> (0xFF + of_nat (cal_tries 0xFF) :: u8) < TXLO_CAL_TRY_MAX"
      by (simp add: cal_tries_def TXLO_CAL_TRY_MAX_def)
    with not show ?thesis
      unfolding r calibration_profile cal_loop_spec
      by (cases "find v [0..<cal_tries 0xFF]") (simp_all add: Let_def split_def rf_status_distinct)
  next
    case failed
    have c: "cal_tries 254 = 1" by (simp add: cal_tries_def)
    show ?thesis
    proof (cases "find v [0..<cal_tries (rfCalAttemptCount (profile s))]")
      case None
      have "\<not> v 0" using None by (auto simp: find_upt_None cal_tries_def split: if_splits)
      with failed None show ?thesis
        unfolding r calibration_profile cal_loop_spec
        by (simp add: Let_def split_def rf_status_distinct rf_status_distinct [symmetric] cal_count_small)
    next
      case (Some i)
      have "\<not> (rfCalAttemptCount (profile s) = 254 \<and> \<not> v 0)"
        using Some by (auto simp: find_upt_Some c)
      with failed Some show ?thesis
        unfolding r calibration_profile cal_loop_spec
        by (simp add: Let_def split_def rf_status_distinct rf_status_distinct [symmetric])
    qed
  next
    case other
    then show ?thesis unfolding r calibration_profile by (simp add: Let_def)
  qed
qed

end
