(* ===== verification/ProdReset.thy ===== *)
theory ProdReset
  imports ProdProfile
begin

text \<open>
  Across a reset: a prepare command that is kept in flash until the radio is calibrated, and
  the device parameters that the next start verifies.
\<close>

subsection \<open>A prepare command kept over a reset\<close>

lemma put_at_append:
  "i + length v \<le> length a \<Longrightarrow> put_at i v (a @ b) = put_at i v a @ b"
  by (simp add: put_at_def)

lemma length_put_at: "i + length v \<le> length a \<Longrightarrow> length (put_at i v a) = length a"
  by (simp add: put_at_def)

lemma val16_cong: "2 \<le> length a \<Longrightarrow> val16 (a @ b) = val16 a"
  by (cases a) (auto simp: val16_def nth_append)

lemma get16_append: "i + 2 \<le> length a \<Longrightarrow> get16 i (a @ b) = get16 i a"
  by (simp add: get16_def val16_cong)

lemma swap16_append: "i + 2 \<le> length a \<Longrightarrow> swap16_at i (a @ b) = swap16_at i a @ b"
  by (simp add: swap16_at_def get16_append put_at_append)

lemma length_swap16: "i + 2 \<le> length a \<Longrightarrow> length (swap16_at i a) = length a"
  by (simp add: swap16_at_def length_put_at)

lemma correct_tx_append:
  "sz_rf_tx \<le> length a \<Longrightarrow> correctEndieness_sRfTxTestHostParams (a @ b) =
     correctEndieness_sRfTxTestHostParams a @ b \<and>
   length (correctEndieness_sRfTxTestHostParams a) = length a"
  by (simp add: correctEndieness_sRfTxTestHostParams_def swap16_append length_swap16 sz_rf_tx_def)

lemma correct_rx_append:
  "sz_rf_rx \<le> length a \<Longrightarrow> correctEndieness_sRfRxTestHostParams (a @ b) =
     correctEndieness_sRfRxTestHostParams a @ b \<and>
   length (correctEndieness_sRfRxTestHostParams a) = length a"
  by (simp add: correctEndieness_sRfRxTestHostParams_def swap16_append length_swap16 sz_rf_rx_def)

definition correct_rf :: "eRfTestType \<Rightarrow> u8 list \<Rightarrow> u8 list" where
  "correct_rf tt = (case tt of RF_TX \<Rightarrow> correctEndieness_sRfTxTestHostParams
                             | RF_RX \<Rightarrow> correctEndieness_sRfRxTestHostParams)"

definition sz_rf :: "eRfTestType \<Rightarrow> nat" where
  "sz_rf tt = (case tt of RF_TX \<Rightarrow> sz_rf_tx | RF_RX \<Rightarrow> sz_rf_rx)"

text \<open>What a device does in the test \<open>t\<close>: the reference board takes the other part.\<close>

definition rf_part :: "bool \<Rightarrow> u8 \<Rightarrow> eRfTestType option" where
  "rf_part dut t =
     (if t = TEST_ID_802_15_4_TX then Some (if dut then RF_TX else RF_RX)
      else if t = TEST_ID_802_15_4_RX then Some (if dut then RF_RX else RF_TX)
      else None)"

definition dev_of :: "bool \<Rightarrow> u8" where "dev_of dut = (if dut then DEV_DUT else DEV_REF)"

definition prep_cmd :: "bool \<Rightarrow> u8" where
  "prep_cmd dut = (if dut then TOOL_CMD_PREPARE_DUT else TOOL_CMD_PREPARE_REF)"

lemma dev_of_simps: "DEV_DUT \<noteq> DEV_REF" "TEST_ID_802_15_4_TX \<noteq> TEST_ID_802_15_4_RX"
  "TOOL_CMD_PREPARE_DUT \<noteq> TOOL_CMD_PREPARE_REF" "TEST_PLC_ID \<noteq> TEST_802_15_5_ID"
  by (simp_all add: DEV_DUT_def DEV_REF_def TEST_ID_802_15_4_TX_def TEST_ID_802_15_4_RX_def
      TOOL_CMD_PREPARE_DUT_def TOOL_CMD_PREPARE_REF_def TEST_PLC_ID_def TEST_802_15_5_ID_def)

text \<open>One description of the four copies of the RF prepare code.\<close>

definition rf_parms :: "eRfTestType \<Rightarrow> u8 list \<Rightarrow> u8 list \<Rightarrow> u8 list" where
  "rf_parms tt p old = correct_rf tt (take (sz_rf tt) p) @
     drop (sz_rf tt) (put_at 0 (replicate (sz_rf_tx - 2) 0) old)"

lemma rf_prepare_eq:
  assumes "sz_rf tt \<le> length p" "length old = sz_plc"
  shows "correct_rf tt (put_at 0 (take (sz_rf tt) p) (put_at 0 (replicate (sz_rf_tx - 2) 0) old)) =
    rf_parms tt p old"
proof -
  have "put_at 0 (take (sz_rf tt) p) x = take (sz_rf tt) p @ drop (sz_rf tt) x" for x
    using assms by (simp add: put_at_def)
  then show ?thesis
    using assms correct_tx_append [of "take (sz_rf tt) p"] correct_rx_append [of "take (sz_rf tt) p"]
    by (cases tt) (simp_all add: correct_rf_def sz_rf_def rf_parms_def)
qed


lemma copy_parms_Some:
  "n \<le> length src \<Longrightarrow> copy_parms src n s = Some (s\<lparr>prepParms := put_at 0 (take n src) (prepParms s)\<rparr>)"
  by (simp add: copy_parms_def memcpy_from_def)

lemma rf_prepare_spec:
  assumes ok: "\<And>t. mlme_ok env t" "\<And>t. pib_ok env t" and len: "sz_rf tt \<le> length (parms c)"
    and s1: "s1 = (case tt of RF_TX \<Rightarrow> fix_parms correctEndieness_sRfTxTestHostParams s0
                            | RF_RX \<Rightarrow> fix_parms correctEndieness_sRfRxTestHostParams s0)"
    and s0: "s0 = s\<lparr>prepParms := put_at 0 (take (sz_rf tt) (parms c)) (prepParms s)\<rparr>"
  shows "(case tt of RF_TX \<Rightarrow> rf_prepare_tx env cnf c s | RF_RX \<Rightarrow> rf_prepare_rx env cnf c s) =
    Some (rf_prepare_calibrated cnf tt c (fst (config_rf_test_parameters env (prepParms s1) tt s1)))"
proof (cases tt)
  case RF_TX
  have "copy_parms (parms c) sz_rf_tx s = Some s0"
    using len RF_TX by (simp add: copy_parms_Some sz_rf_def s0)
  moreover obtain t where "config_rf_test_parameters env (prepParms s1) RF_TX s1 = (t, STATUS_SUCCESS)"
    using config_ok_pair [OF ok] by blast
  ultimately show ?thesis
    using RF_TX s1 by (simp add: rf_prepare_tx_def Let_def)
next
  case RF_RX
  have "copy_parms (parms c) sz_rf_rx s = Some s0"
    using len RF_RX by (simp add: copy_parms_Some sz_rf_def s0)
  moreover obtain t where "config_rf_test_parameters env (prepParms s1) RF_RX s1 = (t, STATUS_SUCCESS)"
    using config_ok_pair [OF ok] by blast
  ultimately show ?thesis
    using RF_RX s1 by (simp add: rf_prepare_rx_def Let_def)
qed

lemma exec_prepare_rf:
  assumes dev: "devType s = dev_of dut" and cmd: "cmdId c = prep_cmd dut" "testIntf c = TEST_802_15_5_ID"
    and part: "rf_part dut (testId c) = Some tt" and len: "sz_rf tt \<le> length (parms c)" "length (prepParms s) = sz_plc"
    and ok: "\<And>t. mlme_ok env t" "\<And>t. pib_ok env t"
  shows "\<exists>s1. quiet (s\<lparr>prepCmdId := cmdId c, prepTestId := testId c,
      prepParms := rf_parms tt (parms c) (prepParms s)\<rparr>) s1 \<and>
    prodTestExecCmd env c s = Some (after_prepare (CNF (prep_cmd dut)) c
      (rf_prepare_calibrated (CNF (prep_cmd dut)) tt c s1))"
proof -
  let ?cnf = "CNF (prep_cmd dut)"
  let ?s = "(rf_clear_prep s)\<lparr>prepCmdId := cmdId c, prepTestId := testId c\<rparr>"
  define s0 where "s0 = ?s\<lparr>prepParms := put_at 0 (take (sz_rf tt) (parms c)) (prepParms ?s)\<rparr>"
  define s1 where "s1 = (case tt of RF_TX \<Rightarrow> fix_parms correctEndieness_sRfTxTestHostParams s0
                            | RF_RX \<Rightarrow> fix_parms correctEndieness_sRfRxTestHostParams s0)"
  define s2 where "s2 = fst (config_rf_test_parameters env (prepParms s1) tt s1)"
  have s1': "s1 = s\<lparr>prepCmdId := cmdId c, prepTestId := testId c,
      prepParms := rf_parms tt (parms c) (prepParms s)\<rparr>"
    using rf_prepare_eq [OF len]
    by (cases tt) (simp_all add: s1_def s0_def fix_parms_def rf_clear_prep_def correct_rf_def)
  have r: "(case tt of RF_TX \<Rightarrow> rf_prepare_tx env ?cnf c ?s | RF_RX \<Rightarrow> rf_prepare_rx env ?cnf c ?s) =
      Some (rf_prepare_calibrated ?cnf tt c s2)"
    unfolding s2_def by (rule rf_prepare_spec [OF ok len(1) s1_def s0_def])
  have "prodTestExecCmd env c s = Some (after_prepare ?cnf c (rf_prepare_calibrated ?cnf tt c s2))"
  proof (cases dut)
    case True
    then have "prepare_dut_rf env c s = Some (rf_prepare_calibrated ?cnf tt c s2)"
      using r part dev dev_of_simps
      by (auto simp: prepare_dut_rf_def rf_part_def dev_of_def prep_cmd_def Let_def split: if_splits)
    then show ?thesis
      using True cmd dev_of_simps by (simp add: prodTestExecCmd_def exec_prepare_dut_def prep_cmd_def)
  next
    case False
    then have "prepare_ref_rf env c s = Some (rf_prepare_calibrated ?cnf tt c s2)"
      using r part dev dev_of_simps
      by (auto simp: prepare_ref_rf_def rf_part_def dev_of_def prep_cmd_def Let_def split: if_splits)
    then show ?thesis
      using False cmd dev_of_simps by (simp add: prodTestExecCmd_def exec_prepare_ref_def prep_cmd_def)
  qed
  moreover have "quiet s1 s2" unfolding s2_def by (rule quiet_config)
  ultimately show ?thesis unfolding s1' by blast
qed


definition rf_parms_of :: "eRfTestType \<Rightarrow> sProdConfigProfile \<Rightarrow> u8 list" where
  "rf_parms_of tt p = (case tt of RF_TX \<Rightarrow> txTestParams p | RF_RX \<Rightarrow> rxTestParams p)"

lemma quiet_fold_act:
  "list_all (\<lambda>i. \<not> is_spi (f i)) is \<Longrightarrow> quiet s (fold (\<lambda>i. act (f i)) is s)"
  by (induction "is" arbitrary: s) (auto intro: quiet_trans [OF quiet_act])

lemma quiet_upd:
  assumes "quiet s t"
  shows "quiet (s\<lparr>devType := d, prepCmdId := a, prepTestId := b, prepParms := p\<rparr>)
    (t\<lparr>devType := d, prepCmdId := a, prepTestId := b, prepParms := p\<rparr>)"
proof -
  from assms obtain as h where t: "t = s\<lparr>hybrii_mode := h, trace := trace s @ as\<rparr>"
    and as: "list_all (\<lambda>a. \<not> is_spi a) as"
    unfolding quiet_def by blast
  show ?thesis unfolding quiet_def t by (rule exI [of _ as], rule exI [of _ h]) (simp add: as)
qed

lemma reconfig_as_alt:
  "reconfig_as env cnf tt s =
     (let s1 = s\<lparr>prepParms := put_at 0 (rf_parms_of tt (profile s)) (prepParms s)\<rparr>
      in case config_rf_test_parameters env (prepParms s1) tt s1 of
           (s2, STATUS_SUCCESS) \<Rightarrow> (s2, STATUS_SUCCESS)
         | (s2, _) \<Rightarrow> (rf_cnf cnf PRODTEST_STAT_INVALID_TEST (rfCalStatus (profile s)) s2, STATUS_FAILURE))"
  by (simp add: reconfig_as_def rf_parms_of_def Let_def)

text \<open>The start of the agent on a calibrated board with a pending command.\<close>

lemma prodTest_init_resume:
  assumes pend: "testActionPreparePending (profile s) = 1" "rfCalStatus (profile s) = RF_CALIBRATED"
    and dut: "type_dut env = dut" and part: "rf_part dut (pTestId (profile s)) = Some tt"
    and ok: "\<And>t. mlme_ok env t" "\<And>t. pib_ok env t"
  shows "\<exists>s1. quiet (s\<lparr>prodTestDevType := dev_of dut, devType := dev_of dut,
      prepCmdId := pCmdId (profile s), prepTestId := pTestId (profile s),
      prepParms := put_at 0 (rf_parms_of tt (profile s)) (prepParms s)\<rparr>) s1 \<and>
    prodTest_init env 0 s = rf_cnf (CNF (prep_cmd dut)) PRODTEST_STAT_SUCCESS RF_CALIBRATED s1"
proof -
  let ?cnf = "CNF (prep_cmd dut)"
  define s0 where "s0 = fold (\<lambda>i. act (AddNEK i)) [0, 1, 2, 3, 4, 5, 6] (s\<lparr>prodTestDevType := dev_of dut\<rparr>)"
  let ?s = "s0\<lparr>devType := dev_of dut\<rparr>"
  let ?r = "?s\<lparr>prepCmdId := pCmdId (profile s), prepTestId := pTestId (profile s)\<rparr>"
  let ?q = "?r\<lparr>prepParms := put_at 0 (rf_parms_of tt (profile s)) (prepParms s)\<rparr>"
  have q0: "quiet (s\<lparr>prodTestDevType := dev_of dut\<rparr>) s0"
    unfolding s0_def by (rule quiet_fold_act) (simp add: is_spi_def)
  note f = quiet_fields [OF q0]
  obtain t where t: "config_rf_test_parameters env (prepParms ?q) tt ?q = (t, STATUS_SUCCESS)"
    using config_ok_pair [OF ok] by blast
  have "quiet ?q t" using quiet_config [of ?q env "prepParms ?q" tt] t by simp
  have "reconfig_as env ?cnf tt ?r = (t, STATUS_SUCCESS)"
    using t f by (simp add: reconfig_as_alt Let_def)
  then have "rf_test_prepare_reconfig env ?s = rf_cnf ?cnf PRODTEST_STAT_SUCCESS RF_CALIBRATED t"
    using part pend(2) dev_of_simps f
    by (cases dut) (auto simp: rf_test_prepare_reconfig_def Let_def reconfig_end_def rf_part_def
        dev_of_def prep_cmd_def split: if_splits)
  moreover have "prodTest_init env 0 s = rf_test_prepare_reconfig env ?s"
    using pend f(5) quiet_fields(9) [OF q0] dut unfolding prodTest_init_def Let_def
    by (simp add: dev_of_def s0_def [unfolded dev_of_def, symmetric] del: fold.simps)
  moreover have q: "quiet (s\<lparr>prodTestDevType := dev_of dut, devType := dev_of dut,
      prepCmdId := pCmdId (profile s), prepTestId := pTestId (profile s),
      prepParms := put_at 0 (rf_parms_of tt (profile s)) (prepParms s)\<rparr>) ?q"
    using quiet_upd [OF q0, where d = "dev_of dut" and a = "pCmdId (profile s)" and b = "pTestId (profile s)"]
    by simp
  ultimately show ?thesis
    using quiet_trans [OF q \<open>quiet ?q t\<close>] by (intro exI [of _ t]) simp
qed


lemma act_fields [simp]:
  "prepCmdId (act a s) = prepCmdId s" "prepTestId (act a s) = prepTestId s"
  "prepParms (act a s) = prepParms s" "devType (act a s) = devType s"
  "profile (act a s) = profile s" "crc_tab (act a s) = crc_tab s"
  "flashMem (act a s) = flashMem s" "stm (act a s) = stm s"
  "prodTestDevType (act a s) = prodTestDevType s"
  "prod_test_rf_timer (act a s) = prod_test_rf_timer s"
  "trace (act a s) = trace s @ [a]"
  by (simp_all add: act_def)

lemma rf_cnf_fields [simp]:
  "prepCmdId (rf_cnf c st v s) = prepCmdId s" "prepTestId (rf_cnf c st v s) = prepTestId s"
  "prepParms (rf_cnf c st v s) = prepParms s" "devType (rf_cnf c st v s) = devType s"
  "profile (rf_cnf c st v s) = profile s" "flashMem (rf_cnf c st v s) = flashMem s"
  "trace (rf_cnf c st v s) = trace s @ [SpiTx (fill_Tool_header headerResponse 1 c @ [st, v])]"
  by (simp_all add: rf_cnf_def prodTestSendRespOrEventPayload_def)

lemma power_on_fields [simp]:
  "flashMem (power_on m s) = flashMem s" "prepParms (power_on m s) = replicate sz_plc 0"
  "trace (power_on m s) = trace s"
  by (simp_all add: power_on_def)

lemma zb_calibration_state:
  "zb_lo_leakage_calibration v regs s =
     (if rfCalStatus (profile s) = RF_NOT_CALIBRATED \<or> rfCalStatus (profile s) = RF_CALIBRATION_FAILED
      then s\<lparr>profile := profile (zb_lo_leakage_calibration v regs s),
             flashMem := flashMem (zb_lo_leakage_calibration v regs s)\<rparr>
      else s)"
  by (simp add: zb_lo_leakage_calibration_def Let_def store_profile_def split_def)

text \<open>A calibration that finds a valid reading leaves the pending command alone.\<close>

lemma zb_calibration_success:
  assumes st: "rfCalStatus (profile s) = RF_NOT_CALIBRATED \<or> rfCalStatus (profile s) = RF_CALIBRATION_FAILED"
    and v: "v 0" and p: "p = profile (zb_lo_leakage_calibration v regs s)"
  shows "rfCalStatus p = RF_CALIBRATED" "testActionPreparePending p = testActionPreparePending (profile s)"
    "pTestId p = pTestId (profile s)" "pCmdId p = pCmdId (profile s)" "rf_parms_of tt p = rf_parms_of tt (profile s)"
proof -
  have "cal_tries c \<noteq> 0" for c by (auto simp: cal_tries_def)
  then have "find v [0..<cal_tries c] = Some 0" for c
    using v by (simp add: find_upt_Some)
  then have "cal_loop v 0 c (profile s) = (1, True, profile s)" for c
    using cal_loop_spec [of v 0 c "profile s"] by simp
  then show "rfCalStatus p = RF_CALIBRATED" "testActionPreparePending p = testActionPreparePending (profile s)"
    "pTestId p = pTestId (profile s)" "pCmdId p = pCmdId (profile s)" "rf_parms_of tt p = rf_parms_of tt (profile s)"
    using st unfolding p calibration_profile
    by (auto simp: Let_def split_def rf_parms_of_def split: eRfTestType.splits)
qed


lemma length_correct_rf: "length p = sz_rf tt \<Longrightarrow> length (correct_rf tt p) = sz_rf tt"
  using correct_tx_append [of p "[]"] correct_rx_append [of p "[]"]
  by (cases tt) (simp_all add: correct_rf_def sz_rf_def)

lemma take_rf_parms:
  "sz_rf tt \<le> length p \<Longrightarrow> take (sz_rf tt) (rf_parms tt p old) = correct_rf tt (take (sz_rf tt) p)"
  by (simp add: rf_parms_def length_correct_rf)

text \<open>What the stored profile holds of a pending command.\<close>

definition pending_profile :: "eRfTestType \<Rightarrow> sprodTstCmd \<Rightarrow> prodState \<Rightarrow> sProdConfigProfile" where
  "pending_profile tt c s = profile (rf_keep_pending tt c s)"

lemma keep_pending:
  assumes wf: "wf_profile (profile s)" and tab: "crc_tab s = chksum_crc32gentab"
    and len: "sz_rf tt \<le> length (prepParms s)"
  shows "boot_profile (power_on m (rf_keep_pending tt c s)) =
      (power_on m (rf_keep_pending tt c s))\<lparr>crc_tab := chksum_crc32gentab, profile := pending_profile tt c s\<rparr>"
    "testActionPreparePending (pending_profile tt c s) = 1" "pTestId (pending_profile tt c s) = prepTestId s"
    "pCmdId (pending_profile tt c s) = cmdId c" "rfCalStatus (pending_profile tt c s) = rfCalStatus (profile s)"
    "rf_parms_of tt (pending_profile tt c s) = take (sz_rf tt) (prepParms s)"
proof -
  define p where "p = (case tt of RF_TX \<Rightarrow> (profile s)\<lparr>txTestParams := take sz_rf_tx (prepParms s)\<rparr>
      | RF_RX \<Rightarrow> (profile s)\<lparr>rxTestParams := take sz_rf_rx (prepParms s)\<rparr>)
     \<lparr>testActionPreparePending := 1, pTestId := prepTestId s, pCmdId := cmdId c,
      signature := PROD_VALID_SIGNATURE, pTestIntf := TEST_802_15_5_ID,
      autoCalibrated := RF_CAL_MANUAL, reg23 := 0xff, reg24 := 0xff\<rparr>"
  have k: "rf_keep_pending tt c s = act ChipReset (store_profile (s\<lparr>profile := p\<rparr>))"
    by (simp add: rf_keep_pending_def Let_def p_def)
  have "wf_profile p" using wf len by (cases tt) (simp_all add: wf_profile_def p_def sz_rf_def)
  then have "boot_profile (power_on m (rf_keep_pending tt c s)) = (power_on m (rf_keep_pending tt c s))
      \<lparr>crc_tab := chksum_crc32gentab, profile := profile (store_profile (s\<lparr>profile := p\<rparr>))\<rparr>"
    using tab by (intro boot_profile_stored) (simp_all add: k p_def)
  then show "boot_profile (power_on m (rf_keep_pending tt c s)) =
      (power_on m (rf_keep_pending tt c s))\<lparr>crc_tab := chksum_crc32gentab, profile := pending_profile tt c s\<rparr>"
    by (simp add: pending_profile_def k)
  have "pending_profile tt c s = p\<lparr>crc := chksum_crc32 (crc_tab s) (profile_body p)\<rparr>"
    by (simp add: pending_profile_def k store_profile_profile)
  then show "testActionPreparePending (pending_profile tt c s) = 1" "pTestId (pending_profile tt c s) = prepTestId s"
    "pCmdId (pending_profile tt c s) = cmdId c" "rfCalStatus (pending_profile tt c s) = rfCalStatus (profile s)"
    "rf_parms_of tt (pending_profile tt c s) = take (sz_rf tt) (prepParms s)"
    by (cases tt; simp add: p_def rf_parms_of_def sz_rf_def)+
qed



definition env_ok :: "bool \<Rightarrow> prodEnv" where
  "env_ok dut = \<lparr>type_dut = dut, reg_read = (\<lambda>_ _. 0), mlme_ok = (\<lambda>_. True), pib_ok = (\<lambda>_. True),
     pn_fields = (\<lambda>a b. [a AND 15, b AND 3, drop_bit 2 b AND 3, drop_bit 4 b AND 3, drop_bit 6 b])\<rparr>"

lemma blank_state_fields:
  "devType blank_state = dev_of True" "length (prepParms blank_state) = sz_plc"
  "wf_profile (profile blank_state)" "crc_tab blank_state = chksum_crc32gentab"
  "rfCalStatus (profile blank_state) = RF_NOT_CALIBRATED"
  "rfCalAttemptCount (profile blank_state) < TXLO_CAL_TRY_MAX"
  "signature (profile blank_state) = PROD_VALID_SIGNATURE"
  by (simp_all add: blank_state_def dev_of_def DEV_DUT_def)
    (simp_all add: default_profile_def TXLO_CAL_TRY_MAX_def)





subsection \<open>The parameters of the device\<close>

lemma read_other_sector:
  assumes "unat n < 2 ^ 20" "len \<le> 4096" "\<And>a. sector_of a = n \<Longrightarrow> f a = g a"
  shows "Gv701x_FlashReadMemProfile n len f = Gv701x_FlashReadMemProfile n len g"
  using assms by (auto simp: Gv701x_FlashReadMemProfile_def read_from_def spiflash_ReadByte_def sector_of_offset)

lemma read_after_write_other:
  assumes "unat n < 2 ^ 20" "unat m < 2 ^ 20" "n \<noteq> m" "len \<le> 4096" "length bs \<le> 4096"
  shows "Gv701x_FlashReadMemProfile n len (Gv701x_FlashWriteMemProfile m bs f) = Gv701x_FlashReadMemProfile n len f"
  using assms by (intro read_other_sector mem_profile_frame) auto

lemma length_mac_ser_bytes:
  "length mac = 6 \<Longrightarrow> length serial = 18 \<Longrightarrow> length (mac_ser_bytes tab mac serial) = 32"
  by (simp add: mac_ser_bytes_def mac_ser_body_def)

lemma mac_ser_check:
  assumes "length mac = 6" "length serial = 18"
  shows "get32 0 (mac_ser_bytes tab mac serial) = MAC_SER_VALID_SIGNATURE"
    "chksum_crc32 tab (drop 8 (mac_ser_bytes tab mac serial)) = get32 4 (mac_ser_bytes tab mac serial)"
proof -
  show "get32 0 (mac_ser_bytes tab mac serial) = MAC_SER_VALID_SIGNATURE"
    unfolding mac_ser_bytes_def by (rule get32_be32)
  have "get32 4 (mac_ser_bytes tab mac serial) = chksum_crc32 tab (mac_ser_body mac serial)"
    unfolding mac_ser_bytes_def by (rule get32_be32_second)
  moreover have "drop 8 (mac_ser_bytes tab mac serial) = mac_ser_body mac serial"
    by (simp add: mac_ser_bytes_def be32_def)
  ultimately show "chksum_crc32 tab (drop 8 (mac_ser_bytes tab mac serial)) = get32 4 (mac_ser_bytes tab mac serial)"
    by simp
qed

text \<open>
  The command that stores the device parameters does so in a way the next start accepts.  When
  the host names the parameter sector, the agent writes the signature, a matching CRC, the
  address in reversed byte order and the serial number, so that the check at start-up passes;
  the stored production profile, one sector below, is not touched, and the command is confirmed
  with success.\<close>

theorem flash_param_verified_at_start:
  assumes "cmdId c = TOOL_CMD_DEVICE_FLASH_PARAM" "testIntf c = TEST_PLC_ID" "26 \<le> length (parms c)"
    and "le16_to_cpu (get16 0 (parms c)) = 301" "\<And>a b. length (pn_fields env a b) = 5"
  shows "\<exists>s'. prodTestExecCmd env c s = Some (s', Break) \<and> boot_mac_ser_ok s' \<and>
    drop 8 (Gv701x_FlashReadMemProfile MFG_PARAM_SECTOR 32 (flashMem s')) =
      rev (take 6 (drop 2 (parms c))) @ take 18 (drop 8 (parms c)) \<and>
    Gv701x_FlashReadProdProfile PROD_CONFIG_SECTOR sz_profile (flashMem s') =
      Gv701x_FlashReadProdProfile PROD_CONFIG_SECTOR sz_profile (flashMem s) \<and>
    trace s' = trace s @ [SpiTx [0x8F, 1, 0, 2, 0x87, 0]]"
proof -
  let ?mac = "take 6 (drop 2 (parms c))" and ?ser = "take 18 (drop 8 (parms c))"
  let ?bs = "mac_ser_bytes (crc_tab s) ?mac ?ser"
  let ?io = "pn_fields env (?ser ! 0) (?ser ! 1) @ [0, 0]"
  let ?f = "Gv701x_FlashWriteMemProfile LED_CFG_SECTOR ?io (Gv701x_FlashWriteMemProfile MFG_PARAM_SECTOR ?bs (flashMem s))"
  let ?s = "prodTestSendRespOrEvent headerResponse (CNF TOOL_CMD_DEVICE_FLASH_PARAM) PRODTEST_STAT_SUCCESS
      (s\<lparr>flashMem := ?f\<rparr>)"
  have len: "length ?mac = 6" "length ?ser = 18" "length ?io = 7" using assms(3,5) by auto
  have g: "get16 0 (take 26 (parms c)) = get16 0 (parms c)"
    using assms(3) get16_append [of 0 "take 26 (parms c)" "drop 26 (parms c)"] by simp
  have d: "take 6 (drop 2 (take 26 (parms c))) = ?mac" "drop 8 (take 26 (parms c)) = ?ser"
    by (simp_all add: drop_take)
  have "exec_flash_param env c s = Some ?s"
    using assms(2-4) unfolding exec_flash_param_def memcpy_from_def MAC_ADDR_LEN_def SR_NO_LEN_def
    by (simp add: g d MFG_PARAM_SECTOR_def Let_def)
  then have x: "prodTestExecCmd env c s = Some (?s, Break)"
    using assms(1) by (simp add: prodTestExecCmd_def TOOL_CMD_DEVICE_FLASH_PARAM_def TOOL_CMD_PREPARE_DUT_def
        TOOL_CMD_PREPARE_REF_def TOOL_CMD_START_TEST_def TOOL_CMD_STOP_TEST_def TOOL_CMD_GET_RESULT_def
        TOOL_CMD_DEV_SEARCH_def TOOL_CMD_DEV_RESET_def)
  have sect: "unat MFG_PARAM_SECTOR < 2 ^ 20" "unat LED_CFG_SECTOR < 2 ^ 20" "MFG_PARAM_SECTOR \<noteq> LED_CFG_SECTOR"
    "PROD_CONFIG_SECTOR \<noteq> LED_CFG_SECTOR" "PROD_CONFIG_SECTOR \<noteq> MFG_PARAM_SECTOR"
    by (simp_all add: MFG_PARAM_SECTOR_def LED_CFG_SECTOR_def PROD_CONFIG_SECTOR_def)
  have l32: "length ?bs = 32" by (rule length_mac_ser_bytes [OF len(1,2)])
  have r: "Gv701x_FlashReadMemProfile MFG_PARAM_SECTOR 32 ?f = ?bs"
    using mem_profile_roundtrip [OF sect(1), of ?bs "flashMem s"] l32 len(3)
    by (simp add: read_after_write_other [OF sect(1,2,3)])
  have "Gv701x_FlashReadProdProfile PROD_CONFIG_SECTOR sz_profile ?f =
      Gv701x_FlashReadProdProfile PROD_CONFIG_SECTOR sz_profile (flashMem s)"
    using l32 len(3)
    by (simp add: prod_profile_eq_mem sz_profile_def read_after_write_other [OF PROD_CONFIG_SECTOR_small sect(2,4)]
        read_after_write_other [OF PROD_CONFIG_SECTOR_small sect(1,5)])
  moreover have "boot_mac_ser_ok ?s"
    using r mac_ser_check [OF len(1,2)]
    by (simp add: boot_mac_ser_ok_def Let_def MAC_ADDR_LEN_def SR_NO_LEN_def prodTestSendRespOrEvent_def)
  moreover have "drop 8 ?bs = rev ?mac @ ?ser" by (simp add: mac_ser_bytes_def mac_ser_body_def be32_def)
  ultimately show ?thesis
    using x r
    by (intro exI [of _ ?s]) (simp add: prodTestSendRespOrEvent_def fill_Tool_header_def be16_def cpu_to_le16_def
        lo8_def hi8_def CNF_def PROD_TOOL_PROTOCOL_def headerResponse_def TOOL_CMD_DEVICE_FLASH_PARAM_def
        PRODTEST_STAT_SUCCESS_def)
qed


theorem flash_param_verified_at_start_witness:
  "let c = \<lparr>cmdId = 7, testIntf = 0, testId = 0, parms = [0x2D, 0x01] @ [1, 2, 3, 4, 5, 6] @ replicate 18 7\<rparr>
   in \<exists>s'. prodTestExecCmd (env_ok True) c blank_state = Some (s', Break) \<and> boot_mac_ser_ok s' \<and>
        drop 8 (Gv701x_FlashReadMemProfile MFG_PARAM_SECTOR 32 (flashMem s')) = [6, 5, 4, 3, 2, 1] @ replicate 18 7"
proof -
  define c where "c = \<lparr>cmdId = 7, testIntf = 0, testId = 0,
    parms = [0x2D, 0x01] @ [1, 2, 3, 4, 5, 6] @ replicate 18 (7 :: u8)\<rparr>"
  have "cmdId c = TOOL_CMD_DEVICE_FLASH_PARAM" "testIntf c = TEST_PLC_ID" "26 \<le> length (parms c)"
    "le16_to_cpu (get16 0 (parms c)) = 301" "length (pn_fields (env_ok True) a b) = 5" for a b
    by (simp_all add: c_def TOOL_CMD_DEVICE_FLASH_PARAM_def TEST_PLC_ID_def get16_def val16_def
        le16_to_cpu_def env_ok_def)
  from flash_param_verified_at_start [OF this, of blank_state]
  have "\<exists>s'. prodTestExecCmd (env_ok True) c blank_state = Some (s', Break) \<and> boot_mac_ser_ok s' \<and>
        drop 8 (Gv701x_FlashReadMemProfile MFG_PARAM_SECTOR 32 (flashMem s')) =
          rev (take 6 (drop 2 (parms c))) @ take 18 (drop 8 (parms c))" by blast
  then show ?thesis unfolding Let_def c_def [symmetric] by (simp add: c_def)
qed

end
