(* ===== verification/ProdFrames.thy ===== *)
theory ProdFrames
  imports ProdReset
begin

text \<open>
  The frames that the production-test agent sends while it executes a command: their shape, their
  number and the identifiers they carry.
\<close>

subsection \<open>Frames of a run\<close>

fun spi_of :: "action list \<Rightarrow> u8 list list" where
  "spi_of [] = []"
| "spi_of (SpiTx f # as) = f # spi_of as"
| "spi_of (_ # as) = spi_of as"

lemma spi_of_append [simp]: "spi_of (as @ bs) = spi_of as @ spi_of bs"
  by (induction as rule: spi_of.induct) simp_all

lemma spi_of_quiet: "list_all (\<lambda>a. \<not> is_spi a) as \<Longrightarrow> spi_of as = []"
  by (induction as rule: spi_of.induct) (simp_all add: is_spi_def)

text \<open>The type and the identifier in the header, and what every frame satisfies.\<close>

definition kind :: "u8 list \<Rightarrow> u8 \<times> u8" where "kind f = (f ! 3, f ! 4)"

definition tool_frame :: "u8 list \<Rightarrow> bool" where
  "tool_frame f \<longleftrightarrow> hd f = PROD_TOOL_PROTOCOL \<and> 6 \<le> length f \<and> length f \<le> 41"

text \<open>\<open>emits s t ks\<close>: from \<open>s\<close> to \<open>t\<close> the agent sent well-formed frames of the kinds \<open>ks\<close>.\<close>

definition emits :: "prodState \<Rightarrow> prodState \<Rightarrow> (u8 \<times> u8) list \<Rightarrow> bool" where
  "emits s t ks \<longleftrightarrow> (\<exists>as. trace t = trace s @ as \<and> map kind (spi_of as) = ks \<and> list_all tool_frame (spi_of as))"

lemma emits_refl: "trace t = trace s \<Longrightarrow> emits s t []"
  unfolding emits_def by (rule exI [of _ "[]"]) simp

lemma emits_trans: "emits s t ks \<Longrightarrow> emits t u ls \<Longrightarrow> emits s u (ks @ ls)"
  unfolding emits_def
proof (elim exE conjE)
  fix as bs
  assume "trace t = trace s @ as" "map kind (spi_of as) = ks" "list_all tool_frame (spi_of as)"
    "trace u = trace t @ bs" "map kind (spi_of bs) = ls" "list_all tool_frame (spi_of bs)"
  then show "\<exists>as. trace u = trace s @ as \<and> map kind (spi_of as) = ks @ ls \<and> list_all tool_frame (spi_of as)"
    by (intro exI [of _ "as @ bs"]) simp
qed

lemma emits_quiet: "quiet s t \<Longrightarrow> emits s t []"
  unfolding emits_def quiet_def by (auto simp: spi_of_quiet)

lemma emits_then_quiet: "emits s t ks \<Longrightarrow> quiet t u \<Longrightarrow> emits s u ks"
  using emits_trans [OF _ emits_quiet] by fastforce

lemma emits_cong: "trace s = trace s' \<Longrightarrow> trace t = trace t' \<Longrightarrow> emits s t ks = emits s' t' ks"
  by (simp add: emits_def)

lemma emits_act:
  assumes "emits s t ks" "\<not> is_spi a"
  shows "emits s (act a t) ks"
  using emits_then_quiet [OF assms(1) quiet_act [OF assms(2)]] .

lemma header_kind: "kind (fill_Tool_header ty n i @ p) = (ty, i)"
  by (simp add: kind_def fill_Tool_header_def be16_def)

lemma header_frame:
  assumes "1 \<le> length p" "length p \<le> 36"
  shows "tool_frame (fill_Tool_header ty n i @ p)"
  using assms unfolding tool_frame_def fill_Tool_header_def be16_def by simp

lemma emits_frame:
  assumes "emits s t ks" "1 \<le> length p" "length p \<le> 36"
  shows "emits s (act (SpiTx (fill_Tool_header ty sz i @ p)) t) (ks @ [(ty, i)])"
proof (rule emits_trans [OF assms(1)])
  show "emits t (act (SpiTx (fill_Tool_header ty sz i @ p)) t) [(ty, i)]"
    unfolding emits_def act_def
    by (rule exI [of _ "[SpiTx (fill_Tool_header ty sz i @ p)]"]) (simp add: header_kind header_frame [OF assms(2,3)])
qed

lemma emits_resp:
  "emits s t ks \<Longrightarrow> emits s (prodTestSendRespOrEvent ty i st t) (ks @ [(ty, i)])"
  unfolding prodTestSendRespOrEvent_def by (rule emits_frame) simp_all

lemma emits_cnf: "emits s t ks \<Longrightarrow> emits s (rf_cnf cnf st cal t) (ks @ [(headerResponse, cnf)])"
  unfolding rf_cnf_def prodTestSendRespOrEventPayload_def append_Cons [symmetric] append_assoc
  using emits_frame [of s t ks "[st] @ [cal]"] by simp

lemma emits_upd: "emits s t ks \<Longrightarrow> trace u = trace t \<Longrightarrow> emits s u ks"
  by (simp add: emits_def)

subsection \<open>The prepare commands\<close>

lemma trace_upds [simp]:
  "trace (fix_parms f s) = trace s" "trace (rf_clear_prep s) = trace s"
  by (simp_all add: fix_parms_def rf_clear_prep_def)

lemma copy_parms_trace: "copy_parms src n s = Some t \<Longrightarrow> trace t = trace s"
  by (auto simp: copy_parms_def bind_eq_Some_conv)

lemma is_spi_simps [simp]:
  "is_spi (SpiTx f)" "\<not> is_spi WaitSpiTx" "\<not> is_spi (WriteU8Reg r b)" "\<not> is_spi (AfeWrite a b)"
  "\<not> is_spi (AddNEK b)" "\<not> is_spi (SetTei b)" "\<not> is_spi (SetSnid b)" "\<not> is_spi (SimulateTx p)"
  "\<not> is_spi ChipReset"
  by (simp_all add: is_spi_def)

lemma plc_tx_power_emits: "emits s (plc_tx_power m s) []"
  by (auto simp: plc_tx_power_def Let_def intro!: emits_act intro: emits_refl)

lemma config_plc_emits: "config_plc_test_parameters p s = Some t \<Longrightarrow> emits s t []"
proof -
  assume "config_plc_test_parameters p s = Some t"
  then obtain a b d e u where t: "t = act (SetSnid e) (act (SetTei d) u)"
    and u: "trace u = trace (plc_tx_power b (act (WriteU8Reg 0x4F0 a) s))"
    by (fastforce simp: config_plc_test_parameters_def Let_def bind_eq_Some_conv)
  have "emits s (plc_tx_power b (act (WriteU8Reg 0x4F0 a) s)) []"
    using emits_trans [OF emits_act [OF emits_refl [OF refl]] plc_tx_power_emits] by force
  then show ?thesis unfolding t by (intro emits_act) (auto elim: emits_upd [OF _ u])
qed

text \<open>How the inner block of a prepare command ends.\<close>

definition prep_ends :: "u8 list \<Rightarrow> prodState \<Rightarrow> prodState \<times> flow \<Rightarrow> bool" where
  "prep_ends cnfs s r \<longleftrightarrow> (case snd r of
      FallThrough \<Rightarrow> emits s (fst r) []
    | Break \<Rightarrow> (\<exists>c \<in> set cnfs. emits s (fst r) [(headerResponse, c)])
    | Resetting \<Rightarrow> emits s (fst r) [])"

lemma prep_ends_cnf:
  "emits s t [] \<Longrightarrow> cnf \<in> set cnfs \<Longrightarrow> prep_ends cnfs s (rf_cnf cnf st cal t, Break)"
  using emits_cnf [of s t "[]"] by (auto simp: prep_ends_def)

lemma prep_ends_prefix: "emits s t [] \<Longrightarrow> prep_ends cnfs t r \<Longrightarrow> prep_ends cnfs s r"
  unfolding prep_ends_def using emits_trans [of s t "[]"] by (fastforce split: flow.splits)

lemma prepare_plc_ends: "prepare_plc dev cnf tst c s = Some r \<Longrightarrow> prep_ends [cnf] s r"
proof (cases "devType s = dev")
  case True
  let ?s = "s\<lparr>prepCmdId := cmdId c, prepTestId := testId c, prepParms := replicate sz_plc 0\<rparr>"
  assume "prepare_plc dev cnf tst c s = Some r"
  with True obtain t u where t: "(if prepTestId ?s = tst then copy_parms (parms c) sz_plc ?s else Some ?s) = Some t"
    and u: "config_plc_test_parameters (parms c) t = Some u" and r: "r = (u, FallThrough)"
    unfolding prepare_plc_def Let_def by (auto simp: bind_eq_Some_conv simp del: prodState.simps)
  have "trace t = trace s" using t copy_parms_trace [of "parms c" sz_plc ?s t] by (auto split: if_splits)
  then show ?thesis
    using emits_trans [OF emits_refl config_plc_emits [OF u]] r by (fastforce simp: prep_ends_def)
qed (auto simp: prepare_plc_def intro: prep_ends_cnf emits_refl)

lemma calibrated_ends: "prep_ends [cnf] s (rf_prepare_calibrated cnf tt c s)"
  unfolding rf_prepare_calibrated_def Let_def rf_keep_pending_def
  by (auto intro!: prep_ends_cnf emits_refl) (auto simp: prep_ends_def intro!: emits_act intro: emits_refl)

lemma rf_prepare_ends:
  assumes "trace t = trace s" "config_rf_test_parameters env (prepParms t) tt t = (u, st)"
    "r = (case st of STATUS_SUCCESS \<Rightarrow> rf_prepare_calibrated cnf tt c u
                   | _ \<Rightarrow> (rf_cnf cnf PRODTEST_STAT_INVALID_TEST (rfCalStatus (profile u)) u, Break))"
  shows "prep_ends [cnf] s r"
proof -
  have "quiet t u" using quiet_config [of t env "prepParms t" tt] assms(2) by simp
  then have e: "emits s u []" using emits_then_quiet [OF emits_refl [OF assms(1)]] by blast
  then show ?thesis
    unfolding assms(3)
    by (cases st) (auto intro: prep_ends_prefix [OF e calibrated_ends] prep_ends_cnf)
qed

lemma rf_prepare_tx_ends: "rf_prepare_tx env cnf c s = Some r \<Longrightarrow> prep_ends [cnf] s r"
proof -
  assume r: "rf_prepare_tx env cnf c s = Some r"
  then obtain t where t: "copy_parms (parms c) sz_rf_tx s = Some t"
    by (auto simp: rf_prepare_tx_def bind_eq_Some_conv)
  let ?t = "fix_parms correctEndieness_sRfTxTestHostParams t"
  obtain u st where u: "config_rf_test_parameters env (prepParms ?t) RF_TX ?t = (u, st)" by fastforce
  show ?thesis
    by (rule rf_prepare_ends [OF _ u, where c = c])
      (use r t u copy_parms_trace [OF t] in \<open>simp_all add: rf_prepare_tx_def Let_def split: eStatus.splits\<close>)
qed

lemma rf_prepare_rx_ends: "rf_prepare_rx env cnf c s = Some r \<Longrightarrow> prep_ends [cnf] s r"
proof -
  assume r: "rf_prepare_rx env cnf c s = Some r"
  then obtain t where t: "copy_parms (parms c) sz_rf_rx s = Some t"
    by (auto simp: rf_prepare_rx_def bind_eq_Some_conv)
  let ?t = "fix_parms correctEndieness_sRfRxTestHostParams t"
  obtain u st where u: "config_rf_test_parameters env (prepParms ?t) RF_RX ?t = (u, st)" by fastforce
  show ?thesis
    by (rule rf_prepare_ends [OF _ u, where c = c])
      (use r t u copy_parms_trace [OF t] in \<open>simp_all add: rf_prepare_rx_def Let_def split: eStatus.splits\<close>)
qed

lemma prep_ends_mono: "prep_ends xs s r \<Longrightarrow> set xs \<subseteq> set ys \<Longrightarrow> prep_ends ys s r"
  by (auto simp: prep_ends_def split: flow.splits)

lemma prep_ends_upd: "prep_ends cs (s\<lparr>prepCmdId := a, prepTestId := b\<rparr>) r \<Longrightarrow> prep_ends cs s r"
  by (rule prep_ends_prefix [OF emits_refl]) simp_all

lemma prepare_dut_rf_ends:
  "prepare_dut_rf env c s = Some r \<Longrightarrow> prep_ends [CNF TOOL_CMD_PREPARE_DUT] s r"
proof (cases "devType s = DEV_DUT")
  case True
  let ?u = "(rf_clear_prep s)\<lparr>prepCmdId := cmdId c, prepTestId := testId c\<rparr>"
  assume "prepare_dut_rf env c s = Some r"
  with True have "prep_ends [CNF TOOL_CMD_PREPARE_DUT] ?u r"
    by (auto simp: prepare_dut_rf_def Let_def prep_ends_def [of _ _ "(_, FallThrough)"] emits_refl
        split: if_splits intro: rf_prepare_tx_ends rf_prepare_rx_ends)
  then show ?thesis by (rule prep_ends_prefix [OF emits_refl, rotated]) simp
qed (auto simp: prepare_dut_rf_def Let_def intro: prep_ends_cnf emits_refl)

lemma prepare_ref_rf_ends:
  "prepare_ref_rf env c s = Some r \<Longrightarrow>
   prep_ends (if devType s = DEV_REF then [CNF TOOL_CMD_PREPARE_REF] else [CNF TOOL_CMD_PREPARE_DUT]) s r"
proof (cases "devType s = DEV_REF")
  case True
  let ?u = "(rf_clear_prep s)\<lparr>prepCmdId := cmdId c, prepTestId := testId c\<rparr>"
  assume "prepare_ref_rf env c s = Some r"
  with True have "prep_ends [CNF TOOL_CMD_PREPARE_REF] ?u r"
    by (auto simp: prepare_ref_rf_def Let_def prep_ends_def [of _ _ "(_, FallThrough)"] emits_refl
        split: if_splits intro: rf_prepare_tx_ends rf_prepare_rx_ends)
  with True show ?thesis by (auto intro: prep_ends_prefix [OF emits_refl, rotated])
qed (auto simp: prepare_ref_rf_def Let_def intro: prep_ends_cnf emits_refl)

lemma after_prepare_emits:
  assumes "prep_ends cs s r" "after_prepare cnf c r = (t, fl)"
  shows "\<exists>ks. emits s t ks \<and> (ks = [] \<or> (\<exists>k \<in> insert cnf (set cs). ks = [(headerResponse, k)]))"
proof (cases r)
  case (Pair u f)
  show ?thesis
  proof (cases f)
    case FallThrough
    then have e: "emits s u []" using assms(1) Pair by (simp add: prep_ends_def)
    have "t = prepare_confirm cnf c u" using assms(2) Pair FallThrough by (simp add: after_prepare_def)
    then consider "t = u" | st cal where "t = rf_cnf cnf st cal u"
      by (auto simp: prepare_confirm_def split: if_splits)
    then show ?thesis
      by cases (use e emits_cnf [OF e] in auto)
  qed (use assms Pair in \<open>auto simp: prep_ends_def after_prepare_def\<close>)
qed


subsection \<open>The other commands\<close>

text \<open>\<open>emits_in s t L\<close>: the kinds of the frames sent are one of the lists of \<open>L\<close>.\<close>

definition emits_in :: "prodState \<Rightarrow> prodState \<Rightarrow> (u8 \<times> u8) list list \<Rightarrow> bool" where
  "emits_in s t L \<longleftrightarrow> (\<exists>ks \<in> set L. emits s t ks)"

lemma emits_inI: "emits s t ks \<Longrightarrow> ks \<in> set L \<Longrightarrow> emits_in s t L"
  by (auto simp: emits_in_def)

lemma emits_in_refl: "trace t = trace s \<Longrightarrow> [] \<in> set L \<Longrightarrow> emits_in s t L"
  by (rule emits_inI [OF emits_refl])

lemma emits_in_mono: "emits_in s t L \<Longrightarrow> set L \<subseteq> set M \<Longrightarrow> emits_in s t M"
  by (auto simp: emits_in_def)

lemma emits_in_cong: "emits_in u t L \<Longrightarrow> trace u = trace s \<Longrightarrow> emits_in s t L"
  by (simp add: emits_in_def emits_def)

lemma emits_in_trans: "emits s t ks \<Longrightarrow> emits_in t u L \<Longrightarrow> emits_in s u (map ((@) ks) L)"
  by (auto simp: emits_in_def dest: emits_trans)

lemma emits_in_resp:
  "trace u = trace s \<Longrightarrow> [(ty, i)] \<in> set L \<Longrightarrow> emits_in s (prodTestSendRespOrEvent ty i st u) L"
  using emits_resp [OF emits_refl, of u s ty i st] by (auto intro: emits_inI)

abbreviation "cnf_of cmd \<equiv> [(headerResponse, CNF cmd)]"
abbreviation "done_event \<equiv> [(headerEvent, EVENT_TEST_DONE)]"

lemma after_prepare_emits_in:
  assumes "prep_ends cs s r" "after_prepare cnf c r = (t, fl)" "cnf \<in> set cs"
  shows "emits_in s t ([] # map (\<lambda>k. [(headerResponse, k)]) cs)"
  using after_prepare_emits [OF assms(1,2)] assms(3) by (auto simp: emits_in_def)

lemma prep_ends_fall: "prep_ends cs s (s, FallThrough)"
  by (simp add: prep_ends_def emits_refl)

lemma exec_prepare_dut_emits:
  assumes "exec_prepare_dut env c s = Some (t, fl)"
  shows "emits_in s t [[], cnf_of TOOL_CMD_PREPARE_DUT]"
proof -
  obtain r where r: "after_prepare (CNF TOOL_CMD_PREPARE_DUT) c r = (t, fl)"
    and "prep_ends [CNF TOOL_CMD_PREPARE_DUT] s r"
    using assms unfolding exec_prepare_dut_def
    by (auto simp: bind_eq_Some_conv split: if_splits intro: prepare_plc_ends prepare_dut_rf_ends prep_ends_fall)
  from after_prepare_emits_in [OF this(2) r] show ?thesis by simp
qed

lemma exec_prepare_ref_emits:
  assumes "exec_prepare_ref env c s = Some (t, fl)"
  shows "emits_in s t (if devType s \<noteq> DEV_REF \<and> testIntf c = TEST_802_15_5_ID
    then [[], cnf_of TOOL_CMD_PREPARE_DUT] else [[], cnf_of TOOL_CMD_PREPARE_REF])"
proof -
  obtain r where r: "after_prepare (CNF TOOL_CMD_PREPARE_REF) c r = (t, fl)"
    and b: "(if testIntf c = TEST_PLC_ID then prepare_plc DEV_REF (CNF TOOL_CMD_PREPARE_REF) TEST_ID_PLC_RX c s
          else if testIntf c = TEST_802_15_5_ID then prepare_ref_rf env c s else Some (s, FallThrough)) = Some r"
    using assms unfolding exec_prepare_ref_def by (auto simp: bind_eq_Some_conv)
  show ?thesis
  proof (cases "devType s \<noteq> DEV_REF \<and> testIntf c = TEST_802_15_5_ID")
    case True
    then obtain u where "r = (u, Break)" "emits s u (cnf_of TOOL_CMD_PREPARE_DUT)"
      using b emits_cnf [OF emits_refl [OF refl], of s "CNF TOOL_CMD_PREPARE_DUT" PRODTEST_STAT_INVALID_DEV "rfCalStatus (profile s)"]
      by (auto simp: dev_of_simps [symmetric] prepare_ref_rf_def Let_def)
    with True r show ?thesis by (auto simp: after_prepare_def intro: emits_inI)
  next
    case False
    then have "prep_ends [CNF TOOL_CMD_PREPARE_REF] s r"
      using b prepare_plc_ends [of DEV_REF "CNF TOOL_CMD_PREPARE_REF" TEST_ID_PLC_RX c s r] prepare_ref_rf_ends [of env c s r]
      by (auto split: if_splits intro: prep_ends_fall)
    from after_prepare_emits_in [OF this r] False show ?thesis by auto
  qed
qed

lemma plc_transmit_emits: "emits s (plc_transmit env s) done_event"
proof -
  define u where "u = fix_parms correctEndieness_sPlcSimTxTestParams s"
  obtain a b c where t: "plc_transmit env s = prodTestSendRespOrEvent headerEvent EVENT_TEST_DONE PRODTEST_STAT_SUCCESS
      (act WaitSpiTx (act (SimulateTx (prepParms u)) (u\<lparr>preAddrFilterErrCnt := a, preFrameCtrlErrCnt := b, preICVErrCnt := c\<rparr>)))"
    by (simp add: plc_transmit_def Let_def u_def)
  have "emits s (act WaitSpiTx (act (SimulateTx (prepParms u)) (u\<lparr>preAddrFilterErrCnt := a, preFrameCtrlErrCnt := b, preICVErrCnt := c\<rparr>))) []"
    by (intro emits_act emits_refl) (simp_all add: u_def)
  from emits_resp [OF this] show ?thesis by (simp add: t)
qed

lemma start_plc_emits: "emits_in s (start_plc env s) [[], done_event]"
proof -
  define u where "u = s\<lparr>preAddrFilterErrCnt := 0, preFrameCtrlErrCnt := 0, preICVErrCnt := 0\<rparr>"
  have u: "trace u = trace s" by (simp add: u_def)
  have "emits_in u (plc_transmit env u) [[], done_event]" by (rule emits_inI [OF plc_transmit_emits]) simp
  from emits_in_cong [OF this u] show ?thesis
    unfolding start_plc_def Let_def u_def [symmetric] by (simp add: u emits_in_refl)
qed

lemma rf_start_emits:
  assumes "rfStartTxTest p s = Some (t, st)"
  shows "emits_in s t [[], done_event]"
  using assms unfolding rfStartTxTest_def Let_def
  by (auto simp: bind_eq_Some_conv split: if_splits prod.splits intro: emits_in_refl emits_in_resp)

lemma start_rf_emits:
  assumes "start_rf s = Some t"
  shows "emits_in s t [[], done_event]"
proof -
  have r: "emits_in s t [[], done_event]" if x: "rf_transmit s = Some t" for t
  proof -
    from x obtain st where "rfStartTxTest (prepParms s) (s\<lparr>gRfStats := zeroRfStats\<rparr>) = Some (t, st)"
      by (auto simp: rf_transmit_def Let_def)
    from emits_in_cong [OF rf_start_emits [OF this]] show ?thesis by simp
  qed
  then show ?thesis using assms by (auto simp: start_rf_def emits_in_refl split: if_splits)
qed

lemma exec_start_emits:
  assumes "exec_start_test env c s = Some t"
  shows "emits_in s t [[], cnf_of TOOL_CMD_START_TEST, cnf_of TOOL_CMD_START_TEST @ done_event]"
proof -
  let ?L = "[[], cnf_of TOOL_CMD_START_TEST, cnf_of TOOL_CMD_START_TEST @ done_event]"
  let ?u = "prodTestSendRespOrEvent headerResponse (CNF TOOL_CMD_START_TEST) PRODTEST_STAT_SUCCESS s"
  have "emits s ?u (cnf_of TOOL_CMD_START_TEST)" using emits_resp [OF emits_refl [OF refl]] by simp
  note j = emits_in_mono [OF emits_in_trans [OF this], of _ "[[], done_event]" ?L]
  let ?v = "prodTestSendRespOrEvent headerResponse (CNF TOOL_CMD_START_TEST) PRODTEST_STAT_INVALID_TEST s"
  have "exec_start_test env c s \<in> {Some s, Some ?v, Some ?u, Some (start_plc env ?u), start_rf ?u}"
    unfolding exec_start_test_def Let_def by simp
  then consider "t = s" | "t = ?v" | "t = ?u" | "t = start_plc env ?u" | "start_rf ?u = Some t"
    unfolding assms insert_iff option.inject empty_iff by metis
  then show ?thesis
  proof cases
    case 1 show ?thesis unfolding 1 by (rule emits_in_refl) simp_all
  next
    case 2 show ?thesis unfolding 2 by (rule emits_in_resp) simp_all
  next
    case 3 show ?thesis unfolding 3 by (rule emits_in_resp) simp_all
  next
    case 4 show ?thesis unfolding 4 by (rule j [OF start_plc_emits]) simp
  next
    case 5 show ?thesis by (rule j [OF start_rf_emits [OF 5]]) simp
  qed
qed

lemma exec_get_result_emits: "emits_in s (exec_get_result env c s) [[], cnf_of TOOL_CMD_GET_RESULT]"
proof -
  have "length (rf_result_payload s) = 36" by (simp add: rf_result_payload_def)
  moreover have "length (copy_plcTxTestStats env s) = 32" by (simp add: copy_plcTxTestStats_def Let_def)
  moreover have "emits_in s (act (SpiTx (fill_Tool_header headerResponse n (CNF TOOL_CMD_GET_RESULT) @ p)) s)
      [[], cnf_of TOOL_CMD_GET_RESULT]" if "1 \<le> length p" "length p \<le> 36" for n p
    using emits_frame [OF emits_refl [OF refl] that, of s headerResponse n "CNF TOOL_CMD_GET_RESULT"]
    by (auto simp: emits_in_def)
  ultimately show ?thesis by (simp add: exec_get_result_def emits_in_refl)
qed

lemma prodTest_init_search_emits: "emits s (prodTest_init env 1 s) [(headerEvent, EVENT_DEVICE_UP)]"
proof -
  define d where "d = (if type_dut env then DEV_DUT else DEV_REF)"
  define u where "u = (fold (\<lambda>i. act (AddNEK i)) [0, 1, 2, 3, 4, 5, 6] (s\<lparr>prodTestDevType := d\<rparr>))"
  have q: "quiet (s\<lparr>prodTestDevType := d\<rparr>) u" unfolding u_def by (rule quiet_fold_act) (simp add: is_spi_def)
  then have "emits s u []" using emits_quiet [OF q] emits_cong [of "s\<lparr>prodTestDevType := d\<rparr>" s u u] by simp
  moreover define w where "w = store_profile (u\<lparr>devType := d, profile := (profile u)\<lparr>testActionPreparePending := 0\<rparr>\<rparr>)"
  have "trace w = trace u" by (simp add: w_def)
  moreover have "prodTest_init env 1 s = act (SpiTx (device_up_frame d)) w"
    using quiet_fields(9) [OF q] unfolding prodTest_init_def Let_def d_def [symmetric] u_def [symmetric]
    by (simp add: store_profile_profile w_def)
  moreover have "device_up_frame d = fill_Tool_header headerEvent 22 EVENT_DEVICE_UP @
      ([d, PLC_NIC OR RF_NIC] @ replicate 16 1 @ be32 (cpu_to_le32 0x0F))"
    by (simp add: device_up_frame_def)
  ultimately show ?thesis
    using emits_frame [OF emits_upd [of s u "[]"],
      of w "[d, PLC_NIC OR RF_NIC] @ replicate 16 1 @ be32 (cpu_to_le32 0x0F)" headerEvent 22 EVENT_DEVICE_UP]
    by simp
qed

lemma exec_stop_emits: "emits_in s (exec_stop_test s) [[], cnf_of TOOL_CMD_STOP_TEST]"
  by (auto simp: exec_stop_test_def Let_def intro: emits_in_refl emits_in_resp)

lemma exec_flash_emits:
  "exec_flash_param env c s = Some t \<Longrightarrow> emits_in s t [[], cnf_of TOOL_CMD_DEVICE_FLASH_PARAM]"
  by (auto simp: exec_flash_param_def Let_def bind_eq_Some_conv split: if_splits intro: emits_in_refl emits_in_resp)


subsection \<open>A command and its answers\<close>

text \<open>The lists of kinds that a command may send.\<close>

definition answers :: "u8 \<Rightarrow> sprodTstCmd \<Rightarrow> (u8 \<times> u8) list list" where
  "answers dev c =
     (if cmdId c = TOOL_CMD_START_TEST
      then [[], cnf_of TOOL_CMD_START_TEST, cnf_of TOOL_CMD_START_TEST @ done_event]
      else if cmdId c = TOOL_CMD_DEV_SEARCH then [[(headerEvent, EVENT_DEVICE_UP)]]
      else if cmdId c = TOOL_CMD_DEV_RESET then [cnf_of TOOL_CMD_DEV_RESET]
      else if cmdId c = TOOL_CMD_PREPARE_REF \<and> dev \<noteq> DEV_REF \<and> testIntf c = TEST_802_15_5_ID
      then [[], cnf_of TOOL_CMD_PREPARE_DUT]
      else if cmdId c \<in> {TOOL_CMD_PREPARE_DUT, TOOL_CMD_PREPARE_REF, TOOL_CMD_STOP_TEST,
                TOOL_CMD_GET_RESULT, TOOL_CMD_DEVICE_FLASH_PARAM}
      then [[], cnf_of (cmdId c)]
      else [[]])"

lemma cmd_ids:
  "TOOL_CMD_PREPARE_DUT = 0" "TOOL_CMD_PREPARE_REF = 1" "TOOL_CMD_START_TEST = 2" "TOOL_CMD_STOP_TEST = 3"
  "TOOL_CMD_DEV_RESET = 4" "TOOL_CMD_GET_RESULT = 5" "TOOL_CMD_DEV_SEARCH = 6" "TOOL_CMD_DEVICE_FLASH_PARAM = 7"
  by (simp_all add: TOOL_CMD_PREPARE_DUT_def TOOL_CMD_PREPARE_REF_def TOOL_CMD_START_TEST_def TOOL_CMD_STOP_TEST_def
      TOOL_CMD_DEV_RESET_def TOOL_CMD_GET_RESULT_def TOOL_CMD_DEV_SEARCH_def TOOL_CMD_DEVICE_FLASH_PARAM_def)

lemma prodTestExecCmd_cases:
  assumes "prodTestExecCmd env c s = Some (t, fl)"
  obtains "cmdId c = TOOL_CMD_PREPARE_DUT" "exec_prepare_dut env c s = Some (t, fl)"
    | "cmdId c = TOOL_CMD_PREPARE_REF" "exec_prepare_ref env c s = Some (t, fl)"
    | "cmdId c = TOOL_CMD_START_TEST" "exec_start_test env c s = Some t"
    | "cmdId c = TOOL_CMD_STOP_TEST" "t = exec_stop_test s"
    | "cmdId c = TOOL_CMD_GET_RESULT" "t = exec_get_result env c s"
    | "cmdId c = TOOL_CMD_DEV_SEARCH" "t = act WaitSpiTx (prodTest_init env 1 s)"
    | "cmdId c = TOOL_CMD_DEV_RESET"
      "t = prodTestSendRespOrEvent headerResponse (CNF TOOL_CMD_DEV_RESET) PRODTEST_STAT_SUCCESS s"
    | "cmdId c = TOOL_CMD_DEVICE_FLASH_PARAM" "exec_flash_param env c s = Some t"
    | "unat (cmdId c) \<ge> 8" "t = s"
proof -
  have "unat x \<ge> 8" if "x \<noteq> 0" "x \<noteq> 1" "x \<noteq> 2" "x \<noteq> 3" "x \<noteq> 4" "x \<noteq> 5" "x \<noteq> 6" "x \<noteq> 7" for x :: u8
    using that by (auto simp: word_unat_eq_iff)
  then show ?thesis
    using assms that unfolding prodTestExecCmd_def
    by (auto split: if_splits simp: cmd_ids)
qed

lemma exec_emits:
  assumes "prodTestExecCmd env c s = Some (t, fl)"
  shows "emits_in s t (answers (devType s) c)"
  using assms
proof (cases rule: prodTestExecCmd_cases)
    case 1 then show ?thesis using exec_prepare_dut_emits [OF 1(2)] by (simp add: answers_def cmd_ids)
next
    case 2 then show ?thesis using exec_prepare_ref_emits [OF 2(2)] by (auto simp: answers_def cmd_ids split: if_splits)
next
    case 3 then show ?thesis using exec_start_emits [OF 3(2)] by (simp add: answers_def cmd_ids)
next
    case 4 then show ?thesis using exec_stop_emits [of s] by (simp add: answers_def cmd_ids)
next
    case 5 then show ?thesis using exec_get_result_emits [of s env c] by (simp add: answers_def cmd_ids)
next
    case 6
    have "emits s t [(headerEvent, EVENT_DEVICE_UP)]"
      unfolding 6(2) by (rule emits_act [OF prodTest_init_search_emits]) simp
    with 6 show ?thesis by (simp add: answers_def cmd_ids emits_in_def)
next
    case 7 then show ?thesis by (simp add: answers_def cmd_ids emits_in_resp)
next
    case 8 then show ?thesis using exec_flash_emits [OF 8(2)] by (simp add: answers_def cmd_ids)
next
    case 9 then show ?thesis by (auto simp: answers_def cmd_ids emits_in_refl)
qed



end
