(* ===== verification/ProdInv.thy ===== *)
theory ProdInv
  imports ProdFrames
begin

text \<open>
  What stays true of the production-test agent over any sequence of starts, commands and timer
  expiries: the profile it works with is the one a reset would load.
\<close>

subsection \<open>The part of the state the invariant is about\<close>

definition cfg :: "prodState \<Rightarrow> sProdConfigProfile \<times> flash \<times> u32 list \<times> nat" where
  "cfg s = (profile s, flashMem s, crc_tab s, length (prepParms s))"

definition agent_inv :: "prodState \<Rightarrow> bool" where
  "agent_inv s \<longleftrightarrow> wf_profile (profile s) \<and> signature (profile s) = PROD_VALID_SIGNATURE \<and>
     crc (profile s) = chksum_crc32 chksum_crc32gentab (profile_body (profile s)) \<and>
     crc_tab s = chksum_crc32gentab \<and> length (prepParms s) = sz_plc \<and>
     profile_of_bytes (Gv701x_FlashReadProdProfile PROD_CONFIG_SECTOR sz_profile (flashMem s)) = profile s"

lemma agent_inv_cfg: "cfg t = cfg s \<Longrightarrow> agent_inv t = agent_inv s"
  by (simp add: cfg_def agent_inv_def)

lemma cfg_quiet: "quiet s t \<Longrightarrow> cfg t = cfg s"
  by (simp add: cfg_def quiet_fields)

lemma cfg_act [simp]: "cfg (act a s) = cfg s" by (simp add: cfg_def)

lemma cfg_resp [simp]: "cfg (prodTestSendRespOrEvent ty i st s) = cfg s" "cfg (rf_cnf c st v s) = cfg s"
  by (simp_all add: prodTestSendRespOrEvent_def rf_cnf_def prodTestSendRespOrEventPayload_def)

lemma agent_inv_store:
  assumes "wf_profile (profile s)" "signature (profile s) = PROD_VALID_SIGNATURE" "crc_tab s = chksum_crc32gentab"
    "length (prepParms s) = sz_plc"
  shows "agent_inv (store_profile s)"
proof -
  have "wf_profile (profile (store_profile s))" using assms(1) by (simp add: wf_profile_def store_profile_profile)
  then show ?thesis
    using assms profile_bytes_roundtrip [of "profile (store_profile s)"] store_profile_read [OF assms(1)]
    by (simp add: agent_inv_def store_profile_profile)
qed

text \<open>A reset at any moment finds the profile again.\<close>

lemma agent_inv_boot:
  assumes "agent_inv s" "flashMem t = flashMem s"
  shows "boot_profile t = t\<lparr>crc_tab := chksum_crc32gentab, profile := profile s\<rparr>"
  using assms by (simp add: boot_profile_def Let_def agent_inv_def)

subsection \<open>Start of the board\<close>

lemma length_read_prod: "length (Gv701x_FlashReadProdProfile n len f) = len"
  by (simp add: Gv701x_FlashReadProdProfile_def read_from_def)

lemma wf_profile_of_bytes: "length b = sz_profile \<Longrightarrow> wf_profile (profile_of_bytes b)"
  by (simp add: wf_profile_def profile_of_bytes_def sz_profile_def sz_rf_rx_def sz_rf_tx_def)

lemma boot_inv:
  assumes "length (prepParms s) = sz_plc"
  shows "agent_inv (boot_profile s)"
proof -
  let ?t = "s\<lparr>crc_tab := chksum_crc32gentab\<rparr>"
  have d: "agent_inv (store_profile (?t\<lparr>profile := default_profile\<rparr>))" for t
    using assms by (intro agent_inv_store) (simp_all add: default_profile_def wf_profile_def)
  have "wf_profile (profile_of_bytes (Gv701x_FlashReadProdProfile PROD_CONFIG_SECTOR sz_profile (flashMem s)))"
    by (intro wf_profile_of_bytes length_read_prod)
  then show ?thesis
    using d assms by (simp add: boot_profile_def Let_def) (simp add: agent_inv_def)
qed


lemma cal_loop_profile: "\<exists>x. snd (snd (cal_loop v n c p)) = p\<lparr>rfCalAttemptCount := x\<rparr>"
proof -
  have "\<exists>x. p = p\<lparr>rfCalAttemptCount := x\<rparr>" by (rule exI [of _ "rfCalAttemptCount p"]) simp
  moreover have "\<exists>x. p\<lparr>rfCalAttemptCount := y\<rparr> = p\<lparr>rfCalAttemptCount := x\<rparr>" for y by blast
  ultimately show ?thesis
    unfolding cal_loop_spec by (cases "find (\<lambda>i. v (n + i)) [0..<cal_tries c]") simp_all
qed

lemma zb_calibration_inv:
  assumes "agent_inv s"
  shows "agent_inv (zb_lo_leakage_calibration v regs s)"
proof (cases "rfCalStatus (profile s) = RF_NOT_CALIBRATED \<or> rfCalStatus (profile s) = RF_CALIBRATION_FAILED")
  case True
  let ?c = "if rfCalStatus (profile s) = RF_NOT_CALIBRATED then 0xFF else rfCalAttemptCount (profile s)"
  obtain n good p x where l: "cal_loop v 0 ?c (profile s) = (n, good, p)" and p: "p = (profile s)\<lparr>rfCalAttemptCount := x\<rparr>"
    using cal_loop_profile [of v 0 ?c "profile s"] by (metis prod.collapse)
  obtain i q where r: "regs (n - 1) = (i, q)" by fastforce
  have "\<exists>p'. zb_lo_leakage_calibration v regs s = store_profile (s\<lparr>profile := p'\<rparr>) \<and> wf_profile p' \<and>
      signature p' = signature (profile s)"
    using True l r assms unfolding zb_lo_leakage_calibration_def Let_def
    by (auto simp: p agent_inv_def wf_profile_def)
  then obtain p' where "zb_lo_leakage_calibration v regs s = store_profile (s\<lparr>profile := p'\<rparr>)" "wf_profile p'"
    "signature p' = signature (profile s)" by blast
  with assms show ?thesis by (auto simp: agent_inv_def [of s] intro: agent_inv_store)
next
  case False
  with assms show ?thesis by (simp add: zb_lo_leakage_calibration_def Let_def)
qed

lemma length_put_at_0: "length v \<le> length b \<Longrightarrow> length (put_at 0 v b) = length b"
  by (simp add: length_put_at)

lemma cfg_config: "cfg (fst (config_rf_test_parameters env p tt s)) = cfg s"
  by (rule cfg_quiet [OF quiet_config])

lemma cfg_prep:
  "cfg (s\<lparr>prepCmdId := a, prepTestId := b\<rparr>) = cfg s"
  "length p = length (prepParms s) \<Longrightarrow> cfg (s\<lparr>prepParms := p\<rparr>) = cfg s"
  by (simp_all add: cfg_def)

lemma reconfig_as_cfg:
  assumes "agent_inv s"
  shows "cfg (fst (reconfig_as env cnf tt s)) = cfg s"
proof -
  let ?u = "s\<lparr>prepParms := put_at 0 (rf_parms_of tt (profile s)) (prepParms s)\<rparr>"
  have "length (rf_parms_of tt (profile s)) \<le> length (prepParms s)"
    using assms by (cases tt) (simp_all add: rf_parms_of_def agent_inv_def wf_profile_def sz_rf_rx_def sz_rf_tx_def sz_plc_def)
  then have u: "cfg ?u = cfg s" by (intro cfg_prep) (simp add: length_put_at_0)
  obtain t st where t: "config_rf_test_parameters env (prepParms ?u) tt ?u = (t, st)" by fastforce
  have "cfg t = cfg s" using cfg_config [of env "prepParms ?u" tt ?u] t u by simp
  then show ?thesis using t by (cases st) (simp_all add: reconfig_as_alt Let_def)
qed

lemma rf_reconfig_cfg:
  assumes "agent_inv s"
  shows "cfg (rf_test_prepare_reconfig env s) = cfg s"
proof -
  have u: "cfg (s\<lparr>prepCmdId := a, prepTestId := b\<rparr>) = cfg s" "agent_inv (s\<lparr>prepCmdId := a, prepTestId := b\<rparr>)" for a b
    using assms agent_inv_cfg [OF cfg_prep(1)] by (simp_all add: cfg_prep)
  have "cfg (reconfig_end cnf cal r) = cfg (fst r)" for cnf cal r by (simp add: reconfig_end_def)
  moreover have "cfg (fst (reconfig_as env cnf tt (s\<lparr>prepCmdId := a, prepTestId := b\<rparr>))) = cfg s" for cnf tt a b
    using reconfig_as_cfg [OF u(2)] u(1) by simp
  ultimately show ?thesis
    using u(1) by (simp add: rf_test_prepare_reconfig_def Let_def)
qed

lemma prodTest_init_inv:
  assumes "agent_inv s"
  shows "agent_inv (prodTest_init env r s)"
proof -
  define d where "d = (if type_dut env then DEV_DUT else DEV_REF)"
  define s0 where "s0 = fold (\<lambda>i. act (AddNEK i)) [0, 1, 2, 3, 4, 5, 6] (s\<lparr>prodTestDevType := d\<rparr>)"
  define s1 where "s1 = s0\<lparr>devType := prodTestDevType s0\<rparr>"
  have "quiet (s\<lparr>prodTestDevType := d\<rparr>) s0" unfolding s0_def by (rule quiet_fold_act) (simp add: is_spi_def)
  from cfg_quiet [OF this] have "cfg s1 = cfg s" by (simp add: cfg_def s1_def)
  then have s1: "agent_inv s1" using assms agent_inv_cfg by blast
  have st: "agent_inv (store_profile (u\<lparr>profile := (profile u)\<lparr>testActionPreparePending := 0\<rparr>\<rparr>))" if "agent_inv u" for u
    using that by (intro agent_inv_store) (simp_all add: agent_inv_def wf_profile_def)
  define s2 where "s2 = (if r = 1 then store_profile (s1\<lparr>profile := (profile s1)\<lparr>testActionPreparePending := 0\<rparr>\<rparr>) else s1)"
  have s2: "agent_inv s2" using s1 st by (simp add: s2_def)
  have "prodTest_init env r s =
      (if testActionPreparePending (profile s2) \<noteq> 1 then act (SpiTx (device_up_frame (prodTestDevType s0))) s2
       else if rfCalStatus (profile s2) = RF_CALIBRATED then rf_test_prepare_reconfig env s2
       else if rfCalStatus (profile s2) = RF_CALIBRATION_FAILED \<and> rfCalAttemptCount (profile s2) \<ge> TXLO_CAL_TRY_MAX \<and>
               testActionPreparePending (profile s2) = 1
       then rf_cnf (if prodTestDevType (store_profile (s2\<lparr>profile := (profile s2)\<lparr>testActionPreparePending := 0\<rparr>\<rparr>)) = DEV_DUT
            then CNF TOOL_CMD_PREPARE_DUT else CNF TOOL_CMD_PREPARE_REF) PRODTEST_STAT_FAILURE RF_CALIBRATION_FAILED
            (store_profile (s2\<lparr>profile := (profile s2)\<lparr>testActionPreparePending := 0\<rparr>\<rparr>))
       else s2)"
    unfolding prodTest_init_def Let_def d_def [symmetric] s0_def [symmetric] s1_def [symmetric]
    by (simp add: s2_def s1_def)
  then show ?thesis
    using s2 st [OF s2] agent_inv_cfg [OF rf_reconfig_cfg [OF s2]] agent_inv_cfg [OF cfg_act] agent_inv_cfg [OF cfg_resp(2)] by simp
qed

lemma board_start_inv: "agent_inv (board_start env v regs s)"
  unfolding board_start_def Let_def
  by (intro prodTest_init_inv zb_calibration_inv boot_inv) simp


subsection \<open>Commands\<close>

lemma agent_inv_len: "agent_inv s \<Longrightarrow> length (prepParms s) = sz_plc"
  by (simp add: agent_inv_def)

lemma inv_steps:
  "agent_inv s \<Longrightarrow> agent_inv (act a s)"
  "agent_inv s \<Longrightarrow> agent_inv (prodTestSendRespOrEvent ty i st s)"
  "agent_inv s \<Longrightarrow> agent_inv (rf_cnf c st v s)"
  by (simp_all only: agent_inv_cfg [OF cfg_act] agent_inv_cfg [OF cfg_resp(1)] agent_inv_cfg [OF cfg_resp(2)])

lemma inv_prep:
  "agent_inv s \<Longrightarrow> agent_inv (s\<lparr>prepCmdId := a, prepTestId := b\<rparr>)"
  "agent_inv s \<Longrightarrow> length p = sz_plc \<Longrightarrow> agent_inv (s\<lparr>prepParms := p\<rparr>)"
  by (simp_all add: agent_inv_def)

lemma copy_parms_inv: "agent_inv s \<Longrightarrow> n \<le> sz_plc \<Longrightarrow> copy_parms src n s = Some t \<Longrightarrow> agent_inv t"
  by (auto simp: copy_parms_def memcpy_from_def bind_eq_Some_conv split: if_splits
      intro!: inv_prep(2) dest: agent_inv_len simp: length_put_at_0)

lemma fix_parms_inv:
  "agent_inv s \<Longrightarrow> agent_inv (fix_parms correctEndieness_sRfTxTestHostParams s)"
  "agent_inv s \<Longrightarrow> agent_inv (fix_parms correctEndieness_sRfRxTestHostParams s)"
  using correct_tx_append [of "prepParms s" "[]"] correct_rx_append [of "prepParms s" "[]"]
  by (auto simp: fix_parms_def sz_rf_tx_def sz_rf_rx_def sz_plc_def intro!: inv_prep(2) dest: agent_inv_len)

lemma length_swap32: "i + 4 \<le> length a \<Longrightarrow> length (swap32_at i a) = length a"
  by (simp add: swap32_at_def length_put_at)

lemma fix_plc_inv: "agent_inv s \<Longrightarrow> agent_inv (fix_parms correctEndieness_sPlcSimTxTestParams s)"
  by (auto simp: fix_parms_def correctEndieness_sPlcSimTxTestParams_def length_swap32 length_swap16 sz_plc_def
      intro!: inv_prep(2) dest: agent_inv_len)

lemma plc_tx_power_inv: "agent_inv s \<Longrightarrow> agent_inv (plc_tx_power m s)"
  by (simp add: plc_tx_power_def Let_def inv_steps)

lemma config_plc_inv: "agent_inv s \<Longrightarrow> config_plc_test_parameters p s = Some t \<Longrightarrow> agent_inv t"
proof -
  assume s: "agent_inv s" and c: "config_plc_test_parameters p s = Some t"
  have "agent_inv (u\<lparr>halStats := h, selfTei := a, remoteTei := b, snid := d\<rparr>) = agent_inv u" for u h a b d
    by (simp add: agent_inv_def)
  then show ?thesis
    using s c by (auto simp: config_plc_test_parameters_def Let_def bind_eq_Some_conv intro!: inv_steps plc_tx_power_inv)
qed

lemma prepare_plc_inv:
  assumes "agent_inv s" "prepare_plc dev cnf tst c s = Some r"
  shows "agent_inv (fst r)"
proof (cases "devType s = dev")
  case True
  let ?s = "s\<lparr>prepCmdId := cmdId c, prepTestId := testId c, prepParms := replicate sz_plc 0\<rparr>"
  have s: "agent_inv ?s" using inv_prep(2) [OF inv_prep(1) [OF assms(1)]] by simp
  from True assms(2) obtain t u where t: "(if prepTestId ?s = tst then copy_parms (parms c) sz_plc ?s else Some ?s) = Some t"
    and u: "config_plc_test_parameters (parms c) t = Some u" and r: "r = (u, FallThrough)"
    unfolding prepare_plc_def Let_def by (auto simp: bind_eq_Some_conv simp del: prodState.simps)
  have "agent_inv t" using t s copy_parms_inv [OF s, of sz_plc "parms c" t] by (auto split: if_splits)
  from config_plc_inv [OF this u] r show ?thesis by simp
qed (use assms in \<open>auto simp: prepare_plc_def inv_steps\<close>)

lemma rf_calibrated_inv:
  assumes "agent_inv s"
  shows "agent_inv (fst (rf_prepare_calibrated cnf tt c s))"
proof -
  let ?p = "profile (rf_keep_pending tt c s)"
  have "agent_inv (store_profile (s\<lparr>profile := q\<rparr>))" if "wf_profile q" "signature q = PROD_VALID_SIGNATURE" for q
    using assms that by (intro agent_inv_store) (simp_all add: agent_inv_def)
  then have "agent_inv (rf_keep_pending tt c s)"
    using assms unfolding rf_keep_pending_def Let_def
    by (intro inv_steps) (cases tt; simp add: agent_inv_def wf_profile_def sz_rf_tx_def sz_rf_rx_def sz_plc_def)
  then show ?thesis using assms by (simp add: rf_prepare_calibrated_def Let_def inv_steps)
qed

lemma rf_config_inv:
  assumes "agent_inv t" "config_rf_test_parameters env p tt t = (u, st)"
  shows "agent_inv u"
proof -
  have "cfg u = cfg t" using cfg_config [of env p tt t] assms(2) by simp
  then show ?thesis using assms(1) agent_inv_cfg by blast
qed

lemma rf_prepare_end_inv:
  assumes "agent_inv t" "config_rf_test_parameters env p tt t = (u, st)"
    "r = (case st of STATUS_SUCCESS \<Rightarrow> rf_prepare_calibrated cnf tt c u
                   | _ \<Rightarrow> (rf_cnf cnf PRODTEST_STAT_INVALID_TEST (rfCalStatus (profile u)) u, Break))"
  shows "agent_inv (fst r)"
  using rf_config_inv [OF assms(1,2)] unfolding assms(3)
  by (cases st) (simp_all add: rf_calibrated_inv inv_steps)

lemma rf_prepare_tx_inv:
  assumes "agent_inv s" "rf_prepare_tx env cnf c s = Some r"
  shows "agent_inv (fst r)"
proof -
  from assms(2) obtain t where t: "copy_parms (parms c) sz_rf_tx s = Some t"
    by (auto simp: rf_prepare_tx_def bind_eq_Some_conv)
  let ?t = "fix_parms correctEndieness_sRfTxTestHostParams t"
  obtain u st where u: "config_rf_test_parameters env (prepParms ?t) RF_TX ?t = (u, st)" by fastforce
  have "agent_inv ?t" using copy_parms_inv [OF assms(1) _ t] by (intro fix_parms_inv) (simp add: sz_rf_tx_def sz_plc_def)
  from rf_prepare_end_inv [OF this u, of r cnf c] show ?thesis
    using assms(2) t u by (auto simp: rf_prepare_tx_def Let_def split: eStatus.splits)
qed

lemma rf_prepare_rx_inv:
  assumes "agent_inv s" "rf_prepare_rx env cnf c s = Some r"
  shows "agent_inv (fst r)"
proof -
  from assms(2) obtain t where t: "copy_parms (parms c) sz_rf_rx s = Some t"
    by (auto simp: rf_prepare_rx_def bind_eq_Some_conv)
  let ?t = "fix_parms correctEndieness_sRfRxTestHostParams t"
  obtain u st where u: "config_rf_test_parameters env (prepParms ?t) RF_RX ?t = (u, st)" by fastforce
  have "agent_inv ?t" using copy_parms_inv [OF assms(1) _ t] by (intro fix_parms_inv) (simp add: sz_rf_rx_def sz_plc_def)
  from rf_prepare_end_inv [OF this u, of r cnf c] show ?thesis
    using assms(2) t u by (auto simp: rf_prepare_rx_def Let_def split: eStatus.splits)
qed

lemmas rf_prepare_inv = rf_prepare_tx_inv rf_prepare_rx_inv

lemma rf_clear_inv: "agent_inv s \<Longrightarrow> agent_inv ((rf_clear_prep s)\<lparr>prepCmdId := a, prepTestId := b\<rparr>)"
  unfolding rf_clear_prep_def
  by (auto simp: agent_inv_def length_put_at sz_rf_tx_def sz_plc_def)

lemma prepare_dut_rf_inv:
  assumes "agent_inv s" "prepare_dut_rf env c s = Some r"
  shows "agent_inv (fst r)"
proof (cases "devType s = DEV_DUT")
  case True
  let ?u = "(rf_clear_prep s)\<lparr>prepCmdId := cmdId c, prepTestId := testId c\<rparr>"
  have u: "agent_inv ?u" by (rule rf_clear_inv [OF assms(1)])
  have "rf_prepare_tx env (CNF TOOL_CMD_PREPARE_DUT) c ?u = Some r \<or> rf_prepare_rx env (CNF TOOL_CMD_PREPARE_DUT) c ?u = Some r \<or>
      r = (?u, FallThrough)"
    using assms(2) True by (simp add: prepare_dut_rf_def Let_def split: if_splits)
  then show ?thesis by (auto dest: rf_prepare_tx_inv [OF u] rf_prepare_rx_inv [OF u] simp: u)
qed (use assms in \<open>auto simp: prepare_dut_rf_def Let_def inv_steps\<close>)

lemma prepare_ref_rf_inv:
  assumes "agent_inv s" "prepare_ref_rf env c s = Some r"
  shows "agent_inv (fst r)"
proof (cases "devType s = DEV_REF")
  case True
  let ?u = "(rf_clear_prep s)\<lparr>prepCmdId := cmdId c, prepTestId := testId c\<rparr>"
  have u: "agent_inv ?u" by (rule rf_clear_inv [OF assms(1)])
  have "rf_prepare_tx env (CNF TOOL_CMD_PREPARE_REF) c ?u = Some r \<or> rf_prepare_rx env (CNF TOOL_CMD_PREPARE_REF) c ?u = Some r \<or>
      r = (?u, FallThrough)"
    using assms(2) True by (simp add: prepare_ref_rf_def Let_def split: if_splits)
  then show ?thesis by (auto dest: rf_prepare_tx_inv [OF u] rf_prepare_rx_inv [OF u] simp: u)
qed (use assms in \<open>auto simp: prepare_ref_rf_def Let_def inv_steps\<close>)

lemma after_prepare_inv: "agent_inv (fst r) \<Longrightarrow> agent_inv (fst (after_prepare cnf c r))"
  by (cases r) (auto simp: after_prepare_def prepare_confirm_def inv_steps split: flow.splits)

lemma exec_prepare_inv:
  assumes "agent_inv s"
  shows "exec_prepare_dut env c s = Some r \<Longrightarrow> agent_inv (fst r)"
    "exec_prepare_ref env c s = Some r \<Longrightarrow> agent_inv (fst r)"
proof -
  assume "exec_prepare_dut env c s = Some r"
  then obtain q where q: "r = after_prepare (CNF TOOL_CMD_PREPARE_DUT) c q" and
    "prepare_plc DEV_DUT (CNF TOOL_CMD_PREPARE_DUT) TEST_ID_PLC_TX c s = Some q \<or> prepare_dut_rf env c s = Some q \<or> q = (s, FallThrough)"
    by (auto simp: exec_prepare_dut_def bind_eq_Some_conv split: if_splits)
  then have "agent_inv (fst q)" by (auto dest: prepare_plc_inv [OF assms] prepare_dut_rf_inv [OF assms] simp: assms)
  then show "agent_inv (fst r)" unfolding q by (rule after_prepare_inv)
next
  assume "exec_prepare_ref env c s = Some r"
  then obtain q where q: "r = after_prepare (CNF TOOL_CMD_PREPARE_REF) c q" and
    "prepare_plc DEV_REF (CNF TOOL_CMD_PREPARE_REF) TEST_ID_PLC_RX c s = Some q \<or> prepare_ref_rf env c s = Some q \<or> q = (s, FallThrough)"
    by (auto simp: exec_prepare_ref_def bind_eq_Some_conv split: if_splits)
  then have "agent_inv (fst q)" by (auto dest: prepare_plc_inv [OF assms] prepare_ref_rf_inv [OF assms] simp: assms)
  then show "agent_inv (fst r)" unfolding q by (rule after_prepare_inv)
qed

text \<open>Fields the invariant does not read.\<close>

lemma inv_upds:
  "agent_inv (s\<lparr>preAddrFilterErrCnt := a, preFrameCtrlErrCnt := b, preICVErrCnt := d\<rparr>) = agent_inv s"
  "agent_inv (s\<lparr>prodTestIsPLCTxTestActive := x\<rparr>) = agent_inv s"
  "agent_inv (s\<lparr>gRfStats := g\<rparr>) = agent_inv s"
  "agent_inv (s\<lparr>stm := m\<rparr>) = agent_inv s"
  "agent_inv (s\<lparr>rfTxConfigStats := k\<rparr>) = agent_inv s"
  "agent_inv (s\<lparr>prod_test_rf_timer := i\<rparr>) = agent_inv s"
  by (simp_all add: agent_inv_def)

lemma plc_transmit_inv: "agent_inv s \<Longrightarrow> agent_inv (plc_transmit env s)"
  by (auto simp: plc_transmit_def Let_def inv_upds intro!: inv_steps intro: fix_plc_inv)

lemma start_plc_inv:
  assumes "agent_inv s"
  shows "agent_inv (start_plc env s)"
proof -
  define u where "u = s\<lparr>preAddrFilterErrCnt := 0, preFrameCtrlErrCnt := 0, preICVErrCnt := 0\<rparr>"
  have "agent_inv u" using assms by (simp add: u_def inv_upds)
  then show ?thesis
    unfolding start_plc_def Let_def u_def [symmetric] by (simp add: plc_transmit_inv inv_upds)
qed

lemma rf_transmit_inv: "agent_inv s \<Longrightarrow> rf_transmit s = Some t \<Longrightarrow> agent_inv t"
  unfolding rf_transmit_def rfStartTxTest_def Let_def
  by (auto simp: bind_eq_Some_conv split: if_splits prod.splits intro!: inv_steps) (simp_all add: agent_inv_def)

lemma start_rf_inv: "agent_inv s \<Longrightarrow> start_rf s = Some t \<Longrightarrow> agent_inv t"
  by (auto simp: start_rf_def inv_upds split: if_splits dest: rf_transmit_inv)

lemma rf_timer_cb_inv: "agent_inv s \<Longrightarrow> prod_rf_test_timer_cb s = Some t \<Longrightarrow> agent_inv t"
  unfolding prod_rf_test_timer_cb_def Let_def
  by (auto simp: bind_eq_Some_conv split: if_splits prod.splits intro!: inv_steps) (simp_all add: agent_inv_def)


lemma exec_start_inv:
  assumes "agent_inv s" "exec_start_test env c s = Some t"
  shows "agent_inv t"
proof -
  let ?u = "\<lambda>v. prodTestSendRespOrEvent headerResponse (CNF TOOL_CMD_START_TEST) v s"
  have "exec_start_test env c s \<in> {Some s, Some (?u PRODTEST_STAT_INVALID_TEST), Some (?u PRODTEST_STAT_SUCCESS),
      Some (start_plc env (?u PRODTEST_STAT_SUCCESS)), start_rf (?u PRODTEST_STAT_SUCCESS)}"
    unfolding exec_start_test_def Let_def by simp
  then show ?thesis
    unfolding assms(2) using start_plc_inv start_rf_inv [of "?u PRODTEST_STAT_SUCCESS" t] inv_steps(2) assms(1)
    by (elim insertE) simp_all
qed

lemma exec_stop_inv: "agent_inv s \<Longrightarrow> agent_inv (exec_stop_test s)"
  by (simp add: exec_stop_test_def Let_def inv_steps inv_upds)

lemma exec_get_result_inv: "agent_inv s \<Longrightarrow> agent_inv (exec_get_result env c s)"
  by (simp add: exec_get_result_def inv_steps)

text \<open>The device parameters: the sector is the host's, and the code does not check it.\<close>

lemma exec_flash_inv:
  assumes "agent_inv s" "exec_flash_param env c s = Some t" "le16_to_cpu (get16 0 (parms c)) \<noteq> 300"
    "\<And>a b. length (pn_fields env a b) \<le> 4000"
  shows "agent_inv t"
proof (cases "testIntf c = TEST_PLC_ID")
  case False
  with assms(1,2) show ?thesis by (simp add: exec_flash_param_def)
next
  case True
  with assms(2) have len: "26 \<le> length (parms c)"
    by (auto simp: exec_flash_param_def bind_eq_Some_conv memcpy_from_def MAC_ADDR_LEN_def SR_NO_LEN_def split: if_splits)
  define sec :: u32 where "sec = ucast (le16_to_cpu (get16 0 (parms c)))"
  let ?mac = "take 6 (drop 2 (parms c))" and ?ser = "take 18 (drop 8 (parms c))"
  let ?bs = "mac_ser_bytes (crc_tab s) ?mac ?ser"
  let ?io = "pn_fields env (?ser ! 0) (?ser ! 1) @ [0, 0]"
  let ?f = "Gv701x_FlashWriteMemProfile LED_CFG_SECTOR ?io (Gv701x_FlashWriteMemProfile sec ?bs (flashMem s))"
  have g: "get16 0 (take 26 (parms c)) = get16 0 (parms c)"
    using len get16_append [of 0 "take 26 (parms c)" "drop 26 (parms c)"] by simp
  have d: "take 6 (drop 2 (take 26 (parms c))) = ?mac" "drop 8 (take 26 (parms c)) = ?ser"
    by (simp_all add: drop_take)
  have t: "t = prodTestSendRespOrEvent headerResponse (CNF TOOL_CMD_DEVICE_FLASH_PARAM) PRODTEST_STAT_SUCCESS
      (s\<lparr>flashMem := ?f\<rparr>)"
    using assms(2) True len unfolding exec_flash_param_def memcpy_from_def MAC_ADDR_LEN_def SR_NO_LEN_def
    by (simp add: g d sec_def Let_def)
  have "unat sec = unat (le16_to_cpu (get16 0 (parms c)))"
    by (simp add: sec_def unsigned_ucast_eq take_bit_nat_eq_self order.strict_trans [OF unat_u16_less])
  moreover have "unat (le16_to_cpu (get16 0 (parms c))) \<noteq> 300" using assms(3) by (auto simp: word_unat_eq_iff)
  ultimately have sec: "unat sec < 2 ^ 20" "PROD_CONFIG_SECTOR \<noteq> sec"
    using unat_u16_less [of "le16_to_cpu (get16 0 (parms c))"] by (auto simp: PROD_CONFIG_SECTOR_def)
  have led: "unat LED_CFG_SECTOR < 2 ^ 20" "PROD_CONFIG_SECTOR \<noteq> LED_CFG_SECTOR"
    by (simp_all add: LED_CFG_SECTOR_def PROD_CONFIG_SECTOR_def)
  have "length ?bs = 32" using len by (intro length_mac_ser_bytes) simp_all
  moreover have "length ?io \<le> 4096" using assms(4) [of "?ser ! 0" "?ser ! 1"] by simp
  ultimately have "Gv701x_FlashReadProdProfile PROD_CONFIG_SECTOR sz_profile ?f =
      Gv701x_FlashReadProdProfile PROD_CONFIG_SECTOR sz_profile (flashMem s)"
    by (simp add: prod_profile_eq_mem sz_profile_def read_after_write_other [OF PROD_CONFIG_SECTOR_small led]
        read_after_write_other [OF PROD_CONFIG_SECTOR_small sec])
  then have "agent_inv (s\<lparr>flashMem := ?f\<rparr>)" using assms(1) by (simp add: agent_inv_def)
  then show ?thesis unfolding t by (rule inv_steps)
qed

lemma prodTestExecCmd_inv:
  assumes "agent_inv s" "prodTestExecCmd env c s = Some (t, fl)"
    "cmdId c = TOOL_CMD_DEVICE_FLASH_PARAM \<longrightarrow> le16_to_cpu (get16 0 (parms c)) \<noteq> 300"
    "\<And>a b. length (pn_fields env a b) \<le> 4000"
  shows "agent_inv t"
  using assms(2)
proof (cases rule: prodTestExecCmd_cases)
  case 1 then show ?thesis using exec_prepare_inv(1) [OF assms(1) 1(2)] by simp
next
  case 2 then show ?thesis using exec_prepare_inv(2) [OF assms(1) 2(2)] by simp
next
  case 3 then show ?thesis using exec_start_inv [OF assms(1) 3(2)] by simp
next
  case 4 then show ?thesis using exec_stop_inv [OF assms(1)] by simp
next
  case 5 then show ?thesis using exec_get_result_inv [OF assms(1)] by simp
next
  case 6 then show ?thesis using prodTest_init_inv [OF assms(1)] inv_steps(1) by simp
next
  case 7 then show ?thesis using inv_steps(2) [OF assms(1)] by simp
next
  case 8 then show ?thesis using exec_flash_inv [OF assms(1) 8(2) _ assms(4)] assms(3) by simp
qed (use assms in simp)

subsection \<open>Reachable states\<close>

text \<open>
  The runs of the agent: a start of the board from any state whatsoever, then commands and
  expiries of the RF timer, with resets at any moment.  A command that stores the device
  parameters names another sector than the profile's.
\<close>

inductive agent_run :: "prodEnv \<Rightarrow> prodState \<Rightarrow> bool" for env where
  start: "agent_run env (board_start env reading_valid regs s)"
| command: "agent_run env s \<Longrightarrow> prodTestExecCmd env c s = Some (t, fl) \<Longrightarrow>
    cmdId c = TOOL_CMD_DEVICE_FLASH_PARAM \<longrightarrow> le16_to_cpu (get16 0 (parms c)) \<noteq> 300 \<Longrightarrow> agent_run env t"
| expiry: "agent_run env s \<Longrightarrow> prod_rf_test_timer_cb (s\<lparr>stm := m\<rparr>) = Some t \<Longrightarrow> agent_run env t"

lemma agent_run_inv:
  assumes "agent_run env s" "\<And>a b. length (pn_fields env a b) \<le> 4000"
  shows "agent_inv s"
  using assms(1)
proof (induction rule: agent_run.induct)
  case (start v regs s) show ?case by (rule board_start_inv)
next
  case (command s c t fl) then show ?case using prodTestExecCmd_inv assms(2) by blast
next
  case (expiry s m t) then show ?case using rf_timer_cb_inv [of "s\<lparr>stm := m\<rparr>" t] inv_upds(4) by simp
qed



end
