(* ===== verification/ProdRun.thy ===== *)
theory ProdRun
  imports ProdFrames StmProc
begin

text \<open>
  The RF transmission test as it runs: the start command arms a software timer, every expiry
  sends a frame and arms it again, and stop commands may arrive in between.
\<close>

subsection \<open>Steps of a running test\<close>

datatype rf_step = TimerFires | StopCommand

definition rf_timer_active :: "prodState \<Rightarrow> bool" where
  "rf_timer_active s \<longleftrightarrow> (let i = unat (prod_test_rf_timer s) in
     i < STM_TIMER_MAX \<and> active (timerCb (stm s) ! i))"

text \<open>An expiry: \<open>STM_Proc\<close> takes the timer off the queue and calls the handler.\<close>

definition rf_fire :: "prodState \<Rightarrow> prodState option" where
  "rf_fire s =
     (if rf_timer_active s
      then do { m \<leftarrow> stm_dequeue (stm s) (unat (prod_test_rf_timer s)); prod_rf_test_timer_cb (s\<lparr>stm := m\<rparr>) }
      else None)"

definition stop_cmd :: sprodTstCmd where
  "stop_cmd = \<lparr>cmdId = TOOL_CMD_STOP_TEST, testIntf = TEST_802_15_5_ID, testId = 0, parms = []\<rparr>"

definition rf_do :: "prodEnv \<Rightarrow> rf_step \<Rightarrow> prodState \<Rightarrow> prodState option" where
  "rf_do env st s = (case st of TimerFires \<Rightarrow> rf_fire s
     | StopCommand \<Rightarrow> map_option fst (prodTestExecCmd env stop_cmd s))"

primrec rf_run :: "prodEnv \<Rightarrow> rf_step list \<Rightarrow> prodState \<Rightarrow> prodState option" where
  "rf_run env [] s = Some s"
| "rf_run env (st # sts) s = do { s \<leftarrow> rf_do env st s; rf_run env sts s }"

subsection \<open>The state after \<open>k\<close> frames\<close>

definition rf_cookie :: "u8 list \<Rightarrow> nat \<Rightarrow> sRfTxTimerCookie" where
  "rf_cookie p k =
     \<lparr>cTestInterface = TEST_802_15_5_ID, cTestId = ucast TEST_ID_802_15_4_TX, cSrcAddrMode = FCF_SHORT_ADDR,
      cDstAddrMode = FCF_SHORT_ADDR, cDstAddr = get16 10 p, cDstPan = get16 13 p, cMsduLength = p ! 15,
      cFrameTxCount = get16 16 p, cFrameTxDoneCount = of_nat k, cInterFrameDelay = get16 18 p,
      cMsduHandle = of_nat k, cTxOptions = TX_CAP_ACK\<rparr>"

definition rf_request :: "u8 list \<Rightarrow> nat \<Rightarrow> action" where
  "rf_request p k =
     McpsDataReq FCF_SHORT_ADDR FCF_SHORT_ADDR (get16 10 p) (get16 13 p) (p ! 15) (of_nat k) TX_CAP_ACK"

definition frames_wanted :: "u8 list \<Rightarrow> nat" where "frames_wanted p = unat (get16 16 p)"

definition rf_at :: "u8 list \<Rightarrow> nat \<Rightarrow> prodState \<Rightarrow> bool" where
  "rf_at p k s \<longleftrightarrow> rfTxConfigStats s = rf_cookie p k \<and> k \<le> frames_wanted p \<and>
     unat (prod_test_rf_timer s) < STM_TIMER_MAX \<and> (devType s = DEV_DUT \<or> devType s = DEV_REF) \<and>
     (\<exists>q. stm_inv (stm s) q \<and>
       (if k < frames_wanted p then unat (prod_test_rf_timer s) \<in> set q
        else unat (prod_test_rf_timer s) \<notin> set q \<and> \<not> valid (timerCb (stm s) ! unat (prod_test_rf_timer s))))"

lemma rf_at_active: "rf_at p k s \<Longrightarrow> rf_timer_active s \<longleftrightarrow> k < frames_wanted p"
  by (auto simp: rf_at_def rf_timer_active_def Let_def stm_invD(6) split: if_splits)

definition done_frame :: action where
  "done_frame = SpiTx (fill_Tool_header headerEvent 1 EVENT_TEST_DONE @ [PRODTEST_STAT_SUCCESS])"

lemma frames_wanted_less: "frames_wanted p < 65536"
  unfolding frames_wanted_def by (rule unat_u16_less)

lemma more_frames: "Suc k \<le> frames_wanted p \<Longrightarrow> (of_nat (Suc k) :: u16) < get16 16 p \<longleftrightarrow> Suc k < frames_wanted p"
  using frames_wanted_less [of p]
  by (simp add: word_less_nat_alt frames_wanted_def unsigned_of_nat take_bit_nat_eq_self del: of_nat_Suc)

lemma rf_fire_step:
  assumes at: "rf_at p k s" and k: "k < frames_wanted p"
  shows "\<exists>s'. rf_fire s = Some s' \<and> rf_at p (Suc k) s' \<and>
    trace s' = trace s @ rf_request p k # (if Suc k = frames_wanted p then [WaitSpiTx, done_frame] else [])"
proof -
  define t where "t = prod_test_rf_timer s"
  from at k obtain q where inv: "stm_inv (stm s) q" and tq: "unat t \<in> set q" and c: "rfTxConfigStats s = rf_cookie p k"
    and dev: "devType s = DEV_DUT \<or> devType s = DEV_REF"
    unfolding rf_at_def t_def by auto
  note D = stm_invD [OF inv]
  obtain us vs where q: "q = us @ unat t # vs" using split_list [OF tq] by blast
  obtain m where m: "stm_dequeue (stm s) (unat t) = Some m" "stm_inv m (us @ vs)"
    "timerCb m = (timerCb (stm s))[unat t := (timerCb (stm s) ! unat t)\<lparr>active := False\<rparr>]"
    using stm_dequeue_spec [of "stm s" us "unat t" vs] inv q by auto
  have t: "unat t < STM_TIMER_MAX" "valid (timerCb m ! unat t)" "unat t \<notin> set (us @ vs)"
    using D(1,4,5) D(7) [OF tq] tq q m(3) by auto
  let ?c = "rf_cookie p (Suc k)"
  let ?s = "(act (rf_request p k) (s\<lparr>stm := m\<rparr>))\<lparr>rfTxConfigStats := ?c\<rparr>"
  have cc: "(rf_cookie p k)\<lparr>cMsduHandle := cMsduHandle (rf_cookie p k) + 1,
      cFrameTxDoneCount := cFrameTxDoneCount (rf_cookie p k) + 1\<rparr> = ?c"
    by (simp add: rf_cookie_def add.commute)
  have f: "rf_fire s = (let s = ?s in
      if cFrameTxCount ?c > cFrameTxDoneCount ?c
      then do {
        (m, st) \<leftarrow> STM_StartTimer m t (ucast (cInterFrameDelay ?c));
        let s = s\<lparr>stm := m\<rparr>;
        if st \<noteq> STATUS_SUCCESS
        then Some (prodTestSendRespOrEvent headerEvent EVENT_TEST_DONE PRODTEST_STAT_FAILURE s)
        else Some s
      }
      else
        let s = s\<lparr>stm := fst (STM_FreeTimer m t)\<rparr>;
            s = act WaitSpiTx s
        in Some (prodTestSendRespOrEvent headerEvent EVENT_TEST_DONE PRODTEST_STAT_SUCCESS s))"
  proof -
    have r: "McpsDataReq (cSrcAddrMode (rf_cookie p k)) (cDstAddrMode (rf_cookie p k)) (cDstAddr (rf_cookie p k))
        (cDstPan (rf_cookie p k)) (cMsduLength (rf_cookie p k)) (cMsduHandle (rf_cookie p k))
        (cTxOptions (rf_cookie p k)) = rf_request p k"
      by (simp add: rf_cookie_def rf_request_def)
    have "rf_fire s = prod_rf_test_timer_cb (s\<lparr>stm := m\<rparr>)"
      using rf_at_active [OF at] k m(1) by (simp add: rf_fire_def t_def [symmetric])
    moreover have "cFrameTxDoneCount (rf_cookie p k) + 1 = cFrameTxDoneCount ?c" "cFrameTxCount (rf_cookie p k) = cFrameTxCount ?c"
      "cInterFrameDelay (rf_cookie p k) = cInterFrameDelay ?c"
      "(rf_cookie p k)\<lparr>cMsduHandle := cMsduHandle (rf_cookie p k) + 1, cFrameTxDoneCount := cFrameTxDoneCount ?c\<rparr> = ?c"
      by (simp_all add: rf_cookie_def add.commute)
    ultimately show ?thesis
      by (simp add: prod_rf_test_timer_cb_def Let_def c r t_def act_def cong: if_cong)
  qed
  have cmp: "cFrameTxDoneCount ?c < cFrameTxCount ?c \<longleftrightarrow> Suc k < frames_wanted p"
    using more_frames [of k p] k by (simp add: rf_cookie_def)
  show ?thesis
  proof (cases "Suc k < frames_wanted p")
    case True
    from stm_start_spec [OF m(2) t, of "ucast (cInterFrameDelay ?c)"] obtain m' e where
      m': "STM_StartTimer m t (ucast (cInterFrameDelay ?c)) = Some (m', STATUS_SUCCESS)"
        "stm_inv m' (insert_timer m e (unat t) (us @ vs))" by blast
    then have "rf_fire s = Some (?s\<lparr>stm := m'\<rparr>)" using f cmp True by (simp add: Let_def)
    moreover have "rf_at p (Suc k) (?s\<lparr>stm := m'\<rparr>)"
      using True t(1) dev m'(2) by (auto simp: rf_at_def t_def [symmetric] insert_timer_def)
    ultimately show ?thesis using True by auto
  next
    case False
    then have last: "Suc k = frames_wanted p" using k by simp
    from stm_free_spec [OF m(2) t(1,2)] t(3) obtain m' where
      m': "STM_FreeTimer m t = (m', STATUS_SUCCESS)" "stm_inv m' (us @ vs)"
        "timerCb m' = (timerCb m)[unat t := (timerCb m ! unat t)\<lparr>valid := False, active := False\<rparr>]" by auto
    let ?t = "prodTestSendRespOrEvent headerEvent EVENT_TEST_DONE PRODTEST_STAT_SUCCESS (act WaitSpiTx (?s\<lparr>stm := m'\<rparr>))"
    have "rf_fire s = Some ?t" using f cmp False m'(1) by (simp add: Let_def)
    moreover have "\<not> valid (timerCb m' ! unat t)" using m'(3) t(1) stm_invD(1) [OF m(2)] by simp
    then have "rf_at p (Suc k) ?t"
      using last t(1,3) dev m'(2)
      by (auto simp: rf_at_def t_def [symmetric] prodTestSendRespOrEvent_def act_def)
    ultimately show ?thesis
      using last by (simp add: prodTestSendRespOrEvent_def done_frame_def)
  qed
qed


lemma rf_fire_over: "rf_at p (frames_wanted p) s \<Longrightarrow> rf_fire s = None"
  using rf_at_active [of p "frames_wanted p" s] by (simp add: rf_fire_def)

definition stop_frame :: action where
  "stop_frame = SpiTx (fill_Tool_header headerResponse 1 (CNF TOOL_CMD_STOP_TEST) @ [PRODTEST_STAT_SUCCESS])"

text \<open>A stop command finds the timer either active, and cannot free it, or gone.\<close>

lemma rf_stop_step:
  assumes at: "rf_at p k s"
  shows "\<exists>s'. rf_do env StopCommand s = Some s' \<and> rf_at p k s' \<and> trace s' = trace s @ [stop_frame]"
proof -
  define t where "t = prod_test_rf_timer s"
  from at obtain q where inv: "stm_inv (stm s) q" and t: "unat t < STM_TIMER_MAX"
    and tq: "if k < frames_wanted p then unat t \<in> set q else unat t \<notin> set q \<and> \<not> valid (timerCb (stm s) ! unat t)"
    and dev: "devType s = DEV_DUT \<or> devType s = DEV_REF"
    unfolding rf_at_def t_def by blast
  have "fst (STM_FreeTimer (stm s) t) = stm s"
    using tq t stm_invD(6,7) [OF inv] by (auto simp: STM_FreeTimer_def Let_def split: if_splits)
  then have "exec_stop_test s = prodTestSendRespOrEvent headerResponse (CNF TOOL_CMD_STOP_TEST) PRODTEST_STAT_SUCCESS
      (s\<lparr>prodTestIsPLCTxTestActive := 0\<rparr>)"
    using dev by (auto simp: exec_stop_test_def Let_def t_def)
  moreover have "rf_do env StopCommand s = Some (exec_stop_test s)"
    by (simp add: rf_do_def stop_cmd_def prodTestExecCmd_def cmd_ids)
  moreover have "rf_at p k (s\<lparr>prodTestIsPLCTxTestActive := 0, trace := tr\<rparr>) = rf_at p k s" for tr
    by (simp add: rf_at_def)
  ultimately show ?thesis
    using at by (simp add: prodTestSendRespOrEvent_def act_def stop_frame_def)
qed

subsection \<open>Whole runs\<close>

definition is_req :: "action \<Rightarrow> bool" where
  "is_req a = (case a of McpsDataReq _ _ _ _ _ _ _ \<Rightarrow> True | _ \<Rightarrow> False)"

definition is_done :: "action \<Rightarrow> bool" where
  "is_done a = (case a of SpiTx f \<Rightarrow> kind f = (headerEvent, EVENT_TEST_DONE) | _ \<Rightarrow> False)"

lemma run_actions [simp]:
  "is_req (rf_request p k)" "\<not> is_req WaitSpiTx" "\<not> is_req done_frame" "\<not> is_req stop_frame"
  "\<not> is_done (rf_request p k)" "\<not> is_done WaitSpiTx" "is_done done_frame" "\<not> is_done stop_frame"
  by (simp_all add: is_req_def is_done_def rf_request_def done_frame_def stop_frame_def header_kind
      headerEvent_def headerResponse_def)

lemma rf_run_spec:
  assumes "rf_at p k s"
  shows "let n = k + count_list sts TimerFires in
    if frames_wanted p < n then rf_run env sts s = None
    else \<exists>s' as. rf_run env sts s = Some s' \<and> rf_at p n s' \<and> trace s' = trace s @ as \<and>
      filter is_req as = map (rf_request p) [k..<n] \<and>
      filter is_done as = (if k < n \<and> n = frames_wanted p then [done_frame] else [])"
  using assms
proof (induction sts arbitrary: s k)
  case Nil
  then have "k \<le> frames_wanted p" by (simp add: rf_at_def)
  with Nil show ?case by (auto intro!: exI [of _ "[]"])
next
  case (Cons st sts)
  show ?case
  proof (cases st)
    case StopCommand
    from rf_stop_step [OF Cons.prems, of env] obtain s1 where s1: "rf_do env st s = Some s1" "rf_at p k s1"
      "trace s1 = trace s @ [stop_frame]" using StopCommand by auto
    show ?thesis
    proof (cases "frames_wanted p < k + count_list sts TimerFires")
      case True
      then show ?thesis using Cons.IH [OF s1(2)] s1(1) StopCommand by (simp add: Let_def)
    next
      case False
      with Cons.IH [OF s1(2)] obtain s' as where "rf_run env sts s1 = Some s'" "rf_at p (k + count_list sts TimerFires) s'"
        "trace s' = trace s1 @ as" "filter is_req as = map (rf_request p) [k..<k + count_list sts TimerFires]"
        "filter is_done as = (if k < k + count_list sts TimerFires \<and> k + count_list sts TimerFires = frames_wanted p then [done_frame] else [])"
        by (auto simp: Let_def)
      with False s1 StopCommand show ?thesis by (auto simp: Let_def intro!: exI [of _ "stop_frame # as"])
    qed
  next
    case TimerFires
    show ?thesis
    proof (cases "k < frames_wanted p")
      case False
      then have "k = frames_wanted p" using Cons.prems by (simp add: rf_at_def)
      with Cons.prems TimerFires show ?thesis by (simp add: rf_do_def rf_fire_over Let_def)
    next
      case True
      define n where "n = Suc k + count_list sts TimerFires"
      have n: "k + count_list (st # sts) TimerFires = n" "Suc k \<le> n" by (simp_all add: n_def TimerFires)
      let ?as = "rf_request p k # (if Suc k = frames_wanted p then [WaitSpiTx, done_frame] else [])"
      from rf_fire_step [OF Cons.prems True] obtain s1 where s1: "rf_do env st s = Some s1" "rf_at p (Suc k) s1"
        "trace s1 = trace s @ ?as" using TimerFires by (auto simp: rf_do_def)
      note IH = Cons.IH [OF s1(2), unfolded n_def [symmetric] Let_def]
      show ?thesis
      proof (cases "frames_wanted p < n")
        case True
        then show ?thesis using IH s1(1) unfolding n(1) by simp
      next
        case False
        with IH obtain s' as where s': "rf_run env sts s1 = Some s'" "rf_at p n s'"
          "trace s' = trace s1 @ as" "filter is_req as = map (rf_request p) [Suc k..<n]"
          "filter is_done as = (if Suc k < n \<and> n = frames_wanted p then [done_frame] else [])" by auto
        have "[k..<n] = k # [Suc k..<n]" using n(2) by (simp add: upt_conv_Cons)
        moreover have "Suc k = frames_wanted p \<Longrightarrow> n = Suc k" using False n(2) by simp
        ultimately show ?thesis
          using False s1 s' n(2) unfolding n(1) Let_def
          by (auto intro!: exI [of _ s'] exI [of _ "?as @ as"])
      qed
    qed
  qed
qed


subsection \<open>The start command\<close>

lemma rf_start_arms:
  assumes inv: "stm_inv (stm s) q" and free: "\<exists>i < STM_TIMER_MAX. \<not> valid (timerCb (stm s) ! i)"
    and p: "p ! 15 > 0" "get16 16 p > 0" and dev: "devType s = DEV_DUT \<or> devType s = DEV_REF"
  shows "\<exists>s'. rfStartTxTest p s = Some (s', STATUS_SUCCESS) \<and> rf_at p 0 s' \<and> trace s' = trace s"
proof -
  obtain m t where a: "STM_AllocTimer (stm s) ZB_LAYER_TYPE_MAC PROD_RF_TEST_TIMER (Some RfTxConfigStats) = (m, t)" by fastforce
  have "\<not> (\<forall>i < STM_TIMER_MAX. valid (timerCb (stm s) ! i))" using free by auto
  with stm_alloc_spec [OF inv, where m = ZB_LAYER_TYPE_MAC and ty = PROD_RF_TEST_TIMER and c = "Some RfTxConfigStats"] a
  have t: "unat t < STM_TIMER_MAX" "\<not> valid (timerCb (stm s) ! unat t)" "stm_inv m q"
    and cb: "timerCb m = (timerCb (stm s))[unat t := (timerCb (stm s) ! unat t)\<lparr>mid := ZB_LAYER_TYPE_MAC,
      ttype := PROD_RF_TEST_TIMER, cookie := Some RfTxConfigStats, valid := True\<rparr>]" by (simp_all split: if_splits)
  have v: "valid (timerCb m ! unat t)" "unat t \<notin> set q"
    using cb t stm_invD(1,7) [OF inv] by auto
  have n: "t \<noteq> STM_TIMER_ID_NULL" using t(1) by (auto simp: STM_TIMER_ID_NULL_def STM_TIMER_MAX_def)
  let ?d = "ucast (get16 18 p)"
  from stm_start_spec [OF t(3,1) v, of ?d] obtain m' e where
    m': "STM_StartTimer m t ?d = Some (m', STATUS_SUCCESS)" "stm_inv m' (insert_timer m e (unat t) q)" by blast
  let ?s = "s\<lparr>rfTxConfigStats := rf_cookie p 0, stm := m', prod_test_rf_timer := t\<rparr>"
  have c0: "zeroCookie\<lparr>cTestInterface := TEST_802_15_5_ID, cTestId := ucast TEST_ID_802_15_4_TX,
      cSrcAddrMode := FCF_SHORT_ADDR, cDstAddrMode := FCF_SHORT_ADDR, cDstAddr := get16 10 p, cDstPan := get16 13 p,
      cMsduLength := p ! 15, cFrameTxCount := get16 16 p, cFrameTxDoneCount := 0, cInterFrameDelay := get16 18 p,
      cMsduHandle := 0, cTxOptions := TX_CAP_ACK\<rparr> = rf_cookie p 0"
    by (simp add: zeroCookie_def rf_cookie_def)
  have "cInterFrameDelay (rf_cookie p 0) = get16 18 p" by (simp add: rf_cookie_def)
  have "rfStartTxTest p s = Some (?s, STATUS_SUCCESS)"
    using p a m'(1) n c0 \<open>cInterFrameDelay (rf_cookie p 0) = get16 18 p\<close> by (simp add: rfStartTxTest_def Let_def)
  moreover have "frames_wanted p > 0" using p(2) by (simp add: frames_wanted_def word_less_nat_alt)
  then have "rf_at p 0 ?s" using t(1) m'(2) dev by (auto simp: rf_at_def insert_timer_def)
  ultimately show ?thesis by auto
qed

text \<open>C15.
  A started RF transmission sends all its frames, and a stop command does not stop it.  Started
  with a frame count \<open>N\<close> and a free software timer, whatever the number and the positions of
  stop commands among the expiries of its timer: \<open>n \<le> N\<close> expiries send the first \<open>n\<close> requests,
  each once and in order; the test-done event is sent once, with the last of them; the timer runs
  on until then, although every stop command is confirmed with success, and is released
  after it, so that an \<open>N + 1\<close>st expiry cannot occur.\<close>

theorem rf_test_sends_all_frames:
  assumes "prepCmdId s = TOOL_CMD_PREPARE_DUT \<or> prepCmdId s = TOOL_CMD_PREPARE_REF"
    and "prepTestId s = testId c" "testIntf c = TEST_802_15_5_ID"
    and "rf_part (prodTestDevType s = DEV_DUT) (testId c) = Some RF_TX"
    and "devType s = DEV_DUT \<or> devType s = DEV_REF"
    and "prepParms s ! 15 > 0" "get16 16 (prepParms s) > 0"
    and "stm_inv (stm s) q" "\<exists>i < STM_TIMER_MAX. \<not> valid (timerCb (stm s) ! i)"
  shows "\<exists>s0. exec_start_test env c s = Some s0 \<and> (\<forall>sts.
    let n = count_list sts TimerFires; N = frames_wanted (prepParms s) in
      if N < n then rf_run env sts s0 = None
      else \<exists>s' as. rf_run env sts s0 = Some s' \<and> trace s' = trace s0 @ as \<and>
        filter is_req as = map (rf_request (prepParms s)) [0..<n] \<and>
        filter is_done as = (if n = N then [done_frame] else []) \<and>
        (rf_timer_active s' \<longleftrightarrow> n < N))"
proof -
  let ?p = "prepParms s"
  let ?u = "(prodTestSendRespOrEvent headerResponse (CNF TOOL_CMD_START_TEST) PRODTEST_STAT_SUCCESS s)\<lparr>gRfStats := zeroRfStats\<rparr>"
  have "stm_inv (stm ?u) q" "\<exists>i < STM_TIMER_MAX. \<not> valid (timerCb (stm ?u) ! i)" "devType ?u = DEV_DUT \<or> devType ?u = DEV_REF"
    using assms by (simp_all add: prodTestSendRespOrEvent_def)
  from rf_start_arms [OF this(1,2) assms(6,7) this(3)] obtain s0 where
    s0: "rfStartTxTest ?p ?u = Some (s0, STATUS_SUCCESS)" "rf_at ?p 0 s0" by blast
  have "start_rf (prodTestSendRespOrEvent headerResponse (CNF TOOL_CMD_START_TEST) PRODTEST_STAT_SUCCESS s) = Some s0"
    using s0(1) assms(2,4) dev_of_simps
    by (auto simp: start_rf_def rf_transmit_def rf_part_def prodTestSendRespOrEvent_def split: if_splits)
  then have "exec_start_test env c s = Some s0"
    using assms(1-3) dev_of_simps by (auto simp: exec_start_test_def Let_def)
  moreover have "0 < frames_wanted ?p" using assms(7) by (simp add: frames_wanted_def word_less_nat_alt)
  then have "let n = count_list sts TimerFires; N = frames_wanted ?p in
      if N < n then rf_run env sts s0 = None
      else \<exists>s' as. rf_run env sts s0 = Some s' \<and> trace s' = trace s0 @ as \<and>
        filter is_req as = map (rf_request ?p) [0..<n] \<and>
        filter is_done as = (if n = N then [done_frame] else []) \<and> (rf_timer_active s' \<longleftrightarrow> n < N)" for sts
    using rf_run_spec [OF s0(2), of sts env] by (auto simp: Let_def rf_at_active)
  ultimately show ?thesis by blast
qed

definition rf_ready :: prodState where
  "rf_ready = blank_state\<lparr>prepTestId := TEST_ID_802_15_4_TX, prepParms := replicate 15 0 @ [20, 0, 2, 0, 100] @ replicate 17 0\<rparr>"

theorem rf_test_sends_all_frames_witness:
  "\<exists>s0 s1. exec_start_test (env_ok True) \<lparr>cmdId = 2, testIntf = 1, testId = 32, parms = []\<rparr> rf_ready = Some s0 \<and>
     rf_run (env_ok True) [TimerFires, StopCommand, TimerFires] s0 = Some s1 \<and> \<not> rf_timer_active s1"
proof -
  let ?c = "\<lparr>cmdId = 2, testIntf = 1, testId = 32, parms = []\<rparr> :: sprodTstCmd"
  have h: "prepCmdId rf_ready = TOOL_CMD_PREPARE_DUT" "prepTestId rf_ready = testId ?c" "testIntf ?c = TEST_802_15_5_ID"
    "prodTestDevType rf_ready = DEV_DUT" "devType rf_ready = DEV_DUT"
    by (simp_all add: rf_ready_def blank_state_def cmd_ids TEST_802_15_5_ID_def TEST_ID_802_15_4_TX_def DEV_DUT_def)
  have r: "rf_part (prodTestDevType rf_ready = DEV_DUT) (testId ?c) = Some RF_TX"
    using h(4) by (simp add: rf_part_def TEST_ID_802_15_4_TX_def)
  have p: "prepParms rf_ready ! 15 > 0" "frames_wanted (prepParms rf_ready) = 2" "get16 16 (prepParms rf_ready) > 0"
    by (simp_all add: rf_ready_def frames_wanted_def get16_def val16_def nth_append)
  have m: "stm rf_ready = fst (STM_Init \<lparr>timerCb = [], timeTick = 0, stmSector = False,
       links = \<lparr>nxt = \<lambda>_. None, prv = \<lambda>_. None\<rparr>, irqEA = True\<rparr>)"
    by (simp add: rf_ready_def blank_state_def)
  have i: "stm_inv (stm rf_ready) []" "\<exists>i < STM_TIMER_MAX. \<not> valid (timerCb (stm rf_ready) ! i)"
    unfolding m by (rule stm_init_inv) (auto simp: STM_Init_def STM_TIMER_MAX_def zeroTimerCb_def intro!: exI [of _ 0])
  from rf_test_sends_all_frames [OF disjI1 [OF h(1)] h(2,3) r disjI1 [OF h(5)] p(1,3) i, of "env_ok True"]
  obtain s0 where s0: "exec_start_test (env_ok True) ?c rf_ready = Some s0"
    and a: "\<And>sts. let n = count_list sts TimerFires; N = frames_wanted (prepParms rf_ready) in
      if N < n then rf_run (env_ok True) sts s0 = None
      else \<exists>s' as. rf_run (env_ok True) sts s0 = Some s' \<and> trace s' = trace s0 @ as \<and>
        filter is_req as = map (rf_request (prepParms rf_ready)) [0..<n] \<and>
        filter is_done as = (if n = N then [done_frame] else []) \<and> (rf_timer_active s' \<longleftrightarrow> n < N)" by blast
  show ?thesis
    using s0 a [of "[TimerFires, StopCommand, TimerFires]"] by (auto simp: p(2) Let_def)
qed

end
