(* ===== verification/GvHost.thy ===== *)
theory GvHost
  imports ProdTest
begin

text \<open>
  The relay between the production tool and the board: \<^verbatim>\<open>src/gvhost\<close>, a Linux program with two
  threads.  One receives requests of the tool over TCP (\<^verbatim>\<open>eth_socket_interface.c\<close>), the other the
  frames of the board over a raw socket (\<^verbatim>\<open>gvspi_intf.c\<close>); both hand what they receive to
  \<open>run_through_state_machine\<close> (\<^verbatim>\<open>process_state_machine.c\<close>) with one mutex held.

  What the program does to the outside is an action in a trace; what the system calls answer is
  the environment's.  The memory returned by \<open>malloc\<close> and the stack buffers are byte lists; the
  bytes of a fresh block are given by the environment.  A call that never returns is \<open>None\<close>, as
  is an access outside a buffer.
\<close>

subsection \<open>State\<close>

datatype host_action =
    ToTool "u8 list"
  | ToBoard "u8 list"
  | IoctlSpi bool
  | IoctlIndex
  | IoctlHwaddr
  | CloseEth

record host_st =
  numMemAlloc :: u32
  eth_sockfd :: int
  gv_controller_mac_addr :: "u8 list"
  host_trace :: "host_action list"

record hostEnv =
  sys_ok :: "host_action list \<Rightarrow> bool"
  malloc_ok :: "host_action list \<Rightarrow> bool"
  fresh :: "host_action list \<Rightarrow> nat \<Rightarrow> u8"
  hwaddr :: "host_action list \<Rightarrow> u8 list"
  var_bytes :: "u8 list"

definition hact :: "host_action \<Rightarrow> host_st \<Rightarrow> host_st" where
  "hact a s = s\<lparr>host_trace := host_trace s @ [a]\<rparr>"

text \<open>A system call: the action, and whether it succeeded.\<close>

definition sys :: "hostEnv \<Rightarrow> host_action \<Rightarrow> host_st \<Rightarrow> bool \<times> host_st" where
  "sys env a s = (let s = hact a s in (sys_ok env (host_trace s), s))"

definition gvMalloc :: "hostEnv \<Rightarrow> nat \<Rightarrow> host_st \<Rightarrow> u8 list option \<times> host_st" where
  "gvMalloc env sz s =
     (let temp = (if malloc_ok env (host_trace s) then Some (map (fresh env (host_trace s)) [0..<sz]) else None)
      in (temp, s\<lparr>numMemAlloc := numMemAlloc s + 1\<rparr>))"

definition gvFree :: "host_st \<Rightarrow> host_st" where
  "gvFree s = s\<lparr>numMemAlloc := numMemAlloc s - 1\<rparr>"

text \<open>\<open>memcpy(dst + i, src, n)\<close>.\<close>

definition memcpy_at :: "nat \<Rightarrow> u8 list \<Rightarrow> u8 list \<Rightarrow> nat \<Rightarrow> u8 list option" where
  "memcpy_at i dst src n =
     (if n \<le> length src \<and> i + n \<le> length dst then Some (take i dst @ take n src @ drop (i + n) dst) else None)"

subsection \<open>To the tool\<close>

definition close_eth_socket :: "host_st \<Rightarrow> host_st" where
  "close_eth_socket s = (if eth_sockfd s \<noteq> -1 then hact CloseEth s else s)\<lparr>eth_sockfd := -1\<rparr>"

definition eth_socketSend :: "hostEnv \<Rightarrow> u8 list \<Rightarrow> u16 \<Rightarrow> host_st \<Rightarrow> host_st option" where
  "eth_socketSend env buffer len s =
     (if eth_sockfd s \<noteq> -1
      then do {
        b \<leftarrow> memcpy_from buffer (unat len);
        let (ok, s) = sys env (ToTool b) s;
        Some (if ok then s else close_eth_socket s)
      }
      else Some s)"

definition send_EventorResponse :: "hostEnv \<Rightarrow> u8 list \<Rightarrow> nat \<Rightarrow> host_st \<Rightarrow> host_st option" where
  "send_EventorResponse env rxBuffer readLength s =
     (case gvMalloc env (readLength + 1) s of
        (None, s) \<Rightarrow> Some s
      | (Some buffer, s) \<Rightarrow> do {
          buffer \<leftarrow> memcpy_at 0 buffer rxBuffer readLength;
          buffer \<leftarrow> arr_set buffer readLength 0x0D;
          s \<leftarrow> eth_socketSend env buffer (of_nat (readLength + 1)) s;
          Some (gvFree s)
        })"

subsection \<open>To the board\<close>

definition ETH_ALEN :: nat where "ETH_ALEN = 6"
definition sz_ethhdr :: nat where "sz_ethhdr = 14"
definition GV_HPGP_PROTO :: u16 where "GV_HPGP_PROTO = 0x88e1"

text \<open>The Ethernet header in front of the data; the last argument of the code is always \<open>TRUE\<close>.\<close>

definition eth_header :: "hostEnv \<Rightarrow> u8 list \<Rightarrow> u8 list \<Rightarrow> u8 list \<Rightarrow> u8 list option" where
  "eth_header env dest_mac src_mac data = do {
     data \<leftarrow> (if is_little_endian (var_bytes env) then memcpy_rev data dest_mac ETH_ALEN
             else memcpy_at 0 data dest_mac ETH_ALEN);
     data \<leftarrow> memcpy_at ETH_ALEN data src_mac ETH_ALEN;
     memcpy_at (2 * ETH_ALEN) data (be16 GV_HPGP_PROTO) 2
   }"

definition gvspi_tx :: "hostEnv \<Rightarrow> u8 list \<Rightarrow> u8 list \<Rightarrow> u8 \<Rightarrow> host_st \<Rightarrow> host_st option" where
  "gvspi_tx env dest_mac data_buff data_len s =
     (case sys env IoctlIndex s of
        (False, s) \<Rightarrow> Some s
      | (True, s) \<Rightarrow>
          (case sys env IoctlHwaddr s of
             (False, s) \<Rightarrow> Some s
           | (True, s) \<Rightarrow> do {
               data \<leftarrow> eth_header env dest_mac (hwaddr env (host_trace s)) data_buff;
               frame \<leftarrow> memcpy_from data (unat data_len);
               Some (snd (sys env (ToBoard frame) s))
             }))"

definition send_Request :: "hostEnv \<Rightarrow> u8 list \<Rightarrow> nat \<Rightarrow> host_st \<Rightarrow> host_st option" where
  "send_Request env rxBuffer readLength s =
     (case gvMalloc env (sz_ethhdr + readLength) s of
        (None, s) \<Rightarrow> Some s
      | (Some buffer, s) \<Rightarrow> do {
          buffer \<leftarrow> memcpy_at sz_ethhdr buffer rxBuffer readLength;
          s \<leftarrow> gvspi_tx env (gv_controller_mac_addr s) buffer (of_nat (sz_ethhdr + readLength)) s;
          Some (gvFree s)
        })"

subsection \<open>The state machine\<close>

definition TOOL_CMD_DEVICE_SPI_DISCONNECT :: u8 where "TOOL_CMD_DEVICE_SPI_DISCONNECT = 0x08"

text \<open>
  The local variables \<open>frameParsed\<close>, \<open>state\<close> and \<open>cmdState\<close>; a frame that was handled leaves
  \<open>(FALSE, 0xff, 0xff)\<close>.
\<close>

record sm_vars =
  frameParsed :: bool
  sm_state :: u8
  cmdState :: u8

definition handled :: sm_vars where
  "handled = \<lparr>frameParsed = False, sm_state = 0xff, cmdState = 0xff\<rparr>"

definition switch_event :: "hostEnv \<Rightarrow> u8 list \<Rightarrow> nat \<Rightarrow> sm_vars \<Rightarrow> host_st \<Rightarrow> (sm_vars \<times> host_st) option" where
  "switch_event env rx n v s =
     (if cmdState v = EVENT_DEVICE_UP \<or> cmdState v = EVENT_TEST_DONE
      then do { s \<leftarrow> send_EventorResponse env rx n s; Some (handled, s) }
      else Some (v, s))"

text \<open>The eight requests have the same case: connect the SPI, then forward.\<close>

definition switch_request :: "hostEnv \<Rightarrow> u8 list \<Rightarrow> nat \<Rightarrow> sm_vars \<Rightarrow> host_st \<Rightarrow> (sm_vars \<times> host_st) option" where
  "switch_request env rx n v s =
     (if cmdState v \<in> {TOOL_CMD_PREPARE_DUT, TOOL_CMD_PREPARE_REF, TOOL_CMD_START_TEST, TOOL_CMD_STOP_TEST,
          TOOL_CMD_GET_RESULT, TOOL_CMD_DEV_SEARCH, TOOL_CMD_DEV_RESET, TOOL_CMD_DEVICE_FLASH_PARAM}
      then case sys env (IoctlSpi True) s of
             (False, s) \<Rightarrow> Some (handled, s)
           | (True, s) \<Rightarrow> do { s \<leftarrow> send_Request env rx n s; Some (handled, s) }
      else if cmdState v = TOOL_CMD_DEVICE_SPI_DISCONNECT
      then Some (handled, snd (sys env (IoctlSpi False) s))
      else Some (v, s))"

text \<open>There is no case for the confirmation of a device search.\<close>

definition switch_response :: "hostEnv \<Rightarrow> u8 list \<Rightarrow> nat \<Rightarrow> sm_vars \<Rightarrow> host_st \<Rightarrow> (sm_vars \<times> host_st) option" where
  "switch_response env rx n v s =
     (if cmdState v \<in> {CNF TOOL_CMD_PREPARE_DUT, CNF TOOL_CMD_PREPARE_REF, CNF TOOL_CMD_START_TEST,
          CNF TOOL_CMD_STOP_TEST, CNF TOOL_CMD_GET_RESULT, CNF TOOL_CMD_DEV_RESET, CNF TOOL_CMD_DEVICE_FLASH_PARAM}
      then do { s \<leftarrow> send_EventorResponse env rx n s; Some (handled, s) }
      else Some (v, s))"

text \<open>The outer switch; the case of events has no \<open>break\<close> and runs into the case of requests.\<close>

definition sm_pass :: "hostEnv \<Rightarrow> u8 list \<Rightarrow> nat \<Rightarrow> sm_vars \<Rightarrow> host_st \<Rightarrow> (sm_vars \<times> host_st) option" where
  "sm_pass env rx n v s =
     (if sm_state v = headerEvent
      then do { (v, s) \<leftarrow> switch_event env rx n v s; switch_request env rx n v s }
      else if sm_state v = headerRequest then switch_request env rx n v s
      else if sm_state v = headerResponse then switch_response env rx n v s
      else Some (v, s))"

partial_function (option) sm_loop :: "hostEnv \<Rightarrow> u8 list \<Rightarrow> nat \<Rightarrow> sm_vars \<Rightarrow> host_st \<Rightarrow> host_st option" where
  "sm_loop env rx n v s = do {
     (v, s) \<leftarrow> sm_pass env rx n v s;
     if frameParsed v then sm_loop env rx n v s else Some s
   }"

definition run_through_state_machine :: "hostEnv \<Rightarrow> u8 list \<Rightarrow> nat \<Rightarrow> host_st \<Rightarrow> host_st option" where
  "run_through_state_machine env rxBuffer readLength s = do {
     t \<leftarrow> arr_get rxBuffer 3;
     i \<leftarrow> arr_get rxBuffer 4;
     sm_loop env rxBuffer readLength \<lparr>frameParsed = True, sm_state = t, cmdState = i\<rparr> s
   }"

subsection \<open>What the two threads do with what they receive\<close>

definition MAX_PKT_BUFFSIZE :: nat where "MAX_PKT_BUFFSIZE = 250"
definition MAXBUF :: nat where "MAXBUF = 1024"

text \<open>The zeroed buffer with the received bytes at its start.\<close>

definition recv_buffer :: "nat \<Rightarrow> u8 list \<Rightarrow> u8 list" where
  "recv_buffer sz p = take sz p @ replicate (sz - length p) 0"

definition handle_received :: "nat \<Rightarrow> hostEnv \<Rightarrow> u8 list \<Rightarrow> host_st \<Rightarrow> host_st option" where
  "handle_received sz env p s =
     (let b = recv_buffer sz p in
      if b ! 0 = PROD_TOOL_PROTOCOL then run_through_state_machine env b (min sz (length p)) s else Some s)"

definition gvspi_received :: "hostEnv \<Rightarrow> u8 list \<Rightarrow> host_st \<Rightarrow> host_st option" where
  "gvspi_received = handle_received MAX_PKT_BUFFSIZE"

definition eth_received :: "hostEnv \<Rightarrow> u8 list \<Rightarrow> host_st \<Rightarrow> host_st option" where
  "eth_received = handle_received MAXBUF"

end
