(* ===== verification/HostProps.thy ===== *)
theory HostProps
  imports GvHost ProdFrames
begin

text \<open>
  What the relay makes of a frame: which frames it can handle at all, and that the frames of the
  production-test agent reach the tool.
\<close>

subsection \<open>Buffers\<close>

lemma memcpy_at_0: "n \<le> length src \<Longrightarrow> n \<le> length dst \<Longrightarrow> memcpy_at 0 dst src n = Some (take n src @ drop n dst)"
  by (simp add: memcpy_at_def)

lemma memcpy_at_Some:
  "n \<le> length src \<Longrightarrow> i + n \<le> length dst \<Longrightarrow> \<exists>d. memcpy_at i dst src n = Some d \<and> length d = length dst"
  by (simp add: memcpy_at_def)

lemma hact_fields [simp]:
  "numMemAlloc (hact a s) = numMemAlloc s" "eth_sockfd (hact a s) = eth_sockfd s"
  "gv_controller_mac_addr (hact a s) = gv_controller_mac_addr s" "host_trace (hact a s) = host_trace s @ [a]"
  by (simp_all add: hact_def)

lemma sys_pair: "sys env a s = (sys_ok env (host_trace s @ [a]), hact a s)"
  by (simp add: sys_def Let_def)

subsection \<open>To the tool\<close>

text \<open>What the tool is sent, and the closing of the connection when that fails.\<close>

definition to_tool :: "hostEnv \<Rightarrow> u8 list \<Rightarrow> host_st \<Rightarrow> host_st" where
  "to_tool env f s =
     (if eth_sockfd s = -1 then s
      else if sys_ok env (host_trace s @ [ToTool (f @ [0x0D])]) then hact (ToTool (f @ [0x0D])) s
      else (hact CloseEth (hact (ToTool (f @ [0x0D])) s))\<lparr>eth_sockfd := -1\<rparr>)"

lemma eth_socketSend_spec:
  assumes "unat len = length f + 1"
  shows "eth_socketSend env (f @ [0x0D]) len s = Some (to_tool env f s)"
  using assms by (simp add: eth_socketSend_def memcpy_from_def sys_pair to_tool_def close_eth_socket_def)

lemma to_tool_upd:
  "to_tool env f (s\<lparr>numMemAlloc := n\<rparr>) = (to_tool env f s)\<lparr>numMemAlloc := n\<rparr>"
  "numMemAlloc (to_tool env f s) = numMemAlloc s"
  by (simp_all add: to_tool_def hact_def)

lemma send_EventorResponse_spec:
  assumes "n \<le> length b" "n < 65535" "malloc_ok env (host_trace s)"
  shows "send_EventorResponse env b n s = Some (to_tool env (take n b) s)"
proof -
  let ?m = "map (fresh env (host_trace s)) [0..<n + 1]"
  let ?s = "s\<lparr>numMemAlloc := numMemAlloc s + 1\<rparr>"
  have g: "gvMalloc env (n + 1) s = (Some ?m, ?s)" using assms(3) by (simp add: gvMalloc_def)
  have m: "memcpy_at 0 ?m b n = Some (take n b @ drop n ?m)" using assms(1) by (intro memcpy_at_0) simp_all
  have d: "drop n ?m = [fresh env (host_trace s) n]" by (simp add: drop_map)
  have a: "arr_set (take n b @ drop n ?m) n 0x0D = Some (take n b @ [0x0D])"
    unfolding d using assms(1) by (simp add: list_update_append)
  have e: "eth_socketSend env (take n b @ [0x0D]) (of_nat (n + 1)) ?s = Some (to_tool env (take n b) ?s)"
    using assms(1,2)
    by (intro eth_socketSend_spec) (simp add: unsigned_of_nat take_bit_nat_eq_self del: of_nat_add of_nat_Suc)
  have "(to_tool env (take n b) s)\<lparr>numMemAlloc := numMemAlloc (to_tool env (take n b) s)\<rparr> = to_tool env (take n b) s"
    by simp
  then show ?thesis
    unfolding send_EventorResponse_def g prod.case option.case m bind.simps a e
    by (simp add: gvFree_def to_tool_upd)
qed


subsection \<open>To the board\<close>

lemma length_be16_6: "take 2 (be16 w) = be16 w" by (simp add: be16_def)

lemma memcpy_rev_6:
  assumes "6 \<le> length d" "length m = 6"
  shows "memcpy_rev d m 6 = Some (rev m @ drop 6 d)"
  using rev_copy8_reverses [of 6 m d 0] assms by (simp add: memcpy_rev_def rev_state_0 rev_state_full)

text \<open>The header: the address of the board as the tool wants it, the own address, the protocol.\<close>

definition link_header :: "hostEnv \<Rightarrow> u8 list \<Rightarrow> u8 list \<Rightarrow> u8 list" where
  "link_header env mac hw = (if is_little_endian (var_bytes env) then rev mac else mac) @ hw @ [0x88, 0xE1]"

lemma eth_header_spec:
  assumes "length mac = 6" "length hw = 6" "length data = 14 + n"
  shows "eth_header env mac hw data = Some (link_header env mac hw @ drop 14 data)"
proof -
  have a: "(if is_little_endian (var_bytes env) then memcpy_rev data mac ETH_ALEN else memcpy_at 0 data mac ETH_ALEN) =
      Some ((if is_little_endian (var_bytes env) then rev mac else mac) @ drop 6 data)"
    using assms memcpy_rev_6 [of data mac] memcpy_at_0 [of 6 mac data] by (simp add: ETH_ALEN_def)
  have b: "memcpy_at ETH_ALEN (x @ drop 6 data) hw ETH_ALEN = Some (x @ hw @ drop 12 data)" if "length x = 6" for x
    using assms that by (simp add: memcpy_at_def ETH_ALEN_def)
  have c: "memcpy_at (2 * ETH_ALEN) (x @ hw @ drop 12 data) (be16 GV_HPGP_PROTO) 2 = Some (x @ hw @ [0x88, 0xE1] @ drop 14 data)"
    if "length x = 6" for x
    using assms that by (simp add: memcpy_at_def ETH_ALEN_def be16_def hi8_def lo8_def GV_HPGP_PROTO_def)
  show ?thesis
    unfolding eth_header_def a bind.simps
    by (subst b, simp add: assms, simp only: bind.simps, subst c, simp add: assms, simp add: link_header_def)
qed

lemma gvspi_tx_Some:
  assumes "length mac = 6" "\<And>t. length (hwaddr env t) = 6" "length data = 14 + n" "unat len \<le> 14 + n"
  shows "\<exists>s'. gvspi_tx env mac data len s = Some s' \<and> gv_controller_mac_addr s' = gv_controller_mac_addr s"
  using assms eth_header_spec [OF assms(1,2,3)]
  by (simp add: gvspi_tx_def sys_pair memcpy_from_def link_header_def split: bool.split)

lemma send_Request_Some:
  assumes "n \<le> length b" "length (gv_controller_mac_addr s) = 6" "\<And>t. length (hwaddr env t) = 6"
  shows "\<exists>s'. send_Request env b n s = Some s'"
proof (cases "malloc_ok env (host_trace s)")
  case True
  let ?m = "map (fresh env (host_trace s)) [0..<14 + n]"
  let ?s = "s\<lparr>numMemAlloc := numMemAlloc s + 1\<rparr>"
  have g: "gvMalloc env (sz_ethhdr + n) s = (Some ?m, ?s)" using True by (simp add: gvMalloc_def sz_ethhdr_def)
  obtain d where d: "memcpy_at sz_ethhdr ?m b n = Some d" "length d = 14 + n"
    using memcpy_at_Some [of n b sz_ethhdr ?m] assms(1) by (auto simp: sz_ethhdr_def)
  have "unat (of_nat (14 + n) :: u8) \<le> 14 + n" by (simp add: unsigned_of_nat take_bit_nat_def del: of_nat_add)
  from gvspi_tx_Some [OF _ assms(3) d(2) this, of "gv_controller_mac_addr ?s" ?s] assms(2) obtain s' where
    "gvspi_tx env (gv_controller_mac_addr ?s) d (of_nat (sz_ethhdr + n)) ?s = Some s'"
    by (auto simp: sz_ethhdr_def)
  with g d show ?thesis by (simp add: send_Request_def)
qed (simp add: send_Request_def gvMalloc_def)

text \<open>A request of at most 241 bytes goes to the board whole.\<close>

lemma send_Request_spec:
  assumes "n \<le> length b" "n \<le> 241" "length (gv_controller_mac_addr s) = 6" "\<And>t. length (hwaddr env t) = 6"
    and "\<And>t. malloc_ok env t" "\<And>t. sys_ok env t"
    and "f = link_header env (gv_controller_mac_addr s) (hwaddr env (host_trace s @ [IoctlIndex, IoctlHwaddr])) @ take n b"
  shows "send_Request env b n s = Some (hact (ToBoard f) (hact IoctlHwaddr (hact IoctlIndex s)))"
proof -
  let ?m = "map (fresh env (host_trace s)) [0..<14 + n]"
  let ?s = "s\<lparr>numMemAlloc := numMemAlloc s + 1\<rparr>"
  let ?d = "take 14 ?m @ take n b"
  have g: "gvMalloc env (sz_ethhdr + n) s = (Some ?m, ?s)" using assms(5) by (simp add: gvMalloc_def sz_ethhdr_def)
  have d: "memcpy_at sz_ethhdr ?m b n = Some ?d" "length ?d = 14 + n" "drop 14 ?d = take n b"
    using assms(1) by (simp_all add: memcpy_at_def sz_ethhdr_def)
  have l: "unat (of_nat (14 + n) :: u8) = 14 + n" using assms(2)
    by (simp add: unsigned_of_nat take_bit_nat_eq_self del: of_nat_add)
  have len: "length f = 14 + n" using assms(1,3,4,7) by (simp add: link_header_def)
  have h: "eth_header env (gv_controller_mac_addr s) (hwaddr env (host_trace s @ [IoctlIndex, IoctlHwaddr])) ?d = Some f"
    using eth_header_spec [OF assms(3,4) d(2)] unfolding d(3) assms(7) .
  have m: "memcpy_from f (unat (of_nat (14 + n) :: u8)) = Some f" unfolding l memcpy_from_def by (simp add: len)
  have "gvspi_tx env (gv_controller_mac_addr ?s) ?d (of_nat (sz_ethhdr + n)) ?s =
      Some (hact (ToBoard f) (hact IoctlHwaddr (hact IoctlIndex ?s)))"
    using h m by (simp add: gvspi_tx_def sys_pair assms(6) sz_ethhdr_def hact_def del: of_nat_add)
  then show ?thesis
    unfolding send_Request_def g prod.case option.case d(1) bind.simps by (simp add: gvFree_def hact_def)
qed


subsection \<open>Which frames are handled\<close>

definition handled_kind :: "u8 \<times> u8 \<Rightarrow> bool" where
  "handled_kind k \<longleftrightarrow> (fst k = headerEvent \<or> fst k = headerRequest) \<and> unat (snd k) \<le> 8 \<or>
     fst k = headerResponse \<and> snd k \<in> {0x80, 0x81, 0x82, 0x83, 0x84, 0x85, 0x87}"

lemma small_id: "unat (i :: u8) \<le> 8 \<longleftrightarrow> i \<in> {0, 1, 2, 3, 4, 5, 6, 7, 8}"
  by (auto simp: word_unat_eq_iff)

lemma host_ids:
  "{TOOL_CMD_PREPARE_DUT, TOOL_CMD_PREPARE_REF, TOOL_CMD_START_TEST, TOOL_CMD_STOP_TEST,
    TOOL_CMD_GET_RESULT, TOOL_CMD_DEV_SEARCH, TOOL_CMD_DEV_RESET, TOOL_CMD_DEVICE_FLASH_PARAM} = {0, 1, 2, 3, 4, 5, 6, 7 :: u8}"
  "TOOL_CMD_DEVICE_SPI_DISCONNECT = 8" "EVENT_DEVICE_UP = 0" "EVENT_TEST_DONE = 1"
  "{CNF TOOL_CMD_PREPARE_DUT, CNF TOOL_CMD_PREPARE_REF, CNF TOOL_CMD_START_TEST, CNF TOOL_CMD_STOP_TEST,
    CNF TOOL_CMD_GET_RESULT, CNF TOOL_CMD_DEV_RESET, CNF TOOL_CMD_DEVICE_FLASH_PARAM} =
   {0x80, 0x81, 0x82, 0x83, 0x84, 0x85, 0x87 :: u8}"
  "headerEvent = 0" "headerRequest = 1" "headerResponse = 2"
  by (auto simp: cmd_ids CNF_def TOOL_CMD_DEVICE_SPI_DISCONNECT_def EVENT_DEVICE_UP_def EVENT_TEST_DONE_def
      headerEvent_def headerRequest_def headerResponse_def)

lemma sm_loop_handled: "sm_pass env b n v s = Some (handled, t) \<Longrightarrow> sm_loop env b n v s = Some t"
  by (subst sm_loop.simps) (simp add: handled_def)

text \<open>A pass that changes nothing is repeated for ever.\<close>

lemma sm_loop_stuck:
  assumes "sm_pass env b n v s = Some (v, s)" "frameParsed v"
  shows "sm_loop env b n v s = None"
proof (rule ccontr)
  assume "sm_loop env b n v s \<noteq> None"
  then obtain t where "sm_loop env b n v s = Some t" by blast
  have "sm_pass env b n v s \<noteq> Some (v, s) \<or> \<not> frameParsed v"
  proof (rule sm_loop.raw_induct [where P = "\<lambda>env b n v s t. sm_pass env b n v s \<noteq> Some (v, s) \<or> \<not> frameParsed v",
        OF _ \<open>sm_loop env b n v s = Some t\<close>], goal_cases)
    case (1 loop env b n v s t)
    then show ?case
      by (cases "sm_pass env b n v s = Some (v, s) \<and> frameParsed v") (auto dest: 1(1))
  qed
  with assms show False by simp
qed

lemma sm_pass_unhandled:
  "\<not> handled_kind (sm_state v, cmdState v) \<Longrightarrow> sm_pass env b n v s = Some (v, s)"
  unfolding sm_pass_def switch_event_def switch_request_def switch_response_def handled_kind_def small_id
  by (auto simp: host_ids)

lemma send_EventorResponse_Some:
  assumes "n \<le> length b" "n < 65535"
  shows "\<exists>t. send_EventorResponse env b n s = Some t \<and> gv_controller_mac_addr t = gv_controller_mac_addr s"
proof (cases "malloc_ok env (host_trace s)")
  case True
  from send_EventorResponse_spec [OF assms this] show ?thesis by (simp add: to_tool_def)
qed (simp add: send_EventorResponse_def gvMalloc_def)

lemma switch_request_ignores:
  "switch_request env b n handled s = Some (handled, s)"
  by (simp add: switch_request_def handled_def host_ids)

lemma sm_pass_handled:
  assumes "handled_kind (sm_state v, cmdState v)" "n \<le> length b" "n < 65535"
    and "length (gv_controller_mac_addr s) = 6" "\<And>t. length (hwaddr env t) = 6"
  shows "\<exists>t. sm_pass env b n v s = Some (handled, t)"
proof -
  have r: "\<exists>t. switch_request env b n v u = Some (handled, t)"
    if "unat (cmdState v) \<le> 8" "gv_controller_mac_addr u = gv_controller_mac_addr s" for u
  proof -
    have "\<exists>t. send_Request env b n (hact (IoctlSpi True) u) = Some t"
      by (rule send_Request_Some) (simp_all add: assms that(2))
    then show ?thesis
      using that(1) unfolding small_id switch_request_def host_ids sys_pair by (auto split: bool.split)
  qed
  have e: "\<exists>t. send_EventorResponse env b n s = Some t \<and> gv_controller_mac_addr t = gv_controller_mac_addr s"
    by (rule send_EventorResponse_Some [OF assms(2,3)])
  consider "sm_state v = headerEvent" "unat (cmdState v) \<le> 8" | "sm_state v = headerRequest" "unat (cmdState v) \<le> 8"
    | "sm_state v = headerResponse" "cmdState v \<in> {0x80, 0x81, 0x82, 0x83, 0x84, 0x85, 0x87}"
    using assms(1) by (auto simp: handled_kind_def)
  then show ?thesis
  proof cases
    case 1
    show ?thesis
    proof (cases "cmdState v = EVENT_DEVICE_UP \<or> cmdState v = EVENT_TEST_DONE")
      case True
      then show ?thesis
        using e 1 by (auto simp: sm_pass_def switch_event_def switch_request_ignores)
    next
      case False
      then show ?thesis using r [OF 1(2) refl] 1 by (simp add: sm_pass_def switch_event_def)
    qed
  next
    case 2
    then show ?thesis using r [OF 2(2) refl] by (simp add: sm_pass_def host_ids)
  next
    case 3
    then show ?thesis using e unfolding sm_pass_def switch_response_def host_ids(5) by (auto simp: host_ids)
  qed
qed

text \<open>C16.
  The relay's handling of a frame returns exactly for the frames it has a case for.  A frame of
  any other type, a request with an identifier above 8, a response other than the seven it
  knows (the confirmation of a device search among them) repeats the pass for ever: the call
  never returns, and the thread keeps the mutex that the other one waits for.\<close>

theorem relay_returns_iff_handled:
  assumes "5 \<le> length b" "n \<le> length b" "n < 65535"
    and "length (gv_controller_mac_addr s) = 6" "\<And>t. length (hwaddr env t) = 6"
  shows "run_through_state_machine env b n s \<noteq> None \<longleftrightarrow> handled_kind (kind b)"
proof -
  let ?v = "\<lparr>frameParsed = True, sm_state = b ! 3, cmdState = b ! 4\<rparr>"
  have "run_through_state_machine env b n s = sm_loop env b n ?v s"
    using assms(1) by (simp add: run_through_state_machine_def)
  then show ?thesis
    using sm_loop_handled sm_pass_handled [of ?v n b s env, OF _ assms(2-5)] sm_loop_stuck [OF sm_pass_unhandled, of ?v]
    by (cases "handled_kind (kind b)") (fastforce simp: kind_def)+
qed


definition good_env :: hostEnv where
  "good_env = \<lparr>sys_ok = (\<lambda>_. True), malloc_ok = (\<lambda>_. True), fresh = (\<lambda>_ _. 0),
     hwaddr = (\<lambda>_. [1, 2, 3, 4, 5, 6]), var_bytes = [0xFE, 0xCA]\<rparr>"

definition connected_host :: host_st where
  "connected_host = \<lparr>numMemAlloc = 0, eth_sockfd = 3, gv_controller_mac_addr = [6, 5, 4, 3, 2, 1], host_trace = []\<rparr>"

theorem relay_returns_iff_handled_witness:
  "run_through_state_machine good_env [0x8F, 1, 0, 2, 0x86, 0] 6 connected_host = None \<and>
   run_through_state_machine good_env [0x8F, 1, 0, 2, 0x83, 0] 6 connected_host \<noteq> None"
  using relay_returns_iff_handled [of "[0x8F, 1, 0, 2, 0x86, 0]" 6 connected_host good_env]
    relay_returns_iff_handled [of "[0x8F, 1, 0, 2, 0x83, 0]" 6 connected_host good_env]
  by (simp add: connected_host_def good_env_def kind_def handled_kind_def host_ids)

subsection \<open>From the tool to the agent and back\<close>

definition relayed_kind :: "u8 \<times> u8 \<Rightarrow> bool" where
  "relayed_kind k \<longleftrightarrow> k = (headerEvent, EVENT_DEVICE_UP) \<or> k = (headerEvent, EVENT_TEST_DONE) \<or>
     fst k = headerResponse \<and> snd k \<in> {0x80, 0x81, 0x82, 0x83, 0x84, 0x85, 0x87}"

lemma answers_relayed: "ks \<in> set (answers dev c) \<Longrightarrow> k \<in> set ks \<Longrightarrow> relayed_kind k"
  by (auto simp: answers_def relayed_kind_def host_ids cmd_ids CNF_def split: if_splits)

lemma sm_pass_relays:
  assumes "relayed_kind (sm_state v, cmdState v)" "n \<le> length b" "n < 65535" "malloc_ok env (host_trace s)"
  shows "sm_pass env b n v s = Some (handled, to_tool env (take n b) s)"
proof -
  note e = send_EventorResponse_spec [OF assms(2-4)]
  from assms(1) consider "sm_state v = headerEvent" "cmdState v = EVENT_DEVICE_UP \<or> cmdState v = EVENT_TEST_DONE"
    | "sm_state v = headerResponse" "cmdState v \<in> {0x80, 0x81, 0x82, 0x83, 0x84, 0x85, 0x87}"
    by (auto simp: relayed_kind_def)
  then show ?thesis
  proof cases
    case 1 then show ?thesis by (simp add: sm_pass_def switch_event_def e switch_request_ignores)
  next
    case 2 then show ?thesis unfolding sm_pass_def switch_response_def host_ids(5) by (simp add: host_ids e)
  qed
qed

lemma hd_nth: "5 \<le> length r \<Longrightarrow> r \<noteq> [] \<and> hd r = r ! 0"
  by (cases r) auto

lemma recv_buffer_simps:
  assumes "length p \<le> sz"
  shows "length (recv_buffer sz p) = sz" "take (length p) (recv_buffer sz p) = p"
    "i < length p \<Longrightarrow> recv_buffer sz p ! i = p ! i"
  using assms by (simp_all add: recv_buffer_def nth_append)

text \<open>A frame of the agent goes to the tool, with a carriage return behind it.\<close>

lemma gvspi_received_relays:
  assumes "tool_frame f" "relayed_kind (kind f)" "malloc_ok env (host_trace h)"
  shows "gvspi_received env f h = Some (to_tool env f h)"
proof -
  let ?b = "recv_buffer MAX_PKT_BUFFSIZE f"
  have len: "6 \<le> length f" "length f \<le> 41" and hd: "f ! 0 = PROD_TOOL_PROTOCOL"
    using assms(1) hd_nth [of f] by (auto simp: tool_frame_def)
  have l: "length f \<le> MAX_PKT_BUFFSIZE" using len by (simp add: MAX_PKT_BUFFSIZE_def)
  note r = recv_buffer_simps [OF l]
  let ?v = "\<lparr>frameParsed = True, sm_state = f ! 3, cmdState = f ! 4\<rparr>"
  have p: "sm_pass env ?b (length f) ?v h = Some (handled, to_tool env f h)"
    using sm_pass_relays [of ?v "length f" ?b env h] assms(2,3) r l len by (simp add: kind_def)
  have "run_through_state_machine env ?b (length f) h = sm_loop env ?b (length f) ?v h"
    using len r l by (simp add: run_through_state_machine_def)
  with sm_loop_handled [OF p] show ?thesis
    using r(3) [of 0] len hd l hd_nth [of f]
    by (simp add: gvspi_received_def handle_received_def Let_def min.absorb2)
qed

primrec relay_all :: "hostEnv \<Rightarrow> u8 list list \<Rightarrow> host_st \<Rightarrow> host_st option" where
  "relay_all env [] h = Some h"
| "relay_all env (f # fs) h = do { h \<leftarrow> gvspi_received env f h; relay_all env fs h }"

lemma relay_all_ok:
  assumes "\<And>t. malloc_ok env t" "\<And>t. sys_ok env t" "eth_sockfd h \<noteq> -1"
    and "\<forall>f \<in> set fs. tool_frame f \<and> relayed_kind (kind f)"
  shows "\<exists>h'. relay_all env fs h = Some h' \<and> host_trace h' = host_trace h @ map (\<lambda>f. ToTool (f @ [0x0D])) fs"
  using assms(3,4)
proof (induction fs arbitrary: h)
  case (Cons f fs)
  have "gvspi_received env f h = Some (hact (ToTool (f @ [0x0D])) h)"
    using gvspi_received_relays [of f env h] Cons.prems assms(1,2) by (simp add: to_tool_def)
  with Cons.IH [of "hact (ToTool (f @ [0x0D])) h"] Cons.prems show ?case by auto
qed simp

text \<open>A request of the tool, as it reaches the board.\<close>

lemma eth_received_forwards:
  assumes "hd r = PROD_TOOL_PROTOCOL" "r ! 3 = headerRequest" "unat (r ! 4) \<le> 7" "5 \<le> length r" "length r \<le> 241"
    and "length (gv_controller_mac_addr h) = 6" "\<And>t. length (hwaddr env t) = 6" "\<And>t. malloc_ok env t" "\<And>t. sys_ok env t"
  shows "\<exists>hdr. length hdr = 14 \<and>
    eth_received env r h = Some (hact (ToBoard (hdr @ r)) (hact IoctlHwaddr (hact IoctlIndex (hact (IoctlSpi True) h))))"
proof -
  let ?b = "recv_buffer MAXBUF r" and ?h = "hact (IoctlSpi True) h"
  let ?hdr = "link_header env (gv_controller_mac_addr ?h) (hwaddr env (host_trace ?h @ [IoctlIndex, IoctlHwaddr]))"
  let ?v = "\<lparr>frameParsed = True, sm_state = r ! 3, cmdState = r ! 4\<rparr>"
  have l: "length r \<le> MAXBUF" using assms(5) by (simp add: MAXBUF_def)
  note b = recv_buffer_simps [OF l]
  have id: "r ! 4 \<in> {0, 1, 2, 3, 4, 5, 6, 7}" using assms(3) by (auto simp: word_unat_eq_iff)
  have s: "send_Request env ?b (length r) ?h = Some (hact (ToBoard (?hdr @ r)) (hact IoctlHwaddr (hact IoctlIndex ?h)))"
    by (rule send_Request_spec) (use assms b l in simp_all)
  have "sm_pass env ?b (length r) ?v h = Some (handled, hact (ToBoard (?hdr @ r)) (hact IoctlHwaddr (hact IoctlIndex ?h)))"
    using id assms(2,9) s unfolding sm_pass_def switch_request_def host_ids sys_pair by simp
  from sm_loop_handled [OF this] have "eth_received env r h = Some (hact (ToBoard (?hdr @ r)) (hact IoctlHwaddr (hact IoctlIndex ?h)))"
    using b(1,2) b(3) [of 0] b(3) [of 3] b(3) [of 4] l assms(1,4) hd_nth [OF assms(4)]
    by (simp add: eth_received_def handle_received_def Let_def min.absorb2 run_through_state_machine_def del: hact_fields)
  moreover have "length ?hdr = 14" using assms(6,7) by (simp add: link_header_def)
  ultimately show ?thesis by blast
qed

lemma isProdTstCmd_forwarded:
  assumes "length hdr = 14" "7 \<le> length r" "hd r = PROD_TOOL_PROTOCOL"
  shows "isProdTstCmd (hdr @ r) = Some (Some \<lparr>cmdId = r ! 4, testIntf = r ! 5, testId = r ! 6, parms = drop 7 r\<rparr>)"
proof -
  have "(hdr @ r) ! (14 + i) = r ! i" for i using assms(1) by (simp add: nth_append)
  from this [of 0] this [of 4] this [of 5] this [of 6] show ?thesis
    using assms hd_nth [of r] by (simp add: isProdTstCmd_def arr_get_def)
qed



end
