(* ===== verification/Qmm.thy ===== *)
theory Qmm
  imports SList Utils
begin

unbundle bit_operations_syntax

text \<open>
  The buffers of the 802.15.4 MAC and their queues: \<^verbatim>\<open>zigbee/qmm.c\<close>, \<^verbatim>\<open>zigbee/bmm.c\<close>, and
  the search functions that \<open>queue_read_or_remove\<close> calls by number (\<^verbatim>\<open>mac_beacon.c\<close>,
  \<^verbatim>\<open>mac_data.c\<close>, \<^verbatim>\<open>mac_mcps_data.c\<close>, \<^verbatim>\<open>mac_hal_intf.c\<close>), for the build without \<open>CALLBACK\<close>.

  A buffer header is identified by its index in \<open>buf_header\<close>; its body is one of the structures
  that the MAC overlays on the 192 bytes; the management messages (\<open>MlmeMsg\<close>) are kept as their
  bytes.  Reading a body as another structure than the one it
  holds is \<open>None\<close>.  The frame under construction grows down from the end of the body and is
  the list of bytes that starts at \<open>mpdu_p\<close>.
\<close>

subsection \<open>Data\<close>

definition TOTAL_NUMBER_OF_BUFFERS :: nat where "TOTAL_NUMBER_OF_BUFFERS = 16"
definition BUFFER_SIZE :: nat where "BUFFER_SIZE = 192"

datatype frame_msgtype_t = ASSOCIATIONREQUEST | ASSOCIATIONRESPONSE | DISASSOCIATIONNOTIFICATION
  | DATAREQUEST | PANIDCONFLICTNOTIFICAION | ORPHANNOTIFICATION | BEACONREQUEST
  | COORDINATORREALIGNMENT | ORPHANREALIGNMENT | BEACON_MESSAGE | DATAREQUEST_IMPL_POLL
  | NULL_FRAME | MCPS_MESSAGE

record frame_info_t =
  msg_type :: frame_msgtype_t
  buffer_header_p :: "nat option"
  msduHandle :: u8
  persistence_time :: u16
  indirect_in_transit :: bool
  time_stamp :: u32
  mpdu_p :: "u8 list"

record security_info_t =
  SecurityLevel :: u8
  KeyIdMode :: u8
  KeySource :: "u8 list"
  KeyIndex :: u8

record mcps_data_req_t =
  SrcAddrMode :: u8
  DstAddrMode :: u8
  DstPANId :: u16
  DstAddr :: u64
  reqHandle :: u8
  TxOptions :: u8
  Security :: security_info_t
  msduLength :: u8

record mcps_data_conf_t =
  confHandle :: u8
  confStatus :: u8
  confTimestamp :: u32

datatype body_t =
    Unused
  | DataReq mcps_data_req_t "u8 list"
  | PurgeReq u8
  | PurgeConf u8 u8
  | Frame frame_info_t
  | DataConf mcps_data_conf_t
  | MlmeMsg "u8 list"

record mac_mem =
  bnext :: "nat \<Rightarrow> nat option"
  body :: "nat \<Rightarrow> body_t"
  irqs :: bool
  pending_address_count :: u8
  beacon_out :: "u8 list"

record queue_t =
  qhead :: "nat option"
  qtail :: "nat option"
  qcapacity :: u8
  qsize :: u8

datatype buffer_mode_t = REMOVE_MODE | READ_MODE

datatype handle = HNull | HShort u16 | HLong u64 | HBuffer nat | HMsdu u8

record search_t =
  compare_func_id :: u8
  handle :: handle

definition frame_of :: "body_t \<Rightarrow> frame_info_t option" where
  "frame_of b = (case b of Frame f \<Rightarrow> Some f | _ \<Rightarrow> None)"

definition get_frame :: "'a mac_mem_scheme \<Rightarrow> nat \<Rightarrow> frame_info_t option" where
  "get_frame m b = frame_of (body m b)"

definition put_body :: "nat \<Rightarrow> body_t \<Rightarrow> 'a mac_mem_scheme \<Rightarrow> 'a mac_mem_scheme" where
  "put_body b x m = m\<lparr>body := (body m)(b := x)\<rparr>"

subsection \<open>The search functions\<close>

definition FCF_NO_ADDR :: u8 where "FCF_NO_ADDR = 0"
definition FCF_RESERVED_ADDR :: u8 where "FCF_RESERVED_ADDR = 1"
definition FCF_SHORT :: u8 where "FCF_SHORT = 2"
definition FCF_LONG_ADDR :: u8 where "FCF_LONG_ADDR = 3"
definition PL_POS_FCF_1 :: nat where "PL_POS_FCF_1 = 1"
definition PL_POS_FCF_2 :: nat where "PL_POS_FCF_2 = 2"
definition PL_POS_DST_PAN_ID_START :: nat where "PL_POS_DST_PAN_ID_START = 4"
definition PL_POS_DST_ADDR_START :: nat where "PL_POS_DST_ADDR_START = 6"
definition BEACON_MAX_PEND_ADDR_CNT :: u8 where "BEACON_MAX_PEND_ADDR_CNT = 7"

text \<open>\<open>(mpdu_p[PL_POS_FCF_2] >> FCF_2_DEST_ADDR_OFFSET) & FCF_ADDR_MASK\<close>.\<close>

definition dst_addr_mode :: "frame_info_t \<Rightarrow> u8 option" where
  "dst_addr_mode f = map_option (\<lambda>b. drop_bit 2 b AND 3) (arr_get (mpdu_p f) PL_POS_FCF_2)"

definition bytes_at :: "u8 list \<Rightarrow> nat \<Rightarrow> nat \<Rightarrow> u8 list option" where
  "bytes_at p i n = (if i + n \<le> length p then Some (take n (drop i p)) else None)"

definition beacon_add_pending ::
  "u8 \<Rightarrow> nat \<Rightarrow> nat \<Rightarrow> 'a mac_mem_scheme \<Rightarrow> (bool \<times> 'a mac_mem_scheme) option" where
  "beacon_add_pending mode n b m = do {
     f \<leftarrow> get_frame m b;
     if pending_address_count m < BEACON_MAX_PEND_ADDR_CNT
     then do {
       dm \<leftarrow> dst_addr_mode f;
       if dm = mode
       then do {
         a \<leftarrow> bytes_at (mpdu_p f) PL_POS_DST_ADDR_START n;
         Some (False, m\<lparr>beacon_out := a @ beacon_out m,
                        pending_address_count := pending_address_count m + 1\<rparr>)
       }
       else Some (False, m)
     }
     else Some (False, m)
   }"

definition mac_beacon_add_pending_extended_address_cb ::
  "nat \<Rightarrow> 'a mac_mem_scheme \<Rightarrow> (bool \<times> 'a mac_mem_scheme) option" where
  "mac_beacon_add_pending_extended_address_cb = beacon_add_pending FCF_LONG_ADDR 8"

definition mac_beacon_add_pending_short_address_cb ::
  "nat \<Rightarrow> 'a mac_mem_scheme \<Rightarrow> (bool \<times> 'a mac_mem_scheme) option" where
  "mac_beacon_add_pending_short_address_cb = beacon_add_pending FCF_SHORT 2"

definition mac_data_find_short_addr_buffer :: "frame_info_t \<Rightarrow> handle \<Rightarrow> bool option" where
  "mac_data_find_short_addr_buffer f h =
     (case h of HShort short_addr \<Rightarrow>
        if \<not> indirect_in_transit f
        then do {
          dm \<leftarrow> dst_addr_mode f;
          if dm = FCF_SHORT
          then do {
            a \<leftarrow> mac_utils_byte_array_to_16_bit (drop PL_POS_DST_ADDR_START (mpdu_p f));
            Some (short_addr = a)
          }
          else Some False
        }
        else Some False
      | _ \<Rightarrow> None)"

definition mac_data_find_long_addr_buffer :: "frame_info_t \<Rightarrow> handle \<Rightarrow> bool option" where
  "mac_data_find_long_addr_buffer f h =
     (case h of HLong addr_in \<Rightarrow>
        if \<not> indirect_in_transit f
        then do {
          dm \<leftarrow> dst_addr_mode f;
          if dm = FCF_LONG_ADDR
          then do {
            a \<leftarrow> mac_utils_byte_array_to_64_bit (drop PL_POS_DST_ADDR_START (mpdu_p f));
            Some (EXT_ADDR_MATCH addr_in a)
          }
          else Some False
        }
        else Some False
      | _ \<Rightarrow> None)"

definition decrement_persistence_time ::
  "nat \<Rightarrow> 'a mac_mem_scheme \<Rightarrow> (bool \<times> 'a mac_mem_scheme) option" where
  "decrement_persistence_time b m = do {
     f \<leftarrow> get_frame m b;
     Some (False,
       if \<not> indirect_in_transit f
       then put_body b (Frame (f\<lparr>persistence_time := persistence_time f - 1\<rparr>)) m else m)
   }"

definition check_persistence_time_zero :: "frame_info_t \<Rightarrow> bool" where
  "check_persistence_time_zero f \<longleftrightarrow> \<not> indirect_in_transit f \<and> persistence_time f = 0"

definition find_buffer :: "nat \<Rightarrow> handle \<Rightarrow> bool option" where
  "find_buffer b h = (case h of HBuffer s \<Rightarrow> Some (b = s) | _ \<Rightarrow> None)"

definition check_msdu_handle_cb :: "frame_info_t \<Rightarrow> handle \<Rightarrow> bool option" where
  "check_msdu_handle_cb f h = (case h of HMsdu x \<Rightarrow> Some (frame_info_t.msduHandle f = x) | _ \<Rightarrow> None)"

definition MAC_BEACON_ADD_PENDING_SHORT_ADDR :: u8 where "MAC_BEACON_ADD_PENDING_SHORT_ADDR = 1"
definition MAC_BEACON_ADD_PENDING_EXT_ADDR :: u8 where "MAC_BEACON_ADD_PENDING_EXT_ADDR = 2"
definition MAC_DATA_FIND_SHORT_ADDR :: u8 where "MAC_DATA_FIND_SHORT_ADDR = 3"
definition MAC_DATA_FIND_EXT_ADDR :: u8 where "MAC_DATA_FIND_EXT_ADDR = 4"
definition MAC_DECREMENT_PERSI_TIME :: u8 where "MAC_DECREMENT_PERSI_TIME = 5"
definition MAC_CHECK_PERSI_TIME_ZERO :: u8 where "MAC_CHECK_PERSI_TIME_ZERO = 6"
definition MAC_FIND_BUFFER :: u8 where "MAC_FIND_BUFFER = 7"
definition MAC_FIND_MSDU :: u8 where "MAC_FIND_MSDU = 8"

text \<open>
  The \<open>switch\<close> over the number of the search function; the inner \<open>None\<close> is its
  \<open>default: goto done\<close>.
\<close>

definition qmm_compare ::
  "search_t \<Rightarrow> nat \<Rightarrow> 'a mac_mem_scheme \<Rightarrow> (bool \<times> 'a mac_mem_scheme) option option" where
  "qmm_compare s b m =
     (let i = compare_func_id s; h = handle s;
          pure = (\<lambda>r. map_option (\<lambda>x. Some (x, m)) r)
      in
      if i = MAC_BEACON_ADD_PENDING_SHORT_ADDR
      then map_option Some (mac_beacon_add_pending_short_address_cb b m)
      else if i = MAC_BEACON_ADD_PENDING_EXT_ADDR
      then map_option Some (mac_beacon_add_pending_extended_address_cb b m)
      else if i = MAC_DATA_FIND_SHORT_ADDR
      then pure (Option.bind (get_frame m b) (\<lambda>f. mac_data_find_short_addr_buffer f h))
      else if i = MAC_DATA_FIND_EXT_ADDR
      then pure (Option.bind (get_frame m b) (\<lambda>f. mac_data_find_long_addr_buffer f h))
      else if i = MAC_DECREMENT_PERSI_TIME
      then map_option Some (decrement_persistence_time b m)
      else if i = MAC_CHECK_PERSI_TIME_ZERO
      then pure (map_option check_persistence_time_zero (get_frame m b))
      else if i = MAC_FIND_BUFFER then pure (find_buffer b h)
      else if i = MAC_FIND_MSDU
      then pure (Option.bind (get_frame m b) (\<lambda>f. check_msdu_handle_cb f h))
      else Some None)"

subsection \<open>Queues\<close>

definition qmm_queue_init :: "u8 \<Rightarrow> queue_t" where
  "qmm_queue_init capacity = \<lparr>qhead = None, qtail = None, qcapacity = capacity, qsize = 0\<rparr>"

text \<open>With a size that is not zero and no tail, \<open>q_p->tail->next\<close> is a null-pointer access.\<close>

definition qmm_queue_append ::
  "queue_t \<Rightarrow> nat \<Rightarrow> 'a mac_mem_scheme \<Rightarrow> (bool \<times> queue_t \<times> 'a mac_mem_scheme) option" where
  "qmm_queue_append q b m =
     (let interrupt_status = irqs m; m = m\<lparr>irqs := False\<rparr> in
      if qsize q = qcapacity q then Some (False, q, m\<lparr>irqs := interrupt_status\<rparr>)
      else do {
        (q, m) \<leftarrow> (if qsize q = 0 then Some (q\<lparr>qhead := Some b\<rparr>, m)
                  else do {
                    t \<leftarrow> qtail q;
                    Some (q, m\<lparr>bnext := (bnext m)(t := Some b)\<rparr>)
                  });
        let q = q\<lparr>qtail := Some b\<rparr>;
        let m = m\<lparr>bnext := (bnext m)(b := None)\<rparr>;
        let q = q\<lparr>qsize := qsize q + 1\<rparr>;
        Some (True, q, m\<lparr>irqs := interrupt_status\<rparr>)
      })"

text \<open>
  The search loop.  The result is \<open>buffer_current_p\<close>, \<open>buffer_previous_p\<close> and whether the
  loop was left by \<open>goto done\<close>.
\<close>

partial_function (option) qmm_search ::
  "search_t \<Rightarrow> nat option \<Rightarrow> nat option \<Rightarrow> 'a mac_mem_scheme \<Rightarrow>
     (nat option \<times> nat option \<times> bool \<times> 'a mac_mem_scheme) option" where
  "qmm_search s cur prev m =
     (case cur of
        None \<Rightarrow> Some (None, prev, False, m)
      | Some b \<Rightarrow> do {
          r \<leftarrow> qmm_compare s b m;
          case r of
            None \<Rightarrow> Some (Some b, prev, True, m)
          | Some (match, m) \<Rightarrow>
              if match then Some (Some b, prev, False, m)
              else qmm_search s (bnext m b) (Some b) m
        })"

text \<open>The removal of \<open>buffer_current_p\<close>.\<close>

definition qmm_unlink ::
  "nat \<Rightarrow> nat option \<Rightarrow> queue_t \<Rightarrow> 'a mac_mem_scheme \<Rightarrow> (queue_t \<times> 'a mac_mem_scheme) option" where
  "qmm_unlink cur prev q m = do {
     (q, m) \<leftarrow> (if Some cur = qhead q then Some (q\<lparr>qhead := bnext m cur\<rparr>, m)
               else do {
                 p \<leftarrow> prev;
                 Some (q, m\<lparr>bnext := (bnext m)(p := bnext m cur)\<rparr>)
               });
     let q = (if Some cur = qtail q then q\<lparr>qtail := prev\<rparr> else q);
     let q = q\<lparr>qsize := qsize q - 1\<rparr>;
     Some (if qhead q = None then q\<lparr>qtail := None\<rparr> else q, m)
   }"

definition queue_read_or_remove ::
  "buffer_mode_t \<Rightarrow> search_t option \<Rightarrow> queue_t \<Rightarrow> 'a mac_mem_scheme \<Rightarrow>
     (nat option \<times> queue_t \<times> 'a mac_mem_scheme) option" where
  "queue_read_or_remove mode search q m =
     (let interrupt_status = irqs m; m = m\<lparr>irqs := False\<rparr> in
      if qsize q \<noteq> 0
      then do {
        (cur, prev, goto_done, m) \<leftarrow>
          (case search of
             Some s \<Rightarrow> qmm_search s (qhead q) (qhead q) m
           | None \<Rightarrow> Some (qhead q, qhead q, False, m));
        (q, m) \<leftarrow>
          (case cur of
             Some b \<Rightarrow> if \<not> goto_done \<and> mode = REMOVE_MODE then qmm_unlink b prev q m else Some (q, m)
           | None \<Rightarrow> Some (q, m));
        Some (cur, q, m\<lparr>irqs := interrupt_status\<rparr>)
      }
      else Some (None, q, m\<lparr>irqs := interrupt_status\<rparr>))"

definition qmm_queue_remove ::
  "search_t option \<Rightarrow> queue_t \<Rightarrow> 'a mac_mem_scheme \<Rightarrow> (nat option \<times> queue_t \<times> 'a mac_mem_scheme) option" where
  "qmm_queue_remove = queue_read_or_remove REMOVE_MODE"

definition qmm_queue_read ::
  "search_t option \<Rightarrow> queue_t \<Rightarrow> 'a mac_mem_scheme \<Rightarrow> (nat option \<times> queue_t \<times> 'a mac_mem_scheme) option" where
  "qmm_queue_read = queue_read_or_remove READ_MODE"

subsection \<open>Buffers\<close>

record bmm_mem = mac_mem +
  free_buffer_q :: queue_t
  buffCount :: u8

primrec bmm_append_all :: "nat list \<Rightarrow> 'a bmm_mem_scheme \<Rightarrow> 'a bmm_mem_scheme option" where
  "bmm_append_all [] m = Some m"
| "bmm_append_all (i # is) m = do {
     (_, q, m) \<leftarrow> qmm_queue_append (free_buffer_q m) i m;
     bmm_append_all is (m\<lparr>free_buffer_q := q\<rparr>)
   }"

definition bmm_buffer_init :: "'a bmm_mem_scheme \<Rightarrow> 'a bmm_mem_scheme option" where
  "bmm_buffer_init m =
     bmm_append_all [0..<TOTAL_NUMBER_OF_BUFFERS]
       (m\<lparr>free_buffer_q := qmm_queue_init (of_nat TOTAL_NUMBER_OF_BUFFERS)\<rparr>)"

definition bmm_buffer_alloc :: "u8 \<Rightarrow> 'a bmm_mem_scheme \<Rightarrow> (nat option \<times> 'a bmm_mem_scheme) option" where
  "bmm_buffer_alloc sz m = do {
     (buffer_p, m) \<leftarrow>
       (if unat sz \<le> BUFFER_SIZE
        then do {
          (b, q, m) \<leftarrow> qmm_queue_remove None (free_buffer_q m) m;
          Some (b, m\<lparr>free_buffer_q := q\<rparr>)
        }
        else Some (None, m));
     Some (buffer_p, if buffer_p \<noteq> None then m\<lparr>buffCount := buffCount m + 1\<rparr> else m)
   }"

definition bmm_buffer_free :: "nat option \<Rightarrow> 'a bmm_mem_scheme \<Rightarrow> 'a bmm_mem_scheme option" where
  "bmm_buffer_free buffer_p m =
     (case buffer_p of
        None \<Rightarrow> Some m
      | Some b \<Rightarrow> do {
          let m = m\<lparr>buffCount := buffCount m - 1\<rparr>;
          (_, q, m) \<leftarrow> qmm_queue_append (free_buffer_q m) b m;
          Some (m\<lparr>free_buffer_q := q\<rparr>)
        })"

text \<open>
  \<open>qmm_queue_flush\<close>, by recursion over the size, which every round decreases (a removal takes
  one away, and a removal that finds nothing sets it to zero and returns).
\<close>

primrec qmm_flush_rounds :: "nat \<Rightarrow> queue_t \<Rightarrow> 'a bmm_mem_scheme \<Rightarrow> (queue_t \<times> 'a bmm_mem_scheme) option" where
  "qmm_flush_rounds 0 q m = Some (q, m)"
| "qmm_flush_rounds (Suc n) q m =
     (if qsize q > 0
      then do {
        (b, q, m) \<leftarrow> qmm_queue_remove None q m;
        case b of
          None \<Rightarrow> Some (q\<lparr>qsize := 0\<rparr>, m)
        | Some _ \<Rightarrow> do { m \<leftarrow> bmm_buffer_free b m; qmm_flush_rounds n q m }
      }
      else Some (q, m))"

definition qmm_queue_flush :: "queue_t \<Rightarrow> 'a bmm_mem_scheme \<Rightarrow> (queue_t \<times> 'a bmm_mem_scheme) option" where
  "qmm_queue_flush q m = qmm_flush_rounds (unat (qsize q)) q m"

end
