(* ===== verification/MacFrame.thy ===== *)
theory MacFrame
  imports Qmm Stm
begin

unbundle bit_operations_syntax

text \<open>
  The state of the 802.15.4 MAC as far as its data service uses it, and the construction and
  parsing of frames: \<^verbatim>\<open>zigbee/mac_mcps_data.c\<close> (\<open>build_data_frame\<close>), \<^verbatim>\<open>mac_data.c\<close> (null
  frames, \<open>mac_data_extract_mhr_addr_info\<close>, \<open>mac_data_parse_mpdu\<close>), \<^verbatim>\<open>mac_security.c\<close> (the
  auxiliary security header), \<^verbatim>\<open>mac_hal.c\<close> (handing a frame to the radio).

  The radio, the AES engine and the parts of the MAC outside the data service are an environment:
  functions of what was done so far.  A frame under construction is the list of its bytes; it must
  stay clear of the \<open>frame_info_t\<close> at the start of the body (15 bytes), otherwise the write is
  undefined.
\<close>

subsection \<open>Status codes and states\<close>

definition MAC_SUCCESS :: u8 where "MAC_SUCCESS = 0x00"
definition HAL_FRAME_PENDING :: u8 where "HAL_FRAME_PENDING = 0x84"
definition HAL_BC_TX_DONE :: u8 where "HAL_BC_TX_DONE = 0x86"
definition MAC_COUNTER_ERROR :: u8 where "MAC_COUNTER_ERROR = 0xDB"
definition MAC_UNSUPPORTED_SECURITY :: u8 where "MAC_UNSUPPORTED_SECURITY = 0xDF"
definition MAC_CHANNEL_ACCESS_FAILURE :: u8 where "MAC_CHANNEL_ACCESS_FAILURE = 0xE1"
definition MAC_FRAME_TOO_LONG :: u8 where "MAC_FRAME_TOO_LONG = 0xE5"
definition MAC_INVALID_GTS :: u8 where "MAC_INVALID_GTS = 0xE6"
definition MAC_INVALID_HANDLE :: u8 where "MAC_INVALID_HANDLE = 0xE7"
definition MAC_INVALID_PARAMETER :: u8 where "MAC_INVALID_PARAMETER = 0xE8"
definition MAC_NO_ACK :: u8 where "MAC_NO_ACK = 0xE9"
definition MAC_TRANSACTION_EXPIRED :: u8 where "MAC_TRANSACTION_EXPIRED = 0xF0"
definition MAC_TRANSACTION_OVERFLOW :: u8 where "MAC_TRANSACTION_OVERFLOW = 0xF1"
definition MAC_UNAVAILABLE_KEY :: u8 where "MAC_UNAVAILABLE_KEY = 0xF3"
definition MAC_INVALID_ADDRESS :: u8 where "MAC_INVALID_ADDRESS = 0xF5"

datatype mac_state_t = MAC_IDLE | MAC_ASSOCIATED | MAC_COORDINATOR | MAC_PAN_COORD_STARTED
datatype mac_poll_state_t = MAC_POLL_IDLE | MAC_AWAIT_ASSOC_RESPONSE | MAC_POLL_EXPLICIT | MAC_POLL_IMPLICIT
datatype mac_scan_state_t = MAC_SCAN_IDLE | MAC_SCAN_ED | MAC_SCAN_ACTIVE | MAC_SCAN_ORPHAN | MAC_SCAN_PASSIVE
datatype tx_mode_t = NO_CSMA | CSMA_UNSLOTTED | CSMA_SLOTTED

text \<open>The union of a short and a long address: reading the other member is undefined.\<close>

datatype address_field_t = ShortAddr u16 | LongAddr u64

definition short_address :: "address_field_t \<Rightarrow> u16 option" where
  "short_address a = (case a of ShortAddr x \<Rightarrow> Some x | LongAddr _ \<Rightarrow> None)"

definition long_address :: "address_field_t \<Rightarrow> u64 option" where
  "long_address a = (case a of LongAddr x \<Rightarrow> Some x | ShortAddr _ \<Rightarrow> None)"

text \<open>What the parser leaves in \<open>mac_parse_data\<close>, as far as the data service reads it.\<close>

record parse_t =
  fcf :: u16
  frame_type :: u8
  sequence_number :: u8
  mpdu_length :: u8
  mac_payload_length :: u8
  dest_addr_mode :: u8
  dest_panid :: u16
  dest_addr :: address_field_t
  src_addr_mode :: u8
  src_panid :: u16
  src_addr :: address_field_t
  mac_payload :: "u8 list"

record mac_stats_t =
  tx_pkts_count :: u32
  tx_bytes_count :: u32
  tx_bc_pkts_count :: u32
  tx_bc_bytes_count :: u32
  tx_pkts_no_ack :: u32
  tx_frame_pending :: u32
  tx_pkts_no_cca :: u16
  tx_errors :: u16

datatype mac_action = HalTx "u8 list" tx_mode_t bool | HalFramePending bool

record mac_st = bmm_mem +
  nhle_mac_q :: queue_t
  indirect_data_q :: queue_t
  broadcast_q :: queue_t
  mac_state :: mac_state_t
  mac_poll_state :: mac_poll_state_t
  mac_scan_state :: mac_scan_state_t
  mac_busy :: bool
  mac_frame_p :: "nat option"
  mac_parse_data :: parse_t
  hal_pib_PANId :: u16
  hal_pib_ShortAddress :: u16
  hal_pib_IeeeAddress :: u64
  hal_pib_BeaconOrder :: u8
  mac_pib_macDSN :: u8
  mac_pib_macSecurityEnabled :: u8
  FrameCounter :: u32
  mac_stats_g :: mac_stats_t
  tx_counts :: "u16 list"
  indirect_data_persistence_timer :: u8
  mac_stm :: "unit sStm"
  mac_trace :: "mac_action list"

record macEnv =
  fifo_status :: "mac_action list \<Rightarrow> u8"
  secure_status :: "mac_action list \<Rightarrow> u8"
  tx_time :: "mac_action list \<Rightarrow> u32"
  scan_send_complete :: "u8 \<Rightarrow> mac_st \<Rightarrow> mac_st option"
  other_done :: "frame_msgtype_t \<Rightarrow> u8 \<Rightarrow> nat option \<Rightarrow> mac_st \<Rightarrow> mac_st option"
  other_expired :: "frame_msgtype_t \<Rightarrow> nat \<Rightarrow> mac_st \<Rightarrow> mac_st option"
  other_request :: "nat \<Rightarrow> mac_st \<Rightarrow> mac_st option"
  poll_conf :: "mac_st \<Rightarrow> mac_st option"

definition mact :: "mac_action \<Rightarrow> mac_st \<Rightarrow> mac_st" where
  "mact a s = s\<lparr>mac_trace := mac_trace s @ [a]\<rparr>"

subsection \<open>Constants of the frame format\<close>

definition FCF_FRAMETYPE_DATA :: u16 where "FCF_FRAMETYPE_DATA = 1"
definition FCF_SECURITY_ENABLED :: u16 where "FCF_SECURITY_ENABLED = push_bit 3 1"
definition FCF_FRAME_PENDING :: u8 where "FCF_FRAME_PENDING = push_bit 4 1"
definition FCF_ACK_REQUEST :: u16 where "FCF_ACK_REQUEST = push_bit 5 1"
definition FCF_PAN_ID_COMPRESSION :: u16 where "FCF_PAN_ID_COMPRESSION = push_bit 6 1"
definition FCF_FRAME_VERSION_2006 :: u16 where "FCF_FRAME_VERSION_2006 = push_bit 12 1"
definition FCF_SET_SOURCE_ADDR_MODE :: "u8 \<Rightarrow> u16" where "FCF_SET_SOURCE_ADDR_MODE x = push_bit 14 (ucast x)"
definition FCF_SET_DEST_ADDR_MODE :: "u8 \<Rightarrow> u16" where "FCF_SET_DEST_ADDR_MODE x = push_bit 10 (ucast x)"
definition TX_ACKNOWLEDGED :: u8 where "TX_ACKNOWLEDGED = 1"
definition TX_INDIRECT :: u8 where "TX_INDIRECT = 4"
definition BROADCAST :: u16 where "BROADCAST = 0xFFFF"
definition MAC_NO_SHORT_ADDR_VALUE :: u16 where "MAC_NO_SHORT_ADDR_VALUE = 0xFFFE"
definition NON_BEACON_NWK :: u8 where "NON_BEACON_NWK = 0x0F"
definition aMaxPHYPacketSize :: u8 where "aMaxPHYPacketSize = 127"
definition aMaxMACSafePayloadSize :: u8 where "aMaxMACSafePayloadSize = 102"
definition aMaxMACPayloadSize :: u8 where "aMaxMACPayloadSize = 118"
definition FRAME_ROOM :: nat where "FRAME_ROOM = BUFFER_SIZE - 15"

text \<open>\<open>frame_p -= n\<close> and the write of \<open>n\<close> bytes there.\<close>

definition push_front :: "u8 list \<Rightarrow> u8 list \<Rightarrow> u8 list option" where
  "push_front bs fr = (if length bs + length fr \<le> FRAME_ROOM then Some (bs @ fr) else None)"

subsection \<open>The auxiliary security header\<close>

definition get_key_id_field_len :: "u8 \<Rightarrow> u8" where
  "get_key_id_field_len key_id_mode =
     (if key_id_mode = 1 then 1 else if key_id_mode = 2 then 5 else if key_id_mode = 3 then 9 else 0)"

definition sec_additional_len :: "security_info_t \<Rightarrow> u8" where
  "sec_additional_len si = 1 + 4 + get_key_id_field_len (KeyIdMode si)"

text \<open>The bytes written into the \<open>sec_additional_len\<close> bytes of the header.\<close>

definition mac_build_aux_sec_header ::
  "security_info_t \<Rightarrow> u32 \<Rightarrow> u8 list \<Rightarrow> u8 \<Rightarrow> (u8 \<times> u8 list \<times> u8) option" where
  "mac_build_aux_sec_header si counter fr frame_len =
     (let frame_len = frame_len + sec_additional_len si;
          ctrl = (SecurityLevel si AND 7) OR push_bit 3 (KeyIdMode si AND 3)
      in
      if counter = 0xFFFFFFFF then Some (MAC_COUNTER_ERROR, fr, frame_len)
      else
        let hdr = ctrl # mac_utils_32_bit_to_byte_array counter in
        if KeyIdMode si = 1
        then do { fr \<leftarrow> push_front (hdr @ [KeyIndex si]) fr; Some (MAC_SUCCESS, fr, frame_len) }
        else if KeyIdMode si = 2
        then do {
          k \<leftarrow> bytes_at (KeySource si) 0 4;
          fr \<leftarrow> push_front (hdr @ k @ [KeyIndex si]) fr;
          Some (MAC_SUCCESS, fr, frame_len)
        }
        else if KeyIdMode si = 3
        then do {
          k \<leftarrow> bytes_at (KeySource si) 0 8;
          fr \<leftarrow> push_front (hdr @ k @ [KeyIndex si]) fr;
          Some (MAC_SUCCESS, fr, frame_len)
        }
        else if KeyIdMode si > 3 then Some (MAC_UNSUPPORTED_SECURITY, fr, frame_len)
        else do { fr \<leftarrow> push_front hdr fr; Some (MAC_SUCCESS, fr, frame_len) })"

subsection \<open>Building a data frame\<close>

text \<open>The fields of the MAC header from the source address down to the sequence number.\<close>

definition put_source :: "u8 \<Rightarrow> u16 \<Rightarrow> u64 \<Rightarrow> u8 list \<times> u8 \<Rightarrow> (u8 list \<times> u8) option" where
  "put_source mode short ieee fl =
     (let (fr, frame_len) = fl in
      if mode = FCF_SHORT
      then do { fr \<leftarrow> push_front (mac_utils_16_bit_to_byte_array short) fr; Some (fr, frame_len + 2) }
      else if mode = FCF_LONG_ADDR
      then do { fr \<leftarrow> push_front (mac_utils_64_bit_to_byte_array ieee) fr; Some (fr, frame_len + 8) }
      else Some (fr, frame_len))"

text \<open>The intra-PAN bit is set instead of the source PAN when both addresses share the PAN.\<close>

definition intra_pan :: "mcps_data_req_t \<Rightarrow> u16 \<Rightarrow> bool" where
  "intra_pan r pan \<longleftrightarrow> pan = DstPANId r \<and> FCF_NO_ADDR \<noteq> SrcAddrMode r \<and> FCF_NO_ADDR \<noteq> DstAddrMode r"

definition put_source_pan :: "mcps_data_req_t \<Rightarrow> u16 \<Rightarrow> u8 list \<times> u8 \<Rightarrow> (u8 list \<times> u8) option" where
  "put_source_pan r pan fl =
     (let (fr, frame_len) = fl in
      if intra_pan r pan then Some (fr, frame_len)
      else if FCF_NO_ADDR \<noteq> SrcAddrMode r
      then do { fr \<leftarrow> push_front (mac_utils_16_bit_to_byte_array pan) fr; Some (fr, frame_len + 2) }
      else Some (fr, frame_len))"

definition put_dest :: "u8 \<Rightarrow> u16 \<Rightarrow> u64 \<Rightarrow> u8 list \<times> u8 \<Rightarrow> (u8 list \<times> u8) option" where
  "put_dest mode pan addr fl =
     (let (fr, frame_len) = fl in
      if mode \<noteq> FCF_NO_ADDR
      then do {
        (fr, frame_len) \<leftarrow>
          (if mode = FCF_SHORT
           then do { fr \<leftarrow> push_front (mac_utils_16_bit_to_byte_array (ucast (lo_u32 addr))) fr;
                     Some (fr, frame_len + 2) }
           else do { fr \<leftarrow> push_front (mac_utils_64_bit_to_byte_array addr) fr;
                     Some (fr, frame_len + 8) });
        fr \<leftarrow> push_front (mac_utils_16_bit_to_byte_array pan) fr;
        Some (fr, frame_len + 2)
      }
      else Some (fr, frame_len))"

definition data_fcf :: "mcps_data_req_t \<Rightarrow> u16 \<Rightarrow> u16" where
  "data_fcf r f =
     (let f = f OR FCF_FRAMETYPE_DATA;
          f = (if SecurityLevel (Security r) > 0 then f OR (FCF_SECURITY_ENABLED OR FCF_FRAME_VERSION_2006) else f);
          f = (if TxOptions r AND TX_ACKNOWLEDGED \<noteq> 0 then f OR FCF_ACK_REQUEST else f);
          f = (if msduLength r > aMaxMACSafePayloadSize then f OR FCF_FRAME_VERSION_2006 else f);
          f = f OR FCF_SET_SOURCE_ADDR_MODE (SrcAddrMode r)
      in f OR FCF_SET_DEST_ADDR_MODE (DstAddrMode r))"

text \<open>
  \<open>build_data_frame\<close>: the status, the new \<open>mpdu_p\<close> of the frame if it was set, and the state.  The
  payload is the last \<open>msduLength\<close> bytes of the buffer.
\<close>

definition build_data_frame ::
  "macEnv \<Rightarrow> mcps_data_req_t \<Rightarrow> u8 list \<Rightarrow> mac_st \<Rightarrow> (u8 \<times> u8 list option \<times> mac_st) option" where
  "build_data_frame env r payload s =
     (let frame_len = msduLength r + 2 + 1 in
      do {
        (st, fr, frame_len) \<leftarrow>
          (if SecurityLevel (Security r) > 0
           then mac_build_aux_sec_header (Security r) (FrameCounter s) payload frame_len
           else Some (MAC_SUCCESS, payload, frame_len));
        if st \<noteq> MAC_SUCCESS then Some (st, None, s)
        else do {
          (fr, frame_len) \<leftarrow> put_source (SrcAddrMode r) (hal_pib_ShortAddress s) (hal_pib_IeeeAddress s) (fr, frame_len);
          (fr, frame_len) \<leftarrow> put_source_pan r (hal_pib_PANId s) (fr, frame_len);
          (fr, frame_len) \<leftarrow> put_dest (DstAddrMode r) (DstPANId r) (DstAddr r) (fr, frame_len);
          fr \<leftarrow> push_front [mac_pib_macDSN s] fr;
          let s = s\<lparr>mac_pib_macDSN := mac_pib_macDSN s + 1\<rparr>;
          fr \<leftarrow> push_front (mac_utils_16_bit_to_byte_array
                  (data_fcf r (if intra_pan r (hal_pib_PANId s) then FCF_PAN_ID_COMPRESSION else 0))) fr;
          if frame_len > aMaxPHYPacketSize then Some (MAC_FRAME_TOO_LONG, None, s)
          else do {
            fr \<leftarrow> push_front [frame_len] fr;
            if SecurityLevel (Security r) > 0
            then Some (if mac_pib_macSecurityEnabled s = 1 then secure_status env (mac_trace s)
                       else MAC_UNSUPPORTED_SECURITY, Some fr, s)
            else Some (MAC_SUCCESS, Some fr, s)
          }
        }
      })"

subsection \<open>Null frames\<close>

definition null_frame_bytes :: "mac_st \<Rightarrow> u8 list option" where
  "null_frame_bytes s =
     (let p = mac_parse_data s; frame_len = 2 + 2 + 2 + 1 + 2;
          long_src = (hal_pib_ShortAddress s = BROADCAST \<or> hal_pib_ShortAddress s = MAC_NO_SHORT_ADDR_VALUE);
          (src, frame_len, f) =
            (if long_src
             then (mac_utils_64_bit_to_byte_array (hal_pib_IeeeAddress s), frame_len + 6, FCF_SET_SOURCE_ADDR_MODE FCF_LONG_ADDR)
             else (mac_utils_16_bit_to_byte_array (hal_pib_ShortAddress s), frame_len, FCF_SET_SOURCE_ADDR_MODE FCF_SHORT));
          (span, frame_len, f) =
            (if hal_pib_PANId s = src_panid p then ([], frame_len, f OR FCF_PAN_ID_COMPRESSION)
             else (mac_utils_16_bit_to_byte_array (hal_pib_PANId s), frame_len + 2, f))
      in do {
        (dst, frame_len, f) \<leftarrow>
          (if FCF_LONG_ADDR = src_addr_mode p
           then do { a \<leftarrow> long_address (src_addr p);
                     Some (mac_utils_64_bit_to_byte_array a, frame_len + 6,
                           f OR (FCF_SET_DEST_ADDR_MODE FCF_LONG_ADDR OR FCF_FRAMETYPE_DATA)) }
           else do { a \<leftarrow> short_address (src_addr p);
                     Some (mac_utils_16_bit_to_byte_array a, frame_len,
                           f OR (FCF_SET_DEST_ADDR_MODE FCF_SHORT OR FCF_FRAMETYPE_DATA)) });
        Some ([frame_len] @ mac_utils_16_bit_to_byte_array f @ [mac_pib_macDSN s] @
              mac_utils_16_bit_to_byte_array (src_panid p) @ dst @ span @ src)
      })"

text \<open>The fields of the structure that the code leaves as they are in the buffer are zero here.\<close>

definition mac_data_build_null_frame :: "mac_st \<Rightarrow> (nat option \<times> mac_st) option" where
  "mac_data_build_null_frame s = do {
     (buf_ptr, s) \<leftarrow> bmm_buffer_alloc (of_nat BUFFER_SIZE) s;
     case buf_ptr of
       None \<Rightarrow> Some (None, s)
     | Some b \<Rightarrow> do {
         fr \<leftarrow> null_frame_bytes s;
         let f = \<lparr>msg_type = NULL_FRAME, buffer_header_p = Some b, msduHandle = 0, persistence_time = 0,
                  indirect_in_transit = False, time_stamp = 0, mpdu_p = fr\<rparr>;
         let s = s\<lparr>mac_pib_macDSN := mac_pib_macDSN s + 1\<rparr>;
         Some (Some b, put_body b (Frame f) s)
       }
   }"

subsection \<open>Parsing a frame\<close>

text \<open>The destination and source fields; the result is the rest of the bytes and the length.\<close>

definition take_dest ::
  "u8 \<Rightarrow> u8 list \<Rightarrow> parse_t \<Rightarrow> (parse_t \<times> u8 list \<times> u8) option" where
  "take_dest mode p pd =
     (if mode \<noteq> 0
      then do {
        pan \<leftarrow> mac_utils_byte_array_to_16_bit p;
        let pd = pd\<lparr>dest_panid := pan\<rparr>;
        let p = drop 2 p;
        if mode = FCF_SHORT
        then do { a \<leftarrow> mac_utils_byte_array_to_16_bit p; Some (pd\<lparr>dest_addr := ShortAddr a\<rparr>, drop 2 p, 4) }
        else if mode = FCF_LONG_ADDR
        then do { a \<leftarrow> mac_utils_byte_array_to_64_bit p; Some (pd\<lparr>dest_addr := LongAddr a\<rparr>, drop 8 p, 10) }
        else Some (pd, p, 2)
      }
      else Some (pd, p, 0))"

definition take_source ::
  "u8 \<Rightarrow> bool \<Rightarrow> u8 list \<Rightarrow> parse_t \<Rightarrow> u8 \<Rightarrow> (parse_t \<times> u8 list \<times> u8) option" where
  "take_source mode intra p pd len =
     (if mode \<noteq> 0
      then do {
        (pd, p, len) \<leftarrow>
          (if \<not> intra
           then do { pan \<leftarrow> mac_utils_byte_array_to_16_bit p; Some (pd\<lparr>src_panid := pan\<rparr>, drop 2 p, len + 2) }
           else Some (pd\<lparr>src_panid := dest_panid pd\<rparr>, p, len));
        if mode = FCF_SHORT
        then do { a \<leftarrow> mac_utils_byte_array_to_16_bit p; Some (pd\<lparr>src_addr := ShortAddr a\<rparr>, drop 2 p, len + 2) }
        else if mode = FCF_LONG_ADDR
        then do { a \<leftarrow> mac_utils_byte_array_to_64_bit p; Some (pd\<lparr>src_addr := LongAddr a\<rparr>, drop 8 p, len + 8) }
        else Some (pd, p, len)
      }
      else Some (pd, p, len))"

definition mac_data_extract_mhr_addr_info :: "u8 list \<Rightarrow> parse_t \<Rightarrow> (parse_t \<times> u8 list) option" where
  "mac_data_extract_mhr_addr_info p pd =
     (let f = fcf pd;
          sm = ucast (drop_bit 14 f AND 3) :: u8;
          dm = ucast (drop_bit 10 f AND 3) :: u8;
          intra = (f AND FCF_PAN_ID_COMPRESSION \<noteq> 0)
      in do {
        (pd, p, len) \<leftarrow> take_dest dm p pd;
        (pd, p, len) \<leftarrow> take_source sm intra p pd len;
        let pd = pd\<lparr>mac_payload_length := mpdu_length pd - 2 - 1 - len - 2\<rparr>;
        Some (pd\<lparr>src_addr_mode := sm, dest_addr_mode := dm\<rparr>, p)
      })"

definition mac_data_parse_data :: "u8 list \<Rightarrow> parse_t \<Rightarrow> parse_t" where
  "mac_data_parse_data p pd =
     (if mac_payload_length pd \<noteq> 0
      then pd\<lparr>mac_payload_length := (if mac_payload_length pd \<ge> aMaxMACPayloadSize then aMaxMACPayloadSize
                                     else mac_payload_length pd),
              mac_payload := p\<rparr>
      else pd\<lparr>mac_payload_length := 0\<rparr>)"

text \<open>
  \<open>mac_data_parse_mpdu\<close> for an unsecured data frame; \<open>mpdu_length\<close> was set by the receive path.
  Other frame types and secured frames are \<open>None\<close> here.
\<close>

definition parse_data_mpdu :: "u8 list \<Rightarrow> parse_t \<Rightarrow> parse_t option" where
  "parse_data_mpdu mpdu pd = do {
     f \<leftarrow> mac_utils_byte_array_to_16_bit (drop 1 mpdu);
     sn \<leftarrow> arr_get mpdu 3;
     let pd = pd\<lparr>fcf := f, sequence_number := sn\<rparr>;
     (pd, p) \<leftarrow> mac_data_extract_mhr_addr_info (drop 4 mpdu) pd;
     let pd = pd\<lparr>frame_type := ucast (f AND 7)\<rparr>;
     if f AND FCF_SECURITY_ENABLED \<noteq> 0 \<or> frame_type pd \<noteq> 1 then None
     else Some (mac_data_parse_data p pd)
   }"

end
