(* ===== verification/MacData.thy ===== *)
theory MacData
  imports MacFrame
begin

unbundle bit_operations_syntax

text \<open>
  The data service of the 802.15.4 MAC: requests of the next higher layer (\<^verbatim>\<open>mac_api.c\<close>,
  \<^verbatim>\<open>mac_mcps_data.c\<close>), the answer to a polling device (\<^verbatim>\<open>mac_data.c\<close>), the end of a transmission
  (\<^verbatim>\<open>mac_hal.c\<close>, \<^verbatim>\<open>mac_hal_intf.c\<close>), confirmations (\<^verbatim>\<open>mac_host_cb.c\<close> in the \<open>PROD_TEST\<close>
  build), the persistence of indirect frames, broadcast frames and the list of pending addresses
  in a beacon (\<^verbatim>\<open>mac_beacon.c\<close>).
\<close>

subsection \<open>Frames to the radio\<close>

definition mac_hal_frame_pending :: "bool \<Rightarrow> mac_st \<Rightarrow> mac_st" where
  "mac_hal_frame_pending enable = mact (HalFramePending enable)"

definition mac_hal_tx_frame ::
  "macEnv \<Rightarrow> nat \<Rightarrow> tx_mode_t \<Rightarrow> bool \<Rightarrow> mac_st \<Rightarrow> (u8 \<times> mac_st) option" where
  "mac_hal_tx_frame env b tx_mode encryption s = do {
     f \<leftarrow> get_frame s b;
     let s = s\<lparr>mac_frame_p := Some b\<rparr>;
     frame_len \<leftarrow> arr_get (mpdu_p f) 0;
     if frame_len \<le> aMaxPHYPacketSize
     then let status = fifo_status env (mac_trace s) in
       if status = MAC_SUCCESS
       then do {
         bytes \<leftarrow> bytes_at (mpdu_p f) 1 (unat frame_len);
         let s = mact (HalTx (frame_len # bytes) tx_mode encryption) s;
         let s = (if encryption then s\<lparr>FrameCounter := FrameCounter s + 1\<rparr> else s);
         Some (MAC_SUCCESS, s)
       }
       else Some (status, s)
     else Some (MAC_FRAME_TOO_LONG, s)
   }"

subsection \<open>Confirmations\<close>

text \<open>The position of a status among the twelve transmit counters of \<open>gRfStats\<close>.\<close>

definition tx_counter :: "u8 \<Rightarrow> nat option" where
  "tx_counter st =
     (if st = MAC_SUCCESS then Some 0
      else if st = MAC_TRANSACTION_OVERFLOW then Some 1
      else if st = MAC_TRANSACTION_EXPIRED then Some 2
      else if st = MAC_CHANNEL_ACCESS_FAILURE then Some 3
      else if st = MAC_INVALID_ADDRESS then Some 4
      else if st = MAC_INVALID_GTS then Some 5
      else if st = MAC_NO_ACK then Some 6
      else if st = MAC_COUNTER_ERROR then Some 7
      else if st = MAC_FRAME_TOO_LONG then Some 8
      else if st = MAC_UNAVAILABLE_KEY then Some 9
      else if st = MAC_UNSUPPORTED_SECURITY then Some 10
      else if st = MAC_INVALID_PARAMETER then Some 11
      else None)"

definition mcps_data_conf :: "nat \<Rightarrow> mac_st \<Rightarrow> mac_st option" where
  "mcps_data_conf b s =
     (case body s b of
        DataConf c \<Rightarrow>
          let s = (case tx_counter (confStatus c) of
                     Some i \<Rightarrow> s\<lparr>tx_counts := (tx_counts s)[i := tx_counts s ! i + 1]\<rparr>
                   | None \<Rightarrow> s)
          in bmm_buffer_free (Some b) s
      | _ \<Rightarrow> None)"

definition count_conf :: "u8 \<Rightarrow> mac_stats_t \<Rightarrow> mac_stats_t" where
  "count_conf status g =
     (if status = MAC_NO_ACK then g\<lparr>tx_pkts_no_ack := tx_pkts_no_ack g + 1\<rparr>
      else if status = MAC_CHANNEL_ACCESS_FAILURE
      then g\<lparr>tx_pkts_no_cca := tx_pkts_no_cca g + 1, tx_errors := tx_errors g + 1\<rparr>
      else if status = HAL_FRAME_PENDING then g\<lparr>tx_frame_pending := tx_frame_pending g + 1\<rparr>
      else if status = MAC_SUCCESS then g
      else g\<lparr>tx_errors := tx_errors g + 1\<rparr>)"

definition mac_gen_mcps_data_conf :: "nat \<Rightarrow> u8 \<Rightarrow> u8 \<Rightarrow> u32 \<Rightarrow> mac_st \<Rightarrow> mac_st option" where
  "mac_gen_mcps_data_conf b status h timestamp s =
     (let s = put_body b (DataConf \<lparr>confHandle = h, confStatus = status, confTimestamp = timestamp\<rparr>) s;
          s = s\<lparr>mac_stats_g := count_conf status (mac_stats_g s)\<rparr>
      in mcps_data_conf b s)"

subsection \<open>The persistence timer\<close>

definition persistence_interval :: "u8 \<Rightarrow> u32" where
  "persistence_interval beacon_order =
     (let bo = (if beacon_order = NON_BEACON_NWK then 3 else beacon_order)
      in push_bit 4 (push_bit (unat bo) 960) div 1000)"

definition mac_start_persistence_timer :: "mac_st \<Rightarrow> mac_st option" where
  "mac_start_persistence_timer s =
     (let ms = persistence_interval (hal_pib_BeaconOrder s);
          s = (if qsize (indirect_data_q s) > 0 then mac_hal_frame_pending True s else s)
      in do {
        (m, st) \<leftarrow> STM_StartTimer (mac_stm s) (indirect_data_persistence_timer s) ms;
        let s = s\<lparr>mac_stm := m\<rparr>;
        if st \<noteq> STATUS_SUCCESS
        then do {
          (q, s) \<leftarrow> qmm_queue_flush (indirect_data_q s) s;
          Some (s\<lparr>indirect_data_q := q\<rparr>)
        }
        else Some s
      })"

subsection \<open>Data and purge requests\<close>

definition mac_api_to_nhle_mac_queue :: "nat \<Rightarrow> mac_st \<Rightarrow> (bool \<times> mac_st) option" where
  "mac_api_to_nhle_mac_queue b s = do {
     (ok, q, s) \<leftarrow> qmm_queue_append (nhle_mac_q s) b s;
     let s = s\<lparr>nhle_mac_q := q\<rparr>;
     if \<not> ok then do { s \<leftarrow> bmm_buffer_free (Some b) s; Some (False, s) } else Some (True, s)
   }"

text \<open>
  The payload is copied to the end of the buffer; without security parameters the level is 0 (the
  other fields stay as they are in the buffer, and are not read).
\<close>

definition no_security :: security_info_t where
  "no_security = \<lparr>SecurityLevel = 0, KeyIdMode = 0, KeySource = [], KeyIndex = 0\<rparr>"

definition mac_api_mcps_data_req ::
  "u8 \<Rightarrow> u8 \<Rightarrow> u16 \<Rightarrow> address_field_t \<Rightarrow> u8 list \<Rightarrow> u8 \<Rightarrow> u8 \<Rightarrow> security_info_t option \<Rightarrow> mac_st \<Rightarrow>
     (bool \<times> mac_st) option" where
  "mac_api_mcps_data_req src_mode dst_mode pan addr msdu h tx_options sec_p s =
     (if length msdu > unat aMaxMACPayloadSize then Some (False, s)
      else do {
        (buffer_p, s) \<leftarrow> bmm_buffer_alloc (of_nat BUFFER_SIZE) s;
        case buffer_p of
          None \<Rightarrow> Some (False, s)
        | Some b \<Rightarrow> do {
            a \<leftarrow> (if dst_mode = 2
                 then map_option (\<lambda>x. \<lparr>hi_u32 = 0, lo_u32 = ucast x\<rparr>) (short_address addr)
                 else long_address addr);
            let r = \<lparr>SrcAddrMode = src_mode, DstAddrMode = dst_mode, DstPANId = pan, DstAddr = a,
                     reqHandle = h, TxOptions = tx_options,
                     Security = (case sec_p of None \<Rightarrow> no_security | Some si \<Rightarrow> si),
                     msduLength = of_nat (length msdu)\<rparr>;
            mac_api_to_nhle_mac_queue b (put_body b (DataReq r msdu) s)
          }
      })"

definition mac_api_mcps_purge_req :: "u8 \<Rightarrow> mac_st \<Rightarrow> (bool \<times> mac_st) option" where
  "mac_api_mcps_purge_req h s = do {
     (buffer_p, s) \<leftarrow> bmm_buffer_alloc (of_nat BUFFER_SIZE) s;
     case buffer_p of
       None \<Rightarrow> Some (False, s)
     | Some b \<Rightarrow> mac_api_to_nhle_mac_queue b (put_body b (PurgeReq h) s)
   }"

definition is_coordinator :: "mac_st \<Rightarrow> bool" where
  "is_coordinator s \<longleftrightarrow> mac_state s = MAC_PAN_COORD_STARTED \<or> mac_state s = MAC_COORDINATOR"

definition to_broadcast :: "mcps_data_req_t \<Rightarrow> bool" where
  "to_broadcast r \<longleftrightarrow> DstAddrMode r = FCF_SHORT \<and> lo_u32 (DstAddr r) = ucast BROADCAST"

text \<open>The last part of \<open>mcps_data_request\<close>: indirect or direct transmission.\<close>

definition data_request_indirect :: "nat \<Rightarrow> frame_info_t \<Rightarrow> mcps_data_req_t \<Rightarrow> mac_st \<Rightarrow> mac_st option" where
  "data_request_indirect b f r s = do {
     (ok, q, s) \<leftarrow> qmm_queue_append (indirect_data_q s) b s;
     let s = s\<lparr>indirect_data_q := q\<rparr>;
     if \<not> ok then mac_gen_mcps_data_conf b MAC_TRANSACTION_OVERFLOW (reqHandle r) 0 s
     else mac_start_persistence_timer (put_body b (Frame (f\<lparr>persistence_time := 200\<rparr>)) s)
   }"

definition data_request_direct ::
  "macEnv \<Rightarrow> nat \<Rightarrow> frame_info_t \<Rightarrow> mcps_data_req_t \<Rightarrow> mac_st \<Rightarrow> mac_st option" where
  "data_request_direct env b f r s =
     (let s = put_body b (Frame (f\<lparr>buffer_header_p := Some b\<rparr>)) s;
          tx_mode = (if NON_BEACON_NWK = hal_pib_BeaconOrder s then CSMA_UNSLOTTED else CSMA_SLOTTED)
      in do {
        (status, s) \<leftarrow> mac_hal_tx_frame env b tx_mode (SecurityLevel (Security r) > 0) s;
        if status = MAC_SUCCESS then Some (s\<lparr>mac_busy := True\<rparr>)
        else mac_gen_mcps_data_conf b MAC_CHANNEL_ACCESS_FAILURE (reqHandle r) 0 s
      })"

definition mcps_data_request :: "macEnv \<Rightarrow> nat \<Rightarrow> mac_st \<Rightarrow> mac_st option" where
  "mcps_data_request env b s =
     (case body s b of
        DataReq r payload \<Rightarrow>
          if TxOptions r AND TX_INDIRECT = 0 \<and> (mac_poll_state s \<noteq> MAC_POLL_IDLE \<or> mac_scan_state s \<noteq> MAC_SCAN_IDLE)
          then mac_gen_mcps_data_conf b MAC_CHANNEL_ACCESS_FAILURE (reqHandle r) 0 s
          else if TxOptions r AND TX_ACKNOWLEDGED \<noteq> 0 \<and> to_broadcast r
          then mac_gen_mcps_data_conf b MAC_INVALID_PARAMETER (reqHandle r) 0 s
          else if SrcAddrMode r = FCF_NO_ADDR \<and> DstAddrMode r = FCF_NO_ADDR
          then mac_gen_mcps_data_conf b MAC_INVALID_ADDRESS (reqHandle r) 0 s
          else if SrcAddrMode r = FCF_RESERVED_ADDR \<or> DstAddrMode r = FCF_RESERVED_ADDR
          then mac_gen_mcps_data_conf b MAC_INVALID_PARAMETER (reqHandle r) 0 s
          else do {
            (status, mpdu, s) \<leftarrow> build_data_frame env r payload s;
            if status \<noteq> MAC_SUCCESS then mac_gen_mcps_data_conf b status (reqHandle r) 0 s
            else do {
              fr \<leftarrow> mpdu;
              let f = \<lparr>msg_type = MCPS_MESSAGE, buffer_header_p = None, msduHandle = reqHandle r,
                       persistence_time = 0, indirect_in_transit = False, time_stamp = 0, mpdu_p = fr\<rparr>;
              let s = put_body b (Frame f) s;
              (ok, s) \<leftarrow>
                (if is_coordinator s \<and> hal_pib_BeaconOrder s < NON_BEACON_NWK \<and> to_broadcast r
                 then do {
                   (ok, q, s) \<leftarrow> qmm_queue_append (broadcast_q s) b s;
                   Some (ok, s\<lparr>broadcast_q := q\<rparr>)
                 }
                 else Some (True, s));
              if \<not> ok then mac_gen_mcps_data_conf b MAC_CHANNEL_ACCESS_FAILURE (reqHandle r) 0 s
              else if TxOptions r AND TX_INDIRECT \<noteq> 0 \<and> is_coordinator s
              then data_request_indirect b f r s
              else data_request_direct env b f r s
            }
          }
      | _ \<Rightarrow> None)"

definition mac_buffer_purge :: "u8 \<Rightarrow> mac_st \<Rightarrow> (bool \<times> mac_st) option" where
  "mac_buffer_purge msdu_handle s = do {
     (b, q, s) \<leftarrow> qmm_queue_remove (Some \<lparr>compare_func_id = MAC_FIND_MSDU, handle = HMsdu msdu_handle\<rparr>)
                    (indirect_data_q s) s;
     let s = s\<lparr>indirect_data_q := q\<rparr>;
     case b of
       Some _ \<Rightarrow> do { s \<leftarrow> bmm_buffer_free b s; Some (True, s) }
     | None \<Rightarrow> Some (False, mac_hal_frame_pending False s)
   }"

text \<open>\<open>mcps_purge_request\<close> with the confirmation, whose callback frees the buffer.\<close>

definition mcps_purge_conf :: "nat \<Rightarrow> mac_st \<Rightarrow> mac_st option" where
  "mcps_purge_conf b s = bmm_buffer_free (Some b) s"

definition mcps_purge_request :: "nat \<Rightarrow> mac_st \<Rightarrow> mac_st option" where
  "mcps_purge_request b s =
     (case body s b of
        PurgeReq h \<Rightarrow> do {
          (found, s) \<leftarrow> mac_buffer_purge h s;
          let s = put_body b (PurgeConf h (if found then MAC_SUCCESS else MAC_INVALID_HANDLE)) s;
          mcps_purge_conf b s
        }
      | _ \<Rightarrow> None)"

text \<open>The part of \<open>mac_task\<close> that serves the requests of the next higher layer.\<close>

definition mac_event_dispatcher :: "macEnv \<Rightarrow> nat \<Rightarrow> mac_st \<Rightarrow> mac_st option" where
  "mac_event_dispatcher env b s =
     (case body s b of
        DataReq _ _ \<Rightarrow> mcps_data_request env b s
      | PurgeReq _ \<Rightarrow> mcps_purge_request b s
      | _ \<Rightarrow> other_request env b s)"

definition mac_task_nhle :: "macEnv \<Rightarrow> mac_st \<Rightarrow> mac_st option" where
  "mac_task_nhle env s =
     (if \<not> mac_busy s \<and> qsize (nhle_mac_q s) \<noteq> 0
      then do {
        (b, q, s) \<leftarrow> qmm_queue_remove None (nhle_mac_q s) s;
        let s = s\<lparr>nhle_mac_q := q\<rparr>;
        case b of Some b \<Rightarrow> mac_event_dispatcher env b s | None \<Rightarrow> Some s
      }
      else Some s)"

text \<open>The end of the wait for the answer to a poll of this device's own coordinator (\<^verbatim>\<open>mac_poll.c\<close>).\<close>

definition mac_poll_wait_time_cb :: "macEnv \<Rightarrow> mac_st \<Rightarrow> mac_st option" where
  "mac_poll_wait_time_cb env s = do {
     s \<leftarrow> (if mac_poll_state s = MAC_POLL_EXPLICIT then poll_conf env s else Some s);
     Some (s\<lparr>mac_poll_state := MAC_POLL_IDLE, mac_busy := False\<rparr>)
   }"

subsection \<open>Answering a device that polls\<close>

definition mac_data_tx_null_frame :: "macEnv \<Rightarrow> mac_st \<Rightarrow> mac_st option" where
  "mac_data_tx_null_frame env s = do {
     (buf_ptr, s) \<leftarrow> mac_data_build_null_frame s;
     case buf_ptr of
       None \<Rightarrow> Some s
     | Some b \<Rightarrow> do {
         (tx_status, s) \<leftarrow> mac_hal_tx_frame env b NO_CSMA False s;
         if tx_status = MAC_SUCCESS then Some (s\<lparr>mac_busy := True\<rparr>) else bmm_buffer_free buf_ptr s
       }
   }"

definition set_frame_pending :: "frame_info_t \<Rightarrow> frame_info_t option" where
  "set_frame_pending f = do {
     x \<leftarrow> arr_get (mpdu_p f) PL_POS_FCF_1;
     Some (f\<lparr>mpdu_p := (mpdu_p f)[PL_POS_FCF_1 := x OR FCF_FRAME_PENDING]\<rparr>)
   }"

definition send_indirect :: "macEnv \<Rightarrow> search_t \<Rightarrow> nat \<Rightarrow> mac_st \<Rightarrow> mac_st option" where
  "send_indirect env find_buf b s = do {
     f \<leftarrow> get_frame s b;
     let s = put_body b (Frame (f\<lparr>indirect_in_transit := True, buffer_header_p := Some b\<rparr>)) s;
     (again, q, s) \<leftarrow> qmm_queue_read (Some find_buf) (indirect_data_q s) s;
     f \<leftarrow> get_frame s b;
     f \<leftarrow> (if again \<noteq> None then set_frame_pending f else Some f);
     let s = put_body b (Frame f) s;
     (tx_status, s) \<leftarrow> mac_hal_tx_frame env b NO_CSMA False s;
     if tx_status = MAC_SUCCESS then Some (s\<lparr>mac_busy := True\<rparr>)
     else Some (put_body b (Frame (f\<lparr>indirect_in_transit := False\<rparr>)) s)
   }"

definition mac_data_process_data_request :: "macEnv \<Rightarrow> nat option \<Rightarrow> mac_st \<Rightarrow> mac_st option" where
  "mac_data_process_data_request env buf_p s = do {
     s \<leftarrow> bmm_buffer_free buf_p s;
     if mac_state s = MAC_IDLE \<or> mac_state s = MAC_ASSOCIATED then Some s
     else do {
       find_buf \<leftarrow>
         (if src_addr_mode (mac_parse_data s) = FCF_SHORT
          then map_option (\<lambda>a. Some \<lparr>compare_func_id = MAC_DATA_FIND_SHORT_ADDR, handle = HShort a\<rparr>)
                 (short_address (src_addr (mac_parse_data s)))
          else if src_addr_mode (mac_parse_data s) = FCF_LONG_ADDR
          then map_option (\<lambda>a. Some \<lparr>compare_func_id = MAC_DATA_FIND_EXT_ADDR, handle = HLong a\<rparr>)
                 (long_address (src_addr (mac_parse_data s)))
          else Some None);
       case find_buf of
         None \<Rightarrow> Some s
       | Some sr \<Rightarrow> do {
           (next, q, s) \<leftarrow> qmm_queue_read (Some sr) (indirect_data_q s) s;
           case next of
             None \<Rightarrow> mac_data_tx_null_frame env s
           | Some b \<Rightarrow> do {
               f \<leftarrow> get_frame s b;
               pan \<leftarrow> mac_utils_byte_array_to_16_bit (drop PL_POS_DST_PAN_ID_START (mpdu_p f));
               if src_panid (mac_parse_data s) \<noteq> pan then mac_data_tx_null_frame env s
               else send_indirect env sr b s
             }
         }
     }
   }"

subsection \<open>The end of a transmission\<close>

definition remove_frame_from_indirect_q :: "frame_info_t \<Rightarrow> mac_st \<Rightarrow> mac_st option" where
  "remove_frame_from_indirect_q f s = do {
     h \<leftarrow> buffer_header_p f;
     (b, q, s) \<leftarrow> qmm_queue_remove (Some \<lparr>compare_func_id = MAC_FIND_BUFFER, handle = HBuffer h\<rparr>)
                    (indirect_data_q s) s;
     let s = s\<lparr>indirect_data_q := q\<rparr>;
     Some (if qsize (indirect_data_q s) = 0 then mac_hal_frame_pending False s else s)
   }"

definition mcps_tx_done :: "u8 \<Rightarrow> nat \<Rightarrow> frame_info_t \<Rightarrow> mac_st \<Rightarrow> mac_st option" where
  "mcps_tx_done tx_status p f s = do {
     b \<leftarrow> buffer_header_p f;
     if indirect_in_transit f
     then do {
       let f = f\<lparr>indirect_in_transit := False\<rparr>;
       let s = put_body p (Frame f) s;
       if tx_status = MAC_SUCCESS \<or> tx_status = MAC_FRAME_TOO_LONG
       then do {
         s \<leftarrow> remove_frame_from_indirect_q f s;
         mac_gen_mcps_data_conf b tx_status (frame_info_t.msduHandle f) (time_stamp f) s
       }
       else Some s
     }
     else mac_gen_mcps_data_conf b tx_status (frame_info_t.msduHandle f) (time_stamp f) s
   }"

text \<open>
  \<open>frame_p\<close> is the frame in the body of a buffer.  The cases of other services are the
  environment's.
\<close>

definition mac_hal_intf_tx_frame_done :: "macEnv \<Rightarrow> u8 \<Rightarrow> nat option \<Rightarrow> mac_st \<Rightarrow> mac_st option" where
  "mac_hal_intf_tx_frame_done env tx_status frame_p s =
     (if tx_status = HAL_BC_TX_DONE
      then do {
        let g = mac_stats_g s;
        let s = s\<lparr>mac_stats_g := g\<lparr>tx_bc_pkts_count := tx_bc_pkts_count g + 1\<rparr>\<rparr>;
        p \<leftarrow> frame_p;
        f \<leftarrow> get_frame s p;
        n \<leftarrow> arr_get (mpdu_p f) 0;
        let g = mac_stats_g s;
        Some (s\<lparr>mac_stats_g := g\<lparr>tx_bc_bytes_count := tx_bc_bytes_count g + ucast n + 2\<rparr>\<rparr>)
      }
      else do {
        p \<leftarrow> frame_p;
        f \<leftarrow> get_frame s p;
        n \<leftarrow> arr_get (mpdu_p f) 0;
        let g = mac_stats_g s;
        let s = (if tx_status \<noteq> MAC_CHANNEL_ACCESS_FAILURE
                 then s\<lparr>mac_stats_g := g\<lparr>tx_pkts_count := tx_pkts_count g + 1,
                        tx_bytes_count := tx_bytes_count g + ucast n + 2\<rparr>\<rparr>
                 else s);
        if mac_scan_state s = MAC_SCAN_ACTIVE \<and> msg_type f = BEACONREQUEST \<or>
           mac_scan_state s = MAC_SCAN_ORPHAN \<and> msg_type f = ORPHANNOTIFICATION
        then scan_send_complete env tx_status s
        else
          (case msg_type f of
             MCPS_MESSAGE \<Rightarrow> mcps_tx_done tx_status p f s
           | NULL_FRAME \<Rightarrow> bmm_buffer_free (buffer_header_p f) s
           | DATAREQUEST \<Rightarrow> bmm_buffer_free (buffer_header_p f) s
           | DATAREQUEST_IMPL_POLL \<Rightarrow> bmm_buffer_free (buffer_header_p f) s
           | PANIDCONFLICTNOTIFICAION \<Rightarrow> bmm_buffer_free (buffer_header_p f) s
           | ASSOCIATIONRESPONSE \<Rightarrow> Some (put_body p (Frame (f\<lparr>indirect_in_transit := False\<rparr>)) s)
           | ASSOCIATIONREQUEST \<Rightarrow> other_done env ASSOCIATIONREQUEST tx_status (buffer_header_p f) s
           | COORDINATORREALIGNMENT \<Rightarrow> other_done env COORDINATORREALIGNMENT tx_status (buffer_header_p f) s
           | _ \<Rightarrow> Some s)
      })"

datatype hw_tx_status = TX_STATUS_OK | TX_STATUS_OK_DATA_PENDING | TX_STATUS_NO_ACK | TX_STATUS_NO_CCA
  | TX_STATUS_HANG_RECOVERED

definition hal_zb_tx_done_handler :: "macEnv \<Rightarrow> hw_tx_status \<Rightarrow> mac_st \<Rightarrow> mac_st option" where
  "hal_zb_tx_done_handler env hw s =
     (let s = s\<lparr>mac_busy := False\<rparr> in
      case mac_frame_p s of
        None \<Rightarrow> Some s
      | Some p \<Rightarrow> do {
          f \<leftarrow> get_frame s p;
          let s = put_body p (Frame (f\<lparr>time_stamp := tx_time env (mac_trace s)\<rparr>)) s;
          let g = mac_stats_g s;
          let s = (if hw = TX_STATUS_OK_DATA_PENDING
                   then s\<lparr>mac_stats_g := g\<lparr>tx_frame_pending := tx_frame_pending g + 1\<rparr>\<rparr> else s);
          let tx_status = (case hw of TX_STATUS_NO_ACK \<Rightarrow> MAC_NO_ACK
                                    | TX_STATUS_OK_DATA_PENDING \<Rightarrow> HAL_FRAME_PENDING
                                    | TX_STATUS_OK \<Rightarrow> MAC_SUCCESS
                                    | _ \<Rightarrow> MAC_CHANNEL_ACCESS_FAILURE);
          s \<leftarrow> mac_hal_intf_tx_frame_done env tx_status (Some p) s;
          Some (s\<lparr>mac_frame_p := None\<rparr>)
        })"

subsection \<open>Expiry of indirect frames\<close>

definition handle_exp_persistence_timer :: "macEnv \<Rightarrow> nat \<Rightarrow> mac_st \<Rightarrow> mac_st option" where
  "handle_exp_persistence_timer env b s = do {
     f \<leftarrow> get_frame s b;
     case msg_type f of
       ASSOCIATIONRESPONSE \<Rightarrow> other_expired env ASSOCIATIONRESPONSE b s
     | DISASSOCIATIONNOTIFICATION \<Rightarrow> other_expired env DISASSOCIATIONNOTIFICATION b s
     | MCPS_MESSAGE \<Rightarrow> mac_gen_mcps_data_conf b MAC_TRANSACTION_EXPIRED (frame_info_t.msduHandle f) 0 s
     | _ \<Rightarrow> Some s
   }"

text \<open>The \<open>do ... while\<close> loop that removes the expired frames, as long as it finds one.\<close>

partial_function (option) expire_loop :: "macEnv \<Rightarrow> search_t \<Rightarrow> mac_st \<Rightarrow> mac_st option" where
  "expire_loop env find_buf s = do {
     (b, q, s) \<leftarrow> qmm_queue_remove (Some find_buf) (indirect_data_q s) s;
     let s = s\<lparr>indirect_data_q := q\<rparr>;
     case b of
       None \<Rightarrow> Some s
     | Some b \<Rightarrow> do { s \<leftarrow> handle_exp_persistence_timer env b s; expire_loop env find_buf s }
   }"

definition handle_persistence_time_decrement :: "macEnv \<Rightarrow> mac_st \<Rightarrow> mac_st option" where
  "handle_persistence_time_decrement env s = do {
     (_, q, s) \<leftarrow> qmm_queue_read (Some \<lparr>compare_func_id = MAC_DECREMENT_PERSI_TIME, handle = HNull\<rparr>)
                    (indirect_data_q s) s;
     s \<leftarrow> expire_loop env \<lparr>compare_func_id = MAC_CHECK_PERSI_TIME_ZERO, handle = HNull\<rparr> s;
     Some (mac_hal_frame_pending False s)
   }"

definition mac_persistence_timer_cb :: "macEnv \<Rightarrow> mac_st \<Rightarrow> mac_st option" where
  "mac_persistence_timer_cb env s = do {
     s \<leftarrow> handle_persistence_time_decrement env s;
     if qsize (indirect_data_q s) > 0 then mac_start_persistence_timer s else Some s
   }"

subsection \<open>Broadcast frames and beacons\<close>

definition mac_tx_pending_bc_data :: "macEnv \<Rightarrow> mac_st \<Rightarrow> mac_st option" where
  "mac_tx_pending_bc_data env s = do {
     (b, q, s) \<leftarrow> qmm_queue_remove None (broadcast_q s) s;
     let s = s\<lparr>broadcast_q := q\<rparr>;
     case b of
       None \<Rightarrow> Some s
     | Some b \<Rightarrow> do {
         f \<leftarrow> get_frame s b;
         let s = put_body b (Frame (f\<lparr>buffer_header_p := Some b\<rparr>)) s;
         (tx_status, s) \<leftarrow> mac_hal_tx_frame env b NO_CSMA False s;
         if tx_status = MAC_SUCCESS then Some (s\<lparr>mac_busy := True\<rparr>)
         else mac_gen_mcps_data_conf b MAC_CHANNEL_ACCESS_FAILURE (frame_info_t.msduHandle f) 0 s
       }
   }"

text \<open>The pending addresses in front of the beacon payload, and the number of their bytes.\<close>

definition mac_buffer_add_pending :: "mac_st \<Rightarrow> (u8 \<times> mac_st) option" where
  "mac_buffer_add_pending s = do {
     let s = s\<lparr>pending_address_count := 0\<rparr>;
     (_, q, s) \<leftarrow> qmm_queue_read (Some \<lparr>compare_func_id = MAC_BEACON_ADD_PENDING_EXT_ADDR, handle = HNull\<rparr>)
                    (indirect_data_q s) s;
     let number_of_ext_address = pending_address_count s;
     let s = s\<lparr>pending_address_count := 0\<rparr>;
     (_, q, s) \<leftarrow> qmm_queue_read (Some \<lparr>compare_func_id = MAC_BEACON_ADD_PENDING_SHORT_ADDR, handle = HNull\<rparr>)
                    (indirect_data_q s) s;
     let s = s\<lparr>beacon_out := (pending_address_count s OR push_bit 4 number_of_ext_address) # beacon_out s\<rparr>;
     let s = s\<lparr>pending_address_count := pending_address_count s * 2 + number_of_ext_address * 8\<rparr>;
     Some (pending_address_count s, s)
   }"

end
