(* ===== verification/QmmProps.thy ===== *)
theory QmmProps
  imports Qmm
begin

text \<open>
  What the buffer queues do: a queue is the sequence of the buffers it holds, and every
  operation is the corresponding operation on the sequence.  The buffers are a pool.
\<close>

subsection \<open>A queue as a sequence\<close>

definition queue_rep :: "'a mac_mem_scheme \<Rightarrow> queue_t \<Rightarrow> nat list \<Rightarrow> bool" where
  "queue_rep m q xs \<longleftrightarrow> distinct xs \<and> chain (bnext m) (qhead q) xs None \<and>
     qtail q = (if xs = [] then None else Some (last xs)) \<and>
     unat (qsize q) = length xs \<and> length xs \<le> unat (qcapacity q)"

lemma queue_rep_distinct: "queue_rep m q xs \<Longrightarrow> distinct xs" by (simp add: queue_rep_def)

lemma queue_rep_size: "queue_rep m q xs \<Longrightarrow> unat (qsize q) = length xs" by (simp add: queue_rep_def)

lemma queue_rep_empty: "queue_rep m q xs \<Longrightarrow> qsize q = 0 \<longleftrightarrow> xs = []"
  using queue_rep_size [of m q xs] unat_eq_zero [of "qsize q"] by auto

lemma queue_rep_head: "queue_rep m q xs \<Longrightarrow> qhead q = (case xs of [] \<Rightarrow> None | x # _ \<Rightarrow> Some x)"
  by (cases xs) (auto simp: queue_rep_def)

text \<open>A queue depends on the links of its own buffers only.\<close>

lemma queue_rep_frame [fw_frame]:
  assumes "queue_rep m q xs" "\<And>x. x \<in> set xs \<Longrightarrow> bnext m' x = bnext m x"
  shows "queue_rep m' q xs"
proof -
  have "chain (bnext m) (qhead q) xs None = chain (bnext m') (qhead q) xs None"
    using assms(2) by (intro chain_cong) simp
  then show ?thesis using assms(1) by (simp add: queue_rep_def)
qed

lemma queue_rep_next_cong: "bnext m' = bnext m \<Longrightarrow> queue_rep m' q xs = queue_rep m q xs"
  by (simp add: queue_rep_def)

lemma queue_rep_upd [simp]:
  "queue_rep (m\<lparr>irqs := i\<rparr>) q xs = queue_rep m q xs"
  "queue_rep (m\<lparr>body := g\<rparr>) q xs = queue_rep m q xs"
  "queue_rep (m\<lparr>pending_address_count := c\<rparr>) q xs = queue_rep m q xs"
  "queue_rep (m\<lparr>beacon_out := o'\<rparr>) q xs = queue_rep m q xs"
  by (simp_all add: queue_rep_def)

lemma queue_init_rep: "queue_rep m (qmm_queue_init c) []"
  by (simp add: queue_rep_def qmm_queue_init_def)

text \<open>What a queue operation may write: links of the buffers in a given set, nothing else.\<close>

definition links_only :: "nat set \<Rightarrow> 'a mac_mem_scheme \<Rightarrow> 'a mac_mem_scheme \<Rightarrow> bool" where
  "links_only A m m' \<longleftrightarrow> m' = m\<lparr>bnext := bnext m'\<rparr> \<and> (\<forall>x. x \<notin> A \<longrightarrow> bnext m' x = bnext m x)"

lemma links_only_refl [simp]: "links_only A m m" by (simp add: links_only_def)

lemma links_only_upd: "x \<in> A \<Longrightarrow> links_only A m (m\<lparr>bnext := (bnext m)(x := v)\<rparr>)"
  by (simp add: links_only_def)

lemma links_only_trans:
  assumes "links_only A m m'" "links_only B m' m''"
  shows "links_only (A \<union> B) m m''"
proof -
  obtain f g where "m' = m\<lparr>bnext := f\<rparr>" "m'' = m'\<lparr>bnext := g\<rparr>"
    using assms unfolding links_only_def by blast
  with assms show ?thesis by (simp add: links_only_def)
qed

lemma links_only_rep:
  "links_only A m m' \<Longrightarrow> queue_rep m q xs \<Longrightarrow> A \<inter> set xs = {} \<Longrightarrow> queue_rep m' q xs"
  by (erule queue_rep_frame) (auto simp: links_only_def)

lemma links_only_fields:
  assumes "links_only A m m'"
  shows "body m' = body m" "irqs m' = irqs m" "pending_address_count m' = pending_address_count m"
    "beacon_out m' = beacon_out m" "more m' = more m"
proof -
  obtain f where "m' = m\<lparr>bnext := f\<rparr>" using assms unfolding links_only_def by blast
  then show "body m' = body m" "irqs m' = irqs m" "pending_address_count m' = pending_address_count m"
    "beacon_out m' = beacon_out m" "more m' = more m" by simp_all
qed

lemma irqs_restore [simp]: "m\<lparr>irqs := False, irqs := irqs m\<rparr> = m" by simp

lemma queue_append_full:
  assumes "queue_rep m q xs" "length xs = unat (qcapacity q)"
  shows "qmm_queue_append q b m = Some (False, q, m)"
proof -
  have "qsize q = qcapacity q" using assms by (simp add: queue_rep_def word_unat_eq_iff)
  then show ?thesis by (simp add: qmm_queue_append_def Let_def)
qed

lemma queue_append_rep:
  assumes rep: "queue_rep m q xs" and b: "b \<notin> set xs" and room: "length xs < unat (qcapacity q)"
  shows "\<exists>q' m'. qmm_queue_append q b m = Some (True, q', m') \<and> queue_rep m' q' (xs @ [b]) \<and>
    qcapacity q' = qcapacity q \<and> links_only (insert b (set xs)) m m'"
proof -
  have ne: "qsize q \<noteq> qcapacity q" using rep room by (auto simp: queue_rep_def)
  have sz: "unat (qsize q + 1) = Suc (length xs)"
    using rep room unat_u8_less [of "qcapacity q"] by (simp add: queue_rep_def unat_word_ariths)
  show ?thesis
  proof (cases "xs = []")
    case True
    then have "qsize q = 0" using queue_rep_empty [OF rep] by simp
    let ?q = "q\<lparr>qhead := Some b, qtail := Some b, qsize := qsize q + 1\<rparr>"
    let ?m = "m\<lparr>bnext := (bnext m)(b := None)\<rparr>"
    have "qmm_queue_append q b m = Some (True, ?q, ?m)"
      using ne \<open>qsize q = 0\<close> by (simp add: qmm_queue_append_def Let_def)
    moreover have "queue_rep ?m ?q (xs @ [b])"
      using rep True room sz by (simp add: queue_rep_def)
    moreover have "links_only (insert b (set xs)) m ?m" by (rule links_only_upd) simp
    ultimately show ?thesis by auto
  next
    case False
    then have "qsize q \<noteq> 0" using queue_rep_empty [OF rep] by simp
    let ?t = "last xs"
    let ?q = "q\<lparr>qtail := Some b, qsize := qsize q + 1\<rparr>"
    let ?m = "m\<lparr>bnext := (bnext m)(?t := Some b, b := None)\<rparr>"
    have t: "qtail q = Some ?t" "?t \<noteq> b" "?t \<in> set xs" using rep False b by (auto simp: queue_rep_def)
    have "qmm_queue_append q b m = Some (True, ?q, ?m)"
      using ne \<open>qsize q \<noteq> 0\<close> t by (simp add: qmm_queue_append_def Let_def)
    moreover have "queue_rep ?m ?q (xs @ [b])"
    proof -
      have "chain ((bnext m)(?t := Some b)) (qhead q) xs (Some b)"
        using rep False by (intro chain_replace_last) (auto simp: queue_rep_def)
      then have "chain ((bnext m)(?t := Some b, b := None)) (qhead q) (xs @ [b]) None"
        using b by (simp add: chain_append)
      then show ?thesis using rep b room sz by (simp add: queue_rep_def)
    qed
    moreover have "links_only (insert b (set xs)) m ?m"
      using t(3) by (simp add: links_only_def)
    ultimately show ?thesis by auto
  qed
qed

text \<open>Where a search that has no effect stops.\<close>

definition search_prev :: "nat list \<Rightarrow> nat option \<Rightarrow> nat option" where
  "search_prev us prev = (if us = [] then prev else Some (last us))"

lemma qmm_search_pure:
  assumes "chain (bnext m) cur xs None" "\<And>b. b \<in> set xs \<Longrightarrow> qmm_compare s b m = Some (Some (P b, m))"
  shows "qmm_search s cur prev m =
    Some (case dropWhile (\<lambda>b. \<not> P b) xs of [] \<Rightarrow> None | b # _ \<Rightarrow> Some b,
          search_prev (takeWhile (\<lambda>b. \<not> P b) xs) prev, False, m)"
  using assms
proof (induction xs arbitrary: cur prev)
  case Nil
  then show ?case by (subst qmm_search.simps) (simp add: search_prev_def)
next
  case (Cons x xs)
  then show ?case
    by (subst qmm_search.simps) (auto simp: search_prev_def)
qed

lemma qmm_unlink_rep:
  assumes rep: "queue_rep m q (us @ b # vs)" and prev: "prev = search_prev us (qhead q)"
  shows "\<exists>q' m'. qmm_unlink b prev q m = Some (q', m') \<and> queue_rep m' q' (us @ vs) \<and>
    qcapacity q' = qcapacity q \<and> links_only (set us) m m'"
proof -
  have sz: "unat (qsize q - 1) = length (us @ vs)"
    using rep by (subst unat_minus_one) (auto simp: queue_rep_def)
  have d: "distinct (us @ b # vs)" and ch: "chain (bnext m) (qhead q) us (Some b)"
    "chain (bnext m) (bnext m b) vs None"
    using rep by (auto simp: queue_rep_def chain_append)
  have hd: "qhead q = Some (case us of [] \<Rightarrow> b | u # _ \<Rightarrow> u)"
    using ch(1) by (cases us) auto
  have tl: "Some b = qtail q \<longleftrightarrow> vs = []"
    using rep d by (auto simp: queue_rep_def split: if_splits)
  show ?thesis
  proof (cases "us = []")
    case True
    let ?q = "q\<lparr>qhead := bnext m b, qtail := (if vs = [] then None else qtail q), qsize := qsize q - 1\<rparr>"
    have "bnext m b = None \<longleftrightarrow> vs = []" using ch(2) by (cases vs) auto
    then have "qmm_unlink b prev q m = Some (?q, m)"
      using True hd prev tl by (auto simp: qmm_unlink_def Let_def search_prev_def)
    moreover have "queue_rep m ?q (us @ vs)"
      using rep True sz ch(2) by (auto simp: queue_rep_def)
    ultimately show ?thesis by auto
  next
    case False
    let ?p = "last us"
    let ?q = "q\<lparr>qtail := (if vs = [] then Some ?p else qtail q), qsize := qsize q - 1\<rparr>"
    let ?m = "m\<lparr>bnext := (bnext m)(?p := bnext m b)\<rparr>"
    have "qhead q \<noteq> Some b" using hd False d by (cases us) auto
    then have "qmm_unlink b prev q m = Some (?q, ?m)"
      using False hd prev tl by (auto simp: qmm_unlink_def Let_def search_prev_def)
    moreover have "queue_rep ?m ?q (us @ vs)"
    proof -
      have "?p \<notin> set vs" using False d by (meson Un_iff disjoint_iff distinct_append last_in_set set_ConsD list.set_intros(2))
      then have "chain ((bnext m)(?p := bnext m b)) (qhead q) (us @ vs) None"
        using ch False d chain_replace_last [OF ch(1) False, of "bnext m b"] by (auto simp: chain_append)
      then show ?thesis using rep False sz by (auto simp: queue_rep_def)
    qed
    moreover have "links_only (set us) m ?m" using False by (intro links_only_upd) simp
    ultimately show ?thesis by auto
  qed
qed

subsection \<open>Reading and removing\<close>

lemma links_only_irqs:
  assumes "links_only A (m\<lparr>irqs := False\<rparr>) m'"
  shows "links_only A m (m'\<lparr>irqs := irqs m\<rparr>)"
proof -
  obtain f where "m' = m\<lparr>irqs := False\<rparr>\<lparr>bnext := f\<rparr>" using assms unfolding links_only_def by blast
  with assms show ?thesis by (simp add: links_only_def)
qed

text \<open>A search without side effects, whatever the interrupt bit is.\<close>

definition pure_search :: "search_t \<Rightarrow> 'a mac_mem_scheme \<Rightarrow> nat list \<Rightarrow> (nat \<Rightarrow> bool) \<Rightarrow> bool" where
  "pure_search s m xs P \<longleftrightarrow>
     (\<forall>b \<in> set xs. \<forall>i. qmm_compare s b (m\<lparr>irqs := i\<rparr>) = Some (Some (P b, m\<lparr>irqs := i\<rparr>)))"

lemma queue_search:
  assumes rep: "queue_rep m q xs" and pure: "pure_search s m xs P"
  shows "qmm_search s (qhead q) (qhead q) (m\<lparr>irqs := False\<rparr>) =
    Some (case dropWhile (\<lambda>b. \<not> P b) xs of [] \<Rightarrow> None | b # _ \<Rightarrow> Some b,
          search_prev (takeWhile (\<lambda>b. \<not> P b) xs) (qhead q), False, m\<lparr>irqs := False\<rparr>)"
proof (rule qmm_search_pure)
  show "chain (bnext (m\<lparr>irqs := False\<rparr>)) (qhead q) xs None" using rep by (simp add: queue_rep_def)
  show "qmm_compare s b (m\<lparr>irqs := False\<rparr>) = Some (Some (P b, m\<lparr>irqs := False\<rparr>))" if "b \<in> set xs" for b
    using pure that unfolding pure_search_def by blast
qed

lemma search_prev_head [simp]: "search_prev [] p = p" by (simp add: search_prev_def)

lemma queue_read_empty:
  assumes "queue_rep m q []"
  shows "qmm_queue_remove s q m = Some (None, q, m)" "qmm_queue_read s q m = Some (None, q, m)"
  using queue_rep_empty [OF assms]
  by (simp_all add: qmm_queue_remove_def qmm_queue_read_def queue_read_or_remove_def Let_def)

lemma queue_remove_first:
  assumes rep: "queue_rep m q (b # vs)"
  shows "\<exists>q' m'. qmm_queue_remove None q m = Some (Some b, q', m') \<and> queue_rep m' q' vs \<and>
    qcapacity q' = qcapacity q \<and> links_only {} m m'"
proof -
  let ?m = "m\<lparr>irqs := False\<rparr>"
  have hd: "qhead q = Some b" "qsize q \<noteq> 0" using rep queue_rep_empty [OF rep] by (auto simp: queue_rep_def)
  obtain q' m' where u: "qmm_unlink b (qhead q) q ?m = Some (q', m')" "queue_rep m' q' vs"
    "qcapacity q' = qcapacity q" "links_only {} ?m m'"
    using qmm_unlink_rep [of ?m q "[]" b vs "qhead q"] rep by auto
  then have "qmm_queue_remove None q m = Some (Some b, q', m'\<lparr>irqs := irqs m\<rparr>)"
    using hd by (simp add: qmm_queue_remove_def queue_read_or_remove_def Let_def)
  with u links_only_irqs [OF u(4)] show ?thesis by auto
qed

lemma queue_search_found:
  assumes rep: "queue_rep m q (us @ b # vs)" and pure: "pure_search s m (us @ b # vs) P"
    and us: "\<forall>u \<in> set us. \<not> P u" and b: "P b"
  shows "qmm_queue_read (Some s) q m = Some (Some b, q, m)"
    "\<exists>q' m'. qmm_queue_remove (Some s) q m = Some (Some b, q', m') \<and> queue_rep m' q' (us @ vs) \<and>
       qcapacity q' = qcapacity q \<and> links_only (set us) m m'"
proof -
  let ?m = "m\<lparr>irqs := False\<rparr>"
  have ne: "qsize q \<noteq> 0" using queue_rep_empty [OF rep] by simp
  have tw: "takeWhile (\<lambda>b. \<not> P b) (us @ b # vs) = us" "dropWhile (\<lambda>b. \<not> P b) (us @ b # vs) = b # vs"
    using us b by (auto simp: takeWhile_append dropWhile_append3)
  have srch: "qmm_search s (qhead q) (qhead q) ?m = Some (Some b, search_prev us (qhead q), False, ?m)"
    using queue_search [OF rep pure] unfolding tw by simp
  show "qmm_queue_read (Some s) q m = Some (Some b, q, m)"
    using ne srch by (simp add: qmm_queue_read_def queue_read_or_remove_def Let_def)
  obtain q' m' where u: "qmm_unlink b (search_prev us (qhead q)) q ?m = Some (q', m')"
    "queue_rep m' q' (us @ vs)" "qcapacity q' = qcapacity q" "links_only (set us) ?m m'"
    using qmm_unlink_rep [of ?m q us b vs, OF _ refl] rep by auto
  then have "qmm_queue_remove (Some s) q m = Some (Some b, q', m'\<lparr>irqs := irqs m\<rparr>)"
    using ne srch by (simp add: qmm_queue_remove_def queue_read_or_remove_def Let_def)
  with u links_only_irqs [OF u(4)]
  show "\<exists>q' m'. qmm_queue_remove (Some s) q m = Some (Some b, q', m') \<and> queue_rep m' q' (us @ vs) \<and>
       qcapacity q' = qcapacity q \<and> links_only (set us) m m'" by auto
qed

lemma queue_search_none:
  assumes rep: "queue_rep m q xs" and pure: "pure_search s m xs P" and no: "\<forall>x \<in> set xs. \<not> P x"
  shows "qmm_queue_read (Some s) q m = Some (None, q, m)"
    "qmm_queue_remove (Some s) q m = Some (None, q, m)"
proof -
  let ?m = "m\<lparr>irqs := False\<rparr>"
  have dw: "dropWhile (\<lambda>b. \<not> P b) xs = []" using no by simp
  have "\<exists>p. qmm_search s (qhead q) (qhead q) ?m = Some (None, p, False, ?m)"
    using queue_search [OF rep pure] unfolding dw by simp
  then show "qmm_queue_read (Some s) q m = Some (None, q, m)"
    "qmm_queue_remove (Some s) q m = Some (None, q, m)"
    by (auto simp: qmm_queue_read_def qmm_queue_remove_def queue_read_or_remove_def Let_def)
qed

lemma find_split:
  "find P xs = Some b \<Longrightarrow> \<exists>us vs. xs = us @ b # vs \<and> P b \<and> (\<forall>u \<in> set us. \<not> P u)"
proof (induction xs)
  case (Cons x xs)
  show ?case
  proof (cases "P x")
    case True
    with Cons.prems show ?thesis by (intro exI [of _ "[]"] exI [of _ xs]) simp
  next
    case False
    with Cons obtain us vs where "xs = us @ b # vs" "P b" "\<forall>u \<in> set us. \<not> P u" by auto
    with False show ?thesis by (intro exI [of _ "x # us"] exI [of _ vs]) simp
  qed
qed simp

lemma queue_search_read:
  assumes "queue_rep m q xs" "pure_search s m xs P"
  shows "qmm_queue_read (Some s) q m = Some (find P xs, q, m)"
proof (cases "find P xs")
  case None
  then have "\<forall>x \<in> set xs. \<not> P x" by (auto simp: find_None_iff)
  from queue_search_none(1) [OF assms this] None show ?thesis by simp
next
  case (Some b)
  then obtain us vs where xs: "xs = us @ b # vs" and P: "P b" "\<forall>u \<in> set us. \<not> P u"
    using find_split by metis
  show ?thesis using queue_search_found(1) [OF assms [unfolded xs] P(2,1)] Some by (simp add: xs)
qed

subsection \<open>The buffer pool\<close>

definition bmm_inv :: "'a bmm_mem_scheme \<Rightarrow> nat list \<Rightarrow> bool" where
  "bmm_inv m fl \<longleftrightarrow> queue_rep m (free_buffer_q m) fl \<and>
     unat (qcapacity (free_buffer_q m)) = TOTAL_NUMBER_OF_BUFFERS \<and>
     set fl \<subseteq> {..<TOTAL_NUMBER_OF_BUFFERS} \<and>
     unat (buffCount m) + length fl = TOTAL_NUMBER_OF_BUFFERS"

text \<open>What the pool operations may change besides the links in \<open>A\<close>.\<close>

definition bmm_only :: "nat set \<Rightarrow> 'a bmm_mem_scheme \<Rightarrow> 'a bmm_mem_scheme \<Rightarrow> bool" where
  "bmm_only A m m' \<longleftrightarrow>
     m' = m\<lparr>bnext := bnext m', free_buffer_q := free_buffer_q m', buffCount := buffCount m'\<rparr> \<and>
     (\<forall>x. x \<notin> A \<longrightarrow> bnext m' x = bnext m x)"

lemma bmm_onlyI:
  "m' = m\<lparr>bnext := f, free_buffer_q := q, buffCount := c\<rparr> \<Longrightarrow> (\<And>x. x \<notin> A \<Longrightarrow> f x = bnext m x) \<Longrightarrow>
     bmm_only A m m'"
  by (simp add: bmm_only_def)

lemma bmm_onlyE:
  assumes "bmm_only A m m'"
  obtains f q c where "m' = m\<lparr>bnext := f, free_buffer_q := q, buffCount := c\<rparr>"
    "\<And>x. x \<notin> A \<Longrightarrow> f x = bnext m x"
  using assms unfolding bmm_only_def by blast

lemma bmm_only_rep:
  "bmm_only A m m' \<Longrightarrow> queue_rep m q xs \<Longrightarrow> A \<inter> set xs = {} \<Longrightarrow> queue_rep m' q xs"
  by (erule queue_rep_frame) (auto simp: bmm_only_def)

lemma bmm_only_fields:
  assumes "bmm_only A m m'"
  shows "body m' = body m" "irqs m' = irqs m" "pending_address_count m' = pending_address_count m"
    "beacon_out m' = beacon_out m" "bmm_mem.more m' = bmm_mem.more m"
  using assms by (auto elim!: bmm_onlyE)

lemma queue_rep_bmm_upd [simp]:
  "queue_rep (m\<lparr>free_buffer_q := q'\<rparr>) q xs = queue_rep m q xs"
  "queue_rep (m\<lparr>buffCount := c\<rparr>) q xs = queue_rep m q xs"
  by (simp_all add: queue_rep_def)

lemma links_only_bmm:
  fixes m m' :: "'a bmm_mem_scheme"
  assumes "links_only A m m'"
  shows "m'\<lparr>free_buffer_q := q, buffCount := c\<rparr> = m\<lparr>bnext := bnext m', free_buffer_q := q, buffCount := c\<rparr>"
    "free_buffer_q m' = free_buffer_q m" "buffCount m' = buffCount m"
proof -
  obtain f where "m' = m\<lparr>bnext := f\<rparr>" using assms unfolding links_only_def by blast
  then show "m'\<lparr>free_buffer_q := q, buffCount := c\<rparr> = m\<lparr>bnext := bnext m', free_buffer_q := q, buffCount := c\<rparr>"
    "free_buffer_q m' = free_buffer_q m" "buffCount m' = buffCount m" by simp_all
qed

lemma BUFFER_SIZE_ok [simp]: "unat (of_nat BUFFER_SIZE :: u8) \<le> BUFFER_SIZE"
  by (simp add: BUFFER_SIZE_def)

lemma bmm_alloc_some:
  assumes "bmm_inv m (b # fl)"
  shows "\<exists>m'. bmm_buffer_alloc (of_nat BUFFER_SIZE) m = Some (Some b, m') \<and> bmm_inv m' fl \<and>
    bmm_only {} m m'"
proof -
  have rep: "queue_rep m (free_buffer_q m) (b # fl)" using assms by (simp add: bmm_inv_def)
  obtain q' m' where r: "qmm_queue_remove None (free_buffer_q m) m = Some (Some b, q', m')"
    "queue_rep m' q' fl" "qcapacity q' = qcapacity (free_buffer_q m)" "links_only {} m m'"
    using queue_remove_first [OF rep] by blast
  let ?m = "m'\<lparr>free_buffer_q := q', buffCount := buffCount m + 1\<rparr>"
  have run: "bmm_buffer_alloc (of_nat BUFFER_SIZE) m = Some (Some b, ?m)"
    using r(1) links_only_bmm(3) [OF r(4)] by (simp add: bmm_buffer_alloc_def)
  have "unat (buffCount m + 1) = Suc (unat (buffCount m))"
    using assms by (simp add: bmm_inv_def unat_word_ariths TOTAL_NUMBER_OF_BUFFERS_def)
  then have inv: "bmm_inv ?m fl" using assms r(2,3) by (auto simp: bmm_inv_def)
  have "bmm_only {} m ?m"
    using r(4) by (intro bmm_onlyI [OF links_only_bmm(1) [OF r(4)]]) (simp add: links_only_def)
  with run inv show ?thesis by blast
qed

lemma bmm_alloc_none:
  assumes "bmm_inv m []"
  shows "bmm_buffer_alloc (of_nat BUFFER_SIZE) m = Some (None, m)"
  using assms queue_read_empty(1) [of m "free_buffer_q m"]
  by (simp add: bmm_inv_def bmm_buffer_alloc_def)

lemma bmm_free_spec:
  assumes inv: "bmm_inv m fl" and b: "b \<notin> set fl" "b < TOTAL_NUMBER_OF_BUFFERS"
  shows "\<exists>m'. bmm_buffer_free (Some b) m = Some m' \<and> bmm_inv m' (fl @ [b]) \<and>
    bmm_only (insert b (set fl)) m m'"
proof -
  have rep: "queue_rep m (free_buffer_q m) fl" using inv by (simp add: bmm_inv_def)
  have "card (insert b (set fl)) \<le> card {..<TOTAL_NUMBER_OF_BUFFERS}"
    using inv b(2) by (intro card_mono) (auto simp: bmm_inv_def)
  then have "length fl < TOTAL_NUMBER_OF_BUFFERS"
    using b(1) queue_rep_distinct [OF rep] by (simp add: distinct_card)
  then have room: "length fl < unat (qcapacity (free_buffer_q m))" using inv by (simp add: bmm_inv_def)
  let ?n = "m\<lparr>buffCount := buffCount m - 1\<rparr>"
  have rep0: "queue_rep ?n (free_buffer_q m) fl" using rep by simp
  obtain q' m' where a: "qmm_queue_append (free_buffer_q m) b ?n = Some (True, q', m')"
    "queue_rep m' q' (fl @ [b])" "qcapacity q' = qcapacity (free_buffer_q m)"
    "links_only (insert b (set fl)) ?n m'"
    using queue_append_rep [OF rep0 b(1) room] by blast
  let ?m = "m'\<lparr>free_buffer_q := q'\<rparr>"
  have run: "bmm_buffer_free (Some b) m = Some ?m" using a(1) by (simp add: bmm_buffer_free_def)
  have cnt: "buffCount m' = buffCount m - 1" using links_only_bmm(3) [OF a(4)] by simp
  have pos: "unat (buffCount m) = TOTAL_NUMBER_OF_BUFFERS - length fl" using inv by (auto simp: bmm_inv_def)
  with \<open>length fl < TOTAL_NUMBER_OF_BUFFERS\<close> have "buffCount m \<noteq> 0" by auto
  then have "unat (buffCount m - 1) = unat (buffCount m) - 1" by (rule unat_minus_one)
  then have "bmm_inv ?m (fl @ [b])"
    using inv a(2,3) b cnt pos \<open>length fl < TOTAL_NUMBER_OF_BUFFERS\<close> by (auto simp: bmm_inv_def)
  moreover have "bmm_only (insert b (set fl)) m ?m"
  proof (rule bmm_onlyI)
    show "?m = m\<lparr>bnext := bnext m', free_buffer_q := q', buffCount := buffCount m - 1\<rparr>"
    proof -
      obtain f where "m' = ?n\<lparr>bnext := f\<rparr>" using a(4) unfolding links_only_def by blast
      then show ?thesis by simp
    qed
    show "bnext m' x = bnext m x" if "x \<notin> insert b (set fl)" for x
      using a(4) that by (simp add: links_only_def)
  qed
  ultimately show ?thesis using run by blast
qed

lemma bmm_append_all_rep:
  "queue_rep m (free_buffer_q m) xs \<Longrightarrow> distinct (xs @ is) \<Longrightarrow>
     length (xs @ is) \<le> unat (qcapacity (free_buffer_q m)) \<Longrightarrow>
     \<exists>m'. bmm_append_all is m = Some m' \<and> queue_rep m' (free_buffer_q m') (xs @ is) \<and>
       qcapacity (free_buffer_q m') = qcapacity (free_buffer_q m) \<and> buffCount m' = buffCount m"
proof (induction "is" arbitrary: m xs)
  case Nil
  then show ?case by simp
next
  case (Cons i "is")
  then obtain q' m' where a: "qmm_queue_append (free_buffer_q m) i m = Some (True, q', m')"
    "queue_rep m' q' (xs @ [i])" "qcapacity q' = qcapacity (free_buffer_q m)" "links_only (insert i (set xs)) m m'"
    using queue_append_rep [of m "free_buffer_q m" xs i] by auto
  have "queue_rep (m'\<lparr>free_buffer_q := q'\<rparr>) (free_buffer_q (m'\<lparr>free_buffer_q := q'\<rparr>)) (xs @ [i])"
    using a(2) by simp
  from Cons.IH [OF this] obtain m'' where
    "bmm_append_all is (m'\<lparr>free_buffer_q := q'\<rparr>) = Some m''" "queue_rep m'' (free_buffer_q m'') ((xs @ [i]) @ is)"
    "qcapacity (free_buffer_q m'') = qcapacity q'" "buffCount m'' = buffCount m'"
    using Cons.prems(2,3) a(3) by auto
  with a(1,3) links_only_bmm(3) [OF a(4)] show ?case by simp
qed

lemma bmm_init_inv:
  assumes "buffCount m = 0"
  shows "\<exists>m'. bmm_buffer_init m = Some m' \<and> bmm_inv m' [0..<TOTAL_NUMBER_OF_BUFFERS]"
proof -
  let ?m = "m\<lparr>free_buffer_q := qmm_queue_init (of_nat TOTAL_NUMBER_OF_BUFFERS)\<rparr>"
  have "queue_rep ?m (free_buffer_q ?m) []" by (simp add: queue_init_rep)
  from bmm_append_all_rep [OF this, of "[0..<TOTAL_NUMBER_OF_BUFFERS]"]
  obtain m' where "bmm_append_all [0..<TOTAL_NUMBER_OF_BUFFERS] ?m = Some m'"
    "queue_rep m' (free_buffer_q m') [0..<TOTAL_NUMBER_OF_BUFFERS]"
    "qcapacity (free_buffer_q m') = of_nat TOTAL_NUMBER_OF_BUFFERS" "buffCount m' = 0"
    using assms by (auto simp: qmm_queue_init_def TOTAL_NUMBER_OF_BUFFERS_def)
  then show ?thesis by (auto simp: bmm_buffer_init_def bmm_inv_def TOTAL_NUMBER_OF_BUFFERS_def)
qed

subsection \<open>The contracts\<close>

definition qmm_offer ::
  "nat \<Rightarrow> queue_t \<times> 'a mac_mem_scheme \<Rightarrow> (bool \<times> queue_t \<times> 'a mac_mem_scheme) option" where
  "qmm_offer b qm = qmm_queue_append (fst qm) b (snd qm)"

definition qmm_take ::
  "queue_t \<times> 'a mac_mem_scheme \<Rightarrow> (nat option \<times> queue_t \<times> 'a mac_mem_scheme) option" where
  "qmm_take qm = qmm_queue_remove None (fst qm) (snd qm)"

definition queue_of :: "u8 \<Rightarrow> queue_t \<times> 'a mac_mem_scheme \<Rightarrow> nat list \<Rightarrow> bool" where
  "queue_of c qm xs \<longleftrightarrow> queue_rep (snd qm) (fst qm) xs \<and> qcapacity (fst qm) = c"

interpretation qmq: bounded_fifo "queue_of c" qmm_take "unat c" qmm_offer for c
proof unfold_locales
  fix s :: "queue_t \<times> 'a mac_mem_scheme" and x xs
  assume "queue_of c s (x # xs)"
  then show "\<exists>s'. qmm_take s = Some (Some x, s') \<and> queue_of c s' xs"
    using queue_remove_first [of "snd s" "fst s" x xs] by (auto simp: qmm_take_def queue_of_def)
next
  fix s :: "queue_t \<times> 'a mac_mem_scheme"
  assume "queue_of c s []"
  then show "\<exists>s'. qmm_take s = Some (None, s') \<and> queue_of c s' []"
    using queue_read_empty(1) [of "snd s" "fst s"] by (auto simp: qmm_take_def queue_of_def)
next
  fix s :: "queue_t \<times> 'a mac_mem_scheme" and xs
  assume "queue_of c s xs"
  then show "length xs \<le> unat c" by (auto simp: queue_of_def queue_rep_def)
next
  fix s :: "queue_t \<times> 'a mac_mem_scheme" and x xs
  assume "queue_of c s xs" "x \<notin> set xs" "length xs < unat c"
  then show "\<exists>s'. qmm_offer x s = Some (True, s') \<and> queue_of c s' (xs @ [x])"
    using queue_append_rep [of "snd s" "fst s" xs x] by (auto simp: qmm_offer_def queue_of_def)
next
  fix s :: "queue_t \<times> 'a mac_mem_scheme" and x xs
  assume "queue_of c s xs" "length xs = unat c"
  then show "\<exists>s'. qmm_offer x s = Some (False, s') \<and> queue_of c s' xs"
    using queue_append_full [of "snd s" "fst s" xs x] by (auto simp: qmm_offer_def queue_of_def)
qed

lemma queue_rep_unique: "queue_rep m q xs \<Longrightarrow> queue_rep m q ys \<Longrightarrow> xs = ys"
  using slist_rep_unique [of "\<lparr>lnk = bnext m, EA = False\<rparr>" "\<lparr>head = qhead q, tail = qtail q\<rparr>" xs ys]
  by (simp add: queue_rep_def slist_rep_def)

text \<open>The buffers in use: those that are not in the free queue.\<close>

definition bmm_ok :: "'a bmm_mem_scheme \<Rightarrow> bool" where "bmm_ok m \<longleftrightarrow> (\<exists>fl. bmm_inv m fl)"

definition bmm_used :: "'a bmm_mem_scheme \<Rightarrow> nat set" where
  "bmm_used m = {b. b < TOTAL_NUMBER_OF_BUFFERS \<and> (\<forall>fl. bmm_inv m fl \<longrightarrow> b \<notin> set fl)}"

lemma bmm_used_eq:
  assumes fl: "bmm_inv m fl"
  shows "bmm_used m = {..<TOTAL_NUMBER_OF_BUFFERS} - set fl"
proof -
  have "bmm_inv m xs \<longleftrightarrow> xs = fl" for xs
    using fl queue_rep_unique unfolding bmm_inv_def by blast
  then show ?thesis by (simp add: bmm_used_def set_diff_eq lessThan_iff)
qed

definition bmm_take :: "'a bmm_mem_scheme \<Rightarrow> (nat option \<times> 'a bmm_mem_scheme) option" where
  "bmm_take = bmm_buffer_alloc (of_nat BUFFER_SIZE)"

definition bmm_give :: "nat \<Rightarrow> 'a bmm_mem_scheme \<Rightarrow> 'a bmm_mem_scheme option" where
  "bmm_give b = bmm_buffer_free (Some b)"

interpretation bmmp: id_pool bmm_ok bmm_used "{..<TOTAL_NUMBER_OF_BUFFERS}" bmm_take bmm_give
proof unfold_locales
  show "finite {..<TOTAL_NUMBER_OF_BUFFERS}" by simp
next
  fix s :: "'a bmm_mem_scheme"
  show "bmm_used s \<subseteq> {..<TOTAL_NUMBER_OF_BUFFERS}" by (auto simp: bmm_used_def)
next
  fix s :: "'a bmm_mem_scheme"
  assume ok: "bmm_ok s" and used: "bmm_used s \<noteq> {..<TOTAL_NUMBER_OF_BUFFERS}"
  from ok obtain fl where fl: "bmm_inv s fl" by (auto simp: bmm_ok_def)
  have sub: "set fl \<subseteq> {..<TOTAL_NUMBER_OF_BUFFERS}" and d: "distinct fl"
    using fl queue_rep_distinct by (auto simp: bmm_inv_def)
  have "fl \<noteq> []" using used unfolding bmm_used_eq [OF fl] by (metis Diff_empty list.set(1))
  then obtain b bs where b: "fl = b # bs" by (cases fl) auto
  obtain s' where s': "bmm_buffer_alloc (of_nat BUFFER_SIZE) s = Some (Some b, s')" "bmm_inv s' bs"
    using bmm_alloc_some fl unfolding b by blast
  show "\<exists>h s'. bmm_take s = Some (Some h, s') \<and> bmm_ok s' \<and> h \<notin> bmm_used s \<and> bmm_used s' = insert h (bmm_used s)"
  proof (intro exI conjI)
    show "bmm_take s = Some (Some b, s')" using s'(1) by (simp add: bmm_take_def)
    show "bmm_ok s'" using s'(2) unfolding bmm_ok_def by blast
    show "b \<notin> bmm_used s" using bmm_used_eq [OF fl] b by simp
    show "bmm_used s' = insert b (bmm_used s)"
      unfolding bmm_used_eq [OF fl] bmm_used_eq [OF s'(2)] using sub d unfolding b by auto
  qed
next
  fix s :: "'a bmm_mem_scheme"
  assume ok: "bmm_ok s" and used: "bmm_used s = {..<TOTAL_NUMBER_OF_BUFFERS}"
  from ok obtain fl where fl: "bmm_inv s fl" by (auto simp: bmm_ok_def)
  then have "set fl \<subseteq> {..<TOTAL_NUMBER_OF_BUFFERS}" by (simp add: bmm_inv_def)
  moreover have "set fl \<inter> bmm_used s = {}" unfolding bmm_used_eq [OF fl] by blast
  ultimately have "set fl = {}" unfolding used by (simp add: inf.absorb1)
  then have "bmm_take s = Some (None, s)" using bmm_alloc_none fl by (simp add: bmm_take_def)
  with ok used
  show "\<exists>s'. bmm_take s = Some (None, s') \<and> bmm_ok s' \<and> bmm_used s' = {..<TOTAL_NUMBER_OF_BUFFERS}"
    by blast
next
  fix s :: "'a bmm_mem_scheme" and b
  assume ok: "bmm_ok s" and b: "b \<in> bmm_used s"
  from ok obtain fl where fl: "bmm_inv s fl" by (auto simp: bmm_ok_def)
  then have "b \<notin> set fl" "b < TOTAL_NUMBER_OF_BUFFERS" using b unfolding bmm_used_eq [OF fl] by simp_all
  from bmm_free_spec [OF fl this] obtain s' where s': "bmm_buffer_free (Some b) s = Some s'" "bmm_inv s' (fl @ [b])"
    by blast
  show "\<exists>s'. bmm_give b s = Some s' \<and> bmm_ok s' \<and> bmm_used s' = bmm_used s - {b}"
  proof (intro exI conjI)
    show "bmm_give b s = Some s'" using s'(1) by (simp add: bmm_give_def)
    show "bmm_ok s'" using s'(2) unfolding bmm_ok_def by blast
    show "bmm_used s' = bmm_used s - {b}"
      unfolding bmm_used_eq [OF fl] bmm_used_eq [OF s'(2)] by auto
  qed
qed

subsection \<open>A queue whose size is wrong\<close>

text \<open>
  After a buffer was released twice, the free queue is still a chain that ends, but its size
  counts more buffers than it holds.
\<close>

definition loose_free :: "'a bmm_mem_scheme \<Rightarrow> nat list \<Rightarrow> nat \<Rightarrow> bool" where
  "loose_free m xs n \<longleftrightarrow> distinct xs \<and> chain (bnext m) (qhead (free_buffer_q m)) xs None \<and>
     qtail (free_buffer_q m) = (if xs = [] then None else Some (last xs)) \<and>
     unat (qsize (free_buffer_q m)) = n \<and> length xs < n \<and>
     n < unat (qcapacity (free_buffer_q m))"

lemma loose_take:
  assumes "loose_free m (x # xs) n"
  shows "\<exists>m'. bmm_take m = Some (Some x, m') \<and> loose_free m' xs (n - 1)"
proof -
  let ?q = "free_buffer_q m" and ?n = "m\<lparr>irqs := False\<rparr>"
  have hd: "qhead ?q = Some x" "qsize ?q \<noteq> 0" "chain (bnext m) (bnext m x) xs None"
    using assms by (auto simp: loose_free_def)
  let ?r = "?q\<lparr>qhead := bnext m x, qtail := (if xs = [] then None else qtail ?q), qsize := qsize ?q - 1\<rparr>"
  have e: "bnext m x = None \<longleftrightarrow> xs = []" using hd(3) by (cases xs) auto
  have tl: "Some x = qtail ?q \<longleftrightarrow> xs = []" using assms by (auto simp: loose_free_def split: if_splits)
  have u: "qmm_unlink x (Some x) ?q ?n = Some (?r, ?n)"
    using hd(1) e tl by (auto simp: qmm_unlink_def Let_def)
  then have "qmm_queue_remove None ?q m = Some (Some x, ?r, m)"
    using hd(1,2) by (simp add: qmm_queue_remove_def queue_read_or_remove_def Let_def)
  then have "bmm_take m = Some (Some x, m\<lparr>free_buffer_q := ?r, buffCount := buffCount m + 1\<rparr>)"
    by (simp add: bmm_take_def bmm_buffer_alloc_def)
  moreover have "unat (qsize ?q - 1) = n - 1"
    using hd(2) assms by (subst unat_minus_one) (auto simp: loose_free_def)
  ultimately show ?thesis
    using assms hd(3) by (auto simp: loose_free_def)
qed

lemma loose_take_all:
  "loose_free m xs n \<Longrightarrow>
     \<exists>m'. deq_n bmm_take (length xs) m = Some (map Some xs, m') \<and> loose_free m' [] (n - length xs)"
proof (induction xs arbitrary: m n)
  case Nil
  then show ?case by simp
next
  case (Cons x xs)
  then obtain m1 where "bmm_take m = Some (Some x, m1)" "loose_free m1 xs (n - 1)"
    using loose_take by blast
  with Cons.IH [of m1 "n - 1"] show ?case by auto
qed

lemma loose_empty:
  assumes "loose_free m [] n"
  shows "bmm_take m = Some (None, m)" "bmm_buffer_free (Some b) m = None"
proof -
  have f: "qhead (free_buffer_q m) = None" "qtail (free_buffer_q m) = None"
    "qsize (free_buffer_q m) \<noteq> qcapacity (free_buffer_q m)" "qsize (free_buffer_q m) \<noteq> 0"
    using assms by (auto simp: loose_free_def)
  then show "bmm_take m = Some (None, m)"
    by (simp add: bmm_take_def bmm_buffer_alloc_def qmm_queue_remove_def queue_read_or_remove_def Let_def)
  show "bmm_buffer_free (Some b) m = None"
    using f by (simp add: bmm_buffer_free_def qmm_queue_append_def Let_def)
qed

lemma double_free_loose:
  assumes inv: "bmm_inv m (us @ b # vs)" and vs: "vs \<noteq> []" and "length (us @ b # vs) + 1 < TOTAL_NUMBER_OF_BUFFERS"
  shows "\<exists>m'. bmm_buffer_free (Some b) m = Some m' \<and> loose_free m' (us @ [b]) (length us + length vs + 2)"
proof -
  let ?q = "free_buffer_q m" and ?t = "last vs"
  have rep: "queue_rep m ?q (us @ b # vs)" and cap: "unat (qcapacity ?q) = TOTAL_NUMBER_OF_BUFFERS"
    using inv by (auto simp: bmm_inv_def)
  have sz: "unat (qsize ?q) = length us + length vs + 1" using rep by (simp add: queue_rep_def)
  have q: "qsize ?q \<noteq> 0" "qsize ?q \<noteq> qcapacity ?q" "qtail ?q = Some ?t"
    using rep cap sz assms(3) vs by (auto simp: queue_rep_def)
  let ?r = "?q\<lparr>qtail := Some b, qsize := qsize ?q + 1\<rparr>"
  let ?f = "(bnext m)(?t := Some b, b := None)"
  let ?n = "m\<lparr>buffCount := buffCount m - 1, bnext := ?f, free_buffer_q := ?r\<rparr>"
  have "bmm_buffer_free (Some b) m = Some ?n"
    using q by (simp add: bmm_buffer_free_def qmm_queue_append_def Let_def)
  moreover have "loose_free ?n (us @ [b]) (length us + length vs + 2)"
  proof -
    have d: "distinct (us @ b # vs)" and c: "chain (bnext m) (qhead ?q) us (Some b)"
      using rep by (auto simp: queue_rep_def chain_append)
    have "?t \<in> set vs" using vs by simp
    with d have "?t \<notin> set us" "b \<notin> set us" by auto
    then have "chain ?f (qhead ?q) us (Some b)" using c by simp
    moreover have "unat (qsize ?q + 1) = length us + length vs + 2"
      using sz assms(3) by (simp add: unat_word_ariths TOTAL_NUMBER_OF_BUFFERS_def)
    ultimately show ?thesis
      using d vs cap assms(3) by (auto simp: loose_free_def chain_append Suc_le_eq neq_Nil_conv)
  qed
  ultimately show ?thesis by blast
qed

subsection \<open>The properties\<close>

text \<open>C32.
  A buffer queue is a first-in first-out queue of its capacity.  Of the buffers offered to a new
  queue the first ones, as many as the capacity allows, are accepted, the others refused; they
  come out in the order they went in, and the queue is then empty.\<close>

theorem qmm_fifo_bounded:
  assumes "distinct bs"
  shows "\<exists>s1 s2. offer_all qmm_offer bs (qmm_queue_init c, m) = Some (map (\<lambda>i. i < unat c) [0..<length bs], s1) \<and>
    deq_n qmm_take (min (length bs) (unat c)) s1 = Some (map Some (take (unat c) bs), s2) \<and>
    (\<exists>s3. qmm_take s2 = Some (None, s3))"
proof -
  have "queue_of c (qmm_queue_init c, m) []"
    by (simp add: queue_of_def queue_init_rep) (simp add: qmm_queue_init_def)
  from qmq.keeps_first [OF this, of bs] obtain s1 s2 where
    "offer_all qmm_offer bs (qmm_queue_init c, m) = Some (map (\<lambda>i. i < unat c) [0..<length bs], s1)"
    "deq_n qmm_take (length (take (unat c) bs)) s1 = Some (map Some (take (unat c) bs), s2)" "queue_of c s2 []"
    using assms by auto
  moreover from this(3) obtain s3 where "qmm_take s2 = Some (None, s3)" using qmq.deq_empty by blast
  ultimately show ?thesis unfolding length_take by blast
qed

definition empty_mem :: bmm_mem where
  "empty_mem = \<lparr>bnext = (\<lambda>_. None), body = (\<lambda>_. Unused), irqs = True, pending_address_count = 0,
     beacon_out = [], free_buffer_q = qmm_queue_init 16, buffCount = 0\<rparr>"

theorem qmm_fifo_bounded_witness:
  "\<exists>s1 s2. offer_all qmm_offer [4, 0, 9] (qmm_queue_init 2, empty_mem) = Some ([True, True, False], s1) \<and>
    deq_n qmm_take 2 s1 = Some ([Some 4, Some 0], s2)"
proof -
  have e: "map (\<lambda>i. i < unat (2 :: u8)) [0..<length [4, 0, 9 :: nat]] = [True, True, False]"
    "min (length [4, 0, 9 :: nat]) (unat (2 :: u8)) = 2" "map Some (take (unat (2 :: u8)) [4, 0, 9 :: nat]) = [Some 4, Some 0]"
    by (simp_all add: upt_rec)
  show ?thesis using qmm_fifo_bounded [of "[4, 0, 9 :: nat]" 2 empty_mem] unfolding e by force
qed

text \<open>C33.
  A search in a queue, for a condition that does not change the buffers, finds the first buffer
  that meets it.  A read leaves the queue as it is; a removal takes exactly that buffer out, the
  order of the others is kept, and when no buffer meets the condition nothing changes.\<close>

theorem qmm_search_first:
  assumes rep: "queue_rep m q xs" and pure: "pure_search s m xs P"
  shows "qmm_queue_read (Some s) q m = Some (find P xs, q, m) \<and>
    (\<exists>q' m'. qmm_queue_remove (Some s) q m = Some (find P xs, q', m') \<and>
       queue_rep m' q' (case find P xs of None \<Rightarrow> xs | Some b \<Rightarrow> remove1 b xs) \<and> links_only (set xs) m m')"
proof (cases "find P xs")
  case None
  then have "\<forall>x \<in> set xs. \<not> P x" by (auto simp: find_None_iff)
  from queue_search_none [OF rep pure this] None rep show ?thesis by auto
next
  case (Some b)
  then obtain us vs where xs: "xs = us @ b # vs" and P: "P b" "\<forall>u \<in> set us. \<not> P u"
    using find_split by metis
  have d: "remove1 b xs = us @ vs"
    using queue_rep_distinct [OF rep] by (simp add: xs remove1_append)
  have "links_only (set us) m m' \<Longrightarrow> links_only (set xs) m m'" for m'
    by (auto simp: links_only_def xs)
  with queue_search_found [OF rep [unfolded xs] pure [unfolded xs] P(2,1)] Some d show ?thesis
    unfolding xs [symmetric] by fastforce
qed

text \<open>When does a search not change the buffers: the purely comparing functions, on frames.\<close>

lemma get_frame_irqs [simp]: "get_frame (m\<lparr>irqs := i\<rparr>) b = get_frame m b"
  by (simp add: get_frame_def)

lemma compare_ids_distinct:
  "MAC_FIND_MSDU \<noteq> MAC_BEACON_ADD_PENDING_SHORT_ADDR" "MAC_FIND_MSDU \<noteq> MAC_BEACON_ADD_PENDING_EXT_ADDR"
  "MAC_FIND_MSDU \<noteq> MAC_DATA_FIND_SHORT_ADDR" "MAC_FIND_MSDU \<noteq> MAC_DATA_FIND_EXT_ADDR"
  "MAC_FIND_MSDU \<noteq> MAC_DECREMENT_PERSI_TIME" "MAC_FIND_MSDU \<noteq> MAC_CHECK_PERSI_TIME_ZERO"
  "MAC_FIND_MSDU \<noteq> MAC_FIND_BUFFER" "MAC_FIND_BUFFER \<noteq> MAC_BEACON_ADD_PENDING_SHORT_ADDR"
  "MAC_FIND_BUFFER \<noteq> MAC_BEACON_ADD_PENDING_EXT_ADDR" "MAC_FIND_BUFFER \<noteq> MAC_DATA_FIND_SHORT_ADDR"
  "MAC_FIND_BUFFER \<noteq> MAC_DATA_FIND_EXT_ADDR" "MAC_FIND_BUFFER \<noteq> MAC_DECREMENT_PERSI_TIME"
  "MAC_FIND_BUFFER \<noteq> MAC_CHECK_PERSI_TIME_ZERO"
  "MAC_CHECK_PERSI_TIME_ZERO \<noteq> MAC_BEACON_ADD_PENDING_SHORT_ADDR"
  "MAC_CHECK_PERSI_TIME_ZERO \<noteq> MAC_BEACON_ADD_PENDING_EXT_ADDR"
  "MAC_CHECK_PERSI_TIME_ZERO \<noteq> MAC_DATA_FIND_SHORT_ADDR" "MAC_CHECK_PERSI_TIME_ZERO \<noteq> MAC_DATA_FIND_EXT_ADDR"
  "MAC_CHECK_PERSI_TIME_ZERO \<noteq> MAC_DECREMENT_PERSI_TIME"
  "MAC_DATA_FIND_SHORT_ADDR \<noteq> MAC_BEACON_ADD_PENDING_SHORT_ADDR"
  "MAC_DATA_FIND_SHORT_ADDR \<noteq> MAC_BEACON_ADD_PENDING_EXT_ADDR"
  "MAC_DATA_FIND_EXT_ADDR \<noteq> MAC_BEACON_ADD_PENDING_SHORT_ADDR"
  "MAC_DATA_FIND_EXT_ADDR \<noteq> MAC_BEACON_ADD_PENDING_EXT_ADDR" "MAC_DATA_FIND_EXT_ADDR \<noteq> MAC_DATA_FIND_SHORT_ADDR"
  "MAC_DECREMENT_PERSI_TIME \<noteq> MAC_BEACON_ADD_PENDING_SHORT_ADDR"
  "MAC_DECREMENT_PERSI_TIME \<noteq> MAC_BEACON_ADD_PENDING_EXT_ADDR"
  "MAC_DECREMENT_PERSI_TIME \<noteq> MAC_DATA_FIND_SHORT_ADDR" "MAC_DECREMENT_PERSI_TIME \<noteq> MAC_DATA_FIND_EXT_ADDR"
  by (simp_all add: MAC_FIND_MSDU_def MAC_BEACON_ADD_PENDING_SHORT_ADDR_def MAC_BEACON_ADD_PENDING_EXT_ADDR_def
      MAC_DATA_FIND_SHORT_ADDR_def MAC_DATA_FIND_EXT_ADDR_def MAC_DECREMENT_PERSI_TIME_def
      MAC_CHECK_PERSI_TIME_ZERO_def MAC_FIND_BUFFER_def)

lemma find_msdu_pure:
  assumes "\<And>b. b \<in> set xs \<Longrightarrow> \<exists>f. get_frame m b = Some f"
  shows "pure_search \<lparr>compare_func_id = MAC_FIND_MSDU, handle = HMsdu x\<rparr> m xs
    (\<lambda>b. frame_info_t.msduHandle (the (get_frame m b)) = x)"
  using assms by (fastforce simp: pure_search_def qmm_compare_def Let_def compare_ids_distinct check_msdu_handle_cb_def)

lemma find_buffer_pure:
  "pure_search \<lparr>compare_func_id = MAC_FIND_BUFFER, handle = HBuffer c\<rparr> m xs (\<lambda>b. b = c)"
  by (simp add: pure_search_def qmm_compare_def Let_def compare_ids_distinct find_buffer_def)

lemma check_zero_pure:
  assumes "\<And>b. b \<in> set xs \<Longrightarrow> \<exists>f. get_frame m b = Some f"
  shows "pure_search \<lparr>compare_func_id = MAC_CHECK_PERSI_TIME_ZERO, handle = h\<rparr> m xs
    (\<lambda>b. check_persistence_time_zero (the (get_frame m b)))"
  using assms by (fastforce simp: pure_search_def qmm_compare_def Let_def compare_ids_distinct)

text \<open>An example: two frames in a queue, searched by the handle of their payload.\<close>

definition ex_frame :: "u8 \<Rightarrow> frame_info_t" where
  "ex_frame h = \<lparr>msg_type = MCPS_MESSAGE, buffer_header_p = None, msduHandle = h, persistence_time = 200,
     indirect_in_transit = False, time_stamp = 0, mpdu_p = []\<rparr>"

theorem qmm_search_first_witness:
  "let m = empty_mem\<lparr>bnext := (\<lambda>_. None)(3 := Some 5), body := (\<lambda>b. Frame (ex_frame (of_nat b)))\<rparr>;
       q = \<lparr>qhead = Some 3, qtail = Some 5, qcapacity = 255, qsize = 2\<rparr>;
       s = \<lparr>compare_func_id = MAC_FIND_MSDU, handle = HMsdu 5\<rparr>
   in \<exists>q' m'. qmm_queue_remove (Some s) q m = Some (Some 5, q', m') \<and> queue_rep m' q' [3]"
proof -
  define m where "m = empty_mem\<lparr>bnext := (\<lambda>_. None)(3 := Some 5), body := (\<lambda>b. Frame (ex_frame (of_nat b)))\<rparr>"
  define q :: queue_t where "q = \<lparr>qhead = Some 3, qtail = Some 5, qcapacity = 255, qsize = 2\<rparr>"
  define s where "s = \<lparr>compare_func_id = MAC_FIND_MSDU, handle = HMsdu 5\<rparr>"
  have rep: "queue_rep m q [3, 5]" by (simp add: queue_rep_def m_def q_def)
  have gf: "get_frame m b = Some (ex_frame (of_nat b))" for b
    by (simp add: get_frame_def frame_of_def m_def)
  have pure: "pure_search s m [3, 5] (\<lambda>b. frame_info_t.msduHandle (the (get_frame m b)) = 5)"
    unfolding s_def by (rule find_msdu_pure) (simp add: gf)
  have f: "find (\<lambda>b. frame_info_t.msduHandle (the (get_frame m b)) = 5) [3, 5] = Some 5"
    by (simp add: gf ex_frame_def)
  from conjunct2 [OF qmm_search_first [OF rep pure]] f
  have "\<exists>q' m'. qmm_queue_remove (Some s) q m = Some (Some 5, q', m') \<and> queue_rep m' q' [3]" by auto
  then show ?thesis unfolding Let_def m_def q_def s_def .
qed

text \<open>
  A search function that the switch does not know: the head is returned as if it matched, and a
  removal does not take it out.
\<close>

lemma qmm_unknown_search:
  assumes rep: "queue_rep m q (x # xs)" and i: "MAC_FIND_MSDU < compare_func_id s \<or> compare_func_id s = 0"
  shows "qmm_queue_remove (Some s) q m = Some (Some x, q, m)"
proof -
  have "compare_func_id s \<noteq> MAC_FIND_MSDU" "compare_func_id s \<noteq> MAC_BEACON_ADD_PENDING_SHORT_ADDR"
    "compare_func_id s \<noteq> MAC_BEACON_ADD_PENDING_EXT_ADDR" "compare_func_id s \<noteq> MAC_DATA_FIND_SHORT_ADDR"
    "compare_func_id s \<noteq> MAC_DATA_FIND_EXT_ADDR" "compare_func_id s \<noteq> MAC_DECREMENT_PERSI_TIME"
    "compare_func_id s \<noteq> MAC_CHECK_PERSI_TIME_ZERO" "compare_func_id s \<noteq> MAC_FIND_BUFFER"
    using i by (auto simp: MAC_FIND_MSDU_def MAC_BEACON_ADD_PENDING_SHORT_ADDR_def MAC_BEACON_ADD_PENDING_EXT_ADDR_def
      MAC_DATA_FIND_SHORT_ADDR_def MAC_DATA_FIND_EXT_ADDR_def MAC_DECREMENT_PERSI_TIME_def
      MAC_CHECK_PERSI_TIME_ZERO_def MAC_FIND_BUFFER_def)
  then have c: "qmm_compare s x m' = Some None" for m' :: "'a mac_mem_scheme"
    by (simp add: qmm_compare_def Let_def)
  have "qhead q = Some x" "qsize q \<noteq> 0" using rep by (auto simp: queue_rep_def)
  with c show ?thesis
    by (simp add: qmm_queue_remove_def queue_read_or_remove_def Let_def qmm_search.simps)
qed

text \<open>C34.
  The buffers of the MAC are a sound pool.  After \<open>bmm_buffer_init\<close>, over any run of allocations
  and releases by clients that release what they hold, no access is undefined, no buffer is
  handed out twice, every handed out buffer exists, and \<open>buffCount\<close> is the number of buffers in
  use.\<close>

theorem bmm_pool_run:
  assumes "buffCount m = 0"
  shows "\<exists>m1 hs m2. bmm_buffer_init m = Some m1 \<and> pool_run bmm_take bmm_give cs ([], m1) = Some (hs, m2) \<and>
    distinct hs \<and> set hs \<subseteq> {..<TOTAL_NUMBER_OF_BUFFERS} \<and> unat (buffCount m2) = length hs"
proof -
  obtain m1 where m1: "bmm_buffer_init m = Some m1" "bmm_inv m1 [0..<TOTAL_NUMBER_OF_BUFFERS]"
    using bmm_init_inv [OF assms] by blast
  have "bmm_ok m1" using m1(2) unfolding bmm_ok_def by blast
  moreover have "bmm_used m1 = set []" unfolding bmm_used_eq [OF m1(2)] by (simp add: atLeast0LessThan)
  ultimately
  obtain hs m2 where r: "pool_run bmm_take bmm_give cs ([], m1) = Some (hs, m2)" "bmm_ok m2" "distinct hs"
    "bmm_used m2 = set hs" using bmmp.run_distinct [of m1 "[]" cs] distinct.simps(1) by blast
  from r(2) obtain fl where fl: "bmm_inv m2 fl" by (auto simp: bmm_ok_def)
  have "set fl \<subseteq> {..<TOTAL_NUMBER_OF_BUFFERS}" "distinct fl"
    using fl queue_rep_distinct by (auto simp: bmm_inv_def)
  then have "card (set hs) = TOTAL_NUMBER_OF_BUFFERS - length fl"
    unfolding r(4) [symmetric] bmm_used_eq [OF fl] by (simp add: card_Diff_subset distinct_card)
  then have "unat (buffCount m2) = length hs" using fl distinct_card [OF r(3)] by (auto simp: bmm_inv_def)
  moreover have "set hs \<subseteq> {..<TOTAL_NUMBER_OF_BUFFERS}" using bmmp.used_cap [OF r(2)] r(4) by simp
  ultimately show ?thesis using m1(1) r(1,3) by blast
qed

theorem bmm_pool_run_witness:
  "\<exists>m1 hs m2. bmm_buffer_init empty_mem = Some m1 \<and>
     pool_run bmm_take bmm_give [PAlloc, PAlloc, PFree 1, PAlloc] ([], m1) = Some (hs, m2) \<and> distinct hs"
  using bmm_pool_run [of empty_mem "[PAlloc, PAlloc, PFree 1, PAlloc]"] by (auto simp: empty_mem_def)

text \<open>C35.
  Releasing a buffer twice breaks the pool.  If the buffer is free already, but not the last one
  that was released, the second release cuts the free queue behind it: the buffers after it are
  lost, as soon as the ones before it are used up every allocation fails, and from then on the
  release of any buffer follows a null pointer.\<close>

theorem bmm_double_free:
  assumes "bmm_inv m (us @ b # vs)" "vs \<noteq> []" "length (us @ b # vs) + 1 < TOTAL_NUMBER_OF_BUFFERS"
  shows "\<exists>m1 m2. bmm_buffer_free (Some b) m = Some m1 \<and>
    deq_n bmm_take (length us + 1) m1 = Some (map Some (us @ [b]), m2) \<and>
    bmm_buffer_alloc (of_nat BUFFER_SIZE) m2 = Some (None, m2) \<and>
    (\<forall>c. bmm_buffer_free (Some c) m2 = None)"
proof -
  obtain m1 where m1: "bmm_buffer_free (Some b) m = Some m1" "loose_free m1 (us @ [b]) (length us + length vs + 2)"
    using double_free_loose [OF assms] by blast
  obtain m2 where m2: "deq_n bmm_take (length us + 1) m1 = Some (map Some (us @ [b]), m2)"
    "loose_free m2 [] (length us + length vs + 2 - length (us @ [b]))"
    using loose_take_all [OF m1(2)] by auto
  from loose_empty [OF m2(2)] m1(1) m2(1) show ?thesis by (auto simp: bmm_take_def)
qed

definition three_free :: bmm_mem where
  "three_free = empty_mem\<lparr>bnext := (\<lambda>_. None)(0 := Some 1, 1 := Some 2),
     free_buffer_q := \<lparr>qhead = Some 0, qtail = Some 2, qcapacity = 16, qsize = 3\<rparr>, buffCount := 13\<rparr>"

theorem bmm_double_free_witness:
  "\<exists>m1 m2. bmm_buffer_free (Some 1) three_free = Some m1 \<and>
    deq_n bmm_take 2 m1 = Some ([Some 0, Some 1], m2) \<and> bmm_buffer_free (Some 7) m2 = None"
proof -
  have "bmm_inv three_free ([0] @ 1 # [2])"
    by (simp add: bmm_inv_def queue_rep_def three_free_def TOTAL_NUMBER_OF_BUFFERS_def)
  moreover have "length ([0] @ 1 # [2 :: nat]) + 1 < TOTAL_NUMBER_OF_BUFFERS"
    by (simp add: TOTAL_NUMBER_OF_BUFFERS_def)
  moreover have e: "length [0 :: nat] + 1 = 2" "map Some ([0] @ [1 :: nat]) = [Some 0, Some 1]" by simp_all
  ultimately show ?thesis using bmm_double_free [of three_free "[0]" 1 "[2]"] unfolding e by blast
qed

end
