(* ===== verification/MacFrameProps.thy ===== *)
theory MacFrameProps
  imports MacData QmmProps UtilsProps
begin

unbundle bit_operations_syntax

text \<open>
  What a data frame looks like, and that the receiver's parser and the search functions of the
  coordinator read from it what the request said.
\<close>

subsection \<open>The bytes of a data frame\<close>

definition src_bytes :: "u8 \<Rightarrow> u16 \<Rightarrow> u64 \<Rightarrow> u8 list" where
  "src_bytes mode short ieee =
     (if mode = FCF_SHORT then mac_utils_16_bit_to_byte_array short
      else if mode = FCF_LONG_ADDR then mac_utils_64_bit_to_byte_array ieee else [])"

definition dst_bytes :: "u8 \<Rightarrow> u16 \<Rightarrow> u64 \<Rightarrow> u8 list" where
  "dst_bytes mode pan addr =
     (if mode = FCF_NO_ADDR then []
      else mac_utils_16_bit_to_byte_array pan @
        (if mode = FCF_SHORT then mac_utils_16_bit_to_byte_array (ucast (lo_u32 addr))
         else mac_utils_64_bit_to_byte_array addr))"

definition span_bytes :: "mcps_data_req_t \<Rightarrow> u16 \<Rightarrow> u8 list" where
  "span_bytes r pan =
     (if \<not> intra_pan r pan \<and> SrcAddrMode r \<noteq> FCF_NO_ADDR then mac_utils_16_bit_to_byte_array pan else [])"

definition frame_fcf :: "mcps_data_req_t \<Rightarrow> u16 \<Rightarrow> u16" where
  "frame_fcf r pan = data_fcf r (if intra_pan r pan then FCF_PAN_ID_COMPRESSION else 0)"

definition frame_tail :: "mcps_data_req_t \<Rightarrow> u8 list \<Rightarrow> mac_st \<Rightarrow> u8 list" where
  "frame_tail r payload s =
     mac_utils_16_bit_to_byte_array (frame_fcf r (hal_pib_PANId s)) @ [mac_pib_macDSN s] @
     dst_bytes (DstAddrMode r) (DstPANId r) (DstAddr r) @ span_bytes r (hal_pib_PANId s) @
     src_bytes (SrcAddrMode r) (hal_pib_ShortAddress s) (hal_pib_IeeeAddress s) @ payload"

definition frame_bytes :: "mcps_data_req_t \<Rightarrow> u8 list \<Rightarrow> mac_st \<Rightarrow> u8 list" where
  "frame_bytes r payload s = of_nat (length (frame_tail r payload s)) # frame_tail r payload s"

lemma length_16 [simp]: "length (mac_utils_16_bit_to_byte_array v) = 2"
  by (simp add: mac_utils_16_bit_to_byte_array_def)

lemma length_64 [simp]: "length (mac_utils_64_bit_to_byte_array v) = 8"
  by (simp add: mac_utils_64_bit_to_byte_array_def length_bytes_le)

lemma length_frame_tail:
  "length (frame_tail r payload s) \<le> 23 + length payload"
  by (simp add: frame_tail_def dst_bytes_def span_bytes_def src_bytes_def)

lemma push_front_Some:
  "length bs + length fr \<le> FRAME_ROOM \<Longrightarrow> push_front bs fr = Some (bs @ fr)"
  by (simp add: push_front_def)

lemma put_source_Some:
  "length fr + 8 \<le> FRAME_ROOM \<Longrightarrow> put_source m short ieee (fr, n) =
     Some (src_bytes m short ieee @ fr, n + of_nat (length (src_bytes m short ieee)))"
  by (simp add: put_source_def src_bytes_def push_front_Some)

lemma put_dest_Some:
  "length fr + 10 \<le> FRAME_ROOM \<Longrightarrow> put_dest m pan addr (fr, n) =
     Some (dst_bytes m pan addr @ fr, n + of_nat (length (dst_bytes m pan addr)))"
  by (simp add: put_dest_def dst_bytes_def push_front_Some)

lemma put_source_pan_Some:
  "length fr + 2 \<le> FRAME_ROOM \<Longrightarrow> put_source_pan r pan (fr, n) =
     Some (span_bytes r pan @ fr, n + of_nat (length (span_bytes r pan)))"
  by (auto simp: put_source_pan_def span_bytes_def push_front_Some)

lemma of_nat_u8_le: "n < 256 \<Longrightarrow> (of_nat n :: u8) \<le> of_nat m \<longleftrightarrow> n \<le> m" if "m < 256"
  using that by (simp add: word_le_nat_alt unat_of_nat)

text \<open>An unsecured frame with a payload that the interface accepts.\<close>

lemma build_data_frame_spec:
  assumes sec: "SecurityLevel (Security r) = 0" and len: "unat (msduLength r) = length payload"
    and pay: "length payload \<le> 118"
  shows "build_data_frame env r payload s =
    (if length (frame_tail r payload s) \<le> 127
     then Some (MAC_SUCCESS, Some (frame_bytes r payload s), s\<lparr>mac_pib_macDSN := mac_pib_macDSN s + 1\<rparr>)
     else Some (MAC_FRAME_TOO_LONG, None, s\<lparr>mac_pib_macDSN := mac_pib_macDSN s + 1\<rparr>))"
proof -
  let ?src = "src_bytes (SrcAddrMode r) (hal_pib_ShortAddress s) (hal_pib_IeeeAddress s)"
  let ?span = "span_bytes r (hal_pib_PANId s)"
  let ?dst = "dst_bytes (DstAddrMode r) (DstPANId r) (DstAddr r)"
  let ?n = "length (frame_tail r payload s)"
  have ls: "length ?src \<le> 8" "length ?span \<le> 2" "length ?dst \<le> 10"
    by (simp_all add: src_bytes_def span_bytes_def dst_bytes_def)
  have room: "FRAME_ROOM = 177" by (simp add: FRAME_ROOM_def BUFFER_SIZE_def)
  have ml: "msduLength r = of_nat (length payload)" using len by (metis of_nat_unat ucast_id)
  have n2: "3 + msduLength r + of_nat (length ?src) + of_nat (length ?span) + of_nat (length ?dst) = of_nat ?n"
    by (simp add: ml frame_tail_def)
  have t: "mac_utils_16_bit_to_byte_array (frame_fcf r (hal_pib_PANId s)) @
      mac_pib_macDSN s # ?dst @ ?span @ ?src @ payload = frame_tail r payload s"
    by (simp add: frame_tail_def)
  have ln: "?n \<le> 141" using length_frame_tail [of r payload s] pay by simp
  then have "?n < 256" by simp
  then have le: "\<not> (of_nat ?n :: u8) > aMaxPHYPacketSize \<longleftrightarrow> ?n \<le> 127"
    using of_nat_u8_le [of 127 ?n] by (simp add: aMaxPHYPacketSize_def not_less)
  have e: "build_data_frame env r payload s =
     (if of_nat ?n > aMaxPHYPacketSize then Some (MAC_FRAME_TOO_LONG, None, s\<lparr>mac_pib_macDSN := mac_pib_macDSN s + 1\<rparr>)
      else Some (MAC_SUCCESS, Some (of_nat ?n # frame_tail r payload s), s\<lparr>mac_pib_macDSN := mac_pib_macDSN s + 1\<rparr>))"
    using sec ls pay room ln unfolding build_data_frame_def Let_def
    by (simp add: put_source_Some put_source_pan_Some put_dest_Some push_front_Some n2
        frame_fcf_def [symmetric] t [simplified])
  show ?thesis unfolding e frame_bytes_def using le by auto
qed


subsection \<open>Reading a frame back\<close>

lemma take_dest_bytes:
  assumes "m \<in> {FCF_NO_ADDR, FCF_SHORT, FCF_LONG_ADDR}"
  shows "\<exists>pd'. take_dest m (dst_bytes m pan addr @ p) pd = Some (pd', p, of_nat (length (dst_bytes m pan addr))) \<and>
    (m \<noteq> FCF_NO_ADDR \<longrightarrow> dest_panid pd' = pan \<and>
       dest_addr pd' = (if m = FCF_SHORT then ShortAddr (ucast (lo_u32 addr)) else LongAddr addr)) \<and>
    pd' = pd\<lparr>dest_panid := dest_panid pd', dest_addr := dest_addr pd'\<rparr>"
  using assms
  by (auto simp: take_dest_def dst_bytes_def FCF_NO_ADDR_def FCF_SHORT_def FCF_LONG_ADDR_def
      mac_utils_16_roundtrip mac_utils_64_roundtrip)

lemma take_source_bytes:
  assumes "SrcAddrMode r \<in> {FCF_NO_ADDR, FCF_SHORT, FCF_LONG_ADDR}" "intra_pan r pan \<Longrightarrow> dest_panid pd = pan"
  shows "\<exists>pd'. take_source (SrcAddrMode r) (intra_pan r pan)
      (span_bytes r pan @ src_bytes (SrcAddrMode r) short ieee @ p) pd len =
      Some (pd', p, len + of_nat (length (span_bytes r pan @ src_bytes (SrcAddrMode r) short ieee))) \<and>
    (SrcAddrMode r \<noteq> FCF_NO_ADDR \<longrightarrow> src_panid pd' = pan \<and>
       src_addr pd' = (if SrcAddrMode r = FCF_SHORT then ShortAddr short else LongAddr ieee)) \<and>
    pd' = pd\<lparr>src_panid := src_panid pd', src_addr := src_addr pd'\<rparr>"
  using assms
  by (auto simp: take_source_def span_bytes_def src_bytes_def FCF_NO_ADDR_def FCF_SHORT_def FCF_LONG_ADDR_def
      mac_utils_16_roundtrip mac_utils_64_roundtrip)

lemma frame_fcf_fields:
  assumes sec: "SecurityLevel (Security r) = 0"
    and m: "SrcAddrMode r \<in> {FCF_NO_ADDR, FCF_SHORT, FCF_LONG_ADDR}" "DstAddrMode r \<in> {FCF_NO_ADDR, FCF_SHORT, FCF_LONG_ADDR}"
  shows "ucast (drop_bit 14 (frame_fcf r pan) AND 3) = SrcAddrMode r"
    "ucast (drop_bit 10 (frame_fcf r pan) AND 3) = DstAddrMode r"
    "frame_fcf r pan AND FCF_PAN_ID_COMPRESSION \<noteq> 0 \<longleftrightarrow> intra_pan r pan"
    "ucast (frame_fcf r pan AND 7) = (1 :: u8)"
    "frame_fcf r pan AND FCF_SECURITY_ENABLED = 0"
proof -
  define i a l where "i = intra_pan r pan" "a = (TxOptions r AND TX_ACKNOWLEDGED \<noteq> 0)" "l = (msduLength r > aMaxMACSafePayloadSize)"
  have f: "frame_fcf r pan =
    (let f = (if i then FCF_PAN_ID_COMPRESSION else 0) OR FCF_FRAMETYPE_DATA;
         f = (if a then f OR FCF_ACK_REQUEST else f);
         f = (if l then f OR FCF_FRAME_VERSION_2006 else f)
     in (f OR FCF_SET_SOURCE_ADDR_MODE (SrcAddrMode r)) OR FCF_SET_DEST_ADDR_MODE (DstAddrMode r))"
    using sec by (simp add: frame_fcf_def data_fcf_def i_a_l_def Let_def)
  note defs = f Let_def FCF_PAN_ID_COMPRESSION_def FCF_FRAMETYPE_DATA_def FCF_ACK_REQUEST_def
    FCF_FRAME_VERSION_2006_def FCF_SET_SOURCE_ADDR_MODE_def FCF_SET_DEST_ADDR_MODE_def FCF_NO_ADDR_def
    FCF_SHORT_def FCF_LONG_ADDR_def FCF_SECURITY_ENABLED_def
  show "ucast (drop_bit 14 (frame_fcf r pan) AND 3) = SrcAddrMode r"
    using m by (cases i; cases a; cases l) (auto simp: defs)
  show "ucast (drop_bit 10 (frame_fcf r pan) AND 3) = DstAddrMode r"
    using m by (cases i; cases a; cases l) (auto simp: defs)
  show "ucast (frame_fcf r pan AND 7) = (1 :: u8)"
    using m by (cases i; cases a; cases l) (auto simp: defs)
  show "frame_fcf r pan AND FCF_SECURITY_ENABLED = 0"
    using m by (cases i; cases a; cases l) (auto simp: defs)
  show "frame_fcf r pan AND FCF_PAN_ID_COMPRESSION \<noteq> 0 \<longleftrightarrow> intra_pan r pan"
    unfolding i_a_l_def(1) [symmetric]
    using m by (cases i; cases a; cases l) (auto simp: defs)
qed


text \<open>The parser of the receiver on a frame of the data service.\<close>

lemma data_frame_parse:
  assumes build: "build_data_frame env r payload s = Some (MAC_SUCCESS, Some fr, s')"
    and sec: "SecurityLevel (Security r) = 0" and len: "unat (msduLength r) = length payload"
    and pay: "0 < length payload" "length payload \<le> 118"
    and m: "SrcAddrMode r \<in> {FCF_NO_ADDR, FCF_SHORT, FCF_LONG_ADDR}" "DstAddrMode r \<in> {FCF_NO_ADDR, FCF_SHORT, FCF_LONG_ADDR}"
    and mpdu: "mpdu_length pd = hd fr + 2"
  shows "\<exists>pd'. parse_data_mpdu (fr @ rest) pd = Some pd' \<and>
    sequence_number pd' = mac_pib_macDSN s \<and>
    src_addr_mode pd' = SrcAddrMode r \<and> dest_addr_mode pd' = DstAddrMode r \<and>
    (DstAddrMode r \<noteq> FCF_NO_ADDR \<longrightarrow> dest_panid pd' = DstPANId r \<and>
       dest_addr pd' = (if DstAddrMode r = FCF_SHORT then ShortAddr (ucast (lo_u32 (DstAddr r)))
                        else LongAddr (DstAddr r))) \<and>
    (SrcAddrMode r \<noteq> FCF_NO_ADDR \<longrightarrow> src_panid pd' = hal_pib_PANId s \<and>
       src_addr pd' = (if SrcAddrMode r = FCF_SHORT then ShortAddr (hal_pib_ShortAddress s)
                       else LongAddr (hal_pib_IeeeAddress s))) \<and>
    mac_payload_length pd' = msduLength r \<and> mac_payload pd' = payload @ rest"
proof -
  let ?pan = "hal_pib_PANId s"
  let ?src = "src_bytes (SrcAddrMode r) (hal_pib_ShortAddress s) (hal_pib_IeeeAddress s)"
  let ?dst = "dst_bytes (DstAddrMode r) (DstPANId r) (DstAddr r)"
  let ?span = "span_bytes r ?pan"
  let ?pd0 = "pd\<lparr>fcf := frame_fcf r ?pan, sequence_number := mac_pib_macDSN s\<rparr>"
  have "MAC_FRAME_TOO_LONG \<noteq> MAC_SUCCESS" by (simp add: MAC_FRAME_TOO_LONG_def MAC_SUCCESS_def)
  with build build_data_frame_spec [OF sec len pay(2), of env s]
  have fr: "fr = frame_bytes r payload s" by (auto split: if_splits)
  have ml: "msduLength r = of_nat (length payload)" using len by (metis of_nat_unat ucast_id)
  have hd: "mpdu_length pd - 2 - 1 - (of_nat (length ?dst) + of_nat (length (?span @ ?src))) - 2 = msduLength r"
    unfolding mpdu fr by (simp add: frame_bytes_def frame_tail_def ml)
  obtain pd1 where d: "take_dest (DstAddrMode r) (?dst @ ?span @ ?src @ payload @ rest) ?pd0 =
      Some (pd1, ?span @ ?src @ payload @ rest, of_nat (length ?dst))"
    "DstAddrMode r \<noteq> FCF_NO_ADDR \<longrightarrow> dest_panid pd1 = DstPANId r \<and>
       dest_addr pd1 = (if DstAddrMode r = FCF_SHORT then ShortAddr (ucast (lo_u32 (DstAddr r))) else LongAddr (DstAddr r))"
    "pd1 = ?pd0\<lparr>dest_panid := dest_panid pd1, dest_addr := dest_addr pd1\<rparr>"
    using take_dest_bytes [OF m(2)] by blast
  have i: "dest_panid pd1 = ?pan" if "intra_pan r ?pan" using that d(2) by (auto simp: intra_pan_def)
  obtain pd2 where sr: "take_source (SrcAddrMode r) (intra_pan r ?pan) (?span @ ?src @ payload @ rest) pd1
        (of_nat (length ?dst)) = Some (pd2, payload @ rest, of_nat (length ?dst) + of_nat (length (?span @ ?src)))"
    "SrcAddrMode r \<noteq> FCF_NO_ADDR \<longrightarrow> src_panid pd2 = ?pan \<and>
       src_addr pd2 = (if SrcAddrMode r = FCF_SHORT then ShortAddr (hal_pib_ShortAddress s) else LongAddr (hal_pib_IeeeAddress s))"
    "pd2 = pd1\<lparr>src_panid := src_panid pd2, src_addr := src_addr pd2\<rparr>"
    using take_source_bytes [OF m(1) i] by blast
  note fields = frame_fcf_fields [OF sec m, of ?pan]
  have b: "mac_utils_byte_array_to_16_bit (drop 1 (fr @ rest)) = Some (frame_fcf r ?pan)"
    "arr_get (fr @ rest) 3 = Some (mac_pib_macDSN s)" "drop 4 (fr @ rest) = ?dst @ ?span @ ?src @ payload @ rest"
    by (simp_all add: fr frame_bytes_def frame_tail_def mac_utils_16_roundtrip)
       (simp_all add: arr_get_def mac_utils_16_bit_to_byte_array_def)
  have keep1: "mpdu_length pd1 = mpdu_length pd" "sequence_number pd1 = mac_pib_macDSN s"
    using arg_cong [OF d(3), of mpdu_length] arg_cong [OF d(3), of sequence_number] by simp_all
  have keep: "mpdu_length pd2 = mpdu_length pd" "sequence_number pd2 = mac_pib_macDSN s"
    "dest_panid pd2 = dest_panid pd1" "dest_addr pd2 = dest_addr pd1"
    using arg_cong [OF sr(3), of mpdu_length] arg_cong [OF sr(3), of sequence_number]
      arg_cong [OF sr(3), of dest_panid] arg_cong [OF sr(3), of dest_addr] keep1 by simp_all
  let ?pd3 = "pd2\<lparr>mac_payload_length := msduLength r, src_addr_mode := SrcAddrMode r, dest_addr_mode := DstAddrMode r\<rparr>"
  define l :: u8 where "l = of_nat (length ?dst) + of_nat (length (?span @ ?src))"
  have x: "mac_data_extract_mhr_addr_info (?dst @ ?span @ ?src @ payload @ rest) ?pd0 = Some (?pd3, payload @ rest)"
    unfolding mac_data_extract_mhr_addr_info_def Let_def using d(1) sr(1) [folded l_def] hd [folded l_def]
    by (simp add: fields keep(1) algebra_simps)
  have parse: "parse_data_mpdu (fr @ rest) pd =
      Some (mac_data_parse_data (payload @ rest) (?pd3\<lparr>frame_type := 1\<rparr>))"
    unfolding parse_data_mpdu_def b Let_def by (simp add: x fields)
  have "unat (msduLength r) \<le> unat aMaxMACPayloadSize" "unat (msduLength r) \<noteq> 0"
    using len pay by (simp_all add: aMaxMACPayloadSize_def)
  then have "msduLength r \<le> aMaxMACPayloadSize" "msduLength r \<noteq> 0" by (auto simp: word_le_nat_alt)
  then have "mac_data_parse_data (payload @ rest) (?pd3\<lparr>frame_type := 1\<rparr>) = ?pd3\<lparr>frame_type := 1, mac_payload := payload @ rest\<rparr>"
    by (auto simp: mac_data_parse_data_def)
  with parse d(2) sr(2) show ?thesis by (simp add: keep)
qed

text \<open>C36.
  What the data service sends is what the receiver reads.  Whenever an unsecured data request is
  turned into a frame, the receiver's parser, applied to the frame and anything that follows it,
  yields the sequence number, the destination and source address with their PANs in every
  addressing mode the service accepts, and the payload with its length.\<close>

theorem data_frame_roundtrip:
  assumes build: "build_data_frame env r payload s = Some (MAC_SUCCESS, Some fr, s')"
    and sec: "SecurityLevel (Security r) = 0" and len: "unat (msduLength r) = length payload"
    and pay: "0 < length payload" "length payload \<le> 118"
    and m: "SrcAddrMode r \<in> {FCF_NO_ADDR, FCF_SHORT, FCF_LONG_ADDR}" "DstAddrMode r \<in> {FCF_NO_ADDR, FCF_SHORT, FCF_LONG_ADDR}"
    and mpdu: "mpdu_length pd = hd fr + 2"
  shows "\<exists>pd'. parse_data_mpdu (fr @ rest) pd = Some pd' \<and>
    sequence_number pd' = mac_pib_macDSN s \<and>
    src_addr_mode pd' = SrcAddrMode r \<and> dest_addr_mode pd' = DstAddrMode r \<and>
    (DstAddrMode r \<noteq> FCF_NO_ADDR \<longrightarrow> dest_panid pd' = DstPANId r \<and>
       dest_addr pd' = (if DstAddrMode r = FCF_SHORT then ShortAddr (ucast (lo_u32 (DstAddr r)))
                        else LongAddr (DstAddr r))) \<and>
    (SrcAddrMode r \<noteq> FCF_NO_ADDR \<longrightarrow> src_panid pd' = hal_pib_PANId s \<and>
       src_addr pd' = (if SrcAddrMode r = FCF_SHORT then ShortAddr (hal_pib_ShortAddress s)
                       else LongAddr (hal_pib_IeeeAddress s))) \<and>
    mac_payload_length pd' = msduLength r \<and> mac_payload pd' = payload @ rest"
  using data_frame_parse [OF assms] .


subsection \<open>An example\<close>

text \<open>A coordinator without traffic, and an environment whose radio accepts every frame.\<close>

definition no_parse :: parse_t where
  "no_parse = \<lparr>fcf = 0, frame_type = 0, sequence_number = 0, mpdu_length = 0, mac_payload_length = 0,
     dest_addr_mode = 0, dest_panid = 0, dest_addr = ShortAddr 0, src_addr_mode = 0, src_panid = 0,
     src_addr = ShortAddr 0, mac_payload = []\<rparr>"

definition no_stats :: mac_stats_t where
  "no_stats = \<lparr>tx_pkts_count = 0, tx_bytes_count = 0, tx_bc_pkts_count = 0, tx_bc_bytes_count = 0,
     tx_pkts_no_ack = 0, tx_frame_pending = 0, tx_pkts_no_cca = 0, tx_errors = 0\<rparr>"

definition idle_coordinator :: mac_st where
  "idle_coordinator =
     \<lparr>bnext = (\<lambda>_. None), body = (\<lambda>_. Unused), irqs = True, pending_address_count = 0, beacon_out = [],
      free_buffer_q = qmm_queue_init 16, buffCount = 16,
      nhle_mac_q = qmm_queue_init 255, indirect_data_q = qmm_queue_init 255, broadcast_q = qmm_queue_init 255,
      mac_state = MAC_PAN_COORD_STARTED, mac_poll_state = MAC_POLL_IDLE, mac_scan_state = MAC_SCAN_IDLE,
      mac_busy = False, mac_frame_p = None, mac_parse_data = no_parse, hal_pib_PANId = 0xBABE,
      hal_pib_ShortAddress = 0, hal_pib_IeeeAddress = \<lparr>hi_u32 = 0x0102, lo_u32 = 0x0304\<rparr>,
      hal_pib_BeaconOrder = 6, mac_pib_macDSN = 7, mac_pib_macSecurityEnabled = 0, FrameCounter = 0,
      mac_stats_g = no_stats, tx_counts = replicate 12 0, indirect_data_persistence_timer = 0,
      mac_stm = fst (STM_Init \<lparr>timerCb = [], timeTick = 0, stmSector = False,
        links = \<lparr>nxt = (\<lambda>_. None), prv = (\<lambda>_. None)\<rparr>, irqEA = True\<rparr>),
      mac_trace = []\<rparr>"


definition quiet_env :: macEnv where
  "quiet_env = \<lparr>fifo_status = (\<lambda>_. MAC_SUCCESS), secure_status = (\<lambda>_. MAC_SUCCESS), tx_time = (\<lambda>_. 0),
     scan_send_complete = (\<lambda>_ s. Some s), other_done = (\<lambda>_ _ _ s. Some s),
     other_expired = (\<lambda>_ _ s. Some s), other_request = (\<lambda>_ s. Some s), poll_conf = Some\<rparr>"

definition ex_request :: mcps_data_req_t where
  "ex_request = \<lparr>SrcAddrMode = FCF_SHORT, DstAddrMode = FCF_LONG_ADDR, DstPANId = 0xBABE,
     DstAddr = \<lparr>hi_u32 = 0x11223344, lo_u32 = 0x55667788\<rparr>, reqHandle = 9, TxOptions = 1,
     Security = no_security, msduLength = 3\<rparr>"

theorem data_frame_roundtrip_witness:
  "\<exists>fr s' pd. build_data_frame quiet_env ex_request [1, 2, 3] idle_coordinator = Some (MAC_SUCCESS, Some fr, s') \<and>
     parse_data_mpdu (fr @ [0xAA, 0x55]) (no_parse\<lparr>mpdu_length := hd fr + 2\<rparr>) = Some pd \<and>
     dest_addr pd = LongAddr \<lparr>hi_u32 = 0x11223344, lo_u32 = 0x55667788\<rparr> \<and> src_addr pd = ShortAddr 0 \<and>
     mac_payload pd = [1, 2, 3, 0xAA, 0x55]"
proof -
  have sec: "SecurityLevel (Security ex_request) = 0" and len: "unat (msduLength ex_request) = length [1, 2, 3 :: u8]"
    by (simp_all add: ex_request_def no_security_def)
  have m: "SrcAddrMode ex_request \<in> {FCF_NO_ADDR, FCF_SHORT, FCF_LONG_ADDR}"
    "DstAddrMode ex_request \<in> {FCF_NO_ADDR, FCF_SHORT, FCF_LONG_ADDR}" by (simp_all add: ex_request_def)
  let ?fr = "frame_bytes ex_request [1, 2, 3] idle_coordinator"
  have "length (frame_tail ex_request [1, 2, 3] idle_coordinator) \<le> 127"
    using length_frame_tail [of ex_request "[1, 2, 3]" idle_coordinator] by simp
  then obtain s' where b: "build_data_frame quiet_env ex_request [1, 2, 3] idle_coordinator = Some (MAC_SUCCESS, Some ?fr, s')"
    using build_data_frame_spec [OF sec len, of quiet_env idle_coordinator] by simp
  from data_frame_roundtrip [OF b sec len _ _ m, of "no_parse\<lparr>mpdu_length := hd ?fr + 2\<rparr>" "[0xAA, 0x55]"]
  obtain pd where p: "parse_data_mpdu (?fr @ [0xAA, 0x55]) (no_parse\<lparr>mpdu_length := hd ?fr + 2\<rparr>) = Some pd"
    "dest_addr pd = LongAddr (DstAddr ex_request)" "src_addr pd = ShortAddr (hal_pib_ShortAddress idle_coordinator)"
    "mac_payload pd = [1, 2, 3] @ [0xAA, 0x55]"
    by (auto simp: ex_request_def FCF_SHORT_def FCF_LONG_ADDR_def FCF_NO_ADDR_def)
  show ?thesis
    using b p by (intro exI [of _ ?fr] exI [of _ s'] exI [of _ pd]) (simp add: ex_request_def idle_coordinator_def)
qed

end
