(* ===== verification/MacProps.thy ===== *)
theory MacProps
  imports MacFrameProps
begin

unbundle bit_operations_syntax

text \<open>
  The invariant of the indirect queue of the data service and the confirmation of a frame.
\<close>

subsection \<open>Confirming a frame\<close>

definition count_tx :: "u8 \<Rightarrow> u16 list \<Rightarrow> u16 list" where
  "count_tx st cs = (case tx_counter st of Some i \<Rightarrow> cs[i := cs ! i + 1] | None \<Rightarrow> cs)"

lemma length_count_tx [simp]: "length (count_tx st cs) = length cs"
  by (simp add: count_tx_def split: option.splits)

text \<open>The confirmation overwrites the frame, counts the status and frees the buffer.\<close>

lemma conf_spec:
  assumes inv: "bmm_inv s fl" and b: "b \<notin> set fl" "b < TOTAL_NUMBER_OF_BUFFERS"
  shows "\<exists>f q c. mac_gen_mcps_data_conf b st h ts s = Some (s\<lparr>bnext := f,
      body := (body s)(b := DataConf \<lparr>confHandle = h, confStatus = st, confTimestamp = ts\<rparr>),
      free_buffer_q := q, buffCount := c, mac_stats_g := count_conf st (mac_stats_g s),
      tx_counts := count_tx st (tx_counts s)\<rparr>) \<and>
    bmm_inv (s\<lparr>bnext := f, free_buffer_q := q, buffCount := c\<rparr>) (fl @ [b]) \<and>
    (\<forall>x. x \<notin> insert b (set fl) \<longrightarrow> f x = bnext s x)"
proof -
  let ?s = "s\<lparr>body := (body s)(b := DataConf \<lparr>confHandle = h, confStatus = st, confTimestamp = ts\<rparr>),
    mac_stats_g := count_conf st (mac_stats_g s), tx_counts := count_tx st (tx_counts s)\<rparr>"
  have run: "mac_gen_mcps_data_conf b st h ts s = bmm_buffer_free (Some b) ?s"
    by (simp add: mac_gen_mcps_data_conf_def mcps_data_conf_def put_body_def Let_def count_tx_def split: option.splits)
  have "bmm_inv ?s fl" using inv by (simp add: bmm_inv_def queue_rep_def)
  then obtain s' where r: "bmm_buffer_free (Some b) ?s = Some s'" "bmm_inv s' (fl @ [b])"
    "bmm_only (insert b (set fl)) ?s s'" using bmm_free_spec b by blast
  from r(3) obtain f q c where s': "s' = ?s\<lparr>bnext := f, free_buffer_q := q, buffCount := c\<rparr>"
    "\<And>x. x \<notin> insert b (set fl) \<Longrightarrow> f x = bnext ?s x" by (rule bmm_onlyE) blast
  have "bmm_inv (s\<lparr>bnext := f, free_buffer_q := q, buffCount := c\<rparr>) (fl @ [b])"
    using r(2) unfolding s'(1) by (simp add: bmm_inv_def queue_rep_def)
  then show ?thesis
    unfolding run r(1) s'(1) using s'(2) by (intro exI [of _ f] exI [of _ q] exI [of _ c]) simp
qed

subsection \<open>The invariant of the indirect queue\<close>

definition is_data :: "mac_st \<Rightarrow> nat \<Rightarrow> bool" where
  "is_data s b \<longleftrightarrow> (case body s b of Frame f \<Rightarrow> msg_type f = MCPS_MESSAGE | _ \<Rightarrow> False)"

definition fr :: "mac_st \<Rightarrow> nat \<Rightarrow> frame_info_t" where
  "fr s b = the (get_frame s b)"

lemma is_data_frame: "is_data s b \<Longrightarrow> body s b = Frame (fr s b) \<and> get_frame s b = Some (fr s b) \<and> msg_type (fr s b) = MCPS_MESSAGE"
  by (auto simp: is_data_def fr_def get_frame_def frame_of_def split: body_t.splits)

definition ind_inv :: "mac_st \<Rightarrow> nat list \<Rightarrow> nat list \<Rightarrow> bool" where
  "ind_inv s fl xs \<longleftrightarrow> bmm_inv s fl \<and> queue_rep s (indirect_data_q s) xs \<and> set xs \<inter> set fl = {} \<and>
     set xs \<subseteq> {..<TOTAL_NUMBER_OF_BUFFERS} \<and> (\<forall>b \<in> set xs. is_data s b)"

lemma fr_body_cong: "body s' b = body s b \<Longrightarrow> fr s' b = fr s b"
  by (simp add: fr_def get_frame_def)

lemma is_data_cong: "body s' b = body s b \<Longrightarrow> is_data s' b = is_data s b"
  by (simp add: is_data_def)

lemma ind_inv_distinct: "ind_inv s fl xs \<Longrightarrow> distinct xs"
  unfolding ind_inv_def by (blast dest: queue_rep_distinct)

text \<open>Taking one frame out of the indirect queue and confirming it.\<close>

lemma take_and_confirm:
  assumes inv: "ind_inv s fl (us @ b # vs)"
    and rm: "queue_rep (s\<lparr>bnext := g\<rparr>) q (us @ vs)" "\<And>x. x \<in> insert b (set fl) \<Longrightarrow> g x = bnext s x"
  shows "\<exists>s'. mac_gen_mcps_data_conf b st h ts (s\<lparr>bnext := g, indirect_data_q := q\<rparr>) = Some s' \<and>
    ind_inv s' (fl @ [b]) (us @ vs) \<and> (\<forall>x. x \<noteq> b \<longrightarrow> body s' x = body s x) \<and>
    s' = s\<lparr>bnext := bnext s', body := body s', free_buffer_q := free_buffer_q s', buffCount := buffCount s',
      indirect_data_q := q, mac_stats_g := mac_stats_g s', tx_counts := count_tx st (tx_counts s)\<rparr>"
proof -
  let ?s = "s\<lparr>bnext := g, indirect_data_q := q\<rparr>"
  note dist = ind_inv_distinct [OF inv]
  have d: "set (us @ b # vs) \<inter> set fl = {}" "b < TOTAL_NUMBER_OF_BUFFERS"
    using inv by (auto simp: ind_inv_def)
  have bi: "bmm_inv s fl" using inv by (simp add: ind_inv_def)
  then have "queue_rep s (free_buffer_q s) fl" by (simp add: bmm_inv_def)
  then have "queue_rep ?s (free_buffer_q s) fl"
  proof (rule queue_rep_frame)
    show "bnext ?s x = bnext s x" if "x \<in> set fl" for x using rm(2) that d(1) by auto
  qed
  then have "bmm_inv ?s fl" using bi by (simp add: bmm_inv_def)
  moreover have "b \<notin> set fl" using d by auto
  ultimately obtain f q' c where r: "mac_gen_mcps_data_conf b st h ts ?s = Some (?s\<lparr>bnext := f,
      body := (body ?s)(b := DataConf \<lparr>confHandle = h, confStatus = st, confTimestamp = ts\<rparr>),
      free_buffer_q := q', buffCount := c, mac_stats_g := count_conf st (mac_stats_g ?s),
      tx_counts := count_tx st (tx_counts ?s)\<rparr>)"
    "bmm_inv (?s\<lparr>bnext := f, free_buffer_q := q', buffCount := c\<rparr>) (fl @ [b])"
    "\<forall>x. x \<notin> insert b (set fl) \<longrightarrow> f x = bnext ?s x"
    using conf_spec [of ?s fl b st h ts] d(2) by blast
  let ?t = "?s\<lparr>bnext := f,
      body := (body ?s)(b := DataConf \<lparr>confHandle = h, confStatus = st, confTimestamp = ts\<rparr>),
      free_buffer_q := q', buffCount := c, mac_stats_g := count_conf st (mac_stats_g ?s),
      tx_counts := count_tx st (tx_counts ?s)\<rparr>"
  have "queue_rep ?t q (us @ vs)"
    using rm(1) r(3) d dist by (elim queue_rep_frame) auto
  moreover have "bmm_inv ?t (fl @ [b])" using r(2) by (simp add: bmm_inv_def queue_rep_def)
  moreover have "is_data ?t x" if "x \<in> set (us @ vs)" for x
    using that inv dist by (auto simp: ind_inv_def is_data_def)
  moreover have "set (us @ vs) \<inter> set (fl @ [b]) = {}" using d(1) dist by auto
  moreover have "set (us @ vs) \<subseteq> {..<TOTAL_NUMBER_OF_BUFFERS}" using inv by (simp add: ind_inv_def)
  moreover have "indirect_data_q ?t = q" by simp
  ultimately have "ind_inv ?t (fl @ [b]) (us @ vs)"
    unfolding ind_inv_def by (metis (no_types, lifting))
  then show ?thesis using r(1) by (intro exI [of _ ?t]) simp
qed

text \<open>A search that finds \<open>b\<close>, with the confirmation of what it took out.\<close>

lemma remove_and_confirm:
  assumes inv: "ind_inv s fl (us @ b # vs)"
    and pure: "pure_search sr s (us @ b # vs) P" "\<forall>u \<in> set us. \<not> P u" "P b"
  shows "\<exists>q s1. qmm_queue_remove (Some sr) (indirect_data_q s) s = Some (Some b, q, s1) \<and>
    body s1 = body s \<and>
    (\<exists>s'. mac_gen_mcps_data_conf b st h ts (s1\<lparr>indirect_data_q := q\<rparr>) = Some s' \<and>
    ind_inv s' (fl @ [b]) (us @ vs) \<and> (\<forall>x. x \<noteq> b \<longrightarrow> body s' x = body s x) \<and>
    s' = s\<lparr>bnext := bnext s', body := body s', free_buffer_q := free_buffer_q s', buffCount := buffCount s',
      indirect_data_q := q, mac_stats_g := mac_stats_g s', tx_counts := count_tx st (tx_counts s)\<rparr>)"
proof -
  have rep: "queue_rep s (indirect_data_q s) (us @ b # vs)" using inv by (simp add: ind_inv_def)
  obtain q s1 where r: "qmm_queue_remove (Some sr) (indirect_data_q s) s = Some (Some b, q, s1)"
    "queue_rep s1 q (us @ vs)" "links_only (set us) s s1"
    using queue_search_found(2) [OF rep pure] by blast
  then obtain g where g: "s1 = s\<lparr>bnext := g\<rparr>" "\<And>x. x \<notin> set us \<Longrightarrow> g x = bnext s x"
    unfolding links_only_def by (metis mac_mem.select_convs(1) mac_mem.surjective mac_mem.update_convs(1))
  have e: "s1\<lparr>indirect_data_q := q\<rparr> = s\<lparr>bnext := g, indirect_data_q := q\<rparr>" "body s1 = body s"
    unfolding g(1) by simp_all
  have "g x = bnext s x" if "x \<in> insert b (set fl)" for x
    using that g(2) inv ind_inv_distinct [OF inv] by (auto simp: ind_inv_def)
  from take_and_confirm [OF inv r(2) [unfolded g(1)] this, of st h ts] show ?thesis
    unfolding e(1) [symmetric] using r(1) e(2) by (intro exI [of _ q] exI [of _ s1]) simp
qed

subsection \<open>An example\<close>

text \<open>Two frames for the same device, the first of which expires at the next tick.\<close>

definition waiting :: "u8 \<Rightarrow> u16 \<Rightarrow> frame_info_t" where
  "waiting h t = \<lparr>msg_type = MCPS_MESSAGE, buffer_header_p = None, msduHandle = h, persistence_time = t,
     indirect_in_transit = False, time_stamp = 0,
     mpdu_p = [10, 0x61, 0x88, h, 0xBE, 0xBA, 0x34, 0x12, 0, 0, 0x55]\<rparr>"

definition two_waiting :: mac_st where
  "two_waiting = idle_coordinator\<lparr>bnext := (\<lambda>_. None)(3 := Some 5),
     body := (\<lambda>_. Unused)(3 := Frame (waiting 1 1), 5 := Frame (waiting 2 200)),
     indirect_data_q := \<lparr>qhead = Some 3, qtail = Some 5, qcapacity = 255, qsize = 2\<rparr>,
     mac_parse_data := no_parse\<lparr>src_addr_mode := FCF_SHORT, src_panid := 0xBABE, src_addr := ShortAddr 0x1234\<rparr>,
     mac_stm := fst (STM_AllocTimer (mac_stm idle_coordinator) 0 0 None)\<rparr>"

lemma two_waiting_frames: "fr two_waiting 3 = waiting 1 1" "fr two_waiting 5 = waiting 2 200"
  by (simp_all add: fr_def get_frame_def frame_of_def two_waiting_def)

lemma two_waiting_inv: "ind_inv two_waiting [] [3, 5]"
  by (simp add: ind_inv_def bmm_inv_def queue_rep_def two_waiting_def idle_coordinator_def qmm_queue_init_def
      TOTAL_NUMBER_OF_BUFFERS_def is_data_def waiting_def)

end
