(* ===== verification/MacExpiry.thy ===== *)
theory MacExpiry
  imports MacProps
begin

text \<open>
  The persistence timer: frames in the indirect queue that no device fetched.
\<close>

subsection \<open>Expiry\<close>

definition tick_frame :: "frame_info_t \<Rightarrow> frame_info_t" where
  "tick_frame f = (if indirect_in_transit f then f else f\<lparr>persistence_time := persistence_time f - 1\<rparr>)"

definition tick_bodies :: "nat list \<Rightarrow> mac_st \<Rightarrow> nat \<Rightarrow> body_t" where
  "tick_bodies xs s b = (if b \<in> set xs then Frame (tick_frame (fr s b)) else body s b)"

lemma tick_search:
  assumes "chain (bnext s) cur xs None" "distinct xs" "\<And>b. b \<in> set xs \<Longrightarrow> is_data s b"
  shows "\<exists>p. qmm_search \<lparr>compare_func_id = MAC_DECREMENT_PERSI_TIME, handle = HNull\<rparr> cur prev s =
    Some (None, p, False, s\<lparr>body := tick_bodies xs s\<rparr>)"
  using assms
proof (induction xs arbitrary: cur prev s)
  case Nil
  then have "tick_bodies [] s = body s" by (auto simp: tick_bodies_def)
  with Nil show ?case by (subst qmm_search.simps) simp
next
  case (Cons x xs)
  let ?sr = "\<lparr>compare_func_id = MAC_DECREMENT_PERSI_TIME, handle = HNull\<rparr>"
  let ?s = "s\<lparr>body := (body s)(x := Frame (tick_frame (fr s x)))\<rparr>"
  note x = is_data_frame [OF Cons.prems(3) [of x]]
  then have gf: "get_frame s x = Some (fr s x)" and bx: "body s x = Frame (fr s x)" by simp_all
  have "qmm_compare ?sr x s = Some (Some (False, ?s))"
    using gf bx by (auto simp: qmm_compare_def Let_def compare_ids_distinct decrement_persistence_time_def
        tick_frame_def put_body_def fun_upd_idem)
  moreover have "\<exists>p. qmm_search ?sr (bnext s x) (Some x) ?s = Some (None, p, False, ?s\<lparr>body := tick_bodies xs ?s\<rparr>)"
    using Cons.prems by (intro Cons.IH) (auto simp: is_data_def)
  moreover have "tick_bodies xs ?s = tick_bodies (x # xs) s"
    using Cons.prems(2) by (auto simp: tick_bodies_def fr_def get_frame_def fun_eq_iff)
  ultimately show ?case using Cons.prems(1) by (subst qmm_search.simps) auto
qed

lemma tick_read:
  assumes inv: "ind_inv s fl xs"
  shows "\<exists>r. qmm_queue_read (Some \<lparr>compare_func_id = MAC_DECREMENT_PERSI_TIME, handle = HNull\<rparr>)
      (indirect_data_q s) s = Some (r, indirect_data_q s, s\<lparr>body := tick_bodies xs s\<rparr>)"
proof (cases "xs = []")
  case True
  then have "tick_bodies xs s = body s" by (auto simp: tick_bodies_def)
  with True inv show ?thesis by (simp add: ind_inv_def queue_read_empty)
next
  case False
  let ?sr = "\<lparr>compare_func_id = MAC_DECREMENT_PERSI_TIME, handle = HNull\<rparr>"
  let ?q = "indirect_data_q s"
  have rep: "queue_rep s ?q xs" and d: "\<And>b. b \<in> set xs \<Longrightarrow> is_data s b" using inv by (auto simp: ind_inv_def)
  have "qsize ?q \<noteq> 0" using queue_rep_empty [OF rep] False by simp
  moreover obtain p where "qmm_search ?sr (qhead ?q) (qhead ?q) (s\<lparr>irqs := False\<rparr>) =
      Some (None, p, False, s\<lparr>irqs := False\<rparr>\<lparr>body := tick_bodies xs (s\<lparr>irqs := False\<rparr>)\<rparr>)"
    using tick_search [of "s\<lparr>irqs := False\<rparr>" "qhead ?q" xs "qhead ?q"] rep d
    by (auto simp: queue_rep_def is_data_def)
  moreover have "tick_bodies xs (s\<lparr>irqs := False\<rparr>) = tick_bodies xs s"
    by (simp add: tick_bodies_def fr_def fun_eq_iff)
  ultimately show ?thesis by (simp add: qmm_queue_read_def queue_read_or_remove_def Let_def)
qed

lemma ind_inv_tick:
  assumes "ind_inv s fl xs"
  shows "ind_inv (s\<lparr>body := tick_bodies xs s\<rparr>) fl xs"
proof -
  have "is_data (s\<lparr>body := tick_bodies xs s\<rparr>) b" if "b \<in> set xs" for b
    using that assms is_data_frame [of s b] by (auto simp: ind_inv_def is_data_def tick_bodies_def tick_frame_def)
  with assms show ?thesis by (simp add: ind_inv_def bmm_inv_def)
qed

lemma fr_tick: "b \<in> set xs \<Longrightarrow> fr (s\<lparr>body := tick_bodies xs s\<rparr>) b = tick_frame (fr s b)"
  by (simp add: fr_def get_frame_def frame_of_def tick_bodies_def)

text \<open>The loop takes out and confirms every frame whose time is up, the first one first.\<close>

definition confirm_all :: "nat \<Rightarrow> u8 \<Rightarrow> u16 list \<Rightarrow> u16 list" where
  "confirm_all n st cs = (count_tx st ^^ n) cs"

text \<open>What a pass of the loop leaves unchanged besides the queues and the frame.\<close>

definition same_service :: "mac_st \<Rightarrow> mac_st \<Rightarrow> bool" where
  "same_service s s' \<longleftrightarrow> mac_trace s' = mac_trace s \<and> mac_stm s' = mac_stm s \<and>
     indirect_data_persistence_timer s' = indirect_data_persistence_timer s \<and>
     hal_pib_BeaconOrder s' = hal_pib_BeaconOrder s"

abbreviation zero :: "mac_st \<Rightarrow> nat \<Rightarrow> bool" where
  "zero s b \<equiv> check_persistence_time_zero (fr s b)"

abbreviation zero_search :: search_t where
  "zero_search \<equiv> \<lparr>compare_func_id = MAC_CHECK_PERSI_TIME_ZERO, handle = HNull\<rparr>"

lemma zero_search_pure:
  assumes "ind_inv s fl xs"
  shows "pure_search zero_search s xs (zero s)"
  using check_zero_pure [of xs s HNull] assms is_data_frame unfolding ind_inv_def fr_def by blast

lemma expire_step:
  assumes inv: "ind_inv s fl (us @ b # vs)" and b: "zero s b" "\<forall>u \<in> set us. \<not> zero s u"
  shows "\<exists>s2. expire_loop env zero_search s = expire_loop env zero_search s2 \<and>
    ind_inv s2 (fl @ [b]) (us @ vs) \<and> (\<forall>x. x \<noteq> b \<longrightarrow> body s2 x = body s x) \<and>
    tx_counts s2 = count_tx MAC_TRANSACTION_EXPIRED (tx_counts s) \<and> same_service s s2"
proof -
  let ?h = "frame_info_t.msduHandle (fr s b)"
  obtain q s1 s2 where r: "qmm_queue_remove (Some zero_search) (indirect_data_q s) s = Some (Some b, q, s1)"
    "body s1 = body s" "mac_gen_mcps_data_conf b MAC_TRANSACTION_EXPIRED ?h 0 (s1\<lparr>indirect_data_q := q\<rparr>) = Some s2"
    "ind_inv s2 (fl @ [b]) (us @ vs)" "\<forall>x. x \<noteq> b \<longrightarrow> body s2 x = body s x"
    "s2 = s\<lparr>bnext := bnext s2, body := body s2, free_buffer_q := free_buffer_q s2, buffCount := buffCount s2,
      indirect_data_q := q, mac_stats_g := mac_stats_g s2, tx_counts := count_tx MAC_TRANSACTION_EXPIRED (tx_counts s)\<rparr>"
    using remove_and_confirm [OF inv zero_search_pure [OF inv] b(2,1), of MAC_TRANSACTION_EXPIRED ?h 0] by metis
  have keep: "tx_counts s2 = count_tx MAC_TRANSACTION_EXPIRED (tx_counts s)" "same_service s s2"
    unfolding same_service_def by (subst r(6), simp)+
  have "is_data s b" using inv by (simp add: ind_inv_def)
  note fb = is_data_frame [OF this]
  have "get_frame (s1\<lparr>indirect_data_q := q\<rparr>) b = Some (fr s b)" using fb r(2) by (simp add: get_frame_def frame_of_def)
  then have "handle_exp_persistence_timer env b (s1\<lparr>indirect_data_q := q\<rparr>) = Some s2"
    using r(3) fb by (simp add: handle_exp_persistence_timer_def)
  then have "expire_loop env zero_search s = expire_loop env zero_search s2"
    using r(1) by (subst expire_loop.simps) simp
  with r(4,5) keep show ?thesis by blast
qed

lemma expire_loop_spec:
  assumes "ind_inv s fl xs"
  shows "\<exists>s'. expire_loop env zero_search s = Some s' \<and>
    ind_inv s' (fl @ filter (zero s) xs) (filter (\<lambda>b. \<not> zero s b) xs) \<and>
    (\<forall>x. x \<notin> {b \<in> set xs. zero s b} \<longrightarrow> body s' x = body s x) \<and>
    tx_counts s' = (count_tx MAC_TRANSACTION_EXPIRED ^^ length (filter (zero s) xs)) (tx_counts s) \<and>
    same_service s s'"
  using assms
proof (induction xs arbitrary: s fl rule: length_induct)
  case (1 xs)
  note inv = 1(2)
  have rep: "queue_rep s (indirect_data_q s) xs" using inv by (simp add: ind_inv_def)
  show ?case
  proof (cases "\<exists>b \<in> set xs. zero s b")
    case False
    then have "qmm_queue_remove (Some zero_search) (indirect_data_q s) s = Some (None, indirect_data_q s, s)"
      using queue_search_none(2) [OF rep zero_search_pure [OF inv]] by blast
    moreover have "filter (zero s) xs = []" "filter (\<lambda>b. \<not> zero s b) xs = xs" using False by auto
    ultimately show ?thesis using inv
      by (subst expire_loop.simps) (simp add: same_service_def)
  next
    case True
    then obtain us b vs where xs: "xs = us @ b # vs" and b: "zero s b" "\<forall>u \<in> set us. \<not> zero s u"
      using split_list_first_prop [of xs "zero s"] by blast
    obtain s2 where r: "expire_loop env zero_search s = expire_loop env zero_search s2"
      "ind_inv s2 (fl @ [b]) (us @ vs)" "\<forall>x. x \<noteq> b \<longrightarrow> body s2 x = body s x"
      "tx_counts s2 = count_tx MAC_TRANSACTION_EXPIRED (tx_counts s)" "same_service s s2"
      using expire_step [OF inv [unfolded xs] b] by blast
    have "b \<notin> set (us @ vs)" using ind_inv_distinct [OF inv] xs by simp
    then have Z: "zero s2 x = zero s x" if "x \<in> set (us @ vs)" for x
      using that r(3) fr_body_cong [of s2 x s] by metis
    have f: "filter (zero s2) (us @ vs) = filter (zero s) (us @ vs)"
      "filter (\<lambda>b. \<not> zero s2 b) (us @ vs) = filter (\<lambda>b. \<not> zero s b) (us @ vs)"
      by (rule filter_cong [OF refl], simp only: Z)+
    have f': "filter (zero s) xs = b # filter (zero s) (us @ vs)"
      "filter (\<lambda>b. \<not> zero s b) xs = filter (\<lambda>b. \<not> zero s b) (us @ vs)" using b by (simp_all add: xs)
    have "length (us @ vs) < length xs" by (simp add: xs)
    with 1(1) r(2) obtain s' where s': "expire_loop env zero_search s2 = Some s'"
      "ind_inv s' ((fl @ [b]) @ filter (zero s2) (us @ vs)) (filter (\<lambda>b. \<not> zero s2 b) (us @ vs))"
      "\<forall>x. x \<notin> {b \<in> set (us @ vs). zero s2 b} \<longrightarrow> body s' x = body s2 x"
      "tx_counts s' = (count_tx MAC_TRANSACTION_EXPIRED ^^ length (filter (zero s2) (us @ vs))) (tx_counts s2)"
      "same_service s2 s'" by blast
    have "body s' x = body s x" if "x \<notin> {b \<in> set xs. zero s b}" for x
    proof -
      have "x \<noteq> b" "x \<notin> {b \<in> set (us @ vs). zero s2 b}" using that Z b(1) by (auto simp: xs)
      then have "body s' x = body s2 x" using s'(3) by blast
      with \<open>x \<noteq> b\<close> show ?thesis using r(3) by simp
    qed
    moreover have "same_service s s'" using r(5) s'(5) by (simp add: same_service_def)
    ultimately show ?thesis
      using s'(1,2,4) r(1,4) unfolding f f' by (intro exI [of _ s']) (simp add: funpow_swap1)
  qed
qed

text \<open>The frames that expire at the next tick.\<close>

definition expires :: "frame_info_t \<Rightarrow> bool" where
  "expires f \<longleftrightarrow> \<not> indirect_in_transit f \<and> persistence_time f = 1"

lemma zero_tick: "check_persistence_time_zero (tick_frame f) = expires f"
  by (auto simp: check_persistence_time_zero_def tick_frame_def expires_def)

lemma decrement_spec:
  assumes inv: "ind_inv s fl xs"
  shows "\<exists>s'. handle_persistence_time_decrement env s = Some s' \<and>
    ind_inv s' (fl @ filter (\<lambda>b. expires (fr s b)) xs) (filter (\<lambda>b. \<not> expires (fr s b)) xs) \<and>
    (\<forall>b \<in> set xs. \<not> expires (fr s b) \<longrightarrow> fr s' b = tick_frame (fr s b)) \<and>
    tx_counts s' = (count_tx MAC_TRANSACTION_EXPIRED ^^ length (filter (\<lambda>b. expires (fr s b)) xs)) (tx_counts s) \<and>
    same_service (mac_hal_frame_pending False s) s'"
proof -
  let ?t = "s\<lparr>body := tick_bodies xs s\<rparr>"
  have Z: "zero ?t b = expires (fr s b)" if "b \<in> set xs" for b using fr_tick [OF that] by (simp add: zero_tick)
  have f: "filter (zero ?t) xs = filter (\<lambda>b. expires (fr s b)) xs"
    "filter (\<lambda>b. \<not> zero ?t b) xs = filter (\<lambda>b. \<not> expires (fr s b)) xs"
    using Z by (auto intro!: filter_cong)
  obtain s' where s': "expire_loop env zero_search ?t = Some s'"
    "ind_inv s' (fl @ filter (zero ?t) xs) (filter (\<lambda>b. \<not> zero ?t b) xs)"
    "\<forall>x. x \<notin> {b \<in> set xs. zero ?t b} \<longrightarrow> body s' x = body ?t x"
    "tx_counts s' = (count_tx MAC_TRANSACTION_EXPIRED ^^ length (filter (zero ?t) xs)) (tx_counts ?t)"
    "same_service ?t s'"
    using expire_loop_spec [OF ind_inv_tick [OF inv]] by blast
  let ?s' = "mac_hal_frame_pending False s'"
  have "handle_persistence_time_decrement env s = Some ?s'"
    using tick_read [OF inv] s'(1) by (auto simp: handle_persistence_time_decrement_def)
  moreover have "ind_inv ?s' fl' xs'" if "ind_inv s' fl' xs'" for fl' xs'
    using that by (simp add: mac_hal_frame_pending_def mact_def ind_inv_def bmm_inv_def queue_rep_def is_data_def)
  moreover have "fr ?s' b = tick_frame (fr s b)" if "b \<in> set xs" "\<not> expires (fr s b)" for b
  proof -
    have "body ?s' b = body ?t b" using s'(3) that Z by (simp add: mac_hal_frame_pending_def mact_def)
    then show ?thesis using fr_body_cong [of ?s' b ?t] fr_tick [OF that(1)] by simp
  qed
  ultimately show ?thesis
    using s'(2,4,5) unfolding f
    by (intro exI [of _ ?s']) (simp add: same_service_def mac_hal_frame_pending_def mact_def)
qed

lemma tx_counter_expired: "tx_counter MAC_TRANSACTION_EXPIRED = Some 2"
  by (simp add: tx_counter_def MAC_TRANSACTION_EXPIRED_def MAC_SUCCESS_def MAC_TRANSACTION_OVERFLOW_def)

lemma count_tx_expired:
  "length cs = 12 \<Longrightarrow> (count_tx MAC_TRANSACTION_EXPIRED ^^ n) cs = cs[2 := cs ! 2 + of_nat n]"
  by (induction n) (simp_all add: count_tx_def tx_counter_expired add_ac)

lemma start_timer_spec:
  assumes q: "queue_rep s (indirect_data_q s) xs" "xs \<noteq> []"
    and stm: "stm_inv (mac_stm s) tq" "unat (indirect_data_persistence_timer s) < STM_TIMER_MAX"
      "valid (timerCb (mac_stm s) ! unat (indirect_data_persistence_timer s))"
      "unat (indirect_data_persistence_timer s) \<notin> set tq"
  shows "\<exists>m. mac_start_persistence_timer s = Some (s\<lparr>mac_trace := mac_trace s @ [HalFramePending True], mac_stm := m\<rparr>) \<and>
    expiry m (unat (indirect_data_persistence_timer s)) =
      now (mac_stm s) + unat (STM_MS_TO_TICK (persistence_interval (hal_pib_BeaconOrder s)))"
proof -
  have "qsize (indirect_data_q s) \<noteq> 0" using queue_rep_empty [OF q(1)] q(2) by simp
  then have "qsize (indirect_data_q s) > 0" by (simp add: word_gt_0)
  moreover obtain m where m: "STM_StartTimer (mac_stm s) (indirect_data_persistence_timer s)
      (persistence_interval (hal_pib_BeaconOrder s)) = Some (m, STATUS_SUCCESS)"
    "expiry m (unat (indirect_data_persistence_timer s)) =
      now (mac_stm s) + unat (STM_MS_TO_TICK (persistence_interval (hal_pib_BeaconOrder s)))"
    using stm_start_spec [OF stm, of "persistence_interval (hal_pib_BeaconOrder s)"] by blast
  ultimately show ?thesis
    by (intro exI [of _ m]) (simp add: mac_start_persistence_timer_def Let_def mac_hal_frame_pending_def mact_def)
qed

text \<open>C38.
  One expiry of the persistence timer.  The callback always returns.  It takes exactly the frames
  whose time is up out of the indirect queue, confirms each of them as expired and returns its
  buffer to the pool, in the order of the queue; every other frame that is not being sent comes
  one tick nearer to its end.  The radio's frame-pending bit ends up set exactly when frames are
  left, and in that case, and only then, the timer runs again for the persistence interval.\<close>

theorem mac_persistence_tick:
  assumes inv: "ind_inv s fl xs" and cnt: "length (tx_counts s) = 12"
    and stm: "stm_inv (mac_stm s) tq" "unat (indirect_data_persistence_timer s) < STM_TIMER_MAX"
      "valid (timerCb (mac_stm s) ! unat (indirect_data_persistence_timer s))"
      "unat (indirect_data_persistence_timer s) \<notin> set tq"
  shows "\<exists>s'. mac_persistence_timer_cb env s = Some s' \<and>
    ind_inv s' (fl @ filter (\<lambda>b. expires (fr s b)) xs) (filter (\<lambda>b. \<not> expires (fr s b)) xs) \<and>
    (\<forall>b \<in> set xs. \<not> expires (fr s b) \<longrightarrow> fr s' b = tick_frame (fr s b)) \<and>
    tx_counts s' = (tx_counts s)[2 := tx_counts s ! 2 + of_nat (length (filter (\<lambda>b. expires (fr s b)) xs))] \<and>
    (if \<forall>b \<in> set xs. expires (fr s b)
     then mac_trace s' = mac_trace s @ [HalFramePending False] \<and> mac_stm s' = mac_stm s
     else mac_trace s' = mac_trace s @ [HalFramePending False, HalFramePending True] \<and>
       expiry (mac_stm s') (unat (indirect_data_persistence_timer s)) =
         now (mac_stm s) + unat (STM_MS_TO_TICK (persistence_interval (hal_pib_BeaconOrder s))))"
proof -
  let ?left = "filter (\<lambda>b. \<not> expires (fr s b)) xs"
  obtain s1 where s1: "handle_persistence_time_decrement env s = Some s1"
    "ind_inv s1 (fl @ filter (\<lambda>b. expires (fr s b)) xs) ?left"
    "\<forall>b \<in> set xs. \<not> expires (fr s b) \<longrightarrow> fr s1 b = tick_frame (fr s b)"
    "tx_counts s1 = (tx_counts s)[2 := tx_counts s ! 2 + of_nat (length (filter (\<lambda>b. expires (fr s b)) xs))]"
    "mac_trace s1 = mac_trace s @ [HalFramePending False]" "mac_stm s1 = mac_stm s"
    "indirect_data_persistence_timer s1 = indirect_data_persistence_timer s"
    "hal_pib_BeaconOrder s1 = hal_pib_BeaconOrder s"
    using decrement_spec [OF inv, of env] cnt
    by (auto simp: count_tx_expired same_service_def mac_hal_frame_pending_def mact_def)
  have rep: "queue_rep s1 (indirect_data_q s1) ?left" using s1(2) by (simp add: ind_inv_def)
  show ?thesis
  proof (cases "?left = []")
    case True
    then have "qsize (indirect_data_q s1) = 0" using queue_rep_empty [OF rep] by simp
    then have "mac_persistence_timer_cb env s = Some s1" using s1(1) by (simp add: mac_persistence_timer_cb_def)
    with s1 True show ?thesis by (auto simp: filter_empty_conv)
  next
    case False
    then have "qsize (indirect_data_q s1) \<noteq> 0" using queue_rep_empty [OF rep] by simp
    then have pos: "qsize (indirect_data_q s1) > 0" by (simp add: word_gt_0)
    obtain m where m: "mac_start_persistence_timer s1 =
        Some (s1\<lparr>mac_trace := mac_trace s1 @ [HalFramePending True], mac_stm := m\<rparr>)"
      "expiry m (unat (indirect_data_persistence_timer s1)) =
        now (mac_stm s1) + unat (STM_MS_TO_TICK (persistence_interval (hal_pib_BeaconOrder s1)))"
      using start_timer_spec [OF rep False, of tq] stm by (auto simp: s1(6,7,8))
    let ?s = "s1\<lparr>mac_trace := mac_trace s1 @ [HalFramePending True], mac_stm := m\<rparr>"
    have "mac_persistence_timer_cb env s = Some ?s"
      using s1(1) m(1) pos by (simp add: mac_persistence_timer_cb_def)
    moreover have "ind_inv ?s fl' xs'" if "ind_inv s1 fl' xs'" for fl' xs'
      using that by (simp add: ind_inv_def bmm_inv_def queue_rep_def is_data_def)
    moreover have "fr ?s = fr s1" by (simp add: fr_def get_frame_def fun_eq_iff)
    moreover have "\<not> (\<forall>b \<in> set xs. expires (fr s b))" using False by (auto simp: filter_empty_conv)
    ultimately show ?thesis
      using s1 m(2) by (intro exI [of _ ?s]) simp
  qed
qed

theorem mac_persistence_tick_witness:
  "\<exists>s'. mac_persistence_timer_cb quiet_env two_waiting = Some s' \<and> ind_inv s' [3] [5] \<and>
     persistence_time (fr s' 5) = 199 \<and> mac_trace s' = [HalFramePending False, HalFramePending True] \<and>
     expiry (mac_stm s') 0 = 98"
proof -
  let ?m0 = "mac_stm idle_coordinator"
  have i0: "stm_inv ?m0 []" unfolding idle_coordinator_def by (simp add: stm_init_inv)
  have stm: "stm_inv (mac_stm two_waiting) []" using stm_alloc_inv [OF i0] by (simp add: two_waiting_def)
  have v: "valid (timerCb (mac_stm two_waiting) ! 0)"
    by (simp add: two_waiting_def idle_coordinator_def STM_AllocTimer_def STM_Init_def STM_TIMER_MAX_def upd_cb_def
        zeroTimerCb_def upt_rec)
  have t: "now (mac_stm two_waiting) = 0" "indirect_data_persistence_timer two_waiting = 0"
    "length (tx_counts two_waiting) = 12" "hal_pib_BeaconOrder two_waiting = 6" "mac_trace two_waiting = []"
    by (simp_all add: two_waiting_def idle_coordinator_def STM_AllocTimer_def STM_Init_def now_def upd_cb_def
        split: option.split)
  have p: "unat (STM_MS_TO_TICK (persistence_interval 6)) = 98"
    by (simp add: persistence_interval_def NON_BEACON_NWK_def STM_MS_TO_TICK_def Let_def)
  have e: "expires (fr two_waiting 3)" "\<not> expires (fr two_waiting 5)" "persistence_time (tick_frame (fr two_waiting 5)) = 199"
    by (simp_all add: two_waiting_frames expires_def waiting_def tick_frame_def)
  have u: "unat (indirect_data_persistence_timer two_waiting) < STM_TIMER_MAX"
    "valid (timerCb (mac_stm two_waiting) ! unat (indirect_data_persistence_timer two_waiting))"
    "unat (indirect_data_persistence_timer two_waiting) \<notin> set []" using v t(2) by (simp_all add: STM_TIMER_MAX_def)
  from mac_persistence_tick [OF two_waiting_inv t(3) stm u, of quiet_env] show ?thesis
    by (rule ex_forward) (simp add: t e p)
qed

end
