(* ===== verification/MacPoll.thy ===== *)
theory MacPoll
  imports MacProps
begin

unbundle bit_operations_syntax

text \<open>
  A device that polls: which frame the coordinator sends it, and what becomes of the frame.
\<close>

subsection \<open>Who a frame is for\<close>

definition frame_dest :: "frame_info_t \<Rightarrow> address_field_t option" where
  "frame_dest f =
     (case dst_addr_mode f of
        None \<Rightarrow> None
      | Some m \<Rightarrow>
          if m = FCF_SHORT
          then map_option ShortAddr (mac_utils_byte_array_to_16_bit (drop PL_POS_DST_ADDR_START (mpdu_p f)))
          else if m = FCF_LONG_ADDR
          then map_option LongAddr (mac_utils_byte_array_to_64_bit (drop PL_POS_DST_ADDR_START (mpdu_p f)))
          else None)"

definition frame_pan :: "frame_info_t \<Rightarrow> u16 option" where
  "frame_pan f = mac_utils_byte_array_to_16_bit (drop PL_POS_DST_PAN_ID_START (mpdu_p f))"

text \<open>The frame is long enough for the fields its control field announces.\<close>

definition wf_frame :: "frame_info_t \<Rightarrow> bool" where
  "wf_frame f \<longleftrightarrow>
     (\<exists>m. dst_addr_mode f = Some m \<and> (m = FCF_SHORT \<longrightarrow> 8 \<le> length (mpdu_p f)) \<and>
        (m = FCF_LONG_ADDR \<longrightarrow> 14 \<le> length (mpdu_p f))) \<and>
     hd (mpdu_p f) \<le> aMaxPHYPacketSize \<and> unat (hd (mpdu_p f)) < length (mpdu_p f)"

definition poll_search :: "address_field_t \<Rightarrow> search_t" where
  "poll_search a =
     (case a of ShortAddr x \<Rightarrow> \<lparr>compare_func_id = MAC_DATA_FIND_SHORT_ADDR, handle = HShort x\<rparr>
      | LongAddr x \<Rightarrow> \<lparr>compare_func_id = MAC_DATA_FIND_EXT_ADDR, handle = HLong x\<rparr>)"

definition pending_for :: "address_field_t \<Rightarrow> mac_st \<Rightarrow> nat \<Rightarrow> bool" where
  "pending_for a s b \<longleftrightarrow> \<not> indirect_in_transit (fr s b) \<and> frame_dest (fr s b) = Some a"

lemma bytes16_Some: "2 \<le> length p \<Longrightarrow> \<exists>v. mac_utils_byte_array_to_16_bit p = Some v"
  by (cases p; cases "tl p") (simp_all add: mac_utils_byte_array_to_16_bit_def arr_get_def)

lemma u64_eq: "EXT_ADDR_MATCH a b \<longleftrightarrow> a = (b :: u64)"
  by (cases a; cases b) (auto simp: EXT_ADDR_MATCH_def)

lemma find_short_spec:
  assumes "wf_frame f"
  shows "mac_data_find_short_addr_buffer f (HShort x) =
    Some (\<not> indirect_in_transit f \<and> frame_dest f = Some (ShortAddr x))"
proof -
  obtain m where m: "dst_addr_mode f = Some m" "m = FCF_SHORT \<longrightarrow> 8 \<le> length (mpdu_p f)"
    using assms unfolding wf_frame_def by blast
  show ?thesis
  proof (cases "m = FCF_SHORT")
    case True
    with m(2) have "2 \<le> length (drop PL_POS_DST_ADDR_START (mpdu_p f))" by (simp add: PL_POS_DST_ADDR_START_def)
    from bytes16_Some [OF this] obtain v
      where "mac_utils_byte_array_to_16_bit (drop PL_POS_DST_ADDR_START (mpdu_p f)) = Some v" ..
    with True m(1) show ?thesis by (auto simp: mac_data_find_short_addr_buffer_def frame_dest_def)
  next
    case False
    with m(1) show ?thesis by (auto simp: mac_data_find_short_addr_buffer_def frame_dest_def)
  qed
qed

lemma bytes64_Some:
  assumes "8 \<le> length p"
  shows "\<exists>v. mac_utils_byte_array_to_64_bit p = Some v"
proof -
  obtain a b c d e where "p = a # b # c # d # e" "4 \<le> length e"
    using assms by (auto simp: numeral_eq_Suc Suc_le_length_iff)
  moreover from this(2) obtain f g h i j where "e = f # g # h # i # j"
    by (auto simp: numeral_eq_Suc Suc_le_length_iff)
  ultimately show ?thesis
    by (simp add: mac_utils_byte_array_to_64_bit_def mac_utils_byte_array_to_32_bit_def fill_val8_4)
qed

lemma find_long_spec:
  assumes "wf_frame f"
  shows "mac_data_find_long_addr_buffer f (HLong x) =
    Some (\<not> indirect_in_transit f \<and> frame_dest f = Some (LongAddr x))"
proof -
  obtain m where m: "dst_addr_mode f = Some m" "m = FCF_LONG_ADDR \<longrightarrow> 14 \<le> length (mpdu_p f)"
    using assms unfolding wf_frame_def by blast
  have ne: "FCF_LONG_ADDR \<noteq> FCF_SHORT" by (simp add: FCF_LONG_ADDR_def FCF_SHORT_def)
  show ?thesis
  proof (cases "m = FCF_LONG_ADDR")
    case True
    with m(2) have "8 \<le> length (drop PL_POS_DST_ADDR_START (mpdu_p f))" by (simp add: PL_POS_DST_ADDR_START_def)
    from bytes64_Some [OF this] obtain v
      where "mac_utils_byte_array_to_64_bit (drop PL_POS_DST_ADDR_START (mpdu_p f)) = Some v" ..
    with True m(1) ne show ?thesis
      by (auto simp: mac_data_find_long_addr_buffer_def frame_dest_def u64_eq)
  next
    case False
    with m(1) show ?thesis by (auto simp: mac_data_find_long_addr_buffer_def frame_dest_def)
  qed
qed

lemma poll_search_pure:
  assumes "\<And>b. b \<in> set xs \<Longrightarrow> is_data s b" "\<And>b. b \<in> set xs \<Longrightarrow> wf_frame (fr s b)"
  shows "pure_search (poll_search a) s xs (pending_for a s)"
  unfolding pure_search_def
proof (intro ballI allI)
  fix b i
  assume b: "b \<in> set xs"
  have g: "get_frame s b = Some (fr s b)" using is_data_frame [OF assms(1) [OF b]] by simp
  show "qmm_compare (poll_search a) b (s\<lparr>irqs := i\<rparr>) = Some (Some (pending_for a s b, s\<lparr>irqs := i\<rparr>))"
    using find_short_spec [OF assms(2) [OF b]] find_long_spec [OF assms(2) [OF b]]
    by (cases a) (simp_all add: poll_search_def qmm_compare_def Let_def compare_ids_distinct g pending_for_def)
qed

subsection \<open>Frames that were requested\<close>

lemma and_3_take_bit: "(v :: 'a :: len word) AND 3 = take_bit 2 v"
  by (simp add: take_bit_eq_mask mask_eq_exp_minus_1)

text \<open>A frame that \<open>build_data_frame\<close> made is well formed and is for the address of the request.\<close>

lemma frame_bytes_dest:
  assumes f: "mpdu_p f = frame_bytes r payload s" and sec: "SecurityLevel (Security r) = 0"
    and m: "SrcAddrMode r \<in> {FCF_NO_ADDR, FCF_SHORT, FCF_LONG_ADDR}" "DstAddrMode r \<in> {FCF_SHORT, FCF_LONG_ADDR}"
    and len: "length (frame_tail r payload s) \<le> 127"
  shows "wf_frame f" "frame_pan f = Some (DstPANId r)"
    "frame_dest f = Some (if DstAddrMode r = FCF_SHORT then ShortAddr (ucast (lo_u32 (DstAddr r))) else LongAddr (DstAddr r))"
proof -
  have no: "FCF_SHORT \<noteq> FCF_NO_ADDR" "FCF_LONG_ADDR \<noteq> FCF_NO_ADDR" "FCF_LONG_ADDR \<noteq> FCF_SHORT"
    by (simp_all add: FCF_SHORT_def FCF_NO_ADDR_def FCF_LONG_ADDR_def)
  let ?c = "frame_fcf r (hal_pib_PANId s)"
  have "drop_bit 2 (ucast (drop_bit 8 ?c) :: u8) AND 3 = ucast (drop_bit 10 ?c AND 3)"
    unfolding and_3_take_bit
    by (rule bit_word_eqI) (auto simp: bit_take_bit_iff bit_unsigned_iff bit_drop_bit_eq dest: bit_imp_le_length)
  also have "\<dots> = DstAddrMode r" using frame_fcf_fields(2) [OF sec m(1)] m(2) by auto
  finally have dm: "dst_addr_mode f = Some (DstAddrMode r)"
    by (simp add: dst_addr_mode_def f frame_bytes_def frame_tail_def PL_POS_FCF_2_def arr_get_def
        mac_utils_16_bit_to_byte_array_def low_byte)
  have d4: "\<exists>rest. drop 4 (mpdu_p f) = dst_bytes (DstAddrMode r) (DstPANId r) (DstAddr r) @ rest"
    by (simp add: f frame_bytes_def frame_tail_def)
  then obtain rest where rest: "drop 4 (mpdu_p f) = dst_bytes (DstAddrMode r) (DstPANId r) (DstAddr r) @ rest" ..
  show "frame_pan f = Some (DstPANId r)"
    using m(2) no by (auto simp: frame_pan_def PL_POS_DST_PAN_ID_START_def rest dst_bytes_def mac_utils_16_roundtrip)
  have "drop 6 (mpdu_p f) = drop 2 (drop 4 (mpdu_p f))" by simp
  also have "\<dots> = drop 2 (dst_bytes (DstAddrMode r) (DstPANId r) (DstAddr r) @ rest)" unfolding rest ..
  finally show "frame_dest f = Some (if DstAddrMode r = FCF_SHORT then ShortAddr (ucast (lo_u32 (DstAddr r))) else LongAddr (DstAddr r))"
    using m(2) no by (auto simp: frame_dest_def dm PL_POS_DST_ADDR_START_def dst_bytes_def
        mac_utils_16_roundtrip mac_utils_64_roundtrip)
  have "unat (of_nat (length (frame_tail r payload s)) :: u8) = length (frame_tail r payload s)"
    using len by (simp add: unat_of_nat)
  then show "wf_frame f"
    using m(2) no len by (auto simp: wf_frame_def dm f frame_bytes_def frame_tail_def dst_bytes_def
        aMaxPHYPacketSize_def word_le_nat_alt)
qed

subsection \<open>Sending a frame\<close>

lemma tx_frame_spec:
  assumes "get_frame s b = Some f" "wf_frame f" "fifo_status env (mac_trace s) = MAC_SUCCESS"
  shows "mac_hal_tx_frame env b mode False s = Some (MAC_SUCCESS,
    s\<lparr>mac_frame_p := Some b, mac_trace := mac_trace s @ [HalTx (take (Suc (unat (hd (mpdu_p f)))) (mpdu_p f)) mode False]\<rparr>)"
proof -
  obtain x xs where p: "mpdu_p f = x # xs" using assms(2) by (cases "mpdu_p f") (auto simp: wf_frame_def)
  with assms show ?thesis
    by (simp add: mac_hal_tx_frame_def wf_frame_def arr_get_def bytes_at_def mact_def Let_def)
qed

text \<open>The bytes sent: with the frame-pending bit when there is more for the device.\<close>

definition pend :: "bool \<Rightarrow> u8 list \<Rightarrow> u8 list" where
  "pend more_pending p = (if more_pending then p[1 := p ! 1 OR FCF_FRAME_PENDING] else p)"

lemma wf_pend: "wf_frame f \<Longrightarrow> wf_frame (f\<lparr>mpdu_p := pend c (mpdu_p f)\<rparr>)"
  by (cases "mpdu_p f") (auto simp: wf_frame_def pend_def dst_addr_mode_def PL_POS_FCF_2_def arr_get_def)

lemma pend_set:
  assumes "wf_frame f"
  shows "(if c then set_frame_pending f else Some f) = Some (f\<lparr>mpdu_p := pend c (mpdu_p f)\<rparr>)"
proof -
  have "3 \<le> length (mpdu_p f)"
    using assms by (auto simp: wf_frame_def dst_addr_mode_def PL_POS_FCF_2_def arr_get_def split: if_splits)
  then show ?thesis by (simp add: set_frame_pending_def arr_get_def PL_POS_FCF_1_def pend_def)
qed

text \<open>A change of one frame in the queue keeps the invariant.\<close>

lemma ind_inv_put:
  assumes "ind_inv s fl xs" "msg_type f = MCPS_MESSAGE"
  shows "ind_inv (s\<lparr>body := (body s)(b := Frame f)\<rparr>) fl xs"
  using assms by (auto simp: ind_inv_def bmm_inv_def queue_rep_def is_data_def)

lemma fr_put [simp]: "fr (s\<lparr>body := (body s)(b := Frame f)\<rparr>) x = (if x = b then f else fr s x)"
  by (simp add: fr_def get_frame_def frame_of_def)

definition sent_frame :: "nat \<Rightarrow> bool \<Rightarrow> frame_info_t \<Rightarrow> frame_info_t" where
  "sent_frame b c f = f\<lparr>indirect_in_transit := True, buffer_header_p := Some b, mpdu_p := pend c (mpdu_p f)\<rparr>"

lemma send_indirect_spec:
  fixes a :: address_field_t
  assumes inv: "ind_inv s fl xs" and wf: "\<And>x. x \<in> set xs \<Longrightarrow> wf_frame (fr s x)"
    and b: "b \<in> set xs" and ok: "fifo_status env (mac_trace s) = MAC_SUCCESS"
  defines "c \<equiv> \<exists>x \<in> set xs. x \<noteq> b \<and> pending_for a s x"
  shows "send_indirect env (poll_search a) b s = Some (s\<lparr>body := (body s)(b := Frame (sent_frame b c (fr s b))),
    mac_frame_p := Some b, mac_busy := True,
    mac_trace := mac_trace s @ [HalTx (take (Suc (unat (hd (mpdu_p (fr s b))))) (pend c (mpdu_p (fr s b)))) NO_CSMA False]\<rparr>)"
proof -
  have db: "is_data s b" using inv b by (simp add: ind_inv_def)
  note fb = is_data_frame [OF db]
  let ?f1 = "fr s b\<lparr>indirect_in_transit := True, buffer_header_p := Some b\<rparr>"
  let ?s1 = "s\<lparr>body := (body s)(b := Frame ?f1)\<rparr>"
  have i1: "ind_inv ?s1 fl xs" using ind_inv_put [OF inv] fb by simp
  have w1: "wf_frame (fr ?s1 x)" if "x \<in> set xs" for x
    using wf [OF that] by (auto simp: wf_frame_def dst_addr_mode_def)
  have pure: "pure_search (poll_search a) ?s1 xs (pending_for a ?s1)"
    using i1 w1 by (intro poll_search_pure) (auto simp: ind_inv_def)
  have rep: "queue_rep ?s1 (indirect_data_q ?s1) xs" using i1 by (simp add: ind_inv_def)
  have "pending_for a ?s1 x \<longleftrightarrow> x \<noteq> b \<and> pending_for a s x" for x by (simp add: pending_for_def)
  then have "find (pending_for a ?s1) xs \<noteq> None \<longleftrightarrow> c" by (auto simp: find_None_iff c_def)
  then obtain r where r: "qmm_queue_read (Some (poll_search a)) (indirect_data_q ?s1) ?s1 = Some (r, indirect_data_q ?s1, ?s1)"
    "r \<noteq> None \<longleftrightarrow> c" using queue_search_read [OF rep pure] by blast
  have wf1: "wf_frame ?f1" using w1 [OF b] by simp
  let ?f2 = "sent_frame b c (fr s b)"
  have f2: "?f1\<lparr>mpdu_p := pend c (mpdu_p ?f1)\<rparr> = ?f2" by (simp add: sent_frame_def)
  let ?s2 = "s\<lparr>body := (body s)(b := Frame ?f2)\<rparr>"
  have hd: "hd (mpdu_p ?f2) = hd (mpdu_p (fr s b))" using wf [OF b]
    by (cases "mpdu_p (fr s b)") (auto simp: sent_frame_def pend_def wf_frame_def)
  have tx: "mac_hal_tx_frame env b NO_CSMA False ?s2 = Some (MAC_SUCCESS, ?s2\<lparr>mac_frame_p := Some b,
      mac_trace := mac_trace s @ [HalTx (take (Suc (unat (hd (mpdu_p (fr s b))))) (mpdu_p ?f2)) NO_CSMA False]\<rparr>)"
    using tx_frame_spec [of ?s2 b ?f2 env NO_CSMA] wf_pend [OF wf1, of c] ok hd f2
    by (simp add: get_frame_def frame_of_def)
  have step: "send_indirect env (poll_search a) b s =
     (do { (tx_status, s) \<leftarrow> mac_hal_tx_frame env b NO_CSMA False ?s2;
           if tx_status = MAC_SUCCESS then Some (s\<lparr>mac_busy := True\<rparr>)
           else Some (put_body b (Frame (?f2\<lparr>indirect_in_transit := False\<rparr>)) s) })"
    using fb r pend_set [OF wf1, of c] f2
    by (simp add: send_indirect_def put_body_def get_frame_def frame_of_def Let_def)
  show ?thesis unfolding step tx by (simp add: sent_frame_def)
qed

subsection \<open>The end of a transmission\<close>

definition hw_status :: "hw_tx_status \<Rightarrow> u8" where
  "hw_status hw = (case hw of TX_STATUS_NO_ACK \<Rightarrow> MAC_NO_ACK | TX_STATUS_OK_DATA_PENDING \<Rightarrow> HAL_FRAME_PENDING
     | TX_STATUS_OK \<Rightarrow> MAC_SUCCESS | _ \<Rightarrow> MAC_CHANNEL_ACCESS_FAILURE)"

lemma hw_status_simps:
  "hw_status hw \<noteq> HAL_BC_TX_DONE" "hw_status hw \<noteq> MAC_FRAME_TOO_LONG" "hw_status hw = MAC_SUCCESS \<longleftrightarrow> hw = TX_STATUS_OK"
  by (cases hw; simp add: hw_status_def MAC_NO_ACK_def HAL_FRAME_PENDING_def MAC_SUCCESS_def
      MAC_CHANNEL_ACCESS_FAILURE_def HAL_BC_TX_DONE_def MAC_FRAME_TOO_LONG_def)+

text \<open>Up to counters the handler is \<open>mcps_tx_done\<close> on a data frame and the release of a null frame.\<close>

lemma tx_done_frame:
  assumes p: "mac_frame_p s = Some b" "get_frame s b = Some f" "mpdu_p f \<noteq> []"
    and mt: "msg_type f = MCPS_MESSAGE \<or> msg_type f = NULL_FRAME"
  shows "\<exists>g. hal_zb_tx_done_handler env hw s =
    (let f = f\<lparr>time_stamp := tx_time env (mac_trace s)\<rparr>;
         s = s\<lparr>mac_busy := False, body := (body s)(b := Frame f), mac_stats_g := g\<rparr>
     in map_option (\<lambda>s. s\<lparr>mac_frame_p := None\<rparr>)
       (if msg_type f = MCPS_MESSAGE then mcps_tx_done (hw_status hw) b f s
        else bmm_buffer_free (buffer_header_p f) s))"
proof -
  obtain x xs where x: "mpdu_p f = x # xs" using p(3) by (cases "mpdu_p f") auto
  let ?f = "f\<lparr>time_stamp := tx_time env (mac_trace s)\<rparr>"
  let ?g1 = "(if hw = TX_STATUS_OK_DATA_PENDING then (mac_stats_g s)\<lparr>tx_frame_pending := tx_frame_pending (mac_stats_g s) + 1\<rparr>
     else mac_stats_g s)"
  let ?g2 = "(if hw_status hw \<noteq> MAC_CHANNEL_ACCESS_FAILURE
     then ?g1\<lparr>tx_pkts_count := tx_pkts_count ?g1 + 1, tx_bytes_count := tx_bytes_count ?g1 + ucast x + 2\<rparr> else ?g1)"
  let ?s = "s\<lparr>mac_busy := False, body := (body s)(b := Frame ?f), mac_stats_g := ?g1\<rparr>"
  have h: "hal_zb_tx_done_handler env hw s =
    map_option (\<lambda>s. s\<lparr>mac_frame_p := None\<rparr>) (mac_hal_intf_tx_frame_done env (hw_status hw) (Some b) ?s)"
    using p by (simp add: hal_zb_tx_done_handler_def hw_status_def Let_def put_body_def get_frame_def map_option_case
        split: option.splits)
  have m: "mac_hal_intf_tx_frame_done env (hw_status hw) (Some b) ?s =
    (if msg_type f = MCPS_MESSAGE then mcps_tx_done (hw_status hw) b ?f (?s\<lparr>mac_stats_g := ?g2\<rparr>)
     else bmm_buffer_free (buffer_header_p f) (?s\<lparr>mac_stats_g := ?g2\<rparr>))"
    using mt x by (auto simp: mac_hal_intf_tx_frame_done_def hw_status_simps get_frame_def frame_of_def
        arr_get_def Let_def)
  show ?thesis unfolding h m by (intro exI [of _ ?g2]) (simp add: Let_def)
qed

text \<open>The search by buffer, for one that is in the queue.\<close>

lemma remove_indirect_found:
  assumes inv: "ind_inv s fl xs" and b: "b \<in> set xs" "buffer_header_p f = Some b"
  shows "\<exists>g q t. remove_frame_from_indirect_q f s = Some (s\<lparr>bnext := g, indirect_data_q := q, mac_trace := t\<rparr>) \<and>
    queue_rep (s\<lparr>bnext := g\<rparr>) q (remove1 b xs) \<and> (\<forall>x. x \<notin> set xs - {b} \<longrightarrow> g x = bnext s x)"
proof -
  obtain us vs where xs: "xs = us @ b # vs" using split_list b(1) by metis
  have nb: "b \<notin> set us" "remove1 b xs = us @ vs" using ind_inv_distinct [OF inv] by (auto simp: xs remove1_append)
  have rep: "queue_rep s (indirect_data_q s) (us @ b # vs)" using inv by (simp add: ind_inv_def xs)
  obtain q s1 where r: "qmm_queue_remove (Some \<lparr>compare_func_id = MAC_FIND_BUFFER, handle = HBuffer b\<rparr>)
      (indirect_data_q s) s = Some (Some b, q, s1)" "queue_rep s1 q (us @ vs)" "links_only (set us) s s1"
    using queue_search_found(2) [OF rep find_buffer_pure, of b] nb(1) by blast
  then obtain g where g: "s1 = s\<lparr>bnext := g\<rparr>" "\<And>x. x \<notin> set us \<Longrightarrow> g x = bnext s x"
    unfolding links_only_def by (metis mac_mem.select_convs(1) mac_mem.surjective mac_mem.update_convs(1))
  let ?t = "if qsize q = 0 then mac_trace s @ [HalFramePending False] else mac_trace s"
  have "remove_frame_from_indirect_q f s = Some (s\<lparr>bnext := g, indirect_data_q := q, mac_trace := ?t\<rparr>)"
    using r(1) b(2) g(1) by (simp add: remove_frame_from_indirect_q_def mac_hal_frame_pending_def mact_def Let_def)
  moreover have "\<forall>x. x \<notin> set xs - {b} \<longrightarrow> g x = bnext s x" using g(2) nb(1) by (auto simp: xs)
  ultimately show ?thesis using r(2) nb(2) unfolding g(1) by metis
qed

text \<open>A delivered frame leaves the queue, is confirmed and its buffer is free again.\<close>

lemma tx_done_delivered:
  assumes inv: "ind_inv s fl xs" and b: "b \<in> set xs" "buffer_header_p f = Some b" "indirect_in_transit f"
    "msg_type f = MCPS_MESSAGE"
  shows "\<exists>s'. mcps_tx_done MAC_SUCCESS b f s = Some s' \<and> ind_inv s' (fl @ [b]) (remove1 b xs) \<and>
    (\<forall>x. x \<noteq> b \<longrightarrow> body s' x = body s x) \<and> tx_counts s' = count_tx MAC_SUCCESS (tx_counts s) \<and>
    mac_busy s' = mac_busy s"
proof -
  let ?f = "f\<lparr>indirect_in_transit := False\<rparr>"
  let ?s = "s\<lparr>body := (body s)(b := Frame ?f)\<rparr>"
  have i1: "ind_inv ?s fl xs" using ind_inv_put [OF inv] b(4) by simp
  obtain g q t where r: "remove_frame_from_indirect_q ?f ?s = Some (?s\<lparr>bnext := g, indirect_data_q := q, mac_trace := t\<rparr>)"
    "queue_rep (?s\<lparr>bnext := g\<rparr>) q (remove1 b xs)" "\<forall>x. x \<notin> set xs - {b} \<longrightarrow> g x = bnext ?s x"
    using remove_indirect_found [OF i1 b(1), of ?f] b(2) by auto
  obtain us vs where xs: "xs = us @ b # vs" using split_list b(1) by metis
  have nb: "b \<notin> set us" "b \<notin> set vs" "remove1 b xs = us @ vs"
    using ind_inv_distinct [OF inv] by (auto simp: xs remove1_append)
  text \<open>the links that change are those of the other frames of the queue\<close>
  let ?t = "?s\<lparr>mac_trace := t\<rparr>"
  have i2: "ind_inv ?t fl (us @ b # vs)" using i1 by (simp add: xs ind_inv_def bmm_inv_def queue_rep_def is_data_def)
  have q2: "queue_rep (?t\<lparr>bnext := g\<rparr>) q (us @ vs)" using r(2) nb(3) by (simp add: queue_rep_def)
  have gx: "g x = bnext ?t x" if "x \<in> insert b (set fl)" for x
    using r(3) that inv by (auto simp: ind_inv_def)
  obtain s' where s': "mac_gen_mcps_data_conf b MAC_SUCCESS (frame_info_t.msduHandle ?f) (time_stamp ?f)
      (?t\<lparr>bnext := g, indirect_data_q := q\<rparr>) = Some s'"
    "ind_inv s' (fl @ [b]) (us @ vs)" "\<forall>x. x \<noteq> b \<longrightarrow> body s' x = body ?t x"
    "s' = ?t\<lparr>bnext := bnext s', body := body s', free_buffer_q := free_buffer_q s', buffCount := buffCount s',
      indirect_data_q := q, mac_stats_g := mac_stats_g s', tx_counts := count_tx MAC_SUCCESS (tx_counts ?t)\<rparr>"
    using take_and_confirm [OF i2 q2 gx] by blast
  have e: "?t\<lparr>bnext := g, indirect_data_q := q\<rparr> = ?s\<lparr>bnext := g, indirect_data_q := q, mac_trace := t\<rparr>" by simp
  have "mcps_tx_done MAC_SUCCESS b f s = Some s'"
    using r(1) s'(1) [unfolded e] b(2,3) by (simp add: mcps_tx_done_def put_body_def Let_def)
  moreover have "tx_counts s' = count_tx MAC_SUCCESS (tx_counts s)" "mac_busy s' = mac_busy s"
    by (subst s'(4), simp)+
  moreover have "body s' x = body s x" if "x \<noteq> b" for x using s'(3) that by simp
  ultimately show ?thesis using s'(2) nb(3) by auto
qed

text \<open>A frame that was not acknowledged stays where it was and is not in transit any more.\<close>

lemma tx_done_kept:
  assumes inv: "ind_inv s fl xs" and b: "buffer_header_p f = Some b" "indirect_in_transit f" "msg_type f = MCPS_MESSAGE"
    and st: "st \<noteq> MAC_SUCCESS" "st \<noteq> MAC_FRAME_TOO_LONG"
  shows "\<exists>s'. mcps_tx_done st b f s = Some s' \<and> ind_inv s' fl xs \<and>
    s' = s\<lparr>body := (body s)(b := Frame (f\<lparr>indirect_in_transit := False\<rparr>))\<rparr>"
  using ind_inv_put [OF inv, of "f\<lparr>indirect_in_transit := False\<rparr>" b] b st
  by (simp add: mcps_tx_done_def put_body_def Let_def)

text \<open>The two outcomes for a frame of the indirect queue that is being sent.\<close>

lemma sent_then_done:
  assumes inv: "ind_inv s fl xs" and b: "b \<in> set xs" and p: "mac_frame_p s = Some b" "get_frame s b = Some f"
    "mpdu_p f \<noteq> []" and f: "msg_type f = MCPS_MESSAGE" "buffer_header_p f = Some b" "indirect_in_transit f"
  shows "(\<exists>s2. hal_zb_tx_done_handler env TX_STATUS_OK s = Some s2 \<and> ind_inv s2 (fl @ [b]) (remove1 b xs) \<and>
      tx_counts s2 = count_tx MAC_SUCCESS (tx_counts s) \<and> \<not> mac_busy s2) \<and>
    (\<forall>hw. hw \<noteq> TX_STATUS_OK \<longrightarrow> (\<exists>s2. hal_zb_tx_done_handler env hw s = Some s2 \<and>
      ind_inv s2 fl xs \<and> \<not> indirect_in_transit (fr s2 b) \<and> tx_counts s2 = tx_counts s \<and> \<not> mac_busy s2))"
proof -
  let ?f = "f\<lparr>time_stamp := tx_time env (mac_trace s)\<rparr>"
  let ?s = "\<lambda>g. s\<lparr>mac_busy := False, body := (body s)(b := Frame ?f), mac_stats_g := g\<rparr>"
  have dn: "\<exists>g. hal_zb_tx_done_handler env hw s =
      map_option (\<lambda>s. s\<lparr>mac_frame_p := None\<rparr>) (mcps_tx_done (hw_status hw) b ?f (?s g))" for hw
    using tx_done_frame [OF p disjI1 [OF f(1)], of env hw] f(1) by (auto simp: Let_def)
  have i1: "ind_inv (?s g) fl xs" for g
    using ind_inv_put [OF inv, of ?f b] f(1) by (simp add: ind_inv_def bmm_inv_def queue_rep_def is_data_def)
  have up: "ind_inv (t\<lparr>mac_frame_p := None\<rparr>) fl' xs' = ind_inv t fl' xs'" for t fl' xs'
    by (simp add: ind_inv_def bmm_inv_def queue_rep_def is_data_def)
  have "\<exists>s2. hal_zb_tx_done_handler env TX_STATUS_OK s = Some s2 \<and> ind_inv s2 (fl @ [b]) (remove1 b xs) \<and>
      tx_counts s2 = count_tx MAC_SUCCESS (tx_counts s) \<and> \<not> mac_busy s2"
  proof -
    obtain g where g: "hal_zb_tx_done_handler env TX_STATUS_OK s =
      map_option (\<lambda>s. s\<lparr>mac_frame_p := None\<rparr>) (mcps_tx_done MAC_SUCCESS b ?f (?s g))"
      using dn [of TX_STATUS_OK] by (auto simp: hw_status_def)
    obtain s' where "mcps_tx_done MAC_SUCCESS b ?f (?s g) = Some s'" "ind_inv s' (fl @ [b]) (remove1 b xs)"
      "tx_counts s' = count_tx MAC_SUCCESS (tx_counts (?s g))" "mac_busy s' = mac_busy (?s g)"
      using tx_done_delivered [OF i1 b, of ?f g] f by auto
    with g up show ?thesis by (intro exI [of _ "s'\<lparr>mac_frame_p := None\<rparr>"]) simp
  qed
  moreover have "\<exists>s2. hal_zb_tx_done_handler env hw s = Some s2 \<and> ind_inv s2 fl xs \<and>
      \<not> indirect_in_transit (fr s2 b) \<and> tx_counts s2 = tx_counts s \<and> \<not> mac_busy s2" if "hw \<noteq> TX_STATUS_OK" for hw
  proof -
    obtain g where g: "hal_zb_tx_done_handler env hw s =
      map_option (\<lambda>s. s\<lparr>mac_frame_p := None\<rparr>) (mcps_tx_done (hw_status hw) b ?f (?s g))" using dn [of hw] ..
    let ?t = "?s g\<lparr>body := (body (?s g))(b := Frame (?f\<lparr>indirect_in_transit := False\<rparr>))\<rparr>"
    have "mcps_tx_done (hw_status hw) b ?f (?s g) = Some ?t" "ind_inv ?t fl xs"
      using tx_done_kept [OF i1, of ?f b "hw_status hw" g] f that hw_status_simps by auto
    with g up show ?thesis
      by (intro exI [of _ "?t\<lparr>mac_frame_p := None\<rparr>"]) (simp add: fr_def get_frame_def frame_of_def)
  qed
  ultimately show ?thesis by blast
qed

subsection \<open>The answer to a poll\<close>

text \<open>The address in the poll, of the kind the mode says.\<close>

definition poll_addr_ok :: "parse_t \<Rightarrow> bool" where
  "poll_addr_ok p \<longleftrightarrow> src_addr_mode p = (case src_addr p of ShortAddr _ \<Rightarrow> FCF_SHORT | LongAddr _ \<Rightarrow> FCF_LONG_ADDR)"

lemma ind_free:
  assumes inv: "ind_inv s fl xs" and b: "b \<notin> set fl" "b \<notin> set xs" "b < TOTAL_NUMBER_OF_BUFFERS"
  shows "\<exists>f q c. bmm_buffer_free (Some b) s = Some (s\<lparr>bnext := f, free_buffer_q := q, buffCount := c\<rparr>) \<and>
    ind_inv (s\<lparr>bnext := f, free_buffer_q := q, buffCount := c\<rparr>) (fl @ [b]) xs"
proof -
  have bi: "bmm_inv s fl" and d: "set xs \<inter> set fl = {}" and rep: "queue_rep s (indirect_data_q s) xs"
    using inv by (simp_all add: ind_inv_def)
  obtain s' where r: "bmm_buffer_free (Some b) s = Some s'" "bmm_inv s' (fl @ [b])" "bmm_only (insert b (set fl)) s s'"
    using bmm_free_spec [OF bi b(1,3)] by blast
  from r(3) obtain f q c where s': "s' = s\<lparr>bnext := f, free_buffer_q := q, buffCount := c\<rparr>" by (rule bmm_onlyE) blast
  have "queue_rep s' (indirect_data_q s) xs" using bmm_only_rep [OF r(3) rep] d b(2) by auto
  then have "ind_inv s' (fl @ [b]) xs"
    using inv r(2) b(2) unfolding ind_inv_def s' by (auto simp: is_data_def)
  with r(1) show ?thesis unfolding s' by blast
qed

lemma process_request_read:
  assumes coord: "is_coordinator s" and a: "poll_addr_ok (mac_parse_data s)"
    and free: "bmm_buffer_free (Some rb) s = Some s1" "mac_state s1 = mac_state s" "mac_parse_data s1 = mac_parse_data s"
    and read: "qmm_queue_read (Some (poll_search (src_addr (mac_parse_data s)))) (indirect_data_q s1) s1 = Some (r, q, s1)"
  shows "mac_data_process_data_request env (Some rb) s =
    (case r of
       None \<Rightarrow> mac_data_tx_null_frame env s1
     | Some b \<Rightarrow> do {
         f \<leftarrow> get_frame s1 b;
         pan \<leftarrow> frame_pan f;
         if src_panid (mac_parse_data s) \<noteq> pan then mac_data_tx_null_frame env s1
         else send_indirect env (poll_search (src_addr (mac_parse_data s))) b s1
       })"
proof -
  have ns: "mac_state s1 \<noteq> MAC_IDLE" "mac_state s1 \<noteq> MAC_ASSOCIATED" using coord free(2) by (auto simp: is_coordinator_def)
  have ne: "FCF_LONG_ADDR \<noteq> FCF_SHORT" by (simp add: FCF_LONG_ADDR_def FCF_SHORT_def)
  show ?thesis
  proof (cases "src_addr (mac_parse_data s)")
    case (ShortAddr x)
    with a ns free read show ?thesis
      by (simp add: mac_data_process_data_request_def poll_addr_ok_def poll_search_def short_address_def frame_pan_def
          split: option.split cong: if_cong)
  next
    case (LongAddr x)
    with a ns ne free read show ?thesis
      by (simp add: mac_data_process_data_request_def poll_addr_ok_def poll_search_def long_address_def frame_pan_def
          split: option.split cong: if_cong)
  qed
qed

lemma waiting_wf: "wf_frame (waiting h t)" "frame_dest (waiting h t) = Some (ShortAddr 0x1234)"
  "frame_pan (waiting h t) = Some 0xBABE"
  by (simp_all add: wf_frame_def waiting_def dst_addr_mode_def PL_POS_FCF_2_def arr_get_def FCF_SHORT_def FCF_LONG_ADDR_def
      aMaxPHYPacketSize_def frame_dest_def frame_pan_def PL_POS_DST_ADDR_START_def PL_POS_DST_PAN_ID_START_def
      mac_utils_byte_array_to_16_bit_def)



end
