(* ===== verification/MacErrors.thy ===== *)
theory MacErrors
  imports MacPoll
begin

unbundle bit_operations_syntax

text \<open>
  Two errors of the data service in who owns a buffer: a purge of a frame that is being sent, and
  a broadcast frame of a beacon-enabled coordinator.
\<close>

subsection \<open>Purging a frame in transit\<close>

lemma loose_free_cong:
  "loose_free (s\<lparr>mac_frame_p := p\<rparr>) xs n = loose_free s xs n"
  by (simp add: loose_free_def)

text \<open>The purge takes the frame out of the queue and frees its buffer, and then the request's.\<close>

lemma purge_frees:
  assumes inv: "ind_inv s fl xs" and rq: "body s rb = PurgeReq h"
    and rb: "rb \<notin> set fl" "rb \<notin> set xs" "rb < TOTAL_NUMBER_OF_BUFFERS"
    and b: "find (\<lambda>x. frame_info_t.msduHandle (fr s x) = h) xs = Some b"
  shows "\<exists>s'. mcps_purge_request rb s = Some s' \<and> ind_inv s' (fl @ [b, rb]) (remove1 b xs) \<and>
    (\<forall>x. x \<noteq> rb \<longrightarrow> body s' x = body s x) \<and> mac_frame_p s' = mac_frame_p s"
proof -
  obtain us vs where xs: "xs = us @ b # vs" and us: "\<forall>u \<in> set us. frame_info_t.msduHandle (fr s u) \<noteq> h"
      "frame_info_t.msduHandle (fr s b) = h"
    using find_split [OF b] by blast
  have nb: "b \<notin> set us" "b \<notin> set vs" "remove1 b xs = us @ vs"
    using ind_inv_distinct [OF inv] by (auto simp: xs remove1_append)
  have d: "set xs \<inter> set fl = {}" "set xs \<subseteq> {..<TOTAL_NUMBER_OF_BUFFERS}" using inv by (simp_all add: ind_inv_def)
  have rep: "queue_rep s (indirect_data_q s) (us @ b # vs)" using inv by (simp add: ind_inv_def xs)
  have pure: "pure_search \<lparr>compare_func_id = MAC_FIND_MSDU, handle = HMsdu h\<rparr> s (us @ b # vs)
      (\<lambda>x. frame_info_t.msduHandle (fr s x) = h)"
    using find_msdu_pure [of xs s h] inv is_data_frame unfolding ind_inv_def fr_def xs by blast
  obtain q s1 where r: "qmm_queue_remove (Some \<lparr>compare_func_id = MAC_FIND_MSDU, handle = HMsdu h\<rparr>)
      (indirect_data_q s) s = Some (Some b, q, s1)" "queue_rep s1 q (us @ vs)" "links_only (set us) s s1"
    using queue_search_found(2) [OF rep pure us] by blast
  then obtain g where g: "s1 = s\<lparr>bnext := g\<rparr>" "\<And>x. x \<notin> set us \<Longrightarrow> g x = bnext s x"
    unfolding links_only_def by (metis mac_mem.select_convs(1) mac_mem.surjective mac_mem.update_convs(1))
  let ?s1 = "s\<lparr>bnext := g, indirect_data_q := q\<rparr>"
  have bi: "bmm_inv s fl" using inv by (simp add: ind_inv_def)
  have "queue_rep ?s1 (free_buffer_q s) fl"
  proof (rule queue_rep_frame)
    show "queue_rep s (free_buffer_q s) fl" using bi by (simp add: bmm_inv_def)
    show "bnext ?s1 x = bnext s x" if "x \<in> set fl" for x using g(2) that d(1) by (auto simp: xs)
  qed
  then have "bmm_inv ?s1 fl" using bi by (simp add: bmm_inv_def)
  moreover have "queue_rep ?s1 q (us @ vs)" using r(2) unfolding g(1) by (simp add: queue_rep_def)
  ultimately have i1: "ind_inv ?s1 fl (us @ vs)"
    using inv unfolding ind_inv_def by (auto simp: is_data_def xs)
  have "b \<notin> set fl" "b \<notin> set (us @ vs)" "b < TOTAL_NUMBER_OF_BUFFERS" using d nb by (auto simp: xs)
  from ind_free [OF i1 this] obtain f2 q2 c2 where fr2: "bmm_buffer_free (Some b) ?s1 = Some (?s1\<lparr>bnext := f2, free_buffer_q := q2, buffCount := c2\<rparr>)"
    "ind_inv (?s1\<lparr>bnext := f2, free_buffer_q := q2, buffCount := c2\<rparr>) (fl @ [b]) (us @ vs)" by blast
  let ?s2 = "?s1\<lparr>bnext := f2, free_buffer_q := q2, buffCount := c2\<rparr>"
  have purge: "mac_buffer_purge h s = Some (True, ?s2)"
    using r(1) fr2(1) g(1) by (simp add: mac_buffer_purge_def Let_def)
  let ?s3 = "?s2\<lparr>body := (body s)(rb := PurgeConf h MAC_SUCCESS)\<rparr>"
  have nr: "rb \<notin> set (us @ vs)" "rb \<notin> set (fl @ [b])" using rb by (auto simp: xs)
  have "ind_inv ?s3 (fl @ [b]) (us @ vs)"
    using fr2(2) nr(1) unfolding ind_inv_def bmm_inv_def queue_rep_def by (auto simp: is_data_def)
  from ind_free [OF this nr(2,1) rb(3)] obtain f4 q4 c4 where
    fr4: "bmm_buffer_free (Some rb) ?s3 = Some (?s3\<lparr>bnext := f4, free_buffer_q := q4, buffCount := c4\<rparr>)"
    "ind_inv (?s3\<lparr>bnext := f4, free_buffer_q := q4, buffCount := c4\<rparr>) ((fl @ [b]) @ [rb]) (us @ vs)" by blast
  have "mcps_purge_request rb s = bmm_buffer_free (Some rb) ?s3"
    using rq purge by (simp add: mcps_purge_request_def mcps_purge_conf_def put_body_def Let_def)
  with fr4 nb(3) show ?thesis by (intro exI [of _ "?s3\<lparr>bnext := f4, free_buffer_q := q4, buffCount := c4\<rparr>"]) simp
qed


text \<open>The end of the transmission of a frame that is not in the queue any more.\<close>

lemma release_again:
  assumes inv: "ind_inv s (fl @ [b, rb]) xs" "b \<notin> set xs" and f: "buffer_header_p f = Some b" "indirect_in_transit f"
    and room: "length fl + 3 < TOTAL_NUMBER_OF_BUFFERS"
  shows "\<exists>s'. mcps_tx_done MAC_SUCCESS b f s = Some s' \<and> loose_free s' (fl @ [b]) (length fl + 3)"
proof -
  let ?f = "f\<lparr>indirect_in_transit := False\<rparr>"
  let ?s = "s\<lparr>body := (body s)(b := Frame ?f)\<rparr>"
  have rep: "queue_rep ?s (indirect_data_q ?s) xs" and bi: "bmm_inv s (fl @ b # [rb])" using inv by (simp_all add: ind_inv_def)
  have none: "qmm_queue_remove (Some \<lparr>compare_func_id = MAC_FIND_BUFFER, handle = HBuffer b\<rparr>) (indirect_data_q ?s) ?s =
      Some (None, indirect_data_q ?s, ?s)"
    using queue_search_none(2) [OF rep find_buffer_pure] inv(2) by blast
  define t where "t = (if qsize (indirect_data_q s) = 0 then mac_trace s @ [HalFramePending False] else mac_trace s)"
  have rm: "remove_frame_from_indirect_q ?f ?s = Some (?s\<lparr>mac_trace := t\<rparr>)"
    using none f(1) by (cases "qsize (indirect_data_q s) = 0")
      (simp_all add: remove_frame_from_indirect_q_def mac_hal_frame_pending_def mact_def Let_def t_def)
  let ?h = "frame_info_t.msduHandle f"
  let ?t = "?s\<lparr>mac_trace := t, body := (body s)(b := DataConf \<lparr>confHandle = ?h, confStatus = MAC_SUCCESS, confTimestamp = time_stamp f\<rparr>),
    mac_stats_g := count_conf MAC_SUCCESS (mac_stats_g s), tx_counts := count_tx MAC_SUCCESS (tx_counts s)\<rparr>"
  have "mac_gen_mcps_data_conf b MAC_SUCCESS ?h (time_stamp f) (?s\<lparr>mac_trace := t\<rparr>) = bmm_buffer_free (Some b) ?t"
    by (simp add: mac_gen_mcps_data_conf_def mcps_data_conf_def put_body_def Let_def count_tx_def split: option.splits)
  then have "mcps_tx_done MAC_SUCCESS b f s = bmm_buffer_free (Some b) ?t"
    using rm f by (simp add: mcps_tx_done_def put_body_def Let_def)
  moreover have "bmm_inv ?t (fl @ b # [rb])" using bi by (simp add: bmm_inv_def queue_rep_def)
  moreover have e: "length fl + length [rb] + 2 = length fl + 3" by simp
  moreover have "length (fl @ b # [rb]) + 1 < TOTAL_NUMBER_OF_BUFFERS" using room by simp
  ultimately show ?thesis using double_free_loose [of ?t fl b "[rb]"] unfolding e by simp
qed

text \<open>
  The purge as \<open>mac_task\<close> serves it: not while the MAC is busy, but after the end of this
  coordinator's own poll has cleared \<open>mac_busy\<close>.
\<close>

lemma purge_served:
  assumes inv: "ind_inv s fl xs" and q: "queue_rep s (nhle_mac_q s) (rb # ys)" and rq: "body s rb = PurgeReq h"
    and rb: "rb \<notin> set fl" "rb \<notin> set xs" "rb < TOTAL_NUMBER_OF_BUFFERS"
    and b: "find (\<lambda>x. frame_info_t.msduHandle (fr s x) = h) xs = Some b"
    and poll: "mac_poll_state s \<noteq> MAC_POLL_EXPLICIT"
  shows "\<exists>s0 s1. mac_poll_wait_time_cb env s = Some s0 \<and> mac_task_nhle env s0 = Some s1 \<and>
    ind_inv s1 (fl @ [b, rb]) (remove1 b xs) \<and> (\<forall>x. x \<noteq> rb \<longrightarrow> body s1 x = body s x) \<and> mac_frame_p s1 = mac_frame_p s"
proof -
  let ?s0 = "s\<lparr>mac_poll_state := MAC_POLL_IDLE, mac_busy := False\<rparr>"
  have q0: "queue_rep ?s0 (nhle_mac_q s) (rb # ys)" using q by (simp add: queue_rep_def)
  have "qsize (nhle_mac_q s) \<noteq> 0" using queue_rep_empty [OF q] by simp
  moreover obtain q' m where m: "qmm_queue_remove None (nhle_mac_q s) ?s0 = Some (Some rb, q', m)" "links_only {} ?s0 m"
    using queue_remove_first [OF q0] by blast
  then obtain g where g: "m = ?s0\<lparr>bnext := g\<rparr>" "\<And>x. g x = bnext ?s0 x"
    unfolding links_only_def by (metis empty_iff mac_mem.select_convs(1) mac_mem.surjective mac_mem.update_convs(1))
  from g(2) have "g = bnext s" by (simp add: fun_eq_iff)
  then have me: "m\<lparr>nhle_mac_q := q'\<rparr> = ?s0\<lparr>nhle_mac_q := q'\<rparr>" "body m = body s" unfolding g(1) by simp_all
  let ?m = "?s0\<lparr>nhle_mac_q := q'\<rparr>"
  have i1: "ind_inv ?m fl xs" using inv by (simp add: ind_inv_def bmm_inv_def queue_rep_def is_data_def)
  have frm: "fr ?m = fr s" by (simp add: fr_def get_frame_def fun_eq_iff)
  have rqm: "body ?m rb = PurgeReq h" and bm: "find (\<lambda>x. frame_info_t.msduHandle (fr ?m x) = h) xs = Some b"
    using rq b unfolding frm by simp_all
  obtain s1 where s1: "mcps_purge_request rb ?m = Some s1" "ind_inv s1 (fl @ [b, rb]) (remove1 b xs)"
    "\<forall>x. x \<noteq> rb \<longrightarrow> body s1 x = body ?m x" "mac_frame_p s1 = mac_frame_p ?m"
    using purge_frees [OF i1 rqm rb bm] by blast
  ultimately have "mac_task_nhle env ?s0 = Some s1"
    using rq m(1) me by (simp add: mac_task_nhle_def mac_event_dispatcher_def Let_def)
  with s1 poll show ?thesis by (intro exI [of _ ?s0] exI [of _ s1]) (simp add: mac_poll_wait_time_cb_def)
qed



text \<open>Buffer 3, asked for by a device, is being sent; the purge waits in buffer 7.\<close>

definition being_sent :: mac_st where
  "being_sent = two_waiting\<lparr>
     body := (\<lambda>_. Unused)(3 := Frame (sent_frame 3 True (waiting 1 1)), 5 := Frame (waiting 2 200), 7 := PurgeReq 1),
     nhle_mac_q := \<lparr>qhead = Some 7, qtail = Some 7, qcapacity = 255, qsize = 1\<rparr>,
     mac_frame_p := Some 3, mac_busy := True, mac_poll_state := MAC_POLL_IMPLICIT\<rparr>"


subsection \<open>A broadcast of a beacon-enabled coordinator\<close>

definition bc_frame :: "mcps_data_req_t \<Rightarrow> u8 list \<Rightarrow> mac_st \<Rightarrow> frame_info_t" where
  "bc_frame r payload s = \<lparr>msg_type = MCPS_MESSAGE, buffer_header_p = None, msduHandle = reqHandle r, persistence_time = 0,
     indirect_in_transit = False, time_stamp = 0, mpdu_p = frame_bytes r payload s\<rparr>"

definition bc_state :: "nat \<Rightarrow> mcps_data_req_t \<Rightarrow> u8 list \<Rightarrow> mac_st \<Rightarrow> mac_st" where
  "bc_state b r payload s = s\<lparr>mac_pib_macDSN := mac_pib_macDSN s + 1, body := (body s)(b := Frame (bc_frame r payload s))\<rparr>"

lemma mcps_data_request_broadcast:
  assumes r: "body s b = DataReq r payload" "TxOptions r = 0" "to_broadcast r" "SecurityLevel (Security r) = 0"
      "SrcAddrMode r \<in> {FCF_NO_ADDR, FCF_SHORT, FCF_LONG_ADDR}"
    and s: "mac_poll_state s = MAC_POLL_IDLE" "mac_scan_state s = MAC_SCAN_IDLE" "is_coordinator s"
      "hal_pib_BeaconOrder s < NON_BEACON_NWK"
    and len: "unat (msduLength r) = length payload" "length payload \<le> 100"
    and app: "qmm_queue_append (broadcast_q s) b (bc_state b r payload s) = Some (True, q, s2)"
  shows "mcps_data_request env b s = data_request_direct env b (bc_frame r payload s) r (s2\<lparr>broadcast_q := q\<rparr>)"
proof -
  have d: "DstAddrMode r = FCF_SHORT" "FCF_SHORT \<noteq> FCF_NO_ADDR" "FCF_SHORT \<noteq> FCF_RESERVED_ADDR"
    "SrcAddrMode r \<noteq> FCF_RESERVED_ADDR"
    using r(3,5) by (auto simp: to_broadcast_def FCF_SHORT_def FCF_NO_ADDR_def FCF_RESERVED_ADDR_def FCF_LONG_ADDR_def)
  have "length (frame_tail r payload s) \<le> 127" using length_frame_tail [of r payload s] len(2) by simp
  then have b: "build_data_frame env r payload s =
      Some (MAC_SUCCESS, Some (frame_bytes r payload s), s\<lparr>mac_pib_macDSN := mac_pib_macDSN s + 1\<rparr>)"
    using build_data_frame_spec [OF r(4) len(1), of env s] len(2) by simp
  have c: "is_coordinator (s\<lparr>mac_pib_macDSN := x, body := y\<rparr>) = is_coordinator s" for x y
    by (simp add: is_coordinator_def)
  show ?thesis
    using r s d b c app by (simp add: mcps_data_request_def put_body_def Let_def bc_frame_def bc_state_def)
qed

lemma queue_last_link: "queue_rep m q (xs @ [b]) \<Longrightarrow> bnext m b = None"
  by (simp add: queue_rep_def chain_append)

lemma take_frame_bytes:
  "length (frame_tail r payload s) \<le> 127 \<Longrightarrow>
     take (Suc (unat (hd (frame_bytes r payload s)))) (frame_bytes r payload s) = frame_bytes r payload s"
  by (simp add: frame_bytes_def unat_of_nat)

text \<open>The transmission of a frame that was built for a short address.\<close>

lemma direct_spec:
  assumes f: "mpdu_p f = frame_bytes r payload s0" and r: "SecurityLevel (Security r) = 0" "DstAddrMode r = FCF_SHORT"
      "SrcAddrMode r \<in> {FCF_NO_ADDR, FCF_SHORT, FCF_LONG_ADDR}" "length (frame_tail r payload s0) \<le> 127"
    and s: "hal_pib_BeaconOrder s < NON_BEACON_NWK" "fifo_status env (mac_trace s) = MAC_SUCCESS"
  shows "data_request_direct env b f r s = Some (s\<lparr>body := (body s)(b := Frame (f\<lparr>buffer_header_p := Some b\<rparr>)),
    mac_frame_p := Some b, mac_trace := mac_trace s @ [HalTx (frame_bytes r payload s0) CSMA_SLOTTED False], mac_busy := True\<rparr>)"
proof -
  let ?f = "f\<lparr>buffer_header_p := Some b\<rparr>"
  let ?s = "s\<lparr>body := (body s)(b := Frame ?f)\<rparr>"
  have m: "mpdu_p ?f = frame_bytes r payload s0" using f by simp
  have "wf_frame ?f" using frame_bytes_dest(1) [OF m r(1,3) _ r(4)] r(2) by simp
  then have "mac_hal_tx_frame env b CSMA_SLOTTED False ?s = Some (MAC_SUCCESS, ?s\<lparr>mac_frame_p := Some b,
      mac_trace := mac_trace s @ [HalTx (frame_bytes r payload s0) CSMA_SLOTTED False]\<rparr>)"
    using tx_frame_spec [of ?s b ?f env CSMA_SLOTTED] s(2) f take_frame_bytes [OF r(4)]
    by (simp add: get_frame_def frame_of_def)
  moreover have "NON_BEACON_NWK \<noteq> hal_pib_BeaconOrder s" using s(1) by auto
  ultimately show ?thesis
    using r(1) by (simp add: data_request_direct_def put_body_def Let_def)
qed

text \<open>The end of the transmission frees the buffer, whatever other queue holds it.\<close>

lemma direct_done:
  assumes inv: "bmm_inv s fl" "b \<notin> set fl" "b < TOTAL_NUMBER_OF_BUFFERS" and q: "queue_rep s (broadcast_q s) (ys @ [b])"
      "set ys \<inter> set fl = {}"
    and p: "mac_frame_p s = Some b" "get_frame s b = Some f" "mpdu_p f \<noteq> []" "msg_type f = MCPS_MESSAGE"
      "buffer_header_p f = Some b" "\<not> indirect_in_transit f"
  shows "\<exists>s2. hal_zb_tx_done_handler env TX_STATUS_OK s = Some s2 \<and> bmm_inv s2 (fl @ [b]) \<and>
    queue_rep s2 (broadcast_q s2) (ys @ [b]) \<and> get_frame s2 b = None"
proof -
  let ?f = "f\<lparr>time_stamp := tx_time env (mac_trace s)\<rparr>"
  let ?s = "\<lambda>g. s\<lparr>mac_busy := False, body := (body s)(b := Frame ?f), mac_stats_g := g\<rparr>"
  obtain g where g: "hal_zb_tx_done_handler env TX_STATUS_OK s =
      map_option (\<lambda>s. s\<lparr>mac_frame_p := None\<rparr>) (mcps_tx_done MAC_SUCCESS b ?f (?s g))"
    using tx_done_frame [OF p(1,2,3), of env TX_STATUS_OK] p(4) by (auto simp: Let_def hw_status_def)
  let ?h = "frame_info_t.msduHandle f" and ?c = "\<lambda>h t. DataConf \<lparr>confHandle = h, confStatus = MAC_SUCCESS, confTimestamp = t\<rparr>"
  have m: "mcps_tx_done MAC_SUCCESS b ?f (?s g) = mac_gen_mcps_data_conf b MAC_SUCCESS ?h (time_stamp ?f) (?s g)"
    using p(5,6) by (simp add: mcps_tx_done_def)
  have "bmm_inv (?s g) fl" using inv(1) by (simp add: bmm_inv_def queue_rep_def)
  from conf_spec [OF this inv(2,3), of MAC_SUCCESS ?h "time_stamp ?f"] obtain l q' c where
    c: "mac_gen_mcps_data_conf b MAC_SUCCESS ?h (time_stamp ?f) (?s g) = Some (?s g\<lparr>bnext := l,
      body := (body (?s g))(b := ?c ?h (time_stamp ?f)), free_buffer_q := q', buffCount := c,
      mac_stats_g := count_conf MAC_SUCCESS (mac_stats_g (?s g)), tx_counts := count_tx MAC_SUCCESS (tx_counts (?s g))\<rparr>)"
    "bmm_inv (?s g\<lparr>bnext := l, free_buffer_q := q', buffCount := c\<rparr>) (fl @ [b])"
    "\<forall>x. x \<notin> insert b (set fl) \<longrightarrow> l x = bnext (?s g) x" by blast
  let ?t = "?s g\<lparr>bnext := l, body := (body (?s g))(b := ?c ?h (time_stamp ?f)), free_buffer_q := q', buffCount := c,
      mac_stats_g := count_conf MAC_SUCCESS (mac_stats_g (?s g)), tx_counts := count_tx MAC_SUCCESS (tx_counts (?s g)),
      mac_frame_p := None\<rparr>"
  have bi: "bmm_inv ?t (fl @ [b])" using c(2) by (simp add: bmm_inv_def queue_rep_def)
  then have "bnext ?t b = None" unfolding bmm_inv_def using queue_last_link by blast
  then have l: "bnext ?t x = bnext s x" if "x \<in> set (ys @ [b])" for x
    using that c(3) q(2) queue_last_link [OF q(1)] by (cases "x = b") auto
  have "queue_rep ?t (broadcast_q s) (ys @ [b])" using q(1) l by (rule queue_rep_frame)
  moreover have "hal_zb_tx_done_handler env TX_STATUS_OK s = Some ?t" unfolding g m c(1) by simp
  moreover have "get_frame ?t b = None" by (simp add: get_frame_def frame_of_def)
  ultimately show ?thesis using bi by (intro exI [of _ ?t]) simp
qed

text \<open>C40.
  A broadcast frame of a beacon-enabled coordinator is put into the broadcast queue, to be sent
  after the next beacon, and is nevertheless also sent at once.  When that transmission ends, the
  buffer is returned to the pool while it is still in the broadcast queue, so that it has two
  owners; the queue's next turn does not find a frame in it any more.\<close>

theorem mac_broadcast_frame_owned_twice:
  assumes r: "body s b = DataReq r payload" "TxOptions r = 0" "to_broadcast r" "SecurityLevel (Security r) = 0"
      "SrcAddrMode r \<in> {FCF_NO_ADDR, FCF_SHORT, FCF_LONG_ADDR}"
    and s: "mac_poll_state s = MAC_POLL_IDLE" "mac_scan_state s = MAC_SCAN_IDLE" "is_coordinator s"
      "hal_pib_BeaconOrder s < NON_BEACON_NWK"
    and len: "unat (msduLength r) = length payload" "length payload \<le> 100"
    and inv: "bmm_inv s fl" "queue_rep s (broadcast_q s) ys" "length ys < unat (qcapacity (broadcast_q s))"
      "set ys \<inter> set fl = {}" "b \<notin> set fl" "b \<notin> set ys" "b < TOTAL_NUMBER_OF_BUFFERS"
    and ok: "\<forall>t. fifo_status env t = MAC_SUCCESS"
  shows "\<exists>s1 s2. mcps_data_request env b s = Some s1 \<and> queue_rep s1 (broadcast_q s1) (ys @ [b]) \<and>
    mac_trace s1 = mac_trace s @ [HalTx (frame_bytes r payload s) CSMA_SLOTTED False] \<and>
    hal_zb_tx_done_handler env TX_STATUS_OK s1 = Some s2 \<and>
    bmm_inv s2 (fl @ [b]) \<and> queue_rep s2 (broadcast_q s2) (ys @ [b]) \<and>
    (ys = [] \<longrightarrow> mac_tx_pending_bc_data env s2 = None)"
proof -
  let ?s1 = "bc_state b r payload s"
  have rep1: "queue_rep ?s1 (broadcast_q s) ys" using inv(2) by (simp add: bc_state_def queue_rep_def)
  obtain q s2 where app: "qmm_queue_append (broadcast_q s) b ?s1 = Some (True, q, s2)" "queue_rep s2 q (ys @ [b])"
    "qcapacity q = qcapacity (broadcast_q s)" "links_only (insert b (set ys)) ?s1 s2"
    using queue_append_rep [OF rep1 inv(6,3)] by blast
  then obtain g where g: "s2 = ?s1\<lparr>bnext := g\<rparr>" "\<And>x. x \<notin> insert b (set ys) \<Longrightarrow> g x = bnext ?s1 x"
    unfolding links_only_def by (metis mac_mem.select_convs(1) mac_mem.surjective mac_mem.update_convs(1))
  let ?s2 = "s2\<lparr>broadcast_q := q\<rparr>" and ?f = "bc_frame r payload s"
  have same: "hal_pib_BeaconOrder ?s2 = hal_pib_BeaconOrder s" "mac_trace ?s2 = mac_trace s" "free_buffer_q ?s2 = free_buffer_q s"
    "buffCount ?s2 = buffCount s" unfolding g(1) by (simp_all add: bc_state_def)
  have req: "mcps_data_request env b s = data_request_direct env b ?f r ?s2"
    by (rule mcps_data_request_broadcast [OF r s len app(1)])
  have l127: "length (frame_tail r payload s) \<le> 127" using length_frame_tail [of r payload s] len(2) by simp
  have dst: "DstAddrMode r = FCF_SHORT" using r(3) by (simp add: to_broadcast_def)
  define s1 where "s1 = ?s2\<lparr>body := (body ?s2)(b := Frame (?f\<lparr>buffer_header_p := Some b\<rparr>)),
    mac_frame_p := Some b, mac_trace := mac_trace ?s2 @ [HalTx (frame_bytes r payload s) CSMA_SLOTTED False], mac_busy := True\<rparr>"
  have run: "mcps_data_request env b s = Some s1"
    unfolding req s1_def using direct_spec [of ?f r payload s ?s2 env b] r(4,5) dst l127 s(4) ok
    unfolding same by (simp add: bc_frame_def)
  have q1: "queue_rep s1 (broadcast_q s1) (ys @ [b])" using app(2) by (simp add: s1_def queue_rep_def)
  have "queue_rep s1 (free_buffer_q s) fl"
  proof (rule queue_rep_frame)
    show "queue_rep s (free_buffer_q s) fl" using inv(1) by (simp add: bmm_inv_def)
    show "bnext s1 x = bnext s x" if "x \<in> set fl" for x
    proof -
      have "x \<notin> insert b (set ys)" using that inv(4,5) by auto
      then show ?thesis using g by (simp add: s1_def bc_state_def)
    qed
  qed
  then have b1: "bmm_inv s1 fl" using inv(1) same by (simp add: bmm_inv_def s1_def)
  have f1: "mac_frame_p s1 = Some b" "get_frame s1 b = Some (?f\<lparr>buffer_header_p := Some b\<rparr>)"
    by (simp_all add: s1_def get_frame_def frame_of_def)
  obtain s3 where s3: "hal_zb_tx_done_handler env TX_STATUS_OK s1 = Some s3" "bmm_inv s3 (fl @ [b])"
    "queue_rep s3 (broadcast_q s3) (ys @ [b])" "get_frame s3 b = None"
    using direct_done [OF b1 inv(5,7) q1 inv(4) f1] by (auto simp: bc_frame_def frame_bytes_def)
  have "mac_tx_pending_bc_data env s3 = None" if "ys = []"
  proof -
    have "queue_rep s3 (broadcast_q s3) [b]" using s3(3) that by simp
    from queue_remove_first [OF this]
    obtain q' m where "qmm_queue_remove None (broadcast_q s3) s3 = Some (Some b, q', m)" "links_only {} s3 m" by blast
    then show ?thesis using s3(4) links_only_fields(1) [of "{}" s3 m]
      by (simp add: mac_tx_pending_bc_data_def get_frame_def Let_def)
  qed
  moreover have "mac_trace s1 = mac_trace s @ [HalTx (frame_bytes r payload s) CSMA_SLOTTED False]"
    unfolding s1_def same by simp
  ultimately show ?thesis using run q1 s3 by blast
qed


definition bc_request :: mcps_data_req_t where
  "bc_request = \<lparr>SrcAddrMode = FCF_SHORT, DstAddrMode = FCF_SHORT, DstPANId = 0xBABE,
     DstAddr = \<lparr>hi_u32 = 0, lo_u32 = 0xFFFF\<rparr>, reqHandle = 5, TxOptions = 0, Security = no_security, msduLength = 1\<rparr>"

theorem mac_broadcast_frame_owned_twice_witness:
  "let s = idle_coordinator\<lparr>body := (\<lambda>_. Unused)(4 := DataReq bc_request [0x77])\<rparr> in
   \<exists>s1 s2. mcps_data_request quiet_env 4 s = Some s1 \<and> hal_zb_tx_done_handler quiet_env TX_STATUS_OK s1 = Some s2 \<and>
     bmm_inv s2 [4] \<and> queue_rep s2 (broadcast_q s2) [4] \<and> mac_tx_pending_bc_data quiet_env s2 = None"
proof -
  define s where "s = idle_coordinator\<lparr>body := (\<lambda>_. Unused)(4 := DataReq bc_request [0x77])\<rparr>"
  have r: "body s 4 = DataReq bc_request [0x77]" "TxOptions bc_request = 0" "to_broadcast bc_request"
    "SecurityLevel (Security bc_request) = 0" "SrcAddrMode bc_request \<in> {FCF_NO_ADDR, FCF_SHORT, FCF_LONG_ADDR}"
    by (simp_all add: s_def bc_request_def no_security_def to_broadcast_def BROADCAST_def)
  have st: "mac_poll_state s = MAC_POLL_IDLE" "mac_scan_state s = MAC_SCAN_IDLE" "is_coordinator s"
    "hal_pib_BeaconOrder s < NON_BEACON_NWK"
    by (simp_all add: s_def idle_coordinator_def is_coordinator_def NON_BEACON_NWK_def)
  have len: "unat (msduLength bc_request) = length [0x77 :: u8]" "length [0x77 :: u8] \<le> 100"
    by (simp_all add: bc_request_def)
  have inv: "bmm_inv s []" "queue_rep s (broadcast_q s) []" "length [] < unat (qcapacity (broadcast_q s))"
    by (simp_all add: s_def idle_coordinator_def bmm_inv_def queue_rep_def qmm_queue_init_def TOTAL_NUMBER_OF_BUFFERS_def)
  have ok: "\<forall>t. fifo_status quiet_env t = MAC_SUCCESS" by (simp add: quiet_env_def)
  from mac_broadcast_frame_owned_twice [OF r st len inv _ _ _ _ ok] show ?thesis
    unfolding s_def [symmetric] Let_def by (auto simp: TOTAL_NUMBER_OF_BUFFERS_def)
qed

end
