(* ===== verification/MacPib.thy ===== *)
theory MacPib
  imports MacData ProdTest
begin

unbundle bit_operations_syntax

text \<open>
  The PAN information base of the 802.15.4 MAC: \<^verbatim>\<open>zigbee/mac_pib.c\<close> (reading and setting an
  attribute, the MLME-GET and MLME-SET requests), \<^verbatim>\<open>zigbee/mac_hal_pib.c\<close> (the attributes that
  are mirrored in radio registers), \<^verbatim>\<open>zigbee/mac_rx_enable.c\<close>, the reset request of
  \<^verbatim>\<open>mac_misc.c\<close>, the initialisation in \<^verbatim>\<open>mac.c\<close>, and the register accesses of
  \<^verbatim>\<open>hal/hal_common.c\<close>.

  The state \<open>pib_st\<close> wraps the state of the data service: the attributes that building a frame
  reads (PAN identifier, addresses, sequence number, security) live there and are the same
  variables.  A radio register holds what was last written to it.  The value of an attribute is
  the memory that starts at \<open>attribute_value\<close>, a list of bytes; reading or writing past its end
  is \<open>None\<close>, as is an index outside the security tables.
\<close>

subsection \<open>State\<close>

datatype zreg = ZigCtrl | ZigTxBlockEn | ZigTxTiming | ZigTxBeaconPeriod | ZigPhyReg | ZigTxBackOff
  | ZigTxCAPPeriod | ZigPANId | ZigMACID0 | ZigMACID1 | ZigRxDeferStart | ZigRxDeferDuration
  | CPU_INTENABLE_REG

datatype radio_t = RADIO_AWAKE | RADIO_SLEEPING

type_synonym pib_value_t = "u8 list"

record mac_device_desc_t =
  devPANId :: u16
  devShortAddress :: u16
  devExtAddress :: u64
  devFrameCounter :: u32
  devExempt :: u8

text \<open>
  The structures of the key table and of the security level table consist of bytes only and are
  copied as a whole; they are their bytes.
\<close>

definition sz_key_table :: nat where "sz_key_table = 2 * (9 + 1) + 1 + 16 * 3 + 1 + 3 * 2 + 1 + 16"
definition sz_sec_lvl_table :: nat where "sz_sec_lvl_table = 4"

record mac_sec_pib_t =
  KeyTable :: "u8 list list"
  KeyTableEntries :: u8
  DeviceTable :: "mac_device_desc_t list"
  DeviceTableEntries :: u8
  SecurityLevelTable :: "u8 list list"
  SecurityLevelTableEntries :: u8
  DefaultKeySource :: "u8 list"

record pib_st =
  mst :: mac_st
  regs :: "zreg \<Rightarrow> u32"
  afe_inits :: "u8 list"
  confirms :: "u8 list list"
  hal_mac_q :: queue_t
  hal_pib_macAckWaitDuration :: u8
  hal_pib_MaxCSMABackoffs :: u8
  hal_pib_MinBE :: u8
  hal_pib_MaxBE :: u8
  hal_pib_CurrentChannel :: u8
  hal_pib_SupportedChannels :: u32
  hal_pib_CurrentPage :: u8
  hal_pib_MaxFrameDuration :: u16
  hal_pib_SHRDuration :: u8
  hal_pib_SymbolsPerOctet :: u8
  hal_pib_MaxFrameRetries :: u8
  hal_pib_TransmitPower :: u8
  hal_pib_CCAMode :: u8
  hal_pib_PrivatePanCoordinator :: u8
  hal_pib_PromiscuousMode :: u8
  hal_pib_BattLifeExt :: u8
  hal_pib_SuperFrameOrder :: u8
  hal_pib_BeaconTxTime :: u32
  mac_pib_macAssociatedPANCoord :: u8
  mac_pib_macMaxFrameTotalWaitTime :: u16
  mac_pib_macResponseWaitTime :: u16
  mac_pib_macAssociationPermit :: u8
  mac_pib_macTransactionPersistenceTime :: u16
  mac_pib_macBSN :: u8
  mac_beacon_payload :: "u8 list"
  mac_pib_macBeaconPayloadLength :: u8
  mac_pib_macAutoRequest :: u8
  mac_pib_macBattLifeExtPeriods :: u8
  mac_pib_macCoordExtendedAddress :: u64
  mac_pib_macCoordShortAddress :: u16
  mac_pib_macRxOnWhenIdle :: u8
  mac_sec_pib :: mac_sec_pib_t
  trx_pib_wakeup :: bool
  mac_radio_state :: radio_t
  mac_rx_enabled :: bool

definition MAC_TRX_ASLEEP :: u8 where "MAC_TRX_ASLEEP = 0x81"
definition MAC_TX_ACTIVE :: u8 where "MAC_TX_ACTIVE = 0xF2"
definition MAC_UNSUPPORTED_ATTRIBUTE :: u8 where "MAC_UNSUPPORTED_ATTRIBUTE = 0xF4"
definition MAC_INVALID_INDEX :: u8 where "MAC_INVALID_INDEX = 0xF9"
definition MAC_READ_ONLY :: u8 where "MAC_READ_ONLY = 0xFB"
definition MLME_SET_REQUEST :: u8 where "MLME_SET_REQUEST = 0x06"
definition MLME_GET_REQUEST :: u8 where "MLME_GET_REQUEST = 0x08"
definition MLME_RESET_REQUEST :: u8 where "MLME_RESET_REQUEST = 0x09"
definition MLME_RX_ENABLE_REQUEST :: u8 where "MLME_RX_ENABLE_REQUEST = 0x0A"
definition MLME_GET_CONFIRM :: u8 where "MLME_GET_CONFIRM = 0x1E"
definition MLME_SET_CONFIRM :: u8 where "MLME_SET_CONFIRM = 0x1F"
definition MLME_RESET_CONFIRM :: u8 where "MLME_RESET_CONFIRM = 0x20"
definition MLME_RX_ENABLE_CONFIRM :: u8 where "MLME_RX_ENABLE_CONFIRM = 0x21"
definition MAC_MAX_KEY_TABLE_ENTRIES :: u8 where "MAC_MAX_KEY_TABLE_ENTRIES = 4"
definition MAC_MAX_DEV_TABLE_ENTRIES :: u8 where "MAC_MAX_DEV_TABLE_ENTRIES = 16"
definition MAC_MAX_SEC_LVL_TABLE_ENTRIES :: u8 where "MAC_MAX_SEC_LVL_TABLE_ENTRIES = 12"
definition aMaxBeaconPayloadLength :: u8 where "aMaxBeaconPayloadLength = aMaxPHYPacketSize - 75"
definition aBaseSuperframeDuration :: nat where "aBaseSuperframeDuration = 60 * 16"
definition aUnitBackoffPeriod :: nat where "aUnitBackoffPeriod = 20"
definition aTurnaroundTime :: nat where "aTurnaroundTime = 12"
definition NO_OF_SYMBOLS_PREAMBLE_SFD :: nat where "NO_OF_SYMBOLS_PREAMBLE_SFD = 8 + 2"
definition SYMBOLS_PER_OCTET :: nat where "SYMBOLS_PER_OCTET = 2"
definition MAX_FRAME_DURATION :: nat where
  "MAX_FRAME_DURATION = NO_OF_SYMBOLS_PREAMBLE_SFD + (127 + 1) * SYMBOLS_PER_OCTET"

subsection \<open>Register accesses\<close>

text \<open>A bit field of a register: the register, the mask and the position of its lowest bit.\<close>

type_synonym field = "zreg \<times> u32 \<times> nat"

definition ZIG_COO_EN :: field where "ZIG_COO_EN = (ZigCtrl, 0x00000002, 1)"
definition ZIG_PROMISCUOUS_EN :: field where "ZIG_PROMISCUOUS_EN = (ZigCtrl, 0x00040000, 18)"
definition ZIG_NON_BEACON_NWK :: field where "ZIG_NON_BEACON_NWK = (ZigCtrl, 0x10000000, 28)"
definition ZIG_SIFS_PERIOD :: field where "ZIG_SIFS_PERIOD = (ZigTxTiming, 0x000000FF, 0)"
definition ZIG_ACK_TX_TIME :: field where "ZIG_ACK_TX_TIME = (ZigTxTiming, 0x0000FF00, 8)"
definition ZIG_LIFS_PERIOD :: field where "ZIG_LIFS_PERIOD = (ZigTxTiming, 0x00FF0000, 16)"
definition ZIG_ACK_TIMEOUT :: field where "ZIG_ACK_TIMEOUT = (ZigTxTiming, 0xFF000000, 24)"
definition ZIG_PHY_CCA_MODE :: field where "ZIG_PHY_CCA_MODE = (ZigPhyReg, 0x00000003, 0)"
definition ZIG_PRE_BEACON_INTERVAL_INT :: field where "ZIG_PRE_BEACON_INTERVAL_INT = (ZigPhyReg, 0x00FF0000, 16)"
definition ZIG_MIN_BE :: field where "ZIG_MIN_BE = (ZigTxBackOff, 0x00000F00, 8)"
definition ZIG_MAX_BE :: field where "ZIG_MAX_BE = (ZigTxBackOff, 0x000F0000, 16)"
definition ZIG_NO_CCA_MAX_RETRY :: field where "ZIG_NO_CCA_MAX_RETRY = (ZigTxBackOff, 0x0F000000, 24)"
definition ZIG_NO_ACK_MAX_RETRY :: field where "ZIG_NO_ACK_MAX_RETRY = (ZigTxBackOff, 0xF0000000, 28)"
definition ZIG_MAC_PAN_ID :: field where "ZIG_MAC_PAN_ID = (ZigPANId, 0x0000FFFF, 0)"
definition ZIG_MAC_ID_SHORT :: field where "ZIG_MAC_ID_SHORT = (ZigPANId, 0xFFFF0000, 16)"
definition ZIG_MAC_ID_IEEE_EXT_ADDR_LO :: field where "ZIG_MAC_ID_IEEE_EXT_ADDR_LO = (ZigMACID0, 0xFFFFFFFF, 0)"
definition ZIG_MAC_ID_IEEE_EXT_ADDR_HI :: field where "ZIG_MAC_ID_IEEE_EXT_ADDR_HI = (ZigMACID1, 0xFFFFFFFF, 0)"
definition ZIG_CTRL_RX_DEFER :: u32 where "ZIG_CTRL_RX_DEFER = push_bit 25 1"
definition ZIG_CTRL_RX_DEFER_EN :: u32 where "ZIG_CTRL_RX_DEFER_EN = push_bit 26 1"
definition ZIG_BLK_TIMING_EN :: u32 where "ZIG_BLK_TIMING_EN = push_bit 0 1"

definition hal_common_reg_32_write :: "zreg \<Rightarrow> u32 \<Rightarrow> pib_st \<Rightarrow> pib_st" where
  "hal_common_reg_32_write r dat32 p = p\<lparr>regs := (regs p)(r := dat32)\<rparr>"

definition hal_common_reg_bit_set :: "zreg \<Rightarrow> u32 \<Rightarrow> pib_st \<Rightarrow> pib_st" where
  "hal_common_reg_bit_set r dat32 p = hal_common_reg_32_write r (regs p r OR dat32) p"

definition hal_common_reg_bit_clear :: "zreg \<Rightarrow> u32 \<Rightarrow> pib_st \<Rightarrow> pib_st" where
  "hal_common_reg_bit_clear r dat32 p = hal_common_reg_32_write r (regs p r AND NOT dat32) p"

definition hal_common_bit_field_reg_read :: "field \<Rightarrow> pib_st \<Rightarrow> u32" where
  "hal_common_bit_field_reg_read f p = (case f of (r, m, pos) \<Rightarrow> drop_bit pos (regs p r AND m))"

definition hal_common_bit_field_reg_write :: "field \<Rightarrow> u32 \<Rightarrow> pib_st \<Rightarrow> pib_st" where
  "hal_common_bit_field_reg_write f value p =
     (case f of (r, m, pos) \<Rightarrow>
        let current_value = regs p r AND NOT m;
            value = push_bit pos value AND m
        in hal_common_reg_32_write r (value OR current_value) p)"

definition PHY_RX_ON :: u8 where "PHY_RX_ON = 0x06"
definition PHY_TRX_OFF :: u8 where "PHY_TRX_OFF = 0x08"
definition PHY_TX_ON :: u8 where "PHY_TX_ON = 0x09"

definition mac_hal_hw_control :: "u8 \<Rightarrow> pib_st \<Rightarrow> pib_st" where
  "mac_hal_hw_control command p =
     (if command = PHY_TRX_OFF
      then hal_common_reg_bit_clear ZigCtrl ZIG_CTRL_RX_EN (hal_common_reg_bit_clear ZigCtrl ZIG_CTRL_TX_EN p)
      else if command = PHY_RX_ON
      then hal_common_reg_bit_set ZigCtrl (ZIG_CTRL_RX_EN OR ZIG_CTRL_ACK_EN) p
      else if command = PHY_TX_ON then hal_common_reg_bit_set ZigCtrl ZIG_CTRL_TX_EN p
      else p)"

definition mac_hal_zigbee_interrupt_control :: "bool \<Rightarrow> u32 \<Rightarrow> pib_st \<Rightarrow> pib_st" where
  "mac_hal_zigbee_interrupt_control enable interrupt_types p =
     (if enable then hal_common_reg_bit_set CPU_INTENABLE_REG interrupt_types p
      else hal_common_reg_bit_clear CPU_INTENABLE_REG interrupt_types p)"

subsection \<open>Values\<close>

definition val_u8 :: "pib_value_t \<Rightarrow> u8 option" where
  "val_u8 v = arr_get v 0"

definition val_u16 :: "pib_value_t \<Rightarrow> u16 option" where
  "val_u16 v = map_option val16 (bytes_at v 0 2)"

definition val_u32 :: "pib_value_t \<Rightarrow> u32 option" where
  "val_u32 v = map_option val32 (bytes_at v 0 4)"

definition val_u64 :: "pib_value_t \<Rightarrow> u64 option" where
  "val_u64 v = do {
     hi \<leftarrow> val_u32 v;
     lo \<leftarrow> map_option val32 (bytes_at v 4 4);
     Some \<lparr>hi_u32 = hi, lo_u32 = lo\<rparr>
   }"

text \<open>An entry of the device table, member by member.\<close>

definition device_bytes :: "mac_device_desc_t \<Rightarrow> u8 list" where
  "device_bytes d = be16 (devPANId d) @ be16 (devShortAddress d) @ be64 (devExtAddress d) @
     be32 (devFrameCounter d) @ [devExempt d]"

definition device_of_value :: "pib_value_t \<Rightarrow> mac_device_desc_t option" where
  "device_of_value v = do {
     pan \<leftarrow> val_u16 v;
     short \<leftarrow> val_u16 (drop 2 v);
     ext \<leftarrow> val_u64 (drop 4 v);
     fc \<leftarrow> val_u32 (drop 12 v);
     ex \<leftarrow> val_u8 (drop 16 v);
     Some \<lparr>devPANId = pan, devShortAddress = short, devExtAddress = ext, devFrameCounter = fc, devExempt = ex\<rparr>
   }"

text \<open>\<open>memcpy(array, value, n)\<close> at the start of an array.\<close>

definition copy_into :: "u8 list \<Rightarrow> pib_value_t \<Rightarrow> nat \<Rightarrow> u8 list option" where
  "copy_into arr v n = do {
     bs \<leftarrow> bytes_at v 0 n;
     if n \<le> length arr then Some (bs @ drop n arr) else None
   }"

subsection \<open>The attributes mirrored in the radio\<close>

definition NON_BEACON_PERIOD :: u32 where "NON_BEACON_PERIOD = 0x0fffffff"

definition HAL_GET_BEACON_INTERVAL_TIME :: "u8 \<Rightarrow> u32" where
  "HAL_GET_BEACON_INTERVAL_TIME bo = push_bit (unat bo) (of_nat aBaseSuperframeDuration)"

definition HAL_GET_SUPERFRAME_DURATION_TIME :: "u8 \<Rightarrow> u32" where
  "HAL_GET_SUPERFRAME_DURATION_TIME so = push_bit (unat so) (of_nat aBaseSuperframeDuration)"

text \<open>
  \<open>mac_hal_pib_init\<close>; the channel is \<open>sysConfig.defaultCH\<close> from the flash configuration.  The
  transmit power is computed by \<open>mac_hal_pib_tx_pwr\<close>, which returns zero.
\<close>

definition mac_hal_pib_tx_pwr :: "u8 \<Rightarrow> u8" where
  "mac_hal_pib_tx_pwr tx_power = 0"

definition mac_hal_pib_init :: "u8 \<Rightarrow> pib_st \<Rightarrow> pib_st" where
  "mac_hal_pib_init defaultCH p = p\<lparr>
     hal_pib_MaxCSMABackoffs := 4,
     hal_pib_MinBE := 3,
     mst := (mst p)\<lparr>hal_pib_PANId := 0xFFFF, hal_pib_ShortAddress := 0xFFFF, hal_pib_BeaconOrder := 15\<rparr>,
     hal_pib_CurrentChannel := defaultCH,
     hal_pib_SupportedChannels := 0x07FFF800,
     hal_pib_CurrentPage := 0,
     hal_pib_MaxFrameDuration := of_nat MAX_FRAME_DURATION,
     hal_pib_SHRDuration := of_nat NO_OF_SYMBOLS_PREAMBLE_SFD,
     hal_pib_SymbolsPerOctet := of_nat SYMBOLS_PER_OCTET,
     hal_pib_MaxBE := 5,
     hal_pib_MaxFrameRetries := 8,
     hal_pib_TransmitPower := mac_hal_pib_tx_pwr 3,
     hal_pib_CCAMode := 2,
     hal_pib_PrivatePanCoordinator := 0,
     hal_pib_BattLifeExt := 0,
     hal_pib_SuperFrameOrder := 15,
     hal_pib_PromiscuousMode := 0,
     hal_pib_macAckWaitDuration := of_nat (aUnitBackoffPeriod + aTurnaroundTime +
       NO_OF_SYMBOLS_PREAMBLE_SFD + 6 * SYMBOLS_PER_OCTET)\<rparr>"

text \<open>\<open>mac_hal_pib_write_to_asic\<close>: the fields in the order they are written.\<close>

definition asic_fields :: "pib_st \<Rightarrow> (field \<times> u32) list" where
  "asic_fields p =
    [(ZIG_MAC_PAN_ID, ucast (hal_pib_PANId (mst p))),
     (ZIG_MAC_ID_IEEE_EXT_ADDR_LO, lo_u32 (hal_pib_IeeeAddress (mst p))),
     (ZIG_MAC_ID_IEEE_EXT_ADDR_HI, hi_u32 (hal_pib_IeeeAddress (mst p))),
     (ZIG_MAC_ID_SHORT, ucast (hal_pib_ShortAddress (mst p))),
     (ZIG_PHY_CCA_MODE, ucast (hal_pib_CCAMode p)),
     (ZIG_MIN_BE, ucast (hal_pib_MinBE p)),
     (ZIG_MAX_BE, ucast (hal_pib_MaxBE p)),
     (ZIG_NO_CCA_MAX_RETRY, ucast (hal_pib_MaxCSMABackoffs p)),
     (ZIG_NO_ACK_MAX_RETRY, ucast (hal_pib_MaxFrameRetries p)),
     (ZIG_COO_EN, ucast (hal_pib_PrivatePanCoordinator p))] @
    (if hal_pib_BeaconOrder (mst p) = NON_BEACON_NWK then [(ZIG_NON_BEACON_NWK, 1)] else []) @
    [(ZIG_SIFS_PERIOD, 12), (ZIG_LIFS_PERIOD, 40), (ZIG_ACK_TX_TIME, of_nat aTurnaroundTime),
     (ZIG_ACK_TIMEOUT, ucast (hal_pib_macAckWaitDuration p))]"

definition mac_hal_pib_write_to_asic :: "pib_st \<Rightarrow> pib_st" where
  "mac_hal_pib_write_to_asic p = fold (\<lambda>(f, x). hal_common_bit_field_reg_write f x) (asic_fields p) p"

text \<open>\<open>mac_hal_reset\<close>: the defaults if asked for, then all registers.\<close>

definition mac_hal_reset :: "u8 \<Rightarrow> bool \<Rightarrow> pib_st \<Rightarrow> pib_st" where
  "mac_hal_reset defaultCH set_default_pib p =
     mac_hal_pib_write_to_asic (if set_default_pib then mac_hal_pib_init defaultCH p else p)"

text \<open>\<open>mac_hal_pib_get\<close>: the status and the bytes that it writes at \<open>value\<close>.\<close>

fun mac_hal_pib_get_attr :: "pib_attr \<Rightarrow> pib_st \<Rightarrow> u8 list option" where
  "mac_hal_pib_get_attr macMaxCSMABackoffs p = Some [hal_pib_MaxCSMABackoffs p]"
| "mac_hal_pib_get_attr macMinBE p = Some [hal_pib_MinBE p]"
| "mac_hal_pib_get_attr macPANId p = Some (be16 (hal_pib_PANId (mst p)))"
| "mac_hal_pib_get_attr macPromiscuousMode p = Some (be16 (ucast (hal_pib_PromiscuousMode p)))"
| "mac_hal_pib_get_attr macShortAddress p = Some (be16 (hal_pib_ShortAddress (mst p)))"
| "mac_hal_pib_get_attr phyCurrentChannel p = Some [hal_pib_CurrentChannel p]"
| "mac_hal_pib_get_attr phyChannelsSupported p = Some (be32 (hal_pib_SupportedChannels p))"
| "mac_hal_pib_get_attr phyTransmitPower p = Some [hal_pib_TransmitPower p]"
| "mac_hal_pib_get_attr phyCCAMode p = Some [hal_pib_CCAMode p]"
| "mac_hal_pib_get_attr phyCurrentPage p = Some [hal_pib_CurrentPage p]"
| "mac_hal_pib_get_attr phyMaxFrameDuration p = Some (be16 (hal_pib_MaxFrameDuration p))"
| "mac_hal_pib_get_attr phySymbolsPerOctet p = Some [hal_pib_SymbolsPerOctet p]"
| "mac_hal_pib_get_attr phySHRDuration p = Some [hal_pib_SHRDuration p]"
| "mac_hal_pib_get_attr macMaxBE p = Some [hal_pib_MaxBE p]"
| "mac_hal_pib_get_attr macMaxFrameRetries p = Some [hal_pib_MaxFrameRetries p]"
| "mac_hal_pib_get_attr macIeeeAddress p = Some (be64 (hal_pib_IeeeAddress (mst p)))"
| "mac_hal_pib_get_attr macBattLifeExt p = Some [hal_pib_BattLifeExt p]"
| "mac_hal_pib_get_attr macBeaconOrder p = Some [hal_pib_BeaconOrder (mst p)]"
| "mac_hal_pib_get_attr macSuperframeOrder p = Some [hal_pib_SuperFrameOrder p]"
| "mac_hal_pib_get_attr macBeaconTxTime p = Some (be32 (hal_pib_BeaconTxTime p))"
| "mac_hal_pib_get_attr I_AM_PAN_COORDINATOR p = Some [hal_pib_PrivatePanCoordinator p]"
| "mac_hal_pib_get_attr macAckWaitDuration p = Some []"
| "mac_hal_pib_get_attr _ p = None"

definition mac_hal_pib_get :: "u8 \<Rightarrow> pib_st \<Rightarrow> u8 \<times> u8 list" where
  "mac_hal_pib_get attribute p =
     (case Option.bind (attr_of attribute) (\<lambda>a. mac_hal_pib_get_attr a p) of
        Some bs \<Rightarrow> (MAC_SUCCESS, bs)
      | None \<Rightarrow> (MAC_UNSUPPORTED_ATTRIBUTE, []))"

text \<open>The attributes that are refused while the radio is busy (it never is: the check is open).\<close>

fun set_trx_attr :: "pib_attr \<Rightarrow> pib_value_t \<Rightarrow> pib_st \<Rightarrow> (u8 \<times> pib_st) option" where
  "set_trx_attr macMinBE v p = do {
     x \<leftarrow> val_u8 v;
     let p = p\<lparr>hal_pib_MinBE := x\<rparr>;
     let p = (if hal_pib_MaxBE p < hal_pib_MinBE p then p\<lparr>hal_pib_MinBE := hal_pib_MaxBE p\<rparr> else p);
     Some (MAC_SUCCESS, hal_common_bit_field_reg_write ZIG_MIN_BE (ucast (hal_pib_MinBE p)) p)
   }"
| "set_trx_attr macMaxBE v p = do {
     x \<leftarrow> val_u8 v;
     let p = p\<lparr>hal_pib_MaxBE := x\<rparr>;
     let p = (if hal_pib_MaxBE p < hal_pib_MinBE p then p\<lparr>hal_pib_MinBE := hal_pib_MaxBE p\<rparr> else p);
     Some (MAC_SUCCESS, hal_common_bit_field_reg_write ZIG_MAX_BE (ucast (hal_pib_MaxBE p)) p)
   }"
| "set_trx_attr macPANId v p = do {
     x \<leftarrow> val_u16 v;
     let p = p\<lparr>mst := (mst p)\<lparr>hal_pib_PANId := x\<rparr>\<rparr>;
     Some (MAC_SUCCESS, hal_common_bit_field_reg_write ZIG_MAC_PAN_ID (ucast x) p)
   }"
| "set_trx_attr macShortAddress v p = do {
     x \<leftarrow> val_u16 v;
     let p = p\<lparr>mst := (mst p)\<lparr>hal_pib_ShortAddress := x\<rparr>\<rparr>;
     Some (MAC_SUCCESS, hal_common_bit_field_reg_write ZIG_MAC_ID_SHORT (ucast x) p)
   }"
| "set_trx_attr phyCurrentChannel v p = do {
     x \<leftarrow> val_u8 v;
     Some (MAC_SUCCESS, p\<lparr>hal_pib_CurrentChannel := x, afe_inits := afe_inits p @ [x]\<rparr>)
   }"
| "set_trx_attr phyCurrentPage v p = Some (MAC_SUCCESS, p)"
| "set_trx_attr phyTransmitPower v p = do {
     x \<leftarrow> val_u8 v;
     Some (MAC_SUCCESS, p\<lparr>hal_pib_TransmitPower := x\<rparr>)
   }"
| "set_trx_attr phyCCAMode v p = do {
     x \<leftarrow> val_u8 v;
     let p = p\<lparr>hal_pib_CCAMode := x\<rparr>;
     Some (MAC_SUCCESS, hal_common_bit_field_reg_write ZIG_PHY_CCA_MODE (ucast x) p)
   }"
| "set_trx_attr macIeeeAddress v p = do {
     x \<leftarrow> val_u64 v;
     let p = p\<lparr>mst := (mst p)\<lparr>hal_pib_IeeeAddress := x\<rparr>\<rparr>;
     let p = hal_common_bit_field_reg_write ZIG_MAC_ID_IEEE_EXT_ADDR_LO (lo_u32 x) p;
     Some (MAC_SUCCESS, hal_common_bit_field_reg_write ZIG_MAC_ID_IEEE_EXT_ADDR_HI (hi_u32 x) p)
   }"
| "set_trx_attr I_AM_PAN_COORDINATOR v p = do {
     x \<leftarrow> val_u8 v;
     let p = p\<lparr>hal_pib_PrivatePanCoordinator := x\<rparr>;
     let p = p\<lparr>hal_pib_PrivatePanCoordinator := 1\<rparr>;
     Some (MAC_SUCCESS, hal_common_bit_field_reg_write ZIG_COO_EN (ucast (hal_pib_PrivatePanCoordinator p)) p)
   }"
| "set_trx_attr _ v p = Some (MAC_UNSUPPORTED_ATTRIBUTE, p)"

definition mac_hal_pib_set_trx_state_check :: "u8 \<Rightarrow> pib_value_t \<Rightarrow> pib_st \<Rightarrow> (u8 \<times> pib_st) option" where
  "mac_hal_pib_set_trx_state_check attribute v p =
     (case attr_of attribute of
        Some a \<Rightarrow> set_trx_attr a v p
      | None \<Rightarrow> Some (MAC_UNSUPPORTED_ATTRIBUTE, p))"

definition restart_timing :: "pib_st \<Rightarrow> pib_st" where
  "restart_timing p =
     hal_common_reg_bit_set ZigTxBlockEn ZIG_BLK_TIMING_EN
       (hal_common_reg_bit_clear ZigTxBlockEn ZIG_BLK_TIMING_EN p)"

definition set_beacon_order :: "u8 \<Rightarrow> pib_st \<Rightarrow> pib_st" where
  "set_beacon_order x p =
     (if hal_pib_BeaconOrder (mst p) \<noteq> x
      then
        let p = p\<lparr>mst := (mst p)\<lparr>hal_pib_BeaconOrder := x\<rparr>\<rparr>;
            p = (if NON_BEACON_NWK = hal_pib_BeaconOrder (mst p)
                 then
                   let p = hal_common_reg_bit_set ZigCtrl ZIG_CTRL_NON_BEACON p;
                       p = hal_common_reg_32_write ZigTxBeaconPeriod NON_BEACON_PERIOD p
                   in mac_hal_zigbee_interrupt_control False
                        (CPU_INT_ZB_BC_TX_TIME OR CPU_INT_ZB_PRE_BC_TX_TIME) p
                 else
                   let p = hal_common_reg_bit_clear ZigCtrl ZIG_CTRL_NON_BEACON p;
                       bi = HAL_GET_BEACON_INTERVAL_TIME (hal_pib_BeaconOrder (mst p));
                       p = hal_common_reg_32_write ZigTxBeaconPeriod bi p;
                       p = hal_common_bit_field_reg_write ZIG_PRE_BEACON_INTERVAL_INT 140 p;
                       interrupt_types =
                         (if hal_pib_PrivatePanCoordinator p = 1
                          then CPU_INT_ZB_BC_TX_TIME OR CPU_INT_ZB_PRE_BC_TX_TIME
                          else CPU_INT_ZB_BC_TX_TIME)
                   in mac_hal_zigbee_interrupt_control True interrupt_types p)
        in restart_timing p
      else p)"

definition set_superframe_order :: "u8 \<Rightarrow> pib_st \<Rightarrow> pib_st" where
  "set_superframe_order x p =
     (if hal_pib_SuperFrameOrder p \<noteq> x
      then
        let p = p\<lparr>hal_pib_SuperFrameOrder := x\<rparr>;
            p = (if NON_BEACON_NWK \<noteq> hal_pib_SuperFrameOrder p
                 then hal_common_reg_32_write ZigTxCAPPeriod
                        (HAL_GET_SUPERFRAME_DURATION_TIME (hal_pib_SuperFrameOrder p)) p
                 else p)
        in restart_timing p
      else p)"

fun hal_set_attr :: "pib_attr \<Rightarrow> pib_value_t \<Rightarrow> pib_st \<Rightarrow> (u8 \<times> pib_st) option" where
  "hal_set_attr macMaxFrameRetries v p = do {
     x \<leftarrow> val_u8 v;
     let p = p\<lparr>hal_pib_MaxFrameRetries := x\<rparr>;
     Some (MAC_SUCCESS, hal_common_bit_field_reg_write ZIG_NO_ACK_MAX_RETRY (ucast x) p)
   }"
| "hal_set_attr macMaxCSMABackoffs v p = do {
     x \<leftarrow> val_u8 v;
     Some (MAC_SUCCESS, p\<lparr>hal_pib_MaxCSMABackoffs := x\<rparr>)
   }"
| "hal_set_attr macBattLifeExt v p = do {
     x \<leftarrow> val_u8 v;
     Some (MAC_SUCCESS, p\<lparr>hal_pib_BattLifeExt := x\<rparr>)
   }"
| "hal_set_attr macBeaconOrder v p = do {
     x \<leftarrow> val_u8 v;
     Some (MAC_SUCCESS, set_beacon_order x p)
   }"
| "hal_set_attr macSuperframeOrder v p = do {
     x \<leftarrow> val_u8 v;
     Some (MAC_SUCCESS, set_superframe_order x p)
   }"
| "hal_set_attr macBeaconTxTime v p = do {
     x \<leftarrow> val_u32 v;
     Some (MAC_SUCCESS, p\<lparr>hal_pib_BeaconTxTime := x\<rparr>)
   }"
| "hal_set_attr macPromiscuousMode v p = do {
     x \<leftarrow> val_u8 v;
     let p = p\<lparr>hal_pib_PromiscuousMode := x\<rparr>;
     Some (MAC_SUCCESS, hal_common_bit_field_reg_write ZIG_PROMISCUOUS_EN (ucast x) p)
   }"
| "hal_set_attr macAckWaitDuration v p = Some (MAC_READ_ONLY, p)"
| "hal_set_attr a v p = set_trx_attr a v p"

definition mac_hal_pib_set :: "u8 \<Rightarrow> pib_value_t \<Rightarrow> pib_st \<Rightarrow> (u8 \<times> pib_st) option" where
  "mac_hal_pib_set attribute v p =
     (case attr_of attribute of
        Some a \<Rightarrow> hal_set_attr a v p
      | None \<Rightarrow> mac_hal_pib_set_trx_state_check attribute v p)"

text \<open>\<open>mac_trx_wakeup\<close> and \<open>mac_trx_sleep\<close> have empty bodies.\<close>

definition mac_trx_wakeup :: "pib_st \<Rightarrow> pib_st" where "mac_trx_wakeup p = p"
definition mac_trx_sleep :: "pib_st \<Rightarrow> pib_st" where "mac_trx_sleep p = p"

definition set_hal_pib_internal :: "u8 \<Rightarrow> pib_value_t \<Rightarrow> pib_st \<Rightarrow> (u8 \<times> pib_st) option" where
  "set_hal_pib_internal attribute v p =
     (if mac_radio_state p = RADIO_SLEEPING
      then do {
        let p = mac_trx_wakeup p;
        (status, p) \<leftarrow> mac_hal_pib_set attribute v p;
        Some (status, mac_trx_sleep p)
      }
      else mac_hal_pib_set attribute v p)"

subsection \<open>The attributes of the MAC\<close>

text \<open>
  Equation (14) of the standard, with the 16-bit arithmetic of the firmware; \<open>m\<close> is the \<open>uint8_t\<close>
  of a difference of integers.
\<close>

primrec recalc_sum :: "nat \<Rightarrow> u8 \<Rightarrow> nat \<Rightarrow> u16 \<Rightarrow> u16" where
  "recalc_sum 0 min_be k w = w"
| "recalc_sum (Suc n) min_be k w = recalc_sum n min_be (Suc k) (w + push_bit (unat min_be + k) 1)"

definition mac_pib_recalc_macMaxFrameTotalWaitTime :: "pib_st \<Rightarrow> pib_st" where
  "mac_pib_recalc_macMaxFrameTotalWaitTime p =
    (let m = (word_of_int (min (uint (hal_pib_MaxBE p) - uint (hal_pib_MinBE p))
                (uint (hal_pib_MaxCSMABackoffs p))) :: u8);
         w = (ucast (hal_pib_MaxCSMABackoffs p) - ucast m) * (push_bit (unat (hal_pib_MaxBE p)) 1 - 1);
         w = recalc_sum (unat m) (hal_pib_MinBE p) 0 w;
         w = w * of_nat aUnitBackoffPeriod;
         w = w + of_nat MAX_FRAME_DURATION
     in p\<lparr>mac_pib_macMaxFrameTotalWaitTime := w\<rparr>)"

text \<open>
  \<open>mlme_get_request\<close>, reading: the status and the bytes written at \<open>attribute_value\<close>.
\<close>

definition table_read :: "'a list \<Rightarrow> u8 \<Rightarrow> u8 \<Rightarrow> ('a \<Rightarrow> u8 list) \<Rightarrow> (u8 \<times> u8 list) option" where
  "table_read tab entries i enc =
     (if entries \<le> i then Some (MAC_INVALID_INDEX, [])
      else map_option (\<lambda>e. (MAC_SUCCESS, enc e)) (arr_get tab (unat i)))"

fun pib_read :: "pib_attr \<Rightarrow> u8 \<Rightarrow> pib_st \<Rightarrow> (u8 \<times> u8 list) option" where
  "pib_read macAssociatedPANCoord i p = Some (MAC_SUCCESS, [mac_pib_macAssociatedPANCoord p])"
| "pib_read macMaxBE i p = Some (MAC_SUCCESS, [hal_pib_MaxBE p])"
| "pib_read macMaxFrameTotalWaitTime i p = Some (MAC_SUCCESS, be16 (mac_pib_macMaxFrameTotalWaitTime p))"
| "pib_read macMaxFrameRetries i p = Some (MAC_SUCCESS, [hal_pib_MaxFrameRetries p])"
| "pib_read macResponseWaitTime i p = Some (MAC_SUCCESS, be16 (mac_pib_macResponseWaitTime p))"
| "pib_read macSecurityEnabled i p = Some (MAC_SUCCESS, [mac_pib_macSecurityEnabled (mst p)])"
| "pib_read phyCurrentPage i p = Some (MAC_SUCCESS, [hal_pib_CurrentPage p])"
| "pib_read phyMaxFrameDuration i p = Some (MAC_SUCCESS, be16 (hal_pib_MaxFrameDuration p))"
| "pib_read phySHRDuration i p = Some (MAC_SUCCESS, [hal_pib_SHRDuration p])"
| "pib_read phySymbolsPerOctet i p = Some (MAC_SUCCESS, [hal_pib_SymbolsPerOctet p])"
| "pib_read macAutoRequest i p = Some (MAC_SUCCESS, [mac_pib_macAutoRequest p])"
| "pib_read macBattLifeExt i p = Some (MAC_SUCCESS, [hal_pib_BattLifeExt p])"
| "pib_read macBattLifeExtPeriods i p = Some (MAC_SUCCESS, [mac_pib_macBattLifeExtPeriods p])"
| "pib_read macBeaconTxTime i p = Some (MAC_SUCCESS, be32 (hal_pib_BeaconTxTime p))"
| "pib_read macBeaconOrder i p = Some (MAC_SUCCESS, [hal_pib_BeaconOrder (mst p)])"
| "pib_read macSuperframeOrder i p = Some (MAC_SUCCESS, [hal_pib_SuperFrameOrder p])"
| "pib_read macAssociationPermit i p = Some (MAC_SUCCESS, [mac_pib_macAssociationPermit p])"
| "pib_read macBeaconPayload i p =
     map_option (Pair MAC_SUCCESS) (bytes_at (mac_beacon_payload p) 0 (unat (mac_pib_macBeaconPayloadLength p)))"
| "pib_read macBeaconPayloadLength i p = Some (MAC_SUCCESS, [mac_pib_macBeaconPayloadLength p])"
| "pib_read macBSN i p = Some (MAC_SUCCESS, [mac_pib_macBSN p])"
| "pib_read macTransactionPersistenceTime i p =
     Some (MAC_SUCCESS, be16 (mac_pib_macTransactionPersistenceTime p))"
| "pib_read macPromiscuousMode i p = Some (MAC_SUCCESS, [hal_pib_PromiscuousMode p])"
| "pib_read macCoordExtendedAddress i p = Some (MAC_SUCCESS, be64 (mac_pib_macCoordExtendedAddress p))"
| "pib_read macCoordShortAddress i p = Some (MAC_SUCCESS, be16 (mac_pib_macCoordShortAddress p))"
| "pib_read macDSN i p = Some (MAC_SUCCESS, [mac_pib_macDSN (mst p)])"
| "pib_read macMaxCSMABackoffs i p = Some (MAC_SUCCESS, [hal_pib_MaxCSMABackoffs p])"
| "pib_read macMinBE i p = Some (MAC_SUCCESS, [hal_pib_MinBE p])"
| "pib_read macPANId i p = Some (MAC_SUCCESS, be16 (hal_pib_PANId (mst p)))"
| "pib_read macRxOnWhenIdle i p = Some (MAC_SUCCESS, [mac_pib_macRxOnWhenIdle p])"
| "pib_read macShortAddress i p = Some (MAC_SUCCESS, be16 (hal_pib_ShortAddress (mst p)))"
| "pib_read macIeeeAddress i p = Some (MAC_SUCCESS, be64 (hal_pib_IeeeAddress (mst p)))"
| "pib_read phyCurrentChannel i p = Some (MAC_SUCCESS, [hal_pib_CurrentChannel p])"
| "pib_read phyChannelsSupported i p = Some (MAC_SUCCESS, be32 (hal_pib_SupportedChannels p))"
| "pib_read phyTransmitPower i p = Some (MAC_SUCCESS, [hal_pib_TransmitPower p])"
| "pib_read phyCCAMode i p = Some (MAC_SUCCESS, [hal_pib_CCAMode p])"
| "pib_read macKeyTable i p =
     table_read (KeyTable (mac_sec_pib p)) (KeyTableEntries (mac_sec_pib p)) i id"
| "pib_read macKeyTableEntries i p = Some (MAC_SUCCESS, [KeyTableEntries (mac_sec_pib p)])"
| "pib_read macDeviceTable i p =
     table_read (DeviceTable (mac_sec_pib p)) (DeviceTableEntries (mac_sec_pib p)) i device_bytes"
| "pib_read macDeviceTableEntries i p = Some (MAC_SUCCESS, [DeviceTableEntries (mac_sec_pib p)])"
| "pib_read macSecurityLevelTable i p =
     table_read (SecurityLevelTable (mac_sec_pib p)) (SecurityLevelTableEntries (mac_sec_pib p)) i id"
| "pib_read macSecurityLevelTableEntries i p = Some (MAC_SUCCESS, [SecurityLevelTableEntries (mac_sec_pib p)])"
| "pib_read macFrameCounter i p = Some (MAC_SUCCESS, be32 (FrameCounter (mst p)))"
| "pib_read macDefaultKeySource i p = Some (MAC_SUCCESS, DefaultKeySource (mac_sec_pib p))"
| "pib_read _ i p = Some (MAC_UNSUPPORTED_ATTRIBUTE, [])"

definition mlme_get :: "u8 \<Rightarrow> u8 \<Rightarrow> pib_st \<Rightarrow> (u8 \<times> u8 list) option" where
  "mlme_get attribute i p =
     (case attr_of attribute of
        Some a \<Rightarrow> pib_read a i p
      | None \<Rightarrow> Some (MAC_UNSUPPORTED_ATTRIBUTE, []))"

text \<open>Setting.  \<open>set_u8\<close> and \<open>set_u16\<close> are the common shape of a case.\<close>

definition set_u8 :: "(u8 \<Rightarrow> pib_st \<Rightarrow> pib_st) \<Rightarrow> pib_value_t \<Rightarrow> pib_st \<Rightarrow> (u8 \<times> pib_st) option" where
  "set_u8 f v p = map_option (\<lambda>x. (MAC_SUCCESS, f x p)) (val_u8 v)"

definition set_u16 :: "(u16 \<Rightarrow> pib_st \<Rightarrow> pib_st) \<Rightarrow> pib_value_t \<Rightarrow> pib_st \<Rightarrow> (u8 \<times> pib_st) option" where
  "set_u16 f v p = map_option (\<lambda>x. (MAC_SUCCESS, f x p)) (val_u16 v)"

definition set_mst :: "(mac_st \<Rightarrow> mac_st) \<Rightarrow> pib_st \<Rightarrow> pib_st" where
  "set_mst f p = p\<lparr>mst := f (mst p)\<rparr>"

definition set_sec :: "(mac_sec_pib_t \<Rightarrow> mac_sec_pib_t) \<Rightarrow> pib_st \<Rightarrow> pib_st" where
  "set_sec f p = p\<lparr>mac_sec_pib := f (mac_sec_pib p)\<rparr>"

text \<open>The number of entries of a table, not above the size of the table.\<close>

definition set_entries ::
  "u8 \<Rightarrow> (u8 \<Rightarrow> mac_sec_pib_t \<Rightarrow> mac_sec_pib_t) \<Rightarrow> pib_value_t \<Rightarrow> pib_st \<Rightarrow> (u8 \<times> pib_st) option" where
  "set_entries max_entries f v p = do {
     x \<leftarrow> val_u8 v;
     if max_entries < x then Some (MAC_INVALID_PARAMETER, p)
     else Some (MAC_SUCCESS, set_sec (f x) p)
   }"

text \<open>The attributes that \<open>mlme_set\<close> hands to the radio layer.\<close>

definition hal_attrs :: "pib_attr list" where
  "hal_attrs = [macBattLifeExt, macBeaconOrder, macMaxCSMABackoffs, macMaxBE, macMaxFrameRetries,
     macMinBE, macPANId, macPromiscuousMode, macShortAddress, macSuperframeOrder, macIeeeAddress,
     phyCurrentChannel, phyCurrentPage, phyTransmitPower, phyCCAMode]"

definition set_hal :: "pib_attr \<Rightarrow> pib_value_t \<Rightarrow> pib_st \<Rightarrow> (u8 \<times> pib_st) option" where
  "set_hal a v p = do {
     (status, p) \<leftarrow> hal_set_attr a v p;
     (status, p) \<leftarrow>
       (if status = MAC_TRX_ASLEEP
        then do {
          (status, p) \<leftarrow> hal_set_attr a v p;
          Some (status, if status = MAC_SUCCESS then p\<lparr>trx_pib_wakeup := True\<rparr> else p)
        }
        else Some (status, p));
     Some (status, if status = MAC_SUCCESS then mac_pib_recalc_macMaxFrameTotalWaitTime p else p)
   }"

text \<open>\<open>macRxOnWhenIdle\<close> switches the receiver on at once.\<close>

definition set_rx_on_when_idle :: "u8 \<Rightarrow> pib_st \<Rightarrow> pib_st" where
  "set_rx_on_when_idle x p =
    (let p = p\<lparr>mac_pib_macRxOnWhenIdle := x\<rparr>
     in if mac_pib_macRxOnWhenIdle p \<noteq> 0
        then mac_hal_hw_control PHY_RX_ON (mac_trx_wakeup p)
        else mac_trx_sleep p)"

fun pib_set :: "pib_attr \<Rightarrow> u8 \<Rightarrow> pib_value_t \<Rightarrow> pib_st \<Rightarrow> (u8 \<times> pib_st) option" where
  "pib_set macAssociatedPANCoord i v p = set_u8 (\<lambda>x p. p\<lparr>mac_pib_macAssociatedPANCoord := x\<rparr>) v p"
| "pib_set macMaxFrameTotalWaitTime i v p = set_u16 (\<lambda>x p. p\<lparr>mac_pib_macMaxFrameTotalWaitTime := x\<rparr>) v p"
| "pib_set macResponseWaitTime i v p =
     set_u16 (\<lambda>x p. p\<lparr>mac_pib_macResponseWaitTime := x * of_nat aBaseSuperframeDuration\<rparr>) v p"
| "pib_set macAutoRequest i v p = set_u8 (\<lambda>x p. p\<lparr>mac_pib_macAutoRequest := x\<rparr>) v p"
| "pib_set macBattLifeExtPeriods i v p = set_u8 (\<lambda>x p. p\<lparr>mac_pib_macBattLifeExtPeriods := x\<rparr>) v p"
| "pib_set macAssociationPermit i v p = set_u8 (\<lambda>x p. p\<lparr>mac_pib_macAssociationPermit := x\<rparr>) v p"
| "pib_set macBeaconPayload i v p = do {
     pl \<leftarrow> copy_into (mac_beacon_payload p) v (unat (mac_pib_macBeaconPayloadLength p));
     Some (MAC_SUCCESS, p\<lparr>mac_beacon_payload := pl\<rparr>)
   }"
| "pib_set macBeaconPayloadLength i v p = do {
     x \<leftarrow> val_u8 v;
     if aMaxBeaconPayloadLength < x then Some (MAC_INVALID_PARAMETER, p)
     else Some (MAC_SUCCESS, p\<lparr>mac_pib_macBeaconPayloadLength := x\<rparr>)
   }"
| "pib_set macBSN i v p = set_u8 (\<lambda>x p. p\<lparr>mac_pib_macBSN := x\<rparr>) v p"
| "pib_set macTransactionPersistenceTime i v p =
     set_u16 (\<lambda>x p. p\<lparr>mac_pib_macTransactionPersistenceTime := x\<rparr>) v p"
| "pib_set macCoordExtendedAddress i v p =
     map_option (\<lambda>x. (MAC_SUCCESS, p\<lparr>mac_pib_macCoordExtendedAddress := x\<rparr>)) (val_u64 v)"
| "pib_set macCoordShortAddress i v p = set_u16 (\<lambda>x p. p\<lparr>mac_pib_macCoordShortAddress := x\<rparr>) v p"
| "pib_set macDSN i v p = set_u8 (\<lambda>x. set_mst (\<lambda>s. s\<lparr>mac_pib_macDSN := x\<rparr>)) v p"
| "pib_set macRxOnWhenIdle i v p = set_u8 set_rx_on_when_idle v p"
| "pib_set macBattLifeExt i v p = set_hal macBattLifeExt v p"
| "pib_set macBeaconOrder i v p = set_hal macBeaconOrder v p"
| "pib_set macMaxCSMABackoffs i v p = set_hal macMaxCSMABackoffs v p"
| "pib_set macMaxBE i v p = set_hal macMaxBE v p"
| "pib_set macMaxFrameRetries i v p = set_hal macMaxFrameRetries v p"
| "pib_set macMinBE i v p = set_hal macMinBE v p"
| "pib_set macPANId i v p = set_hal macPANId v p"
| "pib_set macPromiscuousMode i v p = set_hal macPromiscuousMode v p"
| "pib_set macShortAddress i v p = set_hal macShortAddress v p"
| "pib_set macSuperframeOrder i v p = set_hal macSuperframeOrder v p"
| "pib_set macIeeeAddress i v p = set_hal macIeeeAddress v p"
| "pib_set phyCurrentChannel i v p = set_hal phyCurrentChannel v p"
| "pib_set phyCurrentPage i v p = set_hal phyCurrentPage v p"
| "pib_set phyTransmitPower i v p = set_hal phyTransmitPower v p"
| "pib_set phyCCAMode i v p = set_hal phyCCAMode v p"
| "pib_set macAckWaitDuration i v p = Some (MAC_READ_ONLY, p)"
| "pib_set macSecurityEnabled i v p = set_u8 (\<lambda>x. set_mst (\<lambda>s. s\<lparr>mac_pib_macSecurityEnabled := x\<rparr>)) v p"
| "pib_set macKeyTable i v p =
     (if KeyTableEntries (mac_sec_pib p) \<le> i then Some (MAC_INVALID_INDEX, p)
      else do {
        bs \<leftarrow> bytes_at v 0 sz_key_table;
        tab \<leftarrow> arr_set (KeyTable (mac_sec_pib p)) (unat i) bs;
        Some (MAC_SUCCESS, set_sec (\<lambda>s. s\<lparr>KeyTable := tab\<rparr>) p)
      })"
| "pib_set macKeyTableEntries i v p =
     set_entries MAC_MAX_KEY_TABLE_ENTRIES (\<lambda>x s. s\<lparr>KeyTableEntries := x\<rparr>) v p"
| "pib_set macDeviceTable i v p =
     (if DeviceTableEntries (mac_sec_pib p) \<le> i then Some (MAC_INVALID_INDEX, p)
      else do {
        d \<leftarrow> device_of_value v;
        tab \<leftarrow> arr_set (DeviceTable (mac_sec_pib p)) (unat i) d;
        Some (MAC_SUCCESS, set_sec (\<lambda>s. s\<lparr>DeviceTable := tab\<rparr>) p)
      })"
| "pib_set macDeviceTableEntries i v p =
     set_entries MAC_MAX_DEV_TABLE_ENTRIES (\<lambda>x s. s\<lparr>DeviceTableEntries := x\<rparr>) v p"
| "pib_set macSecurityLevelTable i v p =
     (if SecurityLevelTableEntries (mac_sec_pib p) \<le> i then Some (MAC_INVALID_INDEX, p)
      else do {
        bs \<leftarrow> bytes_at v 0 sz_sec_lvl_table;
        tab \<leftarrow> arr_set (SecurityLevelTable (mac_sec_pib p)) (unat i) bs;
        Some (MAC_SUCCESS, set_sec (\<lambda>s. s\<lparr>SecurityLevelTable := tab\<rparr>) p)
      })"
| "pib_set macSecurityLevelTableEntries i v p =
     set_entries MAC_MAX_SEC_LVL_TABLE_ENTRIES (\<lambda>x s. s\<lparr>SecurityLevelTableEntries := x\<rparr>) v p"
| "pib_set macFrameCounter i v p =
     map_option (\<lambda>x. (MAC_SUCCESS, set_mst (\<lambda>s. s\<lparr>FrameCounter := x\<rparr>) p)) (val_u32 v)"
| "pib_set macDefaultKeySource i v p = do {
     ks \<leftarrow> copy_into (DefaultKeySource (mac_sec_pib p)) v 8;
     Some (MAC_SUCCESS, set_sec (\<lambda>s. s\<lparr>DefaultKeySource := ks\<rparr>) p)
   }"
| "pib_set _ i v p = Some (MAC_UNSUPPORTED_ATTRIBUTE, p)"

definition mlme_set :: "u8 \<Rightarrow> u8 \<Rightarrow> pib_value_t \<Rightarrow> bool \<Rightarrow> pib_st \<Rightarrow> (u8 \<times> pib_st) option" where
  "mlme_set attribute i v set_trx_to_sleep p = do {
     (status, p) \<leftarrow> (case attr_of attribute of
                      Some a \<Rightarrow> pib_set a i v p
                    | None \<Rightarrow> Some (MAC_UNSUPPORTED_ATTRIBUTE, p));
     Some (status,
       if set_trx_to_sleep \<and> trx_pib_wakeup p \<and> mac_pib_macRxOnWhenIdle p = 0
       then p\<lparr>trx_pib_wakeup := False\<rparr> else p)
   }"

subsection \<open>The sizes of the attributes\<close>

definition phy_pib_size :: "u8 list" where
  "phy_pib_size = [1, 4, 1, 1, 1, 2, 1, 1]"

definition mac_pib_size :: "u8 list" where
  "mac_pib_size =
    [1, 1, 1, 1, 1, 1, 1, 1, 4, 1, 8, 2, 1, 1, 1, 1,
     2, 1, 1, 2, 1, 2, 1, 1, 2, 1, 2, 2, 1, 1, 1, 1]"

definition mac_sec_pib_size :: "u8 list" where
  "mac_sec_pib_size = [of_nat sz_key_table, 1, 17, 1, of_nat sz_sec_lvl_table, 1, 4, 1, 1, 1, 1, 8, 2, 2]"

definition private_pib_size :: "u8 list" where
  "private_pib_size = [8]"

definition mac_get_pib_attribute_size :: "u8 \<Rightarrow> pib_st \<Rightarrow> u8 option" where
  "mac_get_pib_attribute_size i p =
     (if i = pib_id macBeaconPayload then Some (mac_pib_macBeaconPayloadLength p)
      else if i \<le> pib_id phySymbolsPerOctet then arr_get phy_pib_size (unat i)
      else if pib_id macAckWaitDuration \<le> i \<and> i \<le> pib_id macMinSIFSPeriod
      then arr_get mac_pib_size (unat (i - pib_id macAckWaitDuration))
      else if pib_id macKeyTable \<le> i \<and> i \<le> pib_id macPANCoordShortAddress
      then arr_get mac_sec_pib_size (unat (i - pib_id macKeyTable))
      else if pib_id macIeeeAddress \<le> i
      then arr_get private_pib_size (unat (i - pib_id macIeeeAddress))
      else Some 0)"

subsection \<open>Requests\<close>

text \<open>
  The message in a buffer.  The confirmation overlays the request; its callback
  (\<^verbatim>\<open>mac_host_cb.c\<close>) frees the buffer.  \<open>confirms\<close> records what the callbacks were given.
\<close>

definition get_msg :: "nat \<Rightarrow> pib_st \<Rightarrow> u8 list option" where
  "get_msg b p = (case body (mst p) b of MlmeMsg m \<Rightarrow> Some m | _ \<Rightarrow> None)"

definition store_at :: "nat \<Rightarrow> u8 list \<Rightarrow> u8 list \<Rightarrow> u8 list option" where
  "store_at i bs m =
     (if i + length bs \<le> length m then Some (take i m @ bs @ drop (i + length bs) m) else None)"

definition mlme_conf :: "nat \<Rightarrow> u8 list \<Rightarrow> pib_st \<Rightarrow> pib_st option" where
  "mlme_conf b m p = do {
     let p = p\<lparr>confirms := confirms p @ [m], mst := put_body b (MlmeMsg m) (mst p)\<rparr>;
     s \<leftarrow> bmm_buffer_free (Some b) (mst p);
     Some (p\<lparr>mst := s\<rparr>)
   }"

definition mlme_get_request :: "nat \<Rightarrow> pib_st \<Rightarrow> pib_st option" where
  "mlme_get_request b p = do {
     m \<leftarrow> get_msg b p;
     attribute_index \<leftarrow> arr_get m 2;
     a \<leftarrow> arr_get m 1;
     (status, bs) \<leftarrow> mlme_get a attribute_index p;
     m \<leftarrow> store_at 4 bs m;
     a \<leftarrow> arr_get m 1;
     m \<leftarrow> arr_set m 2 a;
     m \<leftarrow> arr_set m 3 attribute_index;
     m \<leftarrow> arr_set m 0 MLME_GET_CONFIRM;
     m \<leftarrow> arr_set m 1 status;
     mlme_conf b m p
   }"

definition mlme_set_request :: "nat \<Rightarrow> pib_st \<Rightarrow> pib_st option" where
  "mlme_set_request b p = do {
     m \<leftarrow> get_msg b p;
     attribute_index \<leftarrow> arr_get m 2;
     a \<leftarrow> arr_get m 1;
     (status, p) \<leftarrow> mlme_set a attribute_index (drop 3 m) True p;
     m \<leftarrow> arr_set m 2 a;
     m \<leftarrow> arr_set m 3 attribute_index;
     m \<leftarrow> arr_set m 0 MLME_SET_CONFIRM;
     m \<leftarrow> arr_set m 1 status;
     mlme_conf b m p
   }"

text \<open>
  \<open>mlme_reset_request\<close>: the call of \<open>mac_reset\<close> is commented out.  The bit of a pending frame is
  recorded in \<open>mac_trace\<close>, as in the data service.
\<close>

definition mac_q_flush :: "pib_st \<Rightarrow> pib_st option" where
  "mac_q_flush p = do {
     let s = mst p;
     (q, s) \<leftarrow> qmm_queue_flush (nhle_mac_q s) s;
     let s = s\<lparr>nhle_mac_q := q\<rparr>;
     (q, s) \<leftarrow> qmm_queue_flush (hal_mac_q p) s;
     let p = p\<lparr>hal_mac_q := q\<rparr>;
     (q, s) \<leftarrow> qmm_queue_flush (indirect_data_q s) s;
     let s = s\<lparr>indirect_data_q := q\<rparr>;
     let s = mac_hal_frame_pending False s;
     (q, s) \<leftarrow> qmm_queue_flush (broadcast_q s) s;
     let s = s\<lparr>broadcast_q := q\<rparr>;
     Some (p\<lparr>mst := s\<rparr>)
   }"

definition mlme_reset_request :: "nat \<Rightarrow> pib_st \<Rightarrow> pib_st option" where
  "mlme_reset_request b p = do {
     m \<leftarrow> get_msg b p;
     let p = mac_trx_wakeup p;
     let status = MAC_SUCCESS;
     let p = mac_trx_sleep p;
     m \<leftarrow> arr_set m 1 status;
     m \<leftarrow> arr_set m 0 MLME_RESET_CONFIRM;
     p \<leftarrow> mlme_conf b m p;
     mac_q_flush p
   }"

text \<open>\<open>MLME-RX-ENABLE\<close>: the message holds the flag, the start and the duration.\<close>

definition mac_hal_rx_enable :: "bool \<Rightarrow> u8 \<Rightarrow> u32 \<Rightarrow> u32 \<Rightarrow> pib_st \<Rightarrow> pib_st" where
  "mac_hal_rx_enable bc_on DeferPermit RxOnTime RxOnDuration p =
    (let p = hal_common_reg_32_write ZigRxDeferDuration RxOnDuration p;
         p = (if \<not> bc_on
              then
                let p = mac_hal_hw_control PHY_RX_ON p;
                    p = hal_common_reg_32_write ZigRxDeferStart 0 p
                in hal_common_reg_bit_set ZigCtrl ZIG_CTRL_RX_DEFER p
              else
                let p = hal_common_reg_32_write ZigRxDeferStart RxOnTime p
                in if DeferPermit \<noteq> 0
                   then hal_common_reg_bit_set ZigCtrl ZIG_CTRL_RX_DEFER p
                   else hal_common_reg_bit_clear ZigCtrl ZIG_CTRL_RX_DEFER p)
     in hal_common_reg_bit_set ZigCtrl ZIG_CTRL_RX_DEFER_EN p)"

definition mac_rx_enable_off :: "pib_st \<Rightarrow> pib_st" where
  "mac_rx_enable_off p =
     (if mac_pib_macRxOnWhenIdle p = 0
      then mac_hal_hw_control PHY_TRX_OFF (p\<lparr>mac_rx_enabled := False\<rparr>) else p)"

definition mac_rx_enable_conf :: "nat \<Rightarrow> u8 list \<Rightarrow> u8 \<Rightarrow> pib_st \<Rightarrow> pib_st option" where
  "mac_rx_enable_conf b m status p = do {
     m \<leftarrow> arr_set m 0 MLME_RX_ENABLE_CONFIRM;
     m \<leftarrow> arr_set m 1 status;
     mlme_conf b m p
   }"

definition mlme_rx_enable_request :: "nat \<Rightarrow> pib_st \<Rightarrow> pib_st option" where
  "mlme_rx_enable_request b p = do {
     m \<leftarrow> get_msg b p;
     DeferPermit \<leftarrow> arr_get m 1;
     RxOnTime \<leftarrow> val_u32 (drop 2 m);
     RxOnDuration \<leftarrow> val_u32 (drop 6 m);
     if RxOnDuration = 0 then mac_rx_enable_conf b m MAC_SUCCESS (mac_rx_enable_off p)
     else if mac_poll_state (mst p) \<noteq> MAC_POLL_IDLE \<or> mac_scan_state (mst p) \<noteq> MAC_SCAN_IDLE
     then mac_rx_enable_conf b m MAC_TX_ACTIVE p
     else if hal_pib_BeaconOrder (mst p) = NON_BEACON_NWK
     then mac_rx_enable_conf b m MAC_SUCCESS
            (mac_hal_rx_enable False DeferPermit RxOnTime RxOnDuration (p\<lparr>mac_rx_enabled := True\<rparr>))
     else if HAL_GET_BEACON_INTERVAL_TIME (hal_pib_BeaconOrder (mst p)) \<le> RxOnTime + RxOnDuration
     then mac_rx_enable_conf b m MAC_INVALID_PARAMETER p
     else mac_rx_enable_conf b m MAC_SUCCESS
            (mac_hal_rx_enable True DeferPermit RxOnTime RxOnDuration (p\<lparr>mac_rx_enabled := True\<rparr>))
   }"

text \<open>
  \<open>mac_event_dispatcher\<close> by command code.  The entries of the table that are null, and codes past
  its end, free the buffer; the handlers outside this theory are a parameter.
\<close>

definition MLME_LAST_MESSAGE :: u8 where "MLME_LAST_MESSAGE = 0x24"

definition null_entry :: "u8 \<Rightarrow> bool" where
  "null_entry cmd_code \<longleftrightarrow> cmd_code = 0 \<or> cmd_code = 0x0C \<or> 0x10 \<le> cmd_code"

definition mlme_event_dispatcher ::
  "macEnv \<Rightarrow> (u8 \<Rightarrow> nat \<Rightarrow> pib_st \<Rightarrow> pib_st option) \<Rightarrow> nat \<Rightarrow> pib_st \<Rightarrow> pib_st option" where
  "mlme_event_dispatcher env other_mlme b p =
     (case body (mst p) b of
        MlmeMsg m \<Rightarrow> do {
          cmd_code \<leftarrow> arr_get m 0;
          if cmd_code < MLME_LAST_MESSAGE \<and> \<not> null_entry cmd_code
          then if cmd_code = MLME_SET_REQUEST then mlme_set_request b p
               else if cmd_code = MLME_GET_REQUEST then mlme_get_request b p
               else if cmd_code = MLME_RESET_REQUEST then mlme_reset_request b p
               else if cmd_code = MLME_RX_ENABLE_REQUEST then mlme_rx_enable_request b p
               else other_mlme cmd_code b p
          else map_option (\<lambda>s. p\<lparr>mst := s\<rparr>) (bmm_buffer_free (Some b) (mst p))
        }
      | _ \<Rightarrow> map_option (\<lambda>s. p\<lparr>mst := s\<rparr>) (mac_event_dispatcher env b (mst p)))"

definition mlme_task_nhle ::
  "macEnv \<Rightarrow> (u8 \<Rightarrow> nat \<Rightarrow> pib_st \<Rightarrow> pib_st option) \<Rightarrow> pib_st \<Rightarrow> pib_st option" where
  "mlme_task_nhle env other_mlme p =
     (if \<not> mac_busy (mst p) \<and> qsize (nhle_mac_q (mst p)) \<noteq> 0
      then do {
        (b, q, s) \<leftarrow> qmm_queue_remove None (nhle_mac_q (mst p)) (mst p);
        let p = p\<lparr>mst := s\<lparr>nhle_mac_q := q\<rparr>\<rparr>;
        case b of Some b \<Rightarrow> mlme_event_dispatcher env other_mlme b p | None \<Rightarrow> Some p
      }
      else Some p)"

text \<open>
  \<open>mac_task\<close>: one request of the upper layer, unless a transmission is under way, and one event of
  the radio.
\<close>

definition mac_task ::
  "macEnv \<Rightarrow> (u8 \<Rightarrow> nat \<Rightarrow> pib_st \<Rightarrow> pib_st option) \<Rightarrow> pib_st \<Rightarrow> pib_st option" where
  "mac_task env other_mlme p = do {
     p \<leftarrow> mlme_task_nhle env other_mlme p;
     if qsize (hal_mac_q p) \<noteq> 0
     then do {
       (b, q, s) \<leftarrow> qmm_queue_remove None (hal_mac_q p) (mst p);
       let p = p\<lparr>hal_mac_q := q, mst := s\<rparr>;
       case b of Some b \<Rightarrow> mlme_event_dispatcher env other_mlme b p | None \<Rightarrow> Some p
     }
     else Some p
   }"

text \<open>
  The API of the next higher layer.  A buffer is not cleared when it is allocated: \<open>old\<close> are the
  192 bytes that it holds.
\<close>

definition mac_api_mlme_set_req ::
  "u8 list \<Rightarrow> u8 \<Rightarrow> u8 \<Rightarrow> u8 list \<Rightarrow> pib_st \<Rightarrow> (bool \<times> pib_st) option" where
  "mac_api_mlme_set_req old PIBAttribute PIBAttributeIndex PIBAttributeValue p = do {
     (buffer_p, s) \<leftarrow> bmm_buffer_alloc (of_nat BUFFER_SIZE) (mst p);
     let p = p\<lparr>mst := s\<rparr>;
     case buffer_p of
       None \<Rightarrow> Some (False, p)
     | Some b \<Rightarrow> do {
         pib_attribute_octet_no \<leftarrow> mac_get_pib_attribute_size PIBAttribute p;
         bs \<leftarrow> bytes_at PIBAttributeValue 0 (unat pib_attribute_octet_no);
         m \<leftarrow> store_at 0 [MLME_SET_REQUEST, PIBAttribute, PIBAttributeIndex] old;
         m \<leftarrow> store_at 3 bs m;
         (ok, s) \<leftarrow> mac_api_to_nhle_mac_queue b (put_body b (MlmeMsg m) s);
         Some (ok, p\<lparr>mst := s\<rparr>)
       }
   }"

definition mac_api_mlme_get_req :: "u8 list \<Rightarrow> u8 \<Rightarrow> u8 \<Rightarrow> pib_st \<Rightarrow> (bool \<times> pib_st) option" where
  "mac_api_mlme_get_req old PIBAttribute PIBAttributeIndex p = do {
     (buffer_p, s) \<leftarrow> bmm_buffer_alloc (of_nat BUFFER_SIZE) (mst p);
     let p = p\<lparr>mst := s\<rparr>;
     case buffer_p of
       None \<Rightarrow> Some (False, p)
     | Some b \<Rightarrow> do {
         m \<leftarrow> store_at 0 [MLME_GET_REQUEST, PIBAttribute, PIBAttributeIndex] old;
         (ok, s) \<leftarrow> mac_api_to_nhle_mac_queue b (put_body b (MlmeMsg m) s);
         Some (ok, p\<lparr>mst := s\<rparr>)
       }
   }"

subsection \<open>Initialisation\<close>

text \<open>The counter of the radio, read through a multiplexed register, seeds the sequence numbers.\<close>

definition mac_hal_get_current_time :: "u32 \<Rightarrow> pib_st \<Rightarrow> u32 \<times> pib_st" where
  "mac_hal_get_current_time beacon_counter p =
    (let p = hal_common_reg_bit_set ZigTxBlockEn (push_bit 15 1) p;
         current_time = beacon_counter AND 0x00FFFFFF
     in (current_time, hal_common_reg_bit_clear ZigTxBlockEn (push_bit 15 1) p))"

definition mac_init_pib :: "u32 \<Rightarrow> pib_st \<Rightarrow> pib_st" where
  "mac_init_pib beacon_counter p =
    (let p = p\<lparr>mac_pib_macAssociatedPANCoord := 0, mac_pib_macMaxFrameTotalWaitTime := 1986,
               mac_pib_macResponseWaitTime := of_nat (32 * aBaseSuperframeDuration),
               mst := (mst p)\<lparr>mac_pib_macSecurityEnabled := 1\<rparr>, mac_pib_macAssociationPermit := 0,
               mac_pib_macBeaconPayloadLength := 0\<rparr>;
         (random_value, p) = mac_hal_get_current_time beacon_counter p
     in p\<lparr>mac_pib_macBSN := ucast random_value, mac_pib_macTransactionPersistenceTime := 0x01F4,
          mac_pib_macAutoRequest := 1, mac_pib_macBattLifeExtPeriods := 6,
          mac_pib_macCoordExtendedAddress := \<lparr>hi_u32 = 0, lo_u32 = 0\<rparr>,
          mac_pib_macCoordShortAddress := 0xFFFF,
          mst := (mst p)\<lparr>mac_pib_macDSN := ucast (drop_bit 8 random_value), FrameCounter := 0\<rparr>,
          mac_pib_macRxOnWhenIdle := 0,
          mac_sec_pib := (mac_sec_pib p)\<lparr>KeyTableEntries := 0, DeviceTableEntries := 0,
            SecurityLevelTableEntries := 0\<rparr>\<rparr>)"

text \<open>The parts of \<open>mac_init\<close> and \<open>mac_hal_init\<close> that set up the attributes.\<close>

definition mac_pib_start :: "u8 \<Rightarrow> u32 \<Rightarrow> pib_st \<Rightarrow> pib_st" where
  "mac_pib_start defaultCH beacon_counter p =
     mac_hal_reset defaultCH True (mac_init_pib beacon_counter p)"

subsection \<open>The radio configuration of the production test\<close>

text \<open>
  What the MAC does for each action of the production agent (\<^verbatim>\<open>hal_rf_prod_test.c\<close>,
  \<open>config_rf_test_parameters\<close> and \<open>mac_diag_config_tx_rx\<close>): the status and the new state.
\<close>

fun mac_serves :: "action \<Rightarrow> pib_st \<Rightarrow> (u8 \<times> pib_st) option" where
  "mac_serves (MlmeSet a v) p = mlme_set (pib_id a) 0 v True p"
| "mac_serves (PibSet a x) p = mac_hal_pib_set (pib_id a) [x] p"
| "mac_serves (ZigCtrlSet bits) p = Some (MAC_SUCCESS, hal_common_reg_bit_set ZigCtrl bits p)"
| "mac_serves (ZbIntDisable bits) p = Some (MAC_SUCCESS, mac_hal_zigbee_interrupt_control False bits p)"
| "mac_serves _ p = Some (MAC_SUCCESS, p)"

primrec mac_run :: "action list \<Rightarrow> u8 \<times> pib_st \<Rightarrow> (u8 \<times> pib_st) option" where
  "mac_run [] r = Some r"
| "mac_run (a # as) r = Option.bind (mac_serves a (snd r)) (mac_run as)"

end
