(* ===== verification/MacPibVals.thy ===== *)
theory MacPibVals
  imports MacPib MacExpiry ProdFrames
begin

unbundle bit_operations_syntax

text \<open>
  The values of attributes: reading a value from memory is inverse to storing it, and the maximum
  wait time is equation (14) of the standard.
\<close>

subsection \<open>Bytes and values\<close>

lemmas reg_defs = hal_common_reg_32_write_def hal_common_reg_bit_set_def hal_common_reg_bit_clear_def
  hal_common_bit_field_reg_write_def mac_hal_hw_control_def mac_hal_zigbee_interrupt_control_def
  restart_timing_def

lemmas status_defs = MAC_SUCCESS_def MAC_UNSUPPORTED_ATTRIBUTE_def MAC_INVALID_INDEX_def MAC_READ_ONLY_def
  MAC_INVALID_PARAMETER_def MAC_TRX_ASLEEP_def

lemma bytes_at_0: "bytes_at v 0 n = Some bs \<longleftrightarrow> n \<le> length v \<and> bs = take n v"
  by (auto simp: bytes_at_def)

lemma val_u8_Some: "val_u8 v = Some x \<longleftrightarrow> 1 \<le> length v \<and> [x] = take 1 v"
  by (cases v) (auto simp: val_u8_def arr_get_def)

lemma val_u16_Some: "val_u16 v = Some x \<longleftrightarrow> 2 \<le> length v \<and> be16 x = take 2 v"
proof -
  { assume "2 \<le> length v"
    then obtain a b w where v: "v = a # b # w" by (auto simp: numeral_eq_Suc Suc_le_length_iff)
    have "val16 (take 2 v) = x \<longleftrightarrow> be16 x = take 2 v"
      using be16_val16 [of a b] get16_be16 [of x "[]"] by (auto simp: v get16_def) }
  then show ?thesis by (auto simp: val_u16_def bytes_at_def)
qed

lemma be32_eq: "4 \<le> length v \<Longrightarrow> val32 (take 4 v) = x \<longleftrightarrow> be32 x = take 4 v"
proof -
  assume "4 \<le> length v"
  then obtain a b c d w where v: "v = a # b # c # d # w" by (auto simp: numeral_eq_Suc Suc_le_length_iff)
  have t: "take 4 v = [a, b, c, d]" by (simp add: v)
  show ?thesis unfolding t using be32_val32 [of a b c d] get32_be32 [of x "[]"] by (auto simp: get32_def)
qed

lemma val_u32_Some: "val_u32 v = Some x \<longleftrightarrow> 4 \<le> length v \<and> be32 x = take 4 v"
  using be32_eq [of v x] by (auto simp: val_u32_def bytes_at_def)

lemma val_u64_Some: "val_u64 v = Some x \<longleftrightarrow> 8 \<le> length v \<and> be64 x = take 8 v"
proof (cases "8 \<le> length v")
  case True
  have s: "take 8 v = take 4 v @ take 4 (drop 4 v)" using take_add [of 4 4 v] by simp
  have "be64 x = take 8 v \<longleftrightarrow> be32 (hi_u32 x) = take 4 v \<and> be32 (lo_u32 x) = take 4 (drop 4 v)"
    unfolding be64_def s using True by (intro append_eq_append_conv) simp
  moreover have "val_u64 v = Some \<lparr>hi_u32 = val32 (take 4 v), lo_u32 = val32 (take 4 (drop 4 v))\<rparr>"
    using True by (simp add: val_u64_def val_u32_def bytes_at_def)
  ultimately show ?thesis
    using True be32_eq [of v "hi_u32 x"] be32_eq [of "drop 4 v" "lo_u32 x"] by (cases x) auto
next
  case False
  then show ?thesis by (auto simp: val_u64_def val_u32_def bytes_at_def bind_eq_Some_conv)
qed

lemma device_of_value_Some:
  assumes "device_of_value v = Some d"
  shows "17 \<le> length v \<and> device_bytes d = take 17 v"
proof -
  from assms obtain pan short ext fc ex where
    v: "val_u16 v = Some pan" "val_u16 (drop 2 v) = Some short" "val_u64 (drop 4 v) = Some ext"
      "val_u32 (drop 12 v) = Some fc" "val_u8 (drop 16 v) = Some ex"
    and d: "d = \<lparr>devPANId = pan, devShortAddress = short, devExtAddress = ext, devFrameCounter = fc, devExempt = ex\<rparr>"
    by (auto simp: device_of_value_def bind_eq_Some_conv)
  have len: "17 \<le> length v" using v(5) by (auto simp: val_u8_Some)
  have "take 17 v = take 2 v @ take 2 (drop 2 v) @ take 8 (drop 4 v) @ take 4 (drop 12 v) @ take 1 (drop 16 v)"
    using take_add [of 2 15 v] take_add [of 2 13 "drop 2 v"] take_add [of 8 5 "drop 4 v"] take_add [of 4 1 "drop 12 v"]
    by simp
  moreover have "be16 pan = take 2 v" "be16 short = take 2 (drop 2 v)" "be64 ext = take 8 (drop 4 v)"
    "be32 fc = take 4 (drop 12 v)" "[ex] = take 1 (drop 16 v)"
    using v unfolding val_u16_Some val_u64_Some val_u32_Some val_u8_Some by simp_all
  ultimately show ?thesis using len by (simp add: d device_bytes_def)
qed

subsection \<open>The maximum wait time of a frame\<close>

text \<open>Equation (14) of section 7.4.2, over the natural numbers.\<close>

definition max_frame_total_wait_time :: "nat \<Rightarrow> nat \<Rightarrow> nat \<Rightarrow> nat" where
  "max_frame_total_wait_time min_be max_be max_backoffs =
    (let m = min (max_be - min_be) max_backoffs
     in ((\<Sum>k<m. 2 ^ (min_be + k)) + (2 ^ max_be - 1) * (max_backoffs - m)) * aUnitBackoffPeriod + MAX_FRAME_DURATION)"

lemma recalc_sum_eq:
  "recalc_sum n b k w = w + of_nat (\<Sum>j<n. 2 ^ (unat b + k + j))"
proof (induction n arbitrary: k w)
  case 0
  then show ?case by simp
next
  case (Suc n)
  have "(\<Sum>j<Suc n. 2 ^ (unat b + k + j) :: nat) = 2 ^ (unat b + k) + (\<Sum>j<n. 2 ^ (unat b + Suc k + j))"
    by (subst sum.lessThan_Suc_shift) simp
  then show ?case by (simp add: Suc.IH push_bit_eq_mult)
qed

lemma sum_powers: "(\<Sum>k<m. 2 ^ (a + k) :: nat) = 2 ^ a * (2 ^ m - 1)"
  by (induction m) (simp_all add: power_add algebra_simps)

lemma recalc_eq:
  assumes "hal_pib_MinBE p \<le> hal_pib_MaxBE p"
  shows "mac_pib_macMaxFrameTotalWaitTime (mac_pib_recalc_macMaxFrameTotalWaitTime p) =
    of_nat (max_frame_total_wait_time (unat (hal_pib_MinBE p)) (unat (hal_pib_MaxBE p)) (unat (hal_pib_MaxCSMABackoffs p)))"
proof -
  define a b c where abc: "a = unat (hal_pib_MinBE p)" "b = unat (hal_pib_MaxBE p)" "c = unat (hal_pib_MaxCSMABackoffs p)"
  define m where "m = min (b - a) c"
  have ab: "a \<le> b" using assms by (simp add: abc word_le_nat_alt)
  have b: "b < 256" unfolding abc by (rule unat_u8_less)
  have m_le: "m \<le> c" "m < 256" using b by (auto simp: m_def)
  have f1: "(word_of_int (min (uint (hal_pib_MaxBE p) - uint (hal_pib_MinBE p)) (uint (hal_pib_MaxCSMABackoffs p))) :: u8) = of_nat m"
  proof -
    have "min (uint (hal_pib_MaxBE p) - uint (hal_pib_MinBE p)) (uint (hal_pib_MaxCSMABackoffs p)) = int m"
      unfolding uint_nat abc [symmetric] m_def using ab by (auto simp: min_def of_nat_diff)
    then show ?thesis by simp
  qed
  have f2: "unat (of_nat m :: u8) = m" using m_le(2) by (simp add: unsigned_of_nat take_bit_nat_eq_self)
  have f3: "(ucast (hal_pib_MaxCSMABackoffs p) - ucast (of_nat m :: u8) :: u16) = of_nat (c - m)"
  proof -
    have u: "(ucast w :: u16) = of_nat (unat w)" for w :: u8 by simp
    have "(ucast (hal_pib_MaxCSMABackoffs p) :: u16) = of_nat c" unfolding u abc ..
    moreover have "(ucast (of_nat m :: u8) :: u16) = of_nat m" unfolding u f2 ..
    ultimately show ?thesis using m_le(1) by (simp add: of_nat_diff)
  qed
  define d where "d = c - m"
  define e where "e = (2 ^ b - 1 :: nat)"
  have f4: "push_bit b 1 - 1 = (of_nat e :: u16)" by (simp add: e_def push_bit_eq_mult of_nat_diff)
  have f5: "max_frame_total_wait_time a b c = ((\<Sum>k<m. 2 ^ (a + k)) + e * d) * aUnitBackoffPeriod + MAX_FRAME_DURATION"
    unfolding max_frame_total_wait_time_def Let_def m_def [symmetric] d_def e_def ..
  show ?thesis
    unfolding mac_pib_recalc_macMaxFrameTotalWaitTime_def Let_def recalc_sum_eq f1 f2 f3 abc [symmetric] f4 f5
      d_def [symmetric]
    by (simp add: algebra_simps)
qed

text \<open>Within the ranges of the standard the result fits.\<close>

lemma wait_time_bound:
  assumes "a \<le> b" "b \<le> 8" "c \<le> 5"
  shows "max_frame_total_wait_time a b c \<le> 25766"
proof -
  define m where "m = min (b - a) c"
  have m: "m \<le> b - a" "m \<le> c" by (simp_all add: m_def)
  have "(\<Sum>k<m. 2 ^ (a + k) :: nat) \<le> 255 * m"
  proof (rule order.trans [OF sum_mono [where g = "\<lambda>_. 255"]])
    fix k assume "k \<in> {..<m}"
    then have "a + k \<le> 7" using m assms by auto
    then have "(2::nat) ^ (a + k) \<le> 2 ^ 7" by (intro power_increasing) auto
    then show "(2::nat) ^ (a + k) \<le> 255" by simp
  qed simp
  moreover have "(2 ^ b - 1 :: nat) * (c - m) \<le> 255 * (c - m)"
  proof -
    have "(2::nat) ^ b \<le> 2 ^ 8" using assms by (intro power_increasing) auto
    then show ?thesis by (intro mult_right_mono) auto
  qed
  ultimately have "(\<Sum>k<m. 2 ^ (a + k) :: nat) + (2 ^ b - 1) * (c - m) \<le> 255 * m + 255 * (c - m)" by (rule add_mono)
  also have "\<dots> \<le> 1275" using m assms(3) by auto
  finally have "(\<Sum>k<m. 2 ^ (a + k) :: nat) + (2 ^ b - 1) * (c - m) \<le> 1275" .
  then show ?thesis
    unfolding max_frame_total_wait_time_def Let_def m_def [symmetric] aUnitBackoffPeriod_def MAX_FRAME_DURATION_def
      NO_OF_SYMBOLS_PREAMBLE_SFD_def SYMBOLS_PER_OCTET_def by simp
qed

end
