(* ===== verification/MacPibRw.thy ===== *)
theory MacPibRw
  imports MacPibVals
begin

unbundle bit_operations_syntax

text \<open>
  Reading and setting attributes: a value that was set is read back, setting one attribute leaves
  the others alone, and a request that is refused changes nothing.
\<close>

subsection \<open>A value that was set is read back\<close>

lemma hal_set_status: "hal_set_attr a v p = Some (st, p') \<Longrightarrow> st \<in> {MAC_SUCCESS, MAC_UNSUPPORTED_ATTRIBUTE, MAC_READ_ONLY}"
  by (cases a) (auto simp: bind_eq_Some_conv Let_def)

lemma set_hal_eq:
  "set_hal a v p = map_option (\<lambda>(st, q). (st, if st = MAC_SUCCESS then mac_pib_recalc_macMaxFrameTotalWaitTime q else q))
     (hal_set_attr a v p)"
proof (cases "hal_set_attr a v p")
  case None
  then show ?thesis by (simp add: set_hal_def)
next
  case (Some r)
  obtain st q where r: "r = (st, q)" by (cases r)
  have "st \<noteq> MAC_TRX_ASLEEP"
    using hal_set_status [OF Some [unfolded r]] by (auto simp: status_defs)
  then show ?thesis by (simp add: set_hal_def Some r)
qed

definition pib_wf :: "pib_st \<Rightarrow> bool" where
  "pib_wf p \<longleftrightarrow>
     length (mac_beacon_payload p) = unat aMaxBeaconPayloadLength \<and>
     mac_pib_macBeaconPayloadLength p \<le> aMaxBeaconPayloadLength \<and>
     length (KeyTable (mac_sec_pib p)) = unat MAC_MAX_KEY_TABLE_ENTRIES \<and>
     KeyTableEntries (mac_sec_pib p) \<le> MAC_MAX_KEY_TABLE_ENTRIES \<and>
     (\<forall>e \<in> set (KeyTable (mac_sec_pib p)). length e = sz_key_table) \<and>
     length (DeviceTable (mac_sec_pib p)) = unat MAC_MAX_DEV_TABLE_ENTRIES \<and>
     DeviceTableEntries (mac_sec_pib p) \<le> MAC_MAX_DEV_TABLE_ENTRIES \<and>
     length (SecurityLevelTable (mac_sec_pib p)) = unat MAC_MAX_SEC_LVL_TABLE_ENTRIES \<and>
     SecurityLevelTableEntries (mac_sec_pib p) \<le> MAC_MAX_SEC_LVL_TABLE_ENTRIES \<and>
     (\<forall>e \<in> set (SecurityLevelTable (mac_sec_pib p)). length e = sz_sec_lvl_table) \<and>
     length (DefaultKeySource (mac_sec_pib p)) = 8"

definition attr_size :: "pib_attr \<Rightarrow> pib_st \<Rightarrow> nat" where
  "attr_size a p = (case mac_get_pib_attribute_size (pib_id a) p of Some n \<Rightarrow> unat n | None \<Rightarrow> 0)"

lemmas size_defs = attr_size_def mac_get_pib_attribute_size_def mac_pib_size_def phy_pib_size_def
     mac_sec_pib_size_def private_pib_size_def sz_key_table_def sz_sec_lvl_table_def
lemma attr_size_simps [simp]:
  "attr_size macBeaconPayload p = unat (mac_pib_macBeaconPayloadLength p)"
  "attr_size macAssociatedPANCoord p = 1" "attr_size macAutoRequest p = 1"
  "attr_size macBattLifeExtPeriods p = 1" "attr_size macAssociationPermit p = 1"
  "attr_size macBeaconPayloadLength p = 1" "attr_size macBSN p = 1" "attr_size macDSN p = 1"
  "attr_size macRxOnWhenIdle p = 1" "attr_size macSecurityEnabled p = 1"
  "attr_size macKeyTableEntries p = 1" "attr_size macDeviceTableEntries p = 1"
  "attr_size macSecurityLevelTableEntries p = 1" "attr_size macBattLifeExt p = 1"
  "attr_size macBeaconOrder p = 1" "attr_size macMaxCSMABackoffs p = 1" "attr_size macMaxBE p = 1"
  "attr_size macMaxFrameRetries p = 1" "attr_size macMinBE p = 1"
  "attr_size macPromiscuousMode p = 1" "attr_size macSuperframeOrder p = 1"
  "attr_size phyCurrentChannel p = 1" "attr_size phyTransmitPower p = 1"
  "attr_size phyCCAMode p = 1" "attr_size macMaxFrameTotalWaitTime p = 2"
  "attr_size macTransactionPersistenceTime p = 2" "attr_size macCoordShortAddress p = 2"
  "attr_size macPANId p = 2" "attr_size macShortAddress p = 2" "attr_size macFrameCounter p = 4"
  "attr_size macIeeeAddress p = 8" "attr_size macCoordExtendedAddress p = 8"
  "attr_size macDefaultKeySource p = 8" "attr_size macDeviceTable p = 17"
  "attr_size macKeyTable p = sz_key_table" "attr_size macSecurityLevelTable p = sz_sec_lvl_table"
  by (simp_all add: size_defs)

lemma status_neq [simp]:
  "MAC_SUCCESS \<noteq> MAC_INVALID_PARAMETER" "MAC_SUCCESS \<noteq> MAC_INVALID_INDEX" "MAC_SUCCESS \<noteq> MAC_READ_ONLY"
  "MAC_SUCCESS \<noteq> MAC_UNSUPPORTED_ATTRIBUTE"
  "MAC_INVALID_PARAMETER \<noteq> MAC_SUCCESS" "MAC_INVALID_INDEX \<noteq> MAC_SUCCESS" "MAC_READ_ONLY \<noteq> MAC_SUCCESS"
  "MAC_UNSUPPORTED_ATTRIBUTE \<noteq> MAC_SUCCESS"
  by (simp_all add: status_defs)

lemma table_read_set:
  assumes "\<not> n \<le> i" "arr_set tab (unat i) e = Some tab'"
  shows "table_read tab' n i enc = Some (MAC_SUCCESS, enc e)"
  using assms by (auto simp: table_read_def arr_set_def arr_get_def split: if_splits)

definition reads_back :: "pib_attr \<Rightarrow> bool" where
  "reads_back a \<longleftrightarrow> a \<notin> {macMinBE, macResponseWaitTime, phyCurrentPage}"

lemma recalc_fields [simp]:
  "pib_read a i (mac_pib_recalc_macMaxFrameTotalWaitTime p) = (if a = macMaxFrameTotalWaitTime
     then Some (MAC_SUCCESS, be16 (mac_pib_macMaxFrameTotalWaitTime (mac_pib_recalc_macMaxFrameTotalWaitTime p)))
     else pib_read a i p)"
  by (cases a) (simp_all add: mac_pib_recalc_macMaxFrameTotalWaitTime_def Let_def)

lemma regs_update_fields:
  "pib_read a i (p\<lparr>regs := r\<rparr>) = pib_read a i p"
  by (cases a) (simp_all)

definition same_but_regs :: "pib_st \<Rightarrow> pib_st \<Rightarrow> bool" where
  "same_but_regs p q \<longleftrightarrow> (\<exists>r. q = p\<lparr>regs := r\<rparr>)"

lemma same_but_regs_refl [intro]: "same_but_regs p p"
  unfolding same_but_regs_def by (rule exI [of _ "regs p"]) simp

lemma same_but_regs_read: "same_but_regs p q \<Longrightarrow> pib_read a i q = pib_read a i p"
  by (auto simp: same_but_regs_def regs_update_fields)

text \<open>Every register access, behind any other.\<close>

lemma same_but_regs_write [intro]:
  "same_but_regs p q \<Longrightarrow> same_but_regs p (hal_common_reg_32_write r x q)"
  by (auto simp: same_but_regs_def hal_common_reg_32_write_def)

lemma same_but_regs_access [intro]:
  assumes "same_but_regs p q"
  shows "same_but_regs p (hal_common_reg_bit_set r x q)" "same_but_regs p (hal_common_reg_bit_clear r x q)"
    "same_but_regs p (hal_common_bit_field_reg_write f x q)"
  unfolding hal_common_reg_bit_set_def hal_common_reg_bit_clear_def hal_common_bit_field_reg_write_def Let_def
    split_def by (intro same_but_regs_write assms)+

lemma same_but_regs_hw [intro]:
  assumes "same_but_regs p q"
  shows "same_but_regs p (restart_timing q)" "same_but_regs p (mac_hal_zigbee_interrupt_control e t q)"
    "same_but_regs p (mac_hal_hw_control c q)"
  unfolding restart_timing_def mac_hal_zigbee_interrupt_control_def mac_hal_hw_control_def
  using assms by auto

lemma set_beacon_order_same:
  "same_but_regs (p\<lparr>mst := (mst p)\<lparr>hal_pib_BeaconOrder := x\<rparr>\<rparr>) (set_beacon_order x p)"
proof (cases "hal_pib_BeaconOrder (mst p) = x")
  case True
  then have eq: "p\<lparr>mst := (mst p)\<lparr>hal_pib_BeaconOrder := x\<rparr>\<rparr> = p" by auto
  show ?thesis unfolding eq using True by (simp add: set_beacon_order_def same_but_regs_refl)
next
  case False
  then show ?thesis unfolding set_beacon_order_def Let_def by simp blast
qed

lemma set_superframe_order_same:
  "same_but_regs (p\<lparr>hal_pib_SuperFrameOrder := x\<rparr>) (set_superframe_order x p)"
proof (cases "hal_pib_SuperFrameOrder p = x")
  case True
  then have eq: "p\<lparr>hal_pib_SuperFrameOrder := x\<rparr> = p" by auto
  show ?thesis unfolding eq using True by (simp add: set_superframe_order_def same_but_regs_refl)
next
  case False
  then show ?thesis unfolding set_superframe_order_def Let_def by simp blast
qed

lemma set_rx_on_when_idle_same:
  "same_but_regs (p\<lparr>mac_pib_macRxOnWhenIdle := x\<rparr>) (set_rx_on_when_idle x p)"
  unfolding set_rx_on_when_idle_def mac_trx_wakeup_def mac_trx_sleep_def Let_def by auto

lemma copy_into_Some:
  "copy_into arr v n = Some y \<longleftrightarrow> n \<le> length v \<and> n \<le> length arr \<and> y = take n v @ drop n arr"
  by (auto simp: copy_into_def bytes_at_0 bind_eq_Some_conv)

lemmas read_writes [simp] =
  same_but_regs_read [OF same_but_regs_access(1) [OF same_but_regs_refl]]
  same_but_regs_read [OF same_but_regs_access(2) [OF same_but_regs_refl]]
  same_but_regs_read [OF same_but_regs_access(3) [OF same_but_regs_refl]]
  same_but_regs_read [OF same_but_regs_hw(3) [OF same_but_regs_refl]]
  same_but_regs_read [OF set_beacon_order_same] same_but_regs_read [OF set_superframe_order_same]
  same_but_regs_read [OF set_rx_on_when_idle_same]

lemma hal_read_back:
  assumes "hal_set_attr a v p = Some (MAC_SUCCESS, q)" "reads_back a" "a \<in> set hal_attrs"
  shows "pib_read a i q = Some (MAC_SUCCESS, take (attr_size a q) v)"
proof -
  have m: "a = macBattLifeExt \<or> a = macBeaconOrder \<or> a = macMaxCSMABackoffs \<or> a = macMaxBE \<or> a = macMaxFrameRetries \<or>
    a = macPANId \<or> a = macPromiscuousMode \<or> a = macShortAddress \<or> a = macSuperframeOrder \<or> a = macIeeeAddress \<or>
    a = phyCurrentChannel \<or> a = phyTransmitPower \<or> a = phyCCAMode"
    using assms(2,3) by (auto simp: hal_attrs_def reads_back_def)
  show ?thesis
    using m assms(1)
    by (elim disjE; clarsimp simp: bind_eq_Some_conv Let_def simp del: pib_read.simps;
        simp add: val_u8_Some val_u16_Some val_u64_Some)
qed

lemma array_read_back:
  assumes "pib_set a i v p = Some (MAC_SUCCESS, q)"
    "a \<in> {macBeaconPayload, macRxOnWhenIdle, macKeyTable, macDeviceTable, macSecurityLevelTable, macDefaultKeySource}"
    "pib_wf p"
  shows "pib_read a i q = Some (MAC_SUCCESS, take (attr_size a q) v)"
  using assms(2)
proof (elim insertE emptyE)
  assume a: "a = macBeaconPayload"
  then show ?thesis using assms(1) by (auto simp: bind_eq_Some_conv copy_into_Some bytes_at_0)
next
  assume a: "a = macRxOnWhenIdle"
  then obtain x where x: "val_u8 v = Some x" "q = set_rx_on_when_idle x p" using assms(1) by (auto simp: set_u8_def)
  show ?thesis unfolding x(2) a read_writes using x(1) by (simp add: val_u8_Some)
next
  assume a: "a = macKeyTable"
  with assms(1) show ?thesis
    by (auto simp: bind_eq_Some_conv set_sec_def bytes_at_0 table_read_set split: if_splits)
next
  assume a: "a = macDeviceTable"
  with assms(1) show ?thesis
    by (auto simp: bind_eq_Some_conv set_sec_def table_read_set split: if_splits dest!: device_of_value_Some)
next
  assume a: "a = macSecurityLevelTable"
  with assms(1) show ?thesis
    by (auto simp: bind_eq_Some_conv set_sec_def bytes_at_0 table_read_set split: if_splits)
next
  assume a: "a = macDefaultKeySource"
  with assms(1,3) show ?thesis by (auto simp: bind_eq_Some_conv set_sec_def copy_into_Some pib_wf_def)
qed

lemma pib_set_reads_back:
  assumes "pib_set a i v p = Some (MAC_SUCCESS, q)" "reads_back a" "pib_wf p"
  shows "pib_read a i q = Some (MAC_SUCCESS, take (attr_size a q) v)"
proof (cases "a \<in> set hal_attrs")
  case True
  then have "pib_set a i v p = set_hal a v p" by (cases a) (auto simp: hal_attrs_def)
  with assms obtain r where r: "hal_set_attr a v p = Some (MAC_SUCCESS, r)" "q = mac_pib_recalc_macMaxFrameTotalWaitTime r"
    by (auto simp: set_hal_eq split: if_splits)
  moreover have "a \<noteq> macMaxFrameTotalWaitTime" "a \<noteq> macBeaconPayload" using True by (auto simp: hal_attrs_def)
  moreover from this have "attr_size a (mac_pib_recalc_macMaxFrameTotalWaitTime r) = attr_size a r"
    by (auto simp: attr_size_def mac_get_pib_attribute_size_def mac_pib_recalc_macMaxFrameTotalWaitTime_def Let_def)
  ultimately show ?thesis using hal_read_back [OF r(1) assms(2) True] by simp
next
  case False
  show ?thesis
  proof (cases "a \<in> {macBeaconPayload, macRxOnWhenIdle, macKeyTable, macDeviceTable, macSecurityLevelTable, macDefaultKeySource}")
    case True
    from array_read_back [OF assms(1) this assms(3)] show ?thesis .
  next
    case False
    with assms(1,2) \<open>a \<notin> set hal_attrs\<close> show ?thesis
      by (cases a)
        (simp_all add: hal_attrs_def reads_back_def bind_eq_Some_conv set_u8_def set_u16_def set_mst_def set_sec_def
          set_entries_def split: if_splits, auto simp: val_u8_Some val_u16_Some val_u32_Some val_u64_Some)
  qed
qed

subsection \<open>The other attributes\<close>

definition affects :: "pib_attr \<Rightarrow> pib_attr \<Rightarrow> bool" where
  "affects a b \<longleftrightarrow> a = b \<or> a \<in> set hal_attrs \<and> b = macMaxFrameTotalWaitTime \<or>
     (a, b) \<in> {(macMaxBE, macMinBE), (macBeaconPayloadLength, macBeaconPayload), (macKeyTableEntries, macKeyTable),
       (macDeviceTableEntries, macDeviceTable), (macSecurityLevelTableEntries, macSecurityLevelTable)}"

lemma read_other_field [simp]:
  "b \<noteq> macAssociatedPANCoord \<Longrightarrow> pib_read b j (p\<lparr>mac_pib_macAssociatedPANCoord := x0\<rparr>) = pib_read b j p"
  "b \<noteq> macMaxFrameTotalWaitTime \<Longrightarrow> pib_read b j (p\<lparr>mac_pib_macMaxFrameTotalWaitTime := x1\<rparr>) = pib_read b j p"
  "b \<noteq> macResponseWaitTime \<Longrightarrow> pib_read b j (p\<lparr>mac_pib_macResponseWaitTime := x2\<rparr>) = pib_read b j p"
  "b \<noteq> macAutoRequest \<Longrightarrow> pib_read b j (p\<lparr>mac_pib_macAutoRequest := x3\<rparr>) = pib_read b j p"
  "b \<noteq> macBattLifeExtPeriods \<Longrightarrow> pib_read b j (p\<lparr>mac_pib_macBattLifeExtPeriods := x4\<rparr>) = pib_read b j p"
  "b \<noteq> macAssociationPermit \<Longrightarrow> pib_read b j (p\<lparr>mac_pib_macAssociationPermit := x5\<rparr>) = pib_read b j p"
  "b \<noteq> macBeaconPayload \<Longrightarrow> pib_read b j (p\<lparr>mac_beacon_payload := x6\<rparr>) = pib_read b j p"
  "b \<noteq> macBSN \<Longrightarrow> pib_read b j (p\<lparr>mac_pib_macBSN := x7\<rparr>) = pib_read b j p"
  "b \<noteq> macTransactionPersistenceTime \<Longrightarrow> pib_read b j (p\<lparr>mac_pib_macTransactionPersistenceTime := x8\<rparr>) = pib_read b j p"
  "b \<noteq> macCoordExtendedAddress \<Longrightarrow> pib_read b j (p\<lparr>mac_pib_macCoordExtendedAddress := x9\<rparr>) = pib_read b j p"
  "b \<noteq> macCoordShortAddress \<Longrightarrow> pib_read b j (p\<lparr>mac_pib_macCoordShortAddress := x10\<rparr>) = pib_read b j p"
  "b \<noteq> macRxOnWhenIdle \<Longrightarrow> pib_read b j (p\<lparr>mac_pib_macRxOnWhenIdle := x11\<rparr>) = pib_read b j p"
  "b \<noteq> macMinBE \<Longrightarrow> pib_read b j (p\<lparr>hal_pib_MinBE := x12\<rparr>) = pib_read b j p"
  "b \<noteq> macMaxBE \<Longrightarrow> pib_read b j (p\<lparr>hal_pib_MaxBE := x13\<rparr>) = pib_read b j p"
  "b \<noteq> phyTransmitPower \<Longrightarrow> pib_read b j (p\<lparr>hal_pib_TransmitPower := x14\<rparr>) = pib_read b j p"
  "b \<noteq> phyCCAMode \<Longrightarrow> pib_read b j (p\<lparr>hal_pib_CCAMode := x15\<rparr>) = pib_read b j p"
  "b \<noteq> macMaxFrameRetries \<Longrightarrow> pib_read b j (p\<lparr>hal_pib_MaxFrameRetries := x16\<rparr>) = pib_read b j p"
  "b \<noteq> macMaxCSMABackoffs \<Longrightarrow> pib_read b j (p\<lparr>hal_pib_MaxCSMABackoffs := x17\<rparr>) = pib_read b j p"
  "b \<noteq> macBattLifeExt \<Longrightarrow> pib_read b j (p\<lparr>hal_pib_BattLifeExt := x18\<rparr>) = pib_read b j p"
  "b \<noteq> macPromiscuousMode \<Longrightarrow> pib_read b j (p\<lparr>hal_pib_PromiscuousMode := x19\<rparr>) = pib_read b j p"
  "b \<noteq> macSuperframeOrder \<Longrightarrow> pib_read b j (p\<lparr>hal_pib_SuperFrameOrder := x20\<rparr>) = pib_read b j p"
  "b \<noteq> macBeaconTxTime \<Longrightarrow> pib_read b j (p\<lparr>hal_pib_BeaconTxTime := x21\<rparr>) = pib_read b j p"
  "b \<noteq> phyCurrentChannel \<Longrightarrow> pib_read b j (p\<lparr>hal_pib_CurrentChannel := x22\<rparr>) = pib_read b j p"
  by (cases b; simp; fail)+

lemma read_other_mst [simp]:
  "b \<noteq> macDSN \<Longrightarrow> pib_read b j (p\<lparr>mst := (mst p)\<lparr>mac_pib_macDSN := x0\<rparr>\<rparr>) = pib_read b j p"
  "b \<noteq> macSecurityEnabled \<Longrightarrow> pib_read b j (p\<lparr>mst := (mst p)\<lparr>mac_pib_macSecurityEnabled := x1\<rparr>\<rparr>) = pib_read b j p"
  "b \<noteq> macFrameCounter \<Longrightarrow> pib_read b j (p\<lparr>mst := (mst p)\<lparr>FrameCounter := x2\<rparr>\<rparr>) = pib_read b j p"
  "b \<noteq> macPANId \<Longrightarrow> pib_read b j (p\<lparr>mst := (mst p)\<lparr>hal_pib_PANId := x3\<rparr>\<rparr>) = pib_read b j p"
  "b \<noteq> macShortAddress \<Longrightarrow> pib_read b j (p\<lparr>mst := (mst p)\<lparr>hal_pib_ShortAddress := x4\<rparr>\<rparr>) = pib_read b j p"
  "b \<noteq> macIeeeAddress \<Longrightarrow> pib_read b j (p\<lparr>mst := (mst p)\<lparr>hal_pib_IeeeAddress := x5\<rparr>\<rparr>) = pib_read b j p"
  "b \<noteq> macBeaconOrder \<Longrightarrow> pib_read b j (p\<lparr>mst := (mst p)\<lparr>hal_pib_BeaconOrder := x6\<rparr>\<rparr>) = pib_read b j p"
  by (cases b; simp; fail)+

lemma read_other_sec [simp]:
  "b \<noteq> macKeyTable \<Longrightarrow> pib_read b j (p\<lparr>mac_sec_pib := (mac_sec_pib p)\<lparr>KeyTable := x0\<rparr>\<rparr>) = pib_read b j p"
  "b \<noteq> macDeviceTable \<Longrightarrow> pib_read b j (p\<lparr>mac_sec_pib := (mac_sec_pib p)\<lparr>DeviceTable := x1\<rparr>\<rparr>) = pib_read b j p"
  "b \<noteq> macSecurityLevelTable \<Longrightarrow> pib_read b j (p\<lparr>mac_sec_pib := (mac_sec_pib p)\<lparr>SecurityLevelTable := x2\<rparr>\<rparr>) = pib_read b j p"
  "b \<noteq> macDefaultKeySource \<Longrightarrow> pib_read b j (p\<lparr>mac_sec_pib := (mac_sec_pib p)\<lparr>DefaultKeySource := x3\<rparr>\<rparr>) = pib_read b j p"
  by (cases b; simp; fail)+

lemma read_other_count [simp]:
  "b \<notin> {macBeaconPayloadLength, macBeaconPayload} \<Longrightarrow> pib_read b j (p\<lparr>mac_pib_macBeaconPayloadLength := x\<rparr>) = pib_read b j p"
  "b \<notin> {macKeyTableEntries, macKeyTable} \<Longrightarrow>
     pib_read b j (p\<lparr>mac_sec_pib := (mac_sec_pib p)\<lparr>KeyTableEntries := x\<rparr>\<rparr>) = pib_read b j p"
  "b \<notin> {macDeviceTableEntries, macDeviceTable} \<Longrightarrow>
     pib_read b j (p\<lparr>mac_sec_pib := (mac_sec_pib p)\<lparr>DeviceTableEntries := x\<rparr>\<rparr>) = pib_read b j p"
  "b \<notin> {macSecurityLevelTableEntries, macSecurityLevelTable} \<Longrightarrow>
     pib_read b j (p\<lparr>mac_sec_pib := (mac_sec_pib p)\<lparr>SecurityLevelTableEntries := x\<rparr>\<rparr>) = pib_read b j p"
  "pib_read b j (p\<lparr>afe_inits := y\<rparr>) = pib_read b j p"
  "pib_read b j (p\<lparr>hal_pib_PrivatePanCoordinator := x\<rparr>) = pib_read b j p"
  by (cases b; simp; fail)+

lemma set_trx_frame:
  assumes "set_trx_attr a v p = Some (st, q)" "\<not> affects a b"
  shows "pib_read b j q = pib_read b j p"
  using assms
  by (cases a) (auto simp: bind_eq_Some_conv Let_def affects_def simp del: pib_read.simps split: if_splits)

lemma hal_set_frame:
  assumes "hal_set_attr a v p = Some (st, q)" "\<not> affects a b"
  shows "pib_read b j q = pib_read b j p"
proof (cases "a \<in> {macMaxFrameRetries, macMaxCSMABackoffs, macBattLifeExt, macBeaconOrder, macSuperframeOrder, macBeaconTxTime,
    macPromiscuousMode, macAckWaitDuration}")
  case True
  with assms show ?thesis
    by (elim insertE emptyE) (auto simp: bind_eq_Some_conv Let_def affects_def simp del: pib_read.simps)
next
  case False
  then have "hal_set_attr a v p = set_trx_attr a v p" by (cases a) simp_all
  with assms show ?thesis using set_trx_frame by metis
qed

lemma pib_set_hal: "a \<in> set hal_attrs \<Longrightarrow> pib_set a i v p = set_hal a v p"
  by (cases a) (auto simp: hal_attrs_def)

lemma pib_set_frame:
  assumes "pib_set a i v p = Some (st, q)" "\<not> affects a b"
  shows "pib_read b j q = pib_read b j p"
proof (cases "a \<in> set hal_attrs")
  case True
  with assms obtain r where r: "hal_set_attr a v p = Some (st, r)"
    "q = (if st = MAC_SUCCESS then mac_pib_recalc_macMaxFrameTotalWaitTime r else r)"
    by (auto simp: pib_set_hal set_hal_eq)
  have b: "b \<noteq> macMaxFrameTotalWaitTime" using assms(2) True by (auto simp: affects_def)
  with hal_set_frame [OF r(1) assms(2), of j] r(2) show ?thesis by simp
next
  case False
  have ab: "b \<noteq> a" "a = macBeaconPayloadLength \<Longrightarrow> b \<noteq> macBeaconPayload"
    "a = macKeyTableEntries \<Longrightarrow> b \<noteq> macKeyTable" "a = macDeviceTableEntries \<Longrightarrow> b \<noteq> macDeviceTable"
    "a = macSecurityLevelTableEntries \<Longrightarrow> b \<noteq> macSecurityLevelTable"
    using assms(2) by (auto simp: affects_def)
  show ?thesis
    using assms(1) False ab
    by (cases a)
      (simp_all add: hal_attrs_def bind_eq_Some_conv set_u8_def set_u16_def set_mst_def set_sec_def
        set_entries_def del: pib_read.simps split: if_splits,
       ((elim exE conjE; hypsubst; simp del: pib_read.simps; fail) |
        (clarify; simp del: pib_read.simps split: if_splits; fail) |
        (elim exE conjE; elim impCE disjE; clarify; simp del: pib_read.simps; fail))+)
qed


lemma pib_set_refused:
  assumes "pib_set a i v p = Some (st, q)" "st \<noteq> MAC_SUCCESS"
  shows "q = p"
proof (cases "a \<in> set hal_attrs")
  case True
  with assms have "hal_set_attr a v p = Some (st, q)" by (auto simp: pib_set_hal set_hal_eq)
  with assms(2) show ?thesis
    by (cases a) (auto simp: bind_eq_Some_conv Let_def)
next
  case False
  with assms show ?thesis
    by (cases a)
      (simp_all add: hal_attrs_def bind_eq_Some_conv set_u8_def set_u16_def set_entries_def split: if_splits)
qed

end
