(* ===== verification/MacPibRegs.thy ===== *)
theory MacPibRegs
  imports MacPibRw
begin

unbundle bit_operations_syntax

text \<open>
  The registers of the radio: a bit field reads back what was written to it, and the attributes
  that the radio needs agree with its registers.
\<close>

subsection \<open>Bit fields\<close>

lemma field_read_write:
  "hal_common_bit_field_reg_read (r, m, k) (hal_common_bit_field_reg_write (r, m, k) x p) = x AND drop_bit k m"
  unfolding hal_common_bit_field_reg_read_def hal_common_bit_field_reg_write_def hal_common_reg_32_write_def Let_def
  by (rule bit_word_eqI) (auto simp: bit_and_iff bit_or_iff bit_not_iff bit_drop_bit_eq bit_push_bit_iff dest: bit_imp_le_length)

lemma disjoint_bits: "(m :: u32) AND m' = 0 \<Longrightarrow> bit m n \<Longrightarrow> \<not> bit m' n"
  by (metis bit_and_iff bit_0_eq bot_apply bot_bool_def)

lemma field_read_write_other:
  assumes "r \<noteq> r' \<or> m AND m' = 0"
  shows "hal_common_bit_field_reg_read (r, m, k) (hal_common_bit_field_reg_write (r', m', k') x p) =
    hal_common_bit_field_reg_read (r, m, k) p"
proof -
  have "m AND m' = 0 \<Longrightarrow> (push_bit k' x AND m' OR regs p r AND NOT m') AND m = regs p r AND m"
    by (rule bit_word_eqI) (auto simp: bit_and_iff bit_or_iff bit_not_iff dest: disjoint_bits)
  then show ?thesis using assms
    by (auto simp: hal_common_bit_field_reg_read_def hal_common_bit_field_reg_write_def hal_common_reg_32_write_def Let_def
        simp del: drop_bit_and)
qed

lemma field_read_access:
  assumes "r \<noteq> r' \<or> m AND d = 0"
  shows "hal_common_bit_field_reg_read (r, m, k) (hal_common_reg_bit_set r' d p) = hal_common_bit_field_reg_read (r, m, k) p"
    "hal_common_bit_field_reg_read (r, m, k) (hal_common_reg_bit_clear r' d p) = hal_common_bit_field_reg_read (r, m, k) p"
proof -
  have "m AND d = 0 \<Longrightarrow> (regs p r OR d) AND m = regs p r AND m" "m AND d = 0 \<Longrightarrow> (regs p r AND NOT d) AND m = regs p r AND m"
    by (rule bit_word_eqI, auto simp: bit_and_iff bit_or_iff bit_not_iff dest: disjoint_bits)+
  then show "hal_common_bit_field_reg_read (r, m, k) (hal_common_reg_bit_set r' d p) = hal_common_bit_field_reg_read (r, m, k) p"
    "hal_common_bit_field_reg_read (r, m, k) (hal_common_reg_bit_clear r' d p) = hal_common_bit_field_reg_read (r, m, k) p"
    using assms by (auto simp: hal_common_bit_field_reg_read_def hal_common_reg_bit_set_def hal_common_reg_bit_clear_def
        hal_common_reg_32_write_def simp del: drop_bit_and)
qed

lemma field_read_write_reg:
  "r \<noteq> r' \<Longrightarrow> hal_common_bit_field_reg_read (r, m, k) (hal_common_reg_32_write r' x p) = hal_common_bit_field_reg_read (r, m, k) p"
  by (simp add: hal_common_bit_field_reg_read_def hal_common_reg_32_write_def)

lemmas zig_fields = ZIG_COO_EN_def ZIG_PROMISCUOUS_EN_def ZIG_NON_BEACON_NWK_def ZIG_SIFS_PERIOD_def ZIG_ACK_TX_TIME_def
  ZIG_LIFS_PERIOD_def ZIG_ACK_TIMEOUT_def ZIG_PHY_CCA_MODE_def ZIG_PRE_BEACON_INTERVAL_INT_def ZIG_MIN_BE_def
  ZIG_MAX_BE_def ZIG_NO_CCA_MAX_RETRY_def ZIG_NO_ACK_MAX_RETRY_def ZIG_MAC_PAN_ID_def ZIG_MAC_ID_SHORT_def
  ZIG_MAC_ID_IEEE_EXT_ADDR_LO_def ZIG_MAC_ID_IEEE_EXT_ADDR_HI_def

lemmas ctrl_bits = ZIG_CTRL_TX_EN_def ZIG_CTRL_ACK_EN_def ZIG_CTRL_RX_EN_def ZIG_CTRL_NON_BEACON_def
  ZIG_CTRL_RX_DEFER_def ZIG_CTRL_RX_DEFER_EN_def

text \<open>The value of a mirrored variable, as wide as its field.\<close>

definition mirrored :: "(field \<times> (pib_st \<Rightarrow> u32)) list" where
  "mirrored =
    [(ZIG_MAC_PAN_ID, \<lambda>p. ucast (hal_pib_PANId (mst p))), (ZIG_MAC_ID_SHORT, \<lambda>p. ucast (hal_pib_ShortAddress (mst p))),
     (ZIG_MAC_ID_IEEE_EXT_ADDR_LO, \<lambda>p. lo_u32 (hal_pib_IeeeAddress (mst p))),
     (ZIG_MAC_ID_IEEE_EXT_ADDR_HI, \<lambda>p. hi_u32 (hal_pib_IeeeAddress (mst p))),
     (ZIG_PHY_CCA_MODE, \<lambda>p. ucast (hal_pib_CCAMode p) AND 0x03), (ZIG_MAX_BE, \<lambda>p. ucast (hal_pib_MaxBE p) AND 0x0F),
     (ZIG_NO_ACK_MAX_RETRY, \<lambda>p. ucast (hal_pib_MaxFrameRetries p) AND 0x0F),
     (ZIG_COO_EN, \<lambda>p. ucast (hal_pib_PrivatePanCoordinator p) AND 1)]"

definition mirror :: "pib_st \<Rightarrow> bool" where
  "mirror p \<longleftrightarrow> (\<forall>(f, val) \<in> set mirrored. hal_common_bit_field_reg_read f p = val p)"

lemma ucast_mask16: "(ucast (x :: u16) :: u32) AND 0xFFFF = ucast x"
proof -
  have "(ucast x :: u32) AND 0xFFFF = take_bit 16 (ucast x)" by (simp add: take_bit_eq_mask mask_eq_exp_minus_1)
  then show ?thesis using bit_imp_le_length [of x]
    by (auto intro!: bit_word_eqI simp: bit_take_bit_iff bit_unsigned_iff)
qed

lemma regs_vars:
  assumes "same_but_regs p q"
  shows "mst q = mst p" "hal_pib_MinBE q = hal_pib_MinBE p" "hal_pib_MaxBE q = hal_pib_MaxBE p"
    "hal_pib_CCAMode q = hal_pib_CCAMode p" "hal_pib_MaxFrameRetries q = hal_pib_MaxFrameRetries p"
    "hal_pib_PrivatePanCoordinator q = hal_pib_PrivatePanCoordinator p"
    "mac_beacon_payload q = mac_beacon_payload p" "mac_pib_macBeaconPayloadLength q = mac_pib_macBeaconPayloadLength p"
    "mac_sec_pib q = mac_sec_pib p" "hal_pib_BattLifeExt q = hal_pib_BattLifeExt p"
    "hal_pib_MaxCSMABackoffs q = hal_pib_MaxCSMABackoffs p" "hal_pib_SuperFrameOrder q = hal_pib_SuperFrameOrder p"
  using assms by (auto simp: same_but_regs_def)

lemmas reg_ops_same = same_but_regs_write [OF same_but_regs_refl]
  same_but_regs_access(1) [OF same_but_regs_refl] same_but_regs_access(2) [OF same_but_regs_refl]
  same_but_regs_access(3) [OF same_but_regs_refl] same_but_regs_hw(1) [OF same_but_regs_refl]
  same_but_regs_hw(2) [OF same_but_regs_refl] same_but_regs_hw(3) [OF same_but_regs_refl]

lemmas reg_ops_vars [simp] = reg_ops_same [THEN regs_vars(1)] reg_ops_same [THEN regs_vars(2)]
  reg_ops_same [THEN regs_vars(3)] reg_ops_same [THEN regs_vars(4)] reg_ops_same [THEN regs_vars(5)]
  reg_ops_same [THEN regs_vars(6)] reg_ops_same [THEN regs_vars(7)] reg_ops_same [THEN regs_vars(8)]
  reg_ops_same [THEN regs_vars(9)] reg_ops_same [THEN regs_vars(10)] reg_ops_same [THEN regs_vars(11)]
  reg_ops_same [THEN regs_vars(12)]

lemma mirror_iff:
  "mirror p \<longleftrightarrow>
     hal_common_bit_field_reg_read ZIG_MAC_PAN_ID p = ucast (hal_pib_PANId (mst p)) \<and>
     hal_common_bit_field_reg_read ZIG_MAC_ID_SHORT p = ucast (hal_pib_ShortAddress (mst p)) \<and>
     hal_common_bit_field_reg_read ZIG_MAC_ID_IEEE_EXT_ADDR_LO p = lo_u32 (hal_pib_IeeeAddress (mst p)) \<and>
     hal_common_bit_field_reg_read ZIG_MAC_ID_IEEE_EXT_ADDR_HI p = hi_u32 (hal_pib_IeeeAddress (mst p)) \<and>
     hal_common_bit_field_reg_read ZIG_PHY_CCA_MODE p = ucast (hal_pib_CCAMode p) AND 0x03 \<and>
     hal_common_bit_field_reg_read ZIG_MAX_BE p = ucast (hal_pib_MaxBE p) AND 0x0F \<and>
     hal_common_bit_field_reg_read ZIG_NO_ACK_MAX_RETRY p = ucast (hal_pib_MaxFrameRetries p) AND 0x0F \<and>
     hal_common_bit_field_reg_read ZIG_COO_EN p = ucast (hal_pib_PrivatePanCoordinator p) AND 1"
  by (simp add: mirror_def mirrored_def)

text \<open>Reading a field sees the registers only.\<close>

lemma field_read_regs: "regs q = regs p \<Longrightarrow> hal_common_bit_field_reg_read f q = hal_common_bit_field_reg_read f p"
  by (simp add: hal_common_bit_field_reg_read_def)

lemma field_read_vars [simp]:
  "hal_common_bit_field_reg_read f (p\<lparr>mst := s\<rparr>) = hal_common_bit_field_reg_read f p"
  "hal_common_bit_field_reg_read f (p\<lparr>hal_pib_MinBE := x\<rparr>) = hal_common_bit_field_reg_read f p"
  "hal_common_bit_field_reg_read f (p\<lparr>hal_pib_MaxBE := x\<rparr>) = hal_common_bit_field_reg_read f p"
  "hal_common_bit_field_reg_read f (p\<lparr>hal_pib_CCAMode := x\<rparr>) = hal_common_bit_field_reg_read f p"
  "hal_common_bit_field_reg_read f (p\<lparr>hal_pib_MaxFrameRetries := x\<rparr>) = hal_common_bit_field_reg_read f p"
  "hal_common_bit_field_reg_read f (p\<lparr>hal_pib_PrivatePanCoordinator := x\<rparr>) = hal_common_bit_field_reg_read f p"
  "hal_common_bit_field_reg_read f (p\<lparr>hal_pib_PromiscuousMode := x\<rparr>) = hal_common_bit_field_reg_read f p"
  "hal_common_bit_field_reg_read f (p\<lparr>hal_pib_BattLifeExt := x\<rparr>) = hal_common_bit_field_reg_read f p"
  "hal_common_bit_field_reg_read f (p\<lparr>hal_pib_MaxCSMABackoffs := x\<rparr>) = hal_common_bit_field_reg_read f p"
  "hal_common_bit_field_reg_read f (p\<lparr>hal_pib_SuperFrameOrder := x\<rparr>) = hal_common_bit_field_reg_read f p"
  "hal_common_bit_field_reg_read f (p\<lparr>hal_pib_TransmitPower := x\<rparr>) = hal_common_bit_field_reg_read f p"
  "hal_common_bit_field_reg_read f (p\<lparr>hal_pib_BeaconTxTime := y\<rparr>) = hal_common_bit_field_reg_read f p"
  "hal_common_bit_field_reg_read f (p\<lparr>hal_pib_CurrentChannel := x\<rparr>) = hal_common_bit_field_reg_read f p"
  "hal_common_bit_field_reg_read f (p\<lparr>mac_pib_macRxOnWhenIdle := x\<rparr>) = hal_common_bit_field_reg_read f p"
  "hal_common_bit_field_reg_read f (p\<lparr>afe_inits := z\<rparr>) = hal_common_bit_field_reg_read f p"
  by (simp_all add: hal_common_bit_field_reg_read_def)

lemma mask32: "(x :: u32) AND 0xFFFFFFFF = x"
proof -
  have "(0xFFFFFFFF :: u32) = - 1" by simp
  then show ?thesis by (simp only: and.right_neutral)
qed

lemmas field_rules = mask32 field_read_write field_read_write_other field_read_access field_read_write_reg ucast_mask16

lemma set_trx_mirror:
  assumes "set_trx_attr a v p = Some (st, q)" "mirror p"
  shows "mirror q"
  using assms unfolding mirror_iff
  by (cases a) (auto simp: bind_eq_Some_conv Let_def zig_fields field_rules split: if_splits)

lemma restart_timing_fields:
  "r \<noteq> ZigTxBlockEn \<Longrightarrow> hal_common_bit_field_reg_read (r, m, k) (restart_timing p) = hal_common_bit_field_reg_read (r, m, k) p"
  by (simp add: restart_timing_def field_read_access)

lemma interrupt_control_fields:
  "r \<noteq> CPU_INTENABLE_REG \<Longrightarrow>
     hal_common_bit_field_reg_read (r, m, k) (mac_hal_zigbee_interrupt_control e t p) = hal_common_bit_field_reg_read (r, m, k) p"
  by (simp add: mac_hal_zigbee_interrupt_control_def field_read_access)

lemma order_mirror:
  assumes "mirror p"
  shows "mirror (set_beacon_order x p)" "mirror (set_superframe_order x p)"
proof -
  show "mirror (set_beacon_order x p)"
    using assms unfolding mirror_iff set_beacon_order_def Let_def
    by (simp add: zig_fields field_rules restart_timing_fields interrupt_control_fields ctrl_bits)
  show "mirror (set_superframe_order x p)"
    using assms unfolding mirror_iff set_superframe_order_def Let_def
    by (simp add: zig_fields field_rules restart_timing_fields)
qed

lemma hal_set_mirror:
  assumes "hal_set_attr a v p = Some (st, q)" "mirror p"
  shows "mirror q"
proof (cases "a \<in> {macMaxFrameRetries, macMaxCSMABackoffs, macBattLifeExt, macBeaconOrder, macSuperframeOrder, macBeaconTxTime,
    macPromiscuousMode, macAckWaitDuration}")
  case True
  have o: "mirror (set_beacon_order x p)" "mirror (set_superframe_order x p)" for x using order_mirror [OF assms(2)] by simp_all
  show ?thesis using True assms o
    by (elim insertE emptyE)
      (auto simp: bind_eq_Some_conv Let_def mirror_iff zig_fields field_rules)
next
  case False
  then have "hal_set_attr a v p = set_trx_attr a v p" by (cases a) simp_all
  with assms show ?thesis using set_trx_mirror by metis
qed

end
