(* ===== verification/MacIdent.thy ===== *)
theory MacIdent
  imports MacData
begin

unbundle bit_operations_syntax

text \<open>
  The data service works on the identity of the device (PAN identifier, addresses, beacon order)
  and changes none of it.
\<close>

lemma append_more: "qmm_queue_append q b m = Some (ok, q', m') \<Longrightarrow> mac_mem.more m' = mac_mem.more m"
  by (auto simp: qmm_queue_append_def Let_def bind_eq_Some_conv split: if_splits)

lemma compare_more: "qmm_compare s b m = Some (Some (r, m')) \<Longrightarrow> mac_mem.more m' = mac_mem.more m"
  unfolding qmm_compare_def Let_def mac_beacon_add_pending_short_address_cb_def
    mac_beacon_add_pending_extended_address_cb_def beacon_add_pending_def decrement_persistence_time_def put_body_def
  by (auto simp: bind_eq_Some_conv split: if_splits)

lemma search_more: "qmm_search s cur prev m = Some (c, p, g, m') \<Longrightarrow> mac_mem.more m' = mac_mem.more m"
proof -
  assume a: "qmm_search s cur prev m = Some (c, p, g, m')"
  have "case (c, p, g, m') of (_, _, _, m') \<Rightarrow> mac_mem.more m' = mac_mem.more m"
  proof (rule qmm_search.raw_induct [where P = "\<lambda>s cur prev m r. case r of (c, p, g, m') \<Rightarrow> mac_mem.more m' = mac_mem.more m", OF _ a],
      goal_cases)
    case (1 f s cur prev m r)
    show ?case
    proof (cases cur)
      case None
      with 1(2) show ?thesis by auto
    next
      case (Some b)
      with 1(2) obtain rc where rc: "qmm_compare s b m = Some rc" by (auto simp: bind_eq_Some_conv)
      show ?thesis
      proof (cases rc)
        case None
        with 1(2) Some rc show ?thesis by auto
      next
        case (Some x)
        obtain ok n where x: "x = (ok, n)" by (cases x)
        have n: "mac_mem.more n = mac_mem.more m" using rc unfolding Some x by (rule compare_more)
        show ?thesis
        proof (cases ok)
          case True
          with 1(2) \<open>cur = _\<close> rc Some x n show ?thesis by auto
        next
          case False
          with 1(2) \<open>cur = _\<close> rc Some x have "f s (bnext n b) (Some b) n = Some r" by simp
          from 1(1) [OF this] n show ?thesis by auto
        qed
      qed
    qed
  qed
  then show ?thesis by simp
qed

lemma unlink_more: "qmm_unlink c p q m = Some (q', m') \<Longrightarrow> mac_mem.more m' = mac_mem.more m"
  by (auto simp: qmm_unlink_def Let_def bind_eq_Some_conv split: if_splits)

lemma queue_more:
  assumes "queue_read_or_remove md s q m = Some (b, q', m')"
  shows "mac_mem.more m' = mac_mem.more m"
proof (cases "qsize q \<noteq> 0")
  case False
  with assms show ?thesis by (auto simp: queue_read_or_remove_def)
next
  case True
  with assms obtain cur prev g n q2 n2 where
    c: "(case s of Some s \<Rightarrow> qmm_search s (qhead q) (qhead q) (m\<lparr>irqs := False\<rparr>)
          | None \<Rightarrow> Some (qhead q, qhead q, False, m\<lparr>irqs := False\<rparr>)) = Some (cur, prev, g, n)"
    and u: "(case cur of Some b \<Rightarrow> if \<not> g \<and> md = REMOVE_MODE then qmm_unlink b prev q n else Some (q, n)
          | None \<Rightarrow> Some (q, n)) = Some (q2, n2)"
    and m': "m' = n2\<lparr>irqs := irqs m\<rparr>"
    unfolding queue_read_or_remove_def Let_def by (simp add: bind_eq_Some_conv) blast
  have "mac_mem.more n = mac_mem.more m"
    using c by (cases s) (auto dest: search_more)
  moreover have "mac_mem.more n2 = mac_mem.more n"
    using u by (cases cur) (auto dest: unlink_more split: if_splits)
  ultimately show ?thesis by (simp add: m')
qed

lemma mem_more: "mac_mem.more m' = mac_mem.more m \<Longrightarrow> bmm_mem.more m' = bmm_mem.more m" for m m' :: "'a bmm_mem_scheme"
  by (cases m; cases m') simp

lemma free_more: "bmm_buffer_free b m = Some m' \<Longrightarrow> bmm_mem.more m' = bmm_mem.more m"
  by (auto simp: bmm_buffer_free_def Let_def bind_eq_Some_conv split: option.splits dest!: append_more mem_more)

lemma alloc_more: "bmm_buffer_alloc n m = Some (b, m') \<Longrightarrow> bmm_mem.more m' = bmm_mem.more m"
  by (auto simp: bmm_buffer_alloc_def qmm_queue_remove_def Let_def bind_eq_Some_conv split: if_splits dest!: queue_more mem_more)

lemma rounds_more: "qmm_flush_rounds n q m = Some (q', m') \<Longrightarrow> bmm_mem.more m' = bmm_mem.more m"
  by (induction n arbitrary: q m)
    (auto simp: bind_eq_Some_conv qmm_queue_remove_def split: if_splits option.splits dest!: queue_more mem_more free_more)

subsection \<open>The identity\<close>

definition ident :: "mac_st \<Rightarrow> u16 \<times> u16 \<times> u64 \<times> u8" where
  "ident s = (hal_pib_PANId s, hal_pib_ShortAddress s, hal_pib_IeeeAddress s, hal_pib_BeaconOrder s)"

lemma ident_more: "bmm_mem.more s' = bmm_mem.more s \<Longrightarrow> ident s' = ident s"
  by (cases s; cases s') (simp add: ident_def)

lemma ident_append: "qmm_queue_append q b s = Some (ok, q', s') \<Longrightarrow> ident s' = ident s"
  by (auto dest!: append_more mem_more ident_more)
lemma ident_remove: "qmm_queue_remove sr q s = Some (b, q', s') \<Longrightarrow> ident s' = ident s"
  by (auto simp: qmm_queue_remove_def dest!: queue_more mem_more ident_more)
lemma ident_read: "qmm_queue_read sr q s = Some (b, q', s') \<Longrightarrow> ident s' = ident s"
  by (auto simp: qmm_queue_read_def dest!: queue_more mem_more ident_more)
lemma ident_free: "bmm_buffer_free b s = Some s' \<Longrightarrow> ident s' = ident s"
  by (auto dest!: free_more ident_more)
lemma ident_alloc: "bmm_buffer_alloc n s = Some (b, s') \<Longrightarrow> ident s' = ident s"
  by (auto dest!: alloc_more ident_more)
lemma ident_flush: "qmm_queue_flush q s = Some (q', s') \<Longrightarrow> ident s' = ident s"
  by (auto simp: qmm_queue_flush_def dest!: rounds_more ident_more)

lemmas ident_queues = ident_append ident_remove ident_read ident_free ident_alloc ident_flush

lemma ident_update [simp]:
  "ident (s\<lparr>nhle_mac_q := q\<rparr>) = ident s" "ident (s\<lparr>indirect_data_q := q\<rparr>) = ident s" "ident (s\<lparr>broadcast_q := q\<rparr>) = ident s"
  "ident (s\<lparr>mac_busy := x\<rparr>) = ident s" "ident (s\<lparr>mac_frame_p := p\<rparr>) = ident s" "ident (s\<lparr>mac_pib_macDSN := d\<rparr>) = ident s"
  "ident (s\<lparr>FrameCounter := c\<rparr>) = ident s" "ident (s\<lparr>mac_stats_g := g\<rparr>) = ident s" "ident (s\<lparr>tx_counts := t\<rparr>) = ident s"
  "ident (s\<lparr>mac_stm := m\<rparr>) = ident s" "ident (s\<lparr>mac_poll_state := ps\<rparr>) = ident s"
  "ident (mact a s) = ident s" "ident (put_body b f s) = ident s" "ident (mac_hal_frame_pending y s) = ident s"
  "ident (s\<lparr>mac_pib_macSecurityEnabled := d\<rparr>) = ident s" "ident (s\<lparr>pending_address_count := d\<rparr>) = ident s"
  "ident (s\<lparr>beacon_out := l\<rparr>) = ident s" "ident (s\<lparr>irqs := x\<rparr>) = ident s"
  by (simp_all add: ident_def mact_def put_body_def mac_hal_frame_pending_def)

text \<open>The handlers of the other services, when they leave the identity alone.\<close>

definition env_keeps :: "macEnv \<Rightarrow> bool" where
  "env_keeps env \<longleftrightarrow>
     (\<forall>st s s'. scan_send_complete env st s = Some s' \<longrightarrow> ident s' = ident s) \<and>
     (\<forall>t st b s s'. other_done env t st b s = Some s' \<longrightarrow> ident s' = ident s) \<and>
     (\<forall>t b s s'. other_expired env t b s = Some s' \<longrightarrow> ident s' = ident s) \<and>
     (\<forall>b s s'. other_request env b s = Some s' \<longrightarrow> ident s' = ident s) \<and>
     (\<forall>s s'. poll_conf env s = Some s' \<longrightarrow> ident s' = ident s)"

lemma ident_tx: "mac_hal_tx_frame env b tm e s = Some (st, s') \<Longrightarrow> ident s' = ident s"
  by (auto simp: mac_hal_tx_frame_def Let_def bind_eq_Some_conv split: if_splits)

lemma ident_conf: "mcps_data_conf b s = Some s' \<Longrightarrow> ident s' = ident s"
  by (auto simp: mcps_data_conf_def Let_def split: body_t.splits option.splits dest!: ident_free)

lemma ident_gen_conf: "mac_gen_mcps_data_conf b st h t s = Some s' \<Longrightarrow> ident s' = ident s"
  by (auto simp: mac_gen_mcps_data_conf_def Let_def dest!: ident_conf)

lemma ident_persistence:
  assumes "mac_start_persistence_timer s = Some s'"
  shows "ident s' = ident s"
proof -
  define t where "t = (if qsize (indirect_data_q s) > 0 then mac_hal_frame_pending True s else s)"
  have t: "ident t = ident s" by (simp add: t_def)
  from assms obtain m st where
    "STM_StartTimer (mac_stm t) (indirect_data_persistence_timer t) (persistence_interval (hal_pib_BeaconOrder s)) = Some (m, st)"
    and r: "(if st \<noteq> STATUS_SUCCESS
      then Option.bind (qmm_queue_flush (indirect_data_q (t\<lparr>mac_stm := m\<rparr>)) (t\<lparr>mac_stm := m\<rparr>)) (\<lambda>(q, s). Some (s\<lparr>indirect_data_q := q\<rparr>))
      else Some (t\<lparr>mac_stm := m\<rparr>)) = Some s'"
    unfolding mac_start_persistence_timer_def Let_def t_def [symmetric] by (auto simp: bind_eq_Some_conv)
  show ?thesis
  proof (cases "st = STATUS_SUCCESS")
    case True
    with r t show ?thesis by auto
  next
    case False
    with r obtain q u where "qmm_queue_flush (indirect_data_q (t\<lparr>mac_stm := m\<rparr>)) (t\<lparr>mac_stm := m\<rparr>) = Some (q, u)"
      "s' = u\<lparr>indirect_data_q := q\<rparr>" by (auto simp: bind_eq_Some_conv)
    with ident_flush [OF this(1)] t show ?thesis by simp
  qed
qed

lemma ident_nhle: "mac_api_to_nhle_mac_queue b s = Some (ok, s') \<Longrightarrow> ident s' = ident s"
  by (auto simp: mac_api_to_nhle_mac_queue_def Let_def bind_eq_Some_conv split: if_splits dest!: ident_queues)

lemma ident_data_req: "mac_api_mcps_data_req sm dm pan a m h o' sec s = Some (ok, s') \<Longrightarrow> ident s' = ident s"
  unfolding mac_api_mcps_data_req_def Let_def
  by (auto simp: bind_eq_Some_conv simp del: bind_split split: if_splits option.splits dest!: ident_alloc ident_nhle)

lemma ident_purge_req: "mac_api_mcps_purge_req h s = Some (ok, s') \<Longrightarrow> ident s' = ident s"
  by (auto simp: mac_api_mcps_purge_req_def bind_eq_Some_conv split: option.splits dest!: ident_alloc ident_nhle)

lemma ident_build: "build_data_frame env r pl s = Some (st, m, s') \<Longrightarrow> ident s' = ident s"
  unfolding build_data_frame_def Let_def by (auto simp: bind_eq_Some_conv split: if_splits)

lemma ident_null: "mac_data_build_null_frame s = Some (b, s') \<Longrightarrow> ident s' = ident s"
  by (auto simp: mac_data_build_null_frame_def Let_def bind_eq_Some_conv split: option.splits dest!: ident_alloc)

lemmas ident_ops = ident_queues ident_tx ident_gen_conf ident_persistence ident_build ident_null

lemma ident_indirect: "data_request_indirect b f r s = Some s' \<Longrightarrow> ident s' = ident s"
  by (auto simp: data_request_indirect_def Let_def bind_eq_Some_conv split: if_splits dest!: ident_ops)

lemma ident_direct: "data_request_direct env b f r s = Some s' \<Longrightarrow> ident s' = ident s"
  by (auto simp: data_request_direct_def Let_def bind_eq_Some_conv split: if_splits dest!: ident_ops)

lemma ident_purge: "mac_buffer_purge h s = Some (x, s') \<Longrightarrow> ident s' = ident s"
  by (auto simp: mac_buffer_purge_def Let_def bind_eq_Some_conv split: option.splits dest!: ident_ops)

lemma ident_purge_request: "mcps_purge_request b s = Some s' \<Longrightarrow> ident s' = ident s"
  by (auto simp: mcps_purge_request_def mcps_purge_conf_def Let_def bind_eq_Some_conv split: body_t.splits dest!: ident_purge ident_free)

lemma ident_null_tx: "mac_data_tx_null_frame env s = Some s' \<Longrightarrow> ident s' = ident s"
  by (auto simp: mac_data_tx_null_frame_def bind_eq_Some_conv split: option.splits if_splits dest!: ident_ops)

lemma ident_send_indirect: "send_indirect env sr b s = Some s' \<Longrightarrow> ident s' = ident s"
  by (auto simp: send_indirect_def Let_def bind_eq_Some_conv split: if_splits dest!: ident_ops)

lemma ident_bc: "mac_tx_pending_bc_data env s = Some s' \<Longrightarrow> ident s' = ident s"
  by (auto simp: mac_tx_pending_bc_data_def Let_def bind_eq_Some_conv split: option.splits if_splits dest!: ident_ops)

lemma ident_add_pending: "mac_buffer_add_pending s = Some (n, s') \<Longrightarrow> ident s' = ident s"
  by (auto simp: mac_buffer_add_pending_def Let_def bind_eq_Some_conv dest!: ident_ops)

lemma ident_remove_frame: "remove_frame_from_indirect_q f s = Some s' \<Longrightarrow> ident s' = ident s"
  by (auto simp: remove_frame_from_indirect_q_def Let_def bind_eq_Some_conv dest!: ident_ops)

lemma ident_tx_done: "mcps_tx_done st p f s = Some s' \<Longrightarrow> ident s' = ident s"
  by (auto simp: mcps_tx_done_def Let_def bind_eq_Some_conv split: if_splits dest!: ident_remove_frame ident_gen_conf)

lemma ident_answer:
  assumes "mac_data_process_data_request env b s = Some s'"
  shows "ident s' = ident s"
  using assms unfolding mac_data_process_data_request_def
  by (auto simp: bind_eq_Some_conv simp del: bind_split split: option.splits if_splits dest!: ident_ops ident_null_tx ident_send_indirect)

lemma ident_broadcast_append:
  assumes "(if c then do { (ok, q, s) \<leftarrow> qmm_queue_append (broadcast_q s) b s; Some (ok, s\<lparr>broadcast_q := q\<rparr>) }
     else Some (True, s)) = Some (ok, s')"
  shows "ident s' = ident s"
  using assms by (auto simp: bind_eq_Some_conv split: if_splits dest!: ident_append)

lemma guarded:
  assumes "(if c1 then g x1 else if c2 then g x2 else if c3 then g x3 else if c4 then g x4 else z) = Some y"
    "c1 \<or> c2 \<or> c3 \<or> c4"
  shows "\<exists>x. g x = Some y"
  using assms by (auto split: if_splits)

lemma unguarded:
  assumes "(if c1 then y1 else if c2 then y2 else if c3 then y3 else if c4 then y4 else z) = Some y"
    "\<not> (c1 \<or> c2 \<or> c3 \<or> c4)"
  shows "z = Some y"
  using assms by auto

lemma ident_request:
  assumes "mcps_data_request env b s = Some s'"
  shows "ident s' = ident s"
proof (cases "body s b")
  case (DataReq r pl)
  show ?thesis
  proof (cases "(TxOptions r AND TX_INDIRECT = 0 \<and> (mac_poll_state s \<noteq> MAC_POLL_IDLE \<or> mac_scan_state s \<noteq> MAC_SCAN_IDLE)) \<or>
      (TxOptions r AND TX_ACKNOWLEDGED \<noteq> 0 \<and> to_broadcast r) \<or> (SrcAddrMode r = FCF_NO_ADDR \<and> DstAddrMode r = FCF_NO_ADDR) \<or>
      (SrcAddrMode r = FCF_RESERVED_ADDR \<or> DstAddrMode r = FCF_RESERVED_ADDR)")
    case True
    from assms [unfolded mcps_data_request_def DataReq body_t.case] True
    have "\<exists>st. mac_gen_mcps_data_conf b st (reqHandle r) 0 s = Some s'" by (rule guarded)
    then show ?thesis by (auto dest: ident_gen_conf)
  next
    case False
    note e = unguarded [OF assms [unfolded mcps_data_request_def DataReq body_t.case] False]
    then obtain st m t where t: "build_data_frame env r pl s = Some (st, m, t)"
      by (auto simp: bind_eq_Some_conv)
    note it = ident_build [OF t]
    show ?thesis
    proof (cases "st = MAC_SUCCESS")
      case n: False
      with e t have "mac_gen_mcps_data_conf b st (reqHandle r) 0 t = Some s'" by simp
      then show ?thesis using it by (auto dest: ident_gen_conf)
    next
      case True
      with e t obtain fr ok u f v where
        ok: "(if is_coordinator v \<and> hal_pib_BeaconOrder v < NON_BEACON_NWK \<and> to_broadcast r
          then do { (ok, q, s) \<leftarrow> qmm_queue_append (broadcast_q v) b v; Some (ok, s\<lparr>broadcast_q := q\<rparr>) }
          else Some (True, v)) = Some (ok, u)" and v: "v = put_body b (Frame f) t"
        and r: "(if \<not> ok then mac_gen_mcps_data_conf b MAC_CHANNEL_ACCESS_FAILURE (reqHandle r) 0 u
              else if TxOptions r AND TX_INDIRECT \<noteq> 0 \<and> is_coordinator u
              then data_request_indirect b f r u
              else data_request_direct env b f r u) = Some s'"
        unfolding Let_def by (simp del: bind_split add: bind_eq_Some_conv) blast
      from ident_broadcast_append [OF ok] v it have "ident u = ident s" by simp
      with r show ?thesis by (auto split: if_splits dest: ident_gen_conf ident_indirect ident_direct)
    qed
  qed
qed (use assms in \<open>simp_all add: mcps_data_request_def\<close>)

lemma ident_dispatch:
  assumes "env_keeps env" "mac_event_dispatcher env b s = Some s'"
  shows "ident s' = ident s"
  using assms by (cases "body s b") (auto simp: mac_event_dispatcher_def env_keeps_def dest: ident_request ident_purge_request)

lemma ident_intf_done:
  assumes "env_keeps env" "mac_hal_intf_tx_frame_done env st fp s = Some s'"
  shows "ident s' = ident s"
proof -
  have e: "scan_send_complete env st u = Some u' \<Longrightarrow> ident u' = ident u" "other_done env t st b u = Some u' \<Longrightarrow> ident u' = ident u"
    for u u' t b using assms(1) by (auto simp: env_keeps_def)
  show ?thesis
  proof (cases "st = HAL_BC_TX_DONE")
    case True
    with assms(2) show ?thesis by (auto simp: mac_hal_intf_tx_frame_done_def Let_def bind_eq_Some_conv)
  next
    case False
    with assms(2) obtain p f n where pf: "fp = Some p" "get_frame s p = Some f" "arr_get (mpdu_p f) 0 = Some n"
      by (auto simp: mac_hal_intf_tx_frame_done_def Let_def bind_eq_Some_conv)
    define t where "t = (if st \<noteq> MAC_CHANNEL_ACCESS_FAILURE
                 then s\<lparr>mac_stats_g := (mac_stats_g s)\<lparr>tx_pkts_count := tx_pkts_count (mac_stats_g s) + 1,
                        tx_bytes_count := tx_bytes_count (mac_stats_g s) + ucast n + 2\<rparr>\<rparr>
                 else s)"
    have t: "ident t = ident s" by (simp add: t_def)
    have "ident s' = ident t"
    proof (cases "mac_scan_state t = MAC_SCAN_ACTIVE \<and> msg_type f = BEACONREQUEST \<or>
           mac_scan_state t = MAC_SCAN_ORPHAN \<and> msg_type f = ORPHANNOTIFICATION")
      case True
      with assms(2) False pf have "scan_send_complete env st t = Some s'"
        unfolding mac_hal_intf_tx_frame_done_def by (simp add: Let_def t_def [symmetric])
      then show ?thesis by (rule e(1))
    next
      case n: False
      with assms(2) False pf show ?thesis
        unfolding mac_hal_intf_tx_frame_done_def
        by (cases "msg_type f")
          (auto simp: Let_def t_def [symmetric] dest: ident_tx_done ident_free e)
    qed
    with t show ?thesis by simp
  qed
qed

lemma ident_tx_done_handler:
  assumes "env_keeps env" "hal_zb_tx_done_handler env hw s = Some s'"
  shows "ident s' = ident s"
proof (cases "mac_frame_p s")
  case None
  with assms(2) show ?thesis by (auto simp: hal_zb_tx_done_handler_def)
next
  case (Some p)
  with assms(2) obtain f t st u where
    t: "mac_hal_intf_tx_frame_done env st (Some p) t = Some u" "s' = u\<lparr>mac_frame_p := None\<rparr>"
    "t = (if hw = TX_STATUS_OK_DATA_PENDING
       then (put_body p (Frame f) (s\<lparr>mac_busy := False\<rparr>))\<lparr>mac_stats_g :=
         (mac_stats_g (put_body p (Frame f) (s\<lparr>mac_busy := False\<rparr>)))
           \<lparr>tx_frame_pending := tx_frame_pending (mac_stats_g (put_body p (Frame f) (s\<lparr>mac_busy := False\<rparr>))) + 1\<rparr>\<rparr>
       else put_body p (Frame f) (s\<lparr>mac_busy := False\<rparr>))"
    unfolding hal_zb_tx_done_handler_def Let_def by (simp add: bind_eq_Some_conv) blast
  have "ident t = ident s" by (simp add: t(3))
  with ident_intf_done [OF assms(1) t(1)] t(2) show ?thesis by simp
qed

lemma ident_exp:
  assumes "env_keeps env" "handle_exp_persistence_timer env b s = Some s'"
  shows "ident s' = ident s"
proof -
  have e: "other_expired env t b u = Some u' \<Longrightarrow> ident u' = ident u" for u u' t b using assms(1) by (auto simp: env_keeps_def)
  from assms(2) obtain f where "get_frame s b = Some f" by (auto simp: handle_exp_persistence_timer_def bind_eq_Some_conv)
  with assms(2) show ?thesis
    by (cases "msg_type f") (auto simp: handle_exp_persistence_timer_def dest: e ident_gen_conf)
qed

lemma ident_expire_loop:
  assumes "env_keeps env" "expire_loop env sr s = Some s'"
  shows "ident s' = ident s"
proof -
  have "env_keeps env \<longrightarrow> ident s' = ident s"
  proof (rule expire_loop.raw_induct [where P = "\<lambda>env sr s s'. env_keeps env \<longrightarrow> ident s' = ident s", OF _ assms(2)], goal_cases)
    case (1 f env sr s s')
    from 1(2) obtain b q t where r: "qmm_queue_remove (Some sr) (indirect_data_q s) s = Some (b, q, t)"
      by (auto simp: bind_eq_Some_conv)
    have t: "ident (t\<lparr>indirect_data_q := q\<rparr>) = ident s" using ident_remove [OF r] by simp
    show ?case
    proof (cases b)
      case None
      with 1(2) r t show ?thesis by auto
    next
      case (Some x)
      with 1(2) r obtain u where "handle_exp_persistence_timer env x (t\<lparr>indirect_data_q := q\<rparr>) = Some u" "f env sr u = Some s'"
        by (auto simp: bind_eq_Some_conv)
      with 1(1) [OF this(2)] t show ?thesis by (auto dest: ident_exp)
    qed
  qed
  with assms(1) show ?thesis by simp
qed

lemma ident_persistence_cb:
  assumes "env_keeps env" "mac_persistence_timer_cb env s = Some s'"
  shows "ident s' = ident s"
  using assms(2) ident_expire_loop [OF assms(1)]
  by (auto simp: mac_persistence_timer_cb_def handle_persistence_time_decrement_def Let_def bind_eq_Some_conv
      split: if_splits dest!: ident_read ident_persistence)

lemma ident_poll_cb: "env_keeps env \<Longrightarrow> mac_poll_wait_time_cb env s = Some s' \<Longrightarrow> ident s' = ident s"
  by (auto simp: mac_poll_wait_time_cb_def bind_eq_Some_conv env_keeps_def split: if_splits)

text \<open>The data service: requests, the end of a transmission, an answer to a poll, the timers.\<close>

inductive data_step :: "macEnv \<Rightarrow> mac_st \<Rightarrow> mac_st \<Rightarrow> bool" for env where
  data_req: "mac_api_mcps_data_req sm dm pan a msdu h o' sec s = Some (ok, s') \<Longrightarrow> data_step env s s'"
| purge_req: "mac_api_mcps_purge_req h s = Some (ok, s') \<Longrightarrow> data_step env s s'"
| task: "mac_task_nhle env s = Some s' \<Longrightarrow> data_step env s s'"
| answer: "mac_data_process_data_request env b s = Some s' \<Longrightarrow> data_step env s s'"
| tx_done: "hal_zb_tx_done_handler env hw s = Some s' \<Longrightarrow> data_step env s s'"
| persistence: "mac_persistence_timer_cb env s = Some s' \<Longrightarrow> data_step env s s'"
| poll_wait: "mac_poll_wait_time_cb env s = Some s' \<Longrightarrow> data_step env s s'"
| broadcast: "mac_tx_pending_bc_data env s = Some s' \<Longrightarrow> data_step env s s'"
| pending: "mac_buffer_add_pending s = Some (n, s') \<Longrightarrow> data_step env s s'"

lemma ident_task:
  assumes "env_keeps env" "mac_task_nhle env s = Some s'"
  shows "ident s' = ident s"
  using assms(2)
  by (auto simp: mac_task_nhle_def Let_def bind_eq_Some_conv split: if_splits option.splits
      dest!: ident_remove ident_dispatch [OF assms(1)])

lemma data_step_ident: "data_step env s s' \<Longrightarrow> env_keeps env \<Longrightarrow> ident s' = ident s"
  by (induction rule: data_step.induct)
    (simp_all add: ident_data_req ident_purge_req ident_task ident_answer ident_tx_done_handler ident_persistence_cb ident_poll_cb
      ident_bc ident_add_pending)

end
