(* ===== verification/MacPibInv.thy ===== *)
theory MacPibInv
  imports MacPibRegs MacIdent
begin

unbundle bit_operations_syntax

text \<open>
  Invariants of the PAN information base: its arrays keep their sizes, the backoff exponents stay
  in order, and the radio registers hold the attributes they mirror.
\<close>

subsection \<open>What keeps the mirrored variables\<close>

definition same_radio :: "pib_st \<Rightarrow> pib_st \<Rightarrow> bool" where
  "same_radio p q \<longleftrightarrow> regs q = regs p \<and> hal_pib_PANId (mst q) = hal_pib_PANId (mst p) \<and>
     hal_pib_ShortAddress (mst q) = hal_pib_ShortAddress (mst p) \<and> hal_pib_IeeeAddress (mst q) = hal_pib_IeeeAddress (mst p) \<and>
     hal_pib_CCAMode q = hal_pib_CCAMode p \<and> hal_pib_MinBE q = hal_pib_MinBE p \<and> hal_pib_MaxBE q = hal_pib_MaxBE p \<and>
     hal_pib_MaxFrameRetries q = hal_pib_MaxFrameRetries p \<and>
     hal_pib_PrivatePanCoordinator q = hal_pib_PrivatePanCoordinator p"

lemma mirror_same_radio: "same_radio p q \<Longrightarrow> mirror p \<Longrightarrow> mirror q"
  using field_read_regs [of q p] by (simp add: same_radio_def mirror_iff)

lemma pib_set_same_radio:
  assumes "pib_set a i v p = Some (st, q)" "a \<notin> set hal_attrs" "a \<noteq> macRxOnWhenIdle"
  shows "same_radio p q"
proof (cases "a \<in> {macBeaconPayloadLength, macKeyTableEntries, macDeviceTableEntries, macSecurityLevelTableEntries}")
  case True
  with assms(1) show ?thesis
    by (elim insertE emptyE; simp add: bind_eq_Some_conv set_entries_def set_sec_def; elim exE conjE; simp split: if_splits;
        (elim conjE, hypsubst)?; simp add: same_radio_def set_sec_def)
next
  case False
  with assms show ?thesis
    by (cases a)
      (simp_all add: hal_attrs_def bind_eq_Some_conv set_u8_def set_u16_def set_mst_def set_sec_def set_entries_def
         split: if_splits,
       ((elim exE conjE; hypsubst; simp add: same_radio_def; fail) |
        (clarify; simp add: same_radio_def split: if_splits; fail))+)
qed

lemma recalc_same_radio [simp]: "same_radio p (mac_pib_recalc_macMaxFrameTotalWaitTime p)"
  by (simp add: same_radio_def mac_pib_recalc_macMaxFrameTotalWaitTime_def Let_def)

lemma rx_on_mirror: "mirror p \<Longrightarrow> mirror (set_rx_on_when_idle x p)"
  unfolding mirror_iff set_rx_on_when_idle_def mac_trx_wakeup_def mac_trx_sleep_def Let_def mac_hal_hw_control_def
  by (simp add: zig_fields field_rules ctrl_bits)

lemma pib_set_mirror:
  assumes "pib_set a i v p = Some (st, q)" "mirror p"
  shows "mirror q"
proof (cases "a \<in> set hal_attrs")
  case True
  with assms obtain r where r: "hal_set_attr a v p = Some (st, r)"
    "q = (if st = MAC_SUCCESS then mac_pib_recalc_macMaxFrameTotalWaitTime r else r)"
    by (auto simp: pib_set_hal set_hal_eq)
  with hal_set_mirror [OF r(1) assms(2)] show ?thesis
    using mirror_same_radio [OF recalc_same_radio] by simp
next
  case False
  show ?thesis
  proof (cases "a = macRxOnWhenIdle")
    case True
    with assms show ?thesis by (auto simp: set_u8_def rx_on_mirror)
  next
    case n: False
    from mirror_same_radio [OF pib_set_same_radio [OF assms(1) False n] assms(2)] show ?thesis .
  qed
qed

lemma mac_hal_pib_write_to_asic_mirror: "mirror (mac_hal_pib_write_to_asic p)"
  unfolding mac_hal_pib_write_to_asic_def asic_fields_def mirror_iff
  by (simp add: zig_fields field_rules)

lemma mac_hal_reset_mirror: "mirror (mac_hal_reset ch b p)"
  by (simp add: mac_hal_reset_def mac_hal_pib_write_to_asic_mirror)


subsection \<open>The sizes of the arrays\<close>

lemma order_vars [simp]:
  "mac_beacon_payload (set_beacon_order x p) = mac_beacon_payload p"
  "mac_pib_macBeaconPayloadLength (set_beacon_order x p) = mac_pib_macBeaconPayloadLength p"
  "mac_sec_pib (set_beacon_order x p) = mac_sec_pib p"
  "hal_pib_MinBE (set_beacon_order x p) = hal_pib_MinBE p" "hal_pib_MaxBE (set_beacon_order x p) = hal_pib_MaxBE p"
  "mac_beacon_payload (set_superframe_order x p) = mac_beacon_payload p"
  "mac_pib_macBeaconPayloadLength (set_superframe_order x p) = mac_pib_macBeaconPayloadLength p"
  "mac_sec_pib (set_superframe_order x p) = mac_sec_pib p"
  "hal_pib_MinBE (set_superframe_order x p) = hal_pib_MinBE p" "hal_pib_MaxBE (set_superframe_order x p) = hal_pib_MaxBE p"
  "mac_beacon_payload (set_rx_on_when_idle x p) = mac_beacon_payload p"
  "mac_pib_macBeaconPayloadLength (set_rx_on_when_idle x p) = mac_pib_macBeaconPayloadLength p"
  "mac_sec_pib (set_rx_on_when_idle x p) = mac_sec_pib p"
  "hal_pib_MinBE (set_rx_on_when_idle x p) = hal_pib_MinBE p" "hal_pib_MaxBE (set_rx_on_when_idle x p) = hal_pib_MaxBE p"
  using regs_vars(7) [OF set_beacon_order_same [where p = p and x = x]] regs_vars(8) [OF set_beacon_order_same [where p = p and x = x]]
    regs_vars(9) [OF set_beacon_order_same [where p = p and x = x]] regs_vars(2) [OF set_beacon_order_same [where p = p and x = x]]
    regs_vars(3) [OF set_beacon_order_same [where p = p and x = x]] regs_vars(7) [OF set_superframe_order_same [where p = p and x = x]]
    regs_vars(8) [OF set_superframe_order_same [where p = p and x = x]] regs_vars(9) [OF set_superframe_order_same [where p = p and x = x]]
    regs_vars(2) [OF set_superframe_order_same [where p = p and x = x]] regs_vars(3) [OF set_superframe_order_same [where p = p and x = x]]
    regs_vars(7) [OF set_rx_on_when_idle_same [where p = p and x = x]] regs_vars(8) [OF set_rx_on_when_idle_same [where p = p and x = x]]
    regs_vars(9) [OF set_rx_on_when_idle_same [where p = p and x = x]] regs_vars(2) [OF set_rx_on_when_idle_same [where p = p and x = x]]
    regs_vars(3) [OF set_rx_on_when_idle_same [where p = p and x = x]]
  by simp_all

definition mac_vars :: "pib_st \<Rightarrow> u8 list \<times> u8 \<times> mac_sec_pib_t" where
  "mac_vars p = (mac_beacon_payload p, mac_pib_macBeaconPayloadLength p, mac_sec_pib p)"

lemma pib_wf_vars: "mac_vars q = mac_vars p \<Longrightarrow> pib_wf q = pib_wf p"
  by (simp add: mac_vars_def pib_wf_def)

lemma hal_set_vars:
  assumes "hal_set_attr a v p = Some (st, q)"
  shows "mac_vars q = mac_vars p" "hal_pib_MinBE p \<le> hal_pib_MaxBE p \<Longrightarrow> hal_pib_MinBE q \<le> hal_pib_MaxBE q"
proof -
  have "mac_vars q = mac_vars p \<and> (hal_pib_MinBE p \<le> hal_pib_MaxBE p \<longrightarrow> hal_pib_MinBE q \<le> hal_pib_MaxBE q)"
  proof (cases "a \<in> {macMinBE, macMaxBE}")
    case True
    with assms obtain x where x: "val_u8 v = Some x" by (auto simp: bind_eq_Some_conv)
    show ?thesis using True assms x
      by (cases "hal_pib_MaxBE p < x"; cases "x < hal_pib_MinBE p") (auto simp: Let_def mac_vars_def not_less)
  next
    case False
    with assms show ?thesis
      by (cases a; simp add: bind_eq_Some_conv Let_def; (elim exE conjE)?; (hypsubst)?; (simp add: mac_vars_def)?)
  qed
  then show "mac_vars q = mac_vars p" "hal_pib_MinBE p \<le> hal_pib_MaxBE p \<Longrightarrow> hal_pib_MinBE q \<le> hal_pib_MaxBE q"
    by simp_all
qed

lemma arr_set_wf:
  assumes "arr_set xs k x = Some ys"
  shows "length ys = length xs" "P x \<Longrightarrow> \<forall>e \<in> set xs. P e \<Longrightarrow> \<forall>e \<in> set ys. P e"
proof -
  have ys: "ys = xs[k := x]" using assms by (simp add: arr_set_def split: if_splits)
  show "length ys = length xs" by (simp add: ys)
  show "\<forall>e \<in> set ys. P e" if "P x" "\<forall>e \<in> set xs. P e"
    using that set_update_subset_insert [of xs k x] unfolding ys by blast
qed

lemma pib_set_table_wf:
  assumes "pib_set a i v p = Some (st, q)" "pib_wf p"
    "a \<in> {macBeaconPayload, macKeyTable, macDeviceTable, macSecurityLevelTable, macDefaultKeySource}"
  shows "pib_wf q"
  using assms(3)
proof (elim insertE emptyE)
  assume "a = macBeaconPayload"
  then show ?thesis using assms(1,2) by (auto simp: bind_eq_Some_conv copy_into_Some pib_wf_def)
next
  assume "a = macDefaultKeySource"
  then show ?thesis using assms(1,2) by (auto simp: bind_eq_Some_conv copy_into_Some set_sec_def pib_wf_def)
next
  assume a: "a = macKeyTable"
  show ?thesis
  proof (cases "KeyTableEntries (mac_sec_pib p) \<le> i")
    case True
    with assms(1,2) a show ?thesis by simp
  next
    case False
    with assms(1) a obtain tab where t: "sz_key_table \<le> length v"
      "arr_set (KeyTable (mac_sec_pib p)) (unat i) (take sz_key_table v) = Some tab"
      "q = set_sec (\<lambda>s. s\<lparr>KeyTable := tab\<rparr>) p"
      by (auto simp: bind_eq_Some_conv bytes_at_0)
    from t(1) have l: "length (take sz_key_table v) = sz_key_table" by simp
    from assms(2) arr_set_wf(1) [OF t(2)] arr_set_wf(2) [OF t(2), of "\<lambda>e. length e = sz_key_table", OF l]
    show ?thesis by (simp add: t(3) set_sec_def pib_wf_def)
  qed
next
  assume a: "a = macDeviceTable"
  show ?thesis
  proof (cases "DeviceTableEntries (mac_sec_pib p) \<le> i")
    case True
    with assms(1,2) a show ?thesis by simp
  next
    case False
    with assms(1) a obtain d tab where t: "arr_set (DeviceTable (mac_sec_pib p)) (unat i) d = Some tab"
      "q = set_sec (\<lambda>s. s\<lparr>DeviceTable := tab\<rparr>) p"
      by (auto simp: bind_eq_Some_conv)
    from assms(2) arr_set_wf(1) [OF t(1)] show ?thesis by (simp add: t(2) set_sec_def pib_wf_def)
  qed
next
  assume a: "a = macSecurityLevelTable"
  show ?thesis
  proof (cases "SecurityLevelTableEntries (mac_sec_pib p) \<le> i")
    case True
    with assms(1,2) a show ?thesis by simp
  next
    case False
    with assms(1) a obtain tab where t: "sz_sec_lvl_table \<le> length v"
      "arr_set (SecurityLevelTable (mac_sec_pib p)) (unat i) (take sz_sec_lvl_table v) = Some tab"
      "q = set_sec (\<lambda>s. s\<lparr>SecurityLevelTable := tab\<rparr>) p"
      by (auto simp: bind_eq_Some_conv bytes_at_0)
    from t(1) have l: "length (take sz_sec_lvl_table v) = sz_sec_lvl_table" by simp
    from assms(2) arr_set_wf(1) [OF t(2)] arr_set_wf(2) [OF t(2), of "\<lambda>e. length e = sz_sec_lvl_table", OF l]
    show ?thesis by (simp add: t(3) set_sec_def pib_wf_def)
  qed
qed

lemma pib_set_count_wf:
  assumes "pib_set a i v p = Some (st, q)" "pib_wf p"
    "a \<in> {macBeaconPayloadLength, macKeyTableEntries, macDeviceTableEntries, macSecurityLevelTableEntries}"
  shows "pib_wf q"
  using assms(3,1,2)
  by (elim insertE emptyE; simp add: bind_eq_Some_conv set_entries_def; elim exE conjE; simp split: if_splits;
        (elim conjE, hypsubst)?; simp add: pib_wf_def set_sec_def not_less)

lemma mac_vars_update [simp]:
  "mac_vars (p\<lparr>mst := s\<rparr>) = mac_vars p" "mac_vars (p\<lparr>mac_pib_macAssociatedPANCoord := x\<rparr>) = mac_vars p"
  "mac_vars (p\<lparr>mac_pib_macMaxFrameTotalWaitTime := w\<rparr>) = mac_vars p"
  "mac_vars (p\<lparr>mac_pib_macResponseWaitTime := w\<rparr>) = mac_vars p" "mac_vars (p\<lparr>mac_pib_macAutoRequest := x\<rparr>) = mac_vars p"
  "mac_vars (p\<lparr>mac_pib_macBattLifeExtPeriods := x\<rparr>) = mac_vars p"
  "mac_vars (p\<lparr>mac_pib_macAssociationPermit := x\<rparr>) = mac_vars p" "mac_vars (p\<lparr>mac_pib_macBSN := x\<rparr>) = mac_vars p"
  "mac_vars (p\<lparr>mac_pib_macTransactionPersistenceTime := w\<rparr>) = mac_vars p"
  "mac_vars (p\<lparr>mac_pib_macCoordExtendedAddress := y\<rparr>) = mac_vars p"
  "mac_vars (p\<lparr>mac_pib_macCoordShortAddress := w\<rparr>) = mac_vars p"
  "mac_vars (set_rx_on_when_idle x p) = mac_vars p"
  "mac_vars (mac_pib_recalc_macMaxFrameTotalWaitTime p) = mac_vars p"
  by (simp_all add: mac_vars_def mac_pib_recalc_macMaxFrameTotalWaitTime_def Let_def)

lemma set_u8_vars: "set_u8 f v p = Some (st, q) \<Longrightarrow> (\<And>x. mac_vars (f x p) = mac_vars p) \<Longrightarrow> mac_vars q = mac_vars p"
  by (auto simp: set_u8_def)

lemma set_u16_vars: "set_u16 f v p = Some (st, q) \<Longrightarrow> (\<And>x. mac_vars (f x p) = mac_vars p) \<Longrightarrow> mac_vars q = mac_vars p"
  by (auto simp: set_u16_def)

lemma pib_set_other_vars:
  assumes "pib_set a i v p = Some (st, q)" "a \<notin> set hal_attrs"
    "a \<notin> {macBeaconPayload, macKeyTable, macDeviceTable, macSecurityLevelTable, macDefaultKeySource,
        macBeaconPayloadLength, macKeyTableEntries, macDeviceTableEntries, macSecurityLevelTableEntries}"
  shows "mac_vars q = mac_vars p"
  using assms
  by (cases a)
    (simp_all add: hal_attrs_def,
      (erule set_u8_vars set_u16_vars, simp add: set_mst_def | (elim exE conjE, hypsubst, simp add: set_mst_def))+)

lemma pib_set_wf:
  assumes "pib_set a i v p = Some (st, q)" "pib_wf p"
  shows "pib_wf q"
proof -
  consider (hal) "a \<in> set hal_attrs"
    | (tab) "a \<in> {macBeaconPayload, macKeyTable, macDeviceTable, macSecurityLevelTable, macDefaultKeySource}"
    | (cnt) "a \<in> {macBeaconPayloadLength, macKeyTableEntries, macDeviceTableEntries, macSecurityLevelTableEntries}"
    | (other) "a \<notin> set hal_attrs" "a \<notin> {macBeaconPayload, macKeyTable, macDeviceTable, macSecurityLevelTable, macDefaultKeySource,
        macBeaconPayloadLength, macKeyTableEntries, macDeviceTableEntries, macSecurityLevelTableEntries}" by blast
  then show ?thesis
  proof cases
    case hal
    with assms(1) obtain r where r: "hal_set_attr a v p = Some (st, r)"
      "q = (if st = MAC_SUCCESS then mac_pib_recalc_macMaxFrameTotalWaitTime r else r)"
      by (auto simp: pib_set_hal set_hal_eq)
    have "mac_vars q = mac_vars r" by (simp add: r(2))
    with hal_set_vars(1) [OF r(1)] assms(2) pib_wf_vars [of q p] show ?thesis by simp
  next
    case tab
    from pib_set_table_wf [OF assms this] show ?thesis .
  next
    case cnt
    from pib_set_count_wf [OF assms this] show ?thesis .
  next
    case other
    from pib_set_other_vars [OF assms(1) this]
    have "mac_vars q = mac_vars p" .
    from assms(2) pib_wf_vars [OF this] show ?thesis by simp
  qed
qed

subsection \<open>The invariant\<close>

definition pib_inv :: "pib_st \<Rightarrow> bool" where
  "pib_inv p \<longleftrightarrow> pib_wf p \<and> hal_pib_MinBE p \<le> hal_pib_MaxBE p \<and> mirror p"

text \<open>A step that moves neither the mirrored variables nor the arrays nor the exponents.\<close>

definition pib_same :: "pib_st \<Rightarrow> pib_st \<Rightarrow> bool" where
  "pib_same p q \<longleftrightarrow> same_radio p q \<and> mac_vars q = mac_vars p"

lemma pib_inv_same:
  assumes "pib_same p q" "pib_inv p"
  shows "pib_inv q"
proof -
  have "hal_pib_MinBE q = hal_pib_MinBE p" "hal_pib_MaxBE q = hal_pib_MaxBE p" "pib_wf q = pib_wf p"
    using assms(1) pib_wf_vars [of q p] by (simp_all add: pib_same_def same_radio_def)
  with assms mirror_same_radio [of p q] show ?thesis by (simp add: pib_inv_def pib_same_def)
qed

lemma pib_same_mst: "ident s = ident (mst p) \<Longrightarrow> pib_same p (p\<lparr>mst := s\<rparr>)"
  by (simp add: pib_same_def same_radio_def ident_def)

lemma pib_same_trans: "pib_same p q \<Longrightarrow> pib_same q r \<Longrightarrow> pib_same p r"
  by (simp add: pib_same_def same_radio_def)

lemma pib_same_update [simp]:
  "pib_same p (q\<lparr>trx_pib_wakeup := x\<rparr>) = pib_same p q" "pib_same p (q\<lparr>confirms := c\<rparr>) = pib_same p q"
  "pib_same p (q\<lparr>hal_mac_q := qq\<rparr>) = pib_same p q" "pib_same p (q\<lparr>mac_rx_enabled := x\<rparr>) = pib_same p q"
  "pib_same p p"
  by (simp_all add: pib_same_def same_radio_def mac_vars_def)

lemma pib_set_inv:
  assumes "pib_set a i v p = Some (st, q)" "pib_inv p"
  shows "pib_inv q"
proof -
  have "hal_pib_MinBE q \<le> hal_pib_MaxBE q"
  proof (cases "a \<in> set hal_attrs")
    case True
    with assms(1) obtain r where r: "hal_set_attr a v p = Some (st, r)"
      "q = (if st = MAC_SUCCESS then mac_pib_recalc_macMaxFrameTotalWaitTime r else r)"
      by (auto simp: pib_set_hal set_hal_eq)
    then have "hal_pib_MinBE q = hal_pib_MinBE r" "hal_pib_MaxBE q = hal_pib_MaxBE r"
      using recalc_same_radio [of r] by (auto simp: same_radio_def)
    with hal_set_vars(2) [OF r(1)] assms(2) show ?thesis by (simp add: pib_inv_def)
  next
    case False
    show ?thesis
    proof (cases "a = macRxOnWhenIdle")
      case True
      with assms show ?thesis by (auto simp: set_u8_def pib_inv_def)
    next
      case n: False
      from pib_set_same_radio [OF assms(1) False n] assms(2) show ?thesis by (simp add: pib_inv_def same_radio_def)
    qed
  qed
  with pib_set_wf [OF assms(1)] pib_set_mirror [OF assms(1)] assms(2) show ?thesis by (simp add: pib_inv_def)
qed

lemma mlme_set_inv:
  assumes "mlme_set at i v slp p = Some (st, q)" "pib_inv p"
  shows "pib_inv q"
proof -
  from assms(1) obtain r where r: "(case attr_of at of Some a \<Rightarrow> pib_set a i v p | None \<Rightarrow> Some (MAC_UNSUPPORTED_ATTRIBUTE, p)) = Some (st, r)"
    "q = (if slp \<and> trx_pib_wakeup r \<and> mac_pib_macRxOnWhenIdle r = 0 then r\<lparr>trx_pib_wakeup := False\<rparr> else r)"
    by (auto simp: mlme_set_def bind_eq_Some_conv)
  have "pib_inv r" using r(1) assms(2) pib_set_inv by (cases "attr_of at") auto
  moreover have "pib_same r q" by (simp add: r(2))
  ultimately show ?thesis by (rule pib_inv_same [rotated])
qed

lemma mac_hal_pib_set_inv:
  assumes "mac_hal_pib_set at v p = Some (st, q)" "pib_inv p"
  shows "pib_inv q"
proof (cases "attr_of at")
  case None
  with assms show ?thesis by (simp add: mac_hal_pib_set_def mac_hal_pib_set_trx_state_check_def)
next
  case (Some a)
  with assms(1) have h: "hal_set_attr a v p = Some (st, q)" by (simp add: mac_hal_pib_set_def)
  have "pib_wf q = pib_wf p" using pib_wf_vars hal_set_vars(1) [OF h] .
  with hal_set_vars(2) [OF h] hal_set_mirror [OF h] assms(2) show ?thesis by (simp add: pib_inv_def)
qed

subsection \<open>Requests\<close>

lemma conf_same:
  assumes "mlme_conf b m p = Some q"
  shows "pib_same p q"
proof -
  from assms obtain s where s: "bmm_buffer_free (Some b) (put_body b (MlmeMsg m) (mst p)) = Some s"
    "q = p\<lparr>confirms := confirms p @ [m], mst := s\<rparr>"
    by (auto simp: mlme_conf_def bind_eq_Some_conv)
  have "ident s = ident (mst (p\<lparr>confirms := confirms p @ [m]\<rparr>))" using ident_free [OF s(1)] by simp
  from pib_same_mst [OF this] pib_same_trans [of p "p\<lparr>confirms := confirms p @ [m]\<rparr>"] s(2) show ?thesis by simp
qed

lemma get_request_same: "mlme_get_request b p = Some q \<Longrightarrow> pib_same p q"
  by (auto simp: mlme_get_request_def bind_eq_Some_conv dest: conf_same)

lemma set_request_inv:
  assumes "mlme_set_request b p = Some q" "pib_inv p"
  shows "pib_inv q"
proof -
  from assms(1) obtain a i v st r m where "mlme_set a i v True p = Some (st, r)" "mlme_conf b m r = Some q"
    by (auto simp: mlme_set_request_def bind_eq_Some_conv)
  with mlme_set_inv [OF this(1) assms(2)] conf_same [OF this(2)] show ?thesis by (blast intro: pib_inv_same)
qed

lemma flush_same:
  assumes "mac_q_flush p = Some q"
  shows "pib_same p q"
proof -
  from assms obtain q1 s1 q2 s2 q3 s3 q4 s4 where
    f: "qmm_queue_flush (nhle_mac_q (mst p)) (mst p) = Some (q1, s1)"
      "qmm_queue_flush (hal_mac_q p) (s1\<lparr>nhle_mac_q := q1\<rparr>) = Some (q2, s2)"
      "qmm_queue_flush (indirect_data_q s2) s2 = Some (q3, s3)"
      "qmm_queue_flush (broadcast_q (mac_hal_frame_pending False (s3\<lparr>indirect_data_q := q3\<rparr>)))
         (mac_hal_frame_pending False (s3\<lparr>indirect_data_q := q3\<rparr>)) = Some (q4, s4)"
    and q: "q = p\<lparr>hal_mac_q := q2, mst := s4\<lparr>broadcast_q := q4\<rparr>\<rparr>"
    unfolding mac_q_flush_def Let_def by (simp add: bind_eq_Some_conv) blast
  have "ident (s4\<lparr>broadcast_q := q4\<rparr>) = ident (mst (p\<lparr>hal_mac_q := q2\<rparr>))"
    using f [THEN ident_flush] by simp
  from pib_same_mst [OF this] pib_same_trans [of p "p\<lparr>hal_mac_q := q2\<rparr>"] q show ?thesis by simp
qed

lemma reset_request_same: "mlme_reset_request b p = Some q \<Longrightarrow> pib_same p q"
  by (auto simp: mlme_reset_request_def mac_trx_wakeup_def mac_trx_sleep_def Let_def bind_eq_Some_conv
      dest!: conf_same flush_same intro: pib_same_trans)

lemma regs_inv:
  assumes "same_but_regs p q" "pib_inv p" "mirror q"
  shows "pib_inv q"
  using assms(2,3) regs_vars [OF assms(1)] by (simp add: pib_inv_def pib_wf_def)

lemma hw_control_inv: "pib_inv p \<Longrightarrow> pib_inv (mac_hal_hw_control c p)"
proof (rule regs_inv)
  assume "pib_inv p"
  then show "mirror (mac_hal_hw_control c p)"
    unfolding pib_inv_def mirror_iff mac_hal_hw_control_def by (simp add: zig_fields field_rules ctrl_bits)
qed auto

lemma rx_enable_inv:
  assumes "pib_inv p"
  shows "pib_inv (mac_hal_rx_enable on d t n p)"
proof (rule regs_inv [OF _ assms])
  show "same_but_regs p (mac_hal_rx_enable on d t n p)"
    unfolding mac_hal_rx_enable_def Let_def by (auto intro!: same_but_regs_access same_but_regs_hw same_but_regs_write)
  show "mirror (mac_hal_rx_enable on d t n p)"
    using assms unfolding pib_inv_def mirror_iff mac_hal_rx_enable_def mac_hal_hw_control_def Let_def
    by (simp add: zig_fields field_rules ctrl_bits)
qed

lemma rx_enabled_inv [simp]: "pib_inv (p\<lparr>mac_rx_enabled := x\<rparr>) = pib_inv p"
  using pib_inv_same [of p "p\<lparr>mac_rx_enabled := x\<rparr>"] pib_inv_same [of "p\<lparr>mac_rx_enabled := x\<rparr>" p]
  by (auto simp: pib_same_def same_radio_def mac_vars_def)

lemma rx_conf_inv: "mac_rx_enable_conf b m st p = Some q \<Longrightarrow> pib_inv p \<Longrightarrow> pib_inv q"
  by (auto simp: mac_rx_enable_conf_def bind_eq_Some_conv dest: conf_same intro: pib_inv_same)

text \<open>The states in which the confirmation is sent.\<close>

lemma one_of:
  assumes "(if c1 then g s1 r1 else if c2 then g s2 r2 else if c3 then g s3 r3 else if c4 then g s4 r4 else g s5 r5) = Some q"
    "P r1" "P r2" "P r3" "P r4" "P r5"
  shows "\<exists>s r. g s r = Some q \<and> P r"
  using assms by (auto split: if_splits)

lemma rx_request_cases:
  assumes "mlme_rx_enable_request b p = Some q"
  obtains m st r where "mac_rx_enable_conf b m st r = Some q"
    "r = mac_rx_enable_off p \<or> r = p \<or> (\<exists>x d t n. r = mac_hal_rx_enable x d t n (p\<lparr>mac_rx_enabled := True\<rparr>))"
proof -
  from assms obtain m d t n where e:
    "(if n = 0 then mac_rx_enable_conf b m MAC_SUCCESS (mac_rx_enable_off p)
      else if mac_poll_state (mst p) \<noteq> MAC_POLL_IDLE \<or> mac_scan_state (mst p) \<noteq> MAC_SCAN_IDLE
      then mac_rx_enable_conf b m MAC_TX_ACTIVE p
      else if hal_pib_BeaconOrder (mst p) = NON_BEACON_NWK
      then mac_rx_enable_conf b m MAC_SUCCESS (mac_hal_rx_enable False d t n (p\<lparr>mac_rx_enabled := True\<rparr>))
      else if HAL_GET_BEACON_INTERVAL_TIME (hal_pib_BeaconOrder (mst p)) \<le> t + n
      then mac_rx_enable_conf b m MAC_INVALID_PARAMETER p
      else mac_rx_enable_conf b m MAC_SUCCESS (mac_hal_rx_enable True d t n (p\<lparr>mac_rx_enabled := True\<rparr>))) = Some q"
    unfolding mlme_rx_enable_request_def by (simp add: bind_eq_Some_conv) blast
  show thesis using one_of [where g = "mac_rx_enable_conf b m", OF e, of "\<lambda>r. r = mac_rx_enable_off p \<or> r = p \<or>
      (\<exists>x d t n. r = mac_hal_rx_enable x d t n (p\<lparr>mac_rx_enabled := True\<rparr>))"] that by blast
qed

lemma rx_request_inv:
  assumes "mlme_rx_enable_request b p = Some q" "pib_inv p"
  shows "pib_inv q"
proof -
  obtain m st r where r: "mac_rx_enable_conf b m st r = Some q"
    "r = mac_rx_enable_off p \<or> r = p \<or> (\<exists>x d t n. r = mac_hal_rx_enable x d t n (p\<lparr>mac_rx_enabled := True\<rparr>))"
    by (rule rx_request_cases [OF assms(1)])
  have "pib_inv (mac_rx_enable_off p)" using assms(2) by (simp add: mac_rx_enable_off_def hw_control_inv)
  moreover have "pib_inv (mac_hal_rx_enable x d t n (p\<lparr>mac_rx_enabled := True\<rparr>))" for x d t n
    using assms(2) by (simp add: rx_enable_inv)
  ultimately have "pib_inv r" using r(2) assms(2) by auto
  with r(1) show ?thesis by (rule rx_conf_inv)
qed

lemma api_same:
  "mac_api_mlme_set_req old a i v p = Some (ok, q) \<Longrightarrow> pib_same p q"
  "mac_api_mlme_get_req old a i p = Some (ok, q) \<Longrightarrow> pib_same p q"
proof -
  have s: "pib_same (p\<lparr>mst := s\<rparr>) q = pib_same p q" if "ident s = ident (mst p)" for p q s
    using that by (simp add: pib_same_def same_radio_def ident_def mac_vars_def)
  show "mac_api_mlme_set_req old a i v p = Some (ok, q) \<Longrightarrow> pib_same p q"
    by (auto simp: s pib_same_mst mac_api_mlme_set_req_def Let_def bind_eq_Some_conv split: option.splits dest!: ident_alloc ident_nhle
        intro: pib_same_mst)
  show "mac_api_mlme_get_req old a i p = Some (ok, q) \<Longrightarrow> pib_same p q"
    by (auto simp: s pib_same_mst mac_api_mlme_get_req_def Let_def bind_eq_Some_conv split: option.splits dest!: ident_alloc ident_nhle
        intro: pib_same_mst)
qed

subsection \<open>The initial state\<close>

lemma reset_same:
  "same_but_regs (if b then mac_hal_pib_init ch p else p) (mac_hal_reset ch b p)"
proof -
  have "same_but_regs q (fold (\<lambda>(f, x). hal_common_bit_field_reg_write f x) xs r)" if "same_but_regs q r" for q r xs
    using that by (induction xs arbitrary: r) auto
  from this [OF same_but_regs_refl] show ?thesis unfolding mac_hal_reset_def mac_hal_pib_write_to_asic_def .
qed

lemma pib_start_inv:
  assumes "pib_wf p"
  shows "pib_inv (mac_pib_start ch t p)"
proof -
  define q where "q = mac_hal_pib_init ch (mac_init_pib t p)"
  have s: "same_but_regs q (mac_pib_start ch t p)"
    using reset_same [of True ch "mac_init_pib t p"] by (simp add: q_def mac_pib_start_def)
  have "pib_wf q" using assms
    by (simp add: q_def pib_wf_def mac_hal_pib_init_def mac_init_pib_def mac_hal_get_current_time_def Let_def)
  moreover have "hal_pib_MinBE q \<le> hal_pib_MaxBE q" by (simp add: q_def mac_hal_pib_init_def)
  moreover have "mirror (mac_pib_start ch t p)" by (simp add: mac_pib_start_def mac_hal_reset_mirror)
  ultimately show ?thesis using regs_vars [OF s] by (simp add: pib_inv_def pib_wf_def)
qed

subsection \<open>Reachable states\<close>

text \<open>
  From the start: attributes set by the application or by the production test, requests of the
  upper layer from the API to their handlers, and the whole data service.
\<close>

inductive pib_reach :: "macEnv \<Rightarrow> pib_st \<Rightarrow> bool" for env where
  start: "pib_wf p \<Longrightarrow> pib_reach env (mac_pib_start ch t p)"
| set: "pib_reach env p \<Longrightarrow> mlme_set at i v slp p = Some (st, q) \<Longrightarrow> pib_reach env q"
| hal_set: "pib_reach env p \<Longrightarrow> mac_hal_pib_set at v p = Some (st, q) \<Longrightarrow> pib_reach env q"
| hw_control: "pib_reach env p \<Longrightarrow> pib_reach env (mac_hal_hw_control c p)"
| api_set: "pib_reach env p \<Longrightarrow> mac_api_mlme_set_req old a i v p = Some (ok, q) \<Longrightarrow> pib_reach env q"
| api_get: "pib_reach env p \<Longrightarrow> mac_api_mlme_get_req old a i p = Some (ok, q) \<Longrightarrow> pib_reach env q"
| take: "pib_reach env p \<Longrightarrow> qmm_queue_remove None (nhle_mac_q (mst p)) (mst p) = Some (b, q, s) \<Longrightarrow>
    pib_reach env (p\<lparr>mst := s\<lparr>nhle_mac_q := q\<rparr>\<rparr>)"
| set_request: "pib_reach env p \<Longrightarrow> mlme_set_request b p = Some q \<Longrightarrow> pib_reach env q"
| get_request: "pib_reach env p \<Longrightarrow> mlme_get_request b p = Some q \<Longrightarrow> pib_reach env q"
| reset_request: "pib_reach env p \<Longrightarrow> mlme_reset_request b p = Some q \<Longrightarrow> pib_reach env q"
| rx_enable: "pib_reach env p \<Longrightarrow> mlme_rx_enable_request b p = Some q \<Longrightarrow> pib_reach env q"
| data: "pib_reach env p \<Longrightarrow> data_step env (mst p) s \<Longrightarrow> pib_reach env (p\<lparr>mst := s\<rparr>)"

lemma pib_reach_inv: "pib_reach env p \<Longrightarrow> env_keeps env \<Longrightarrow> pib_inv p"
proof (induction rule: pib_reach.induct)
  case (start p ch t)
  then show ?case by (simp add: pib_start_inv)
next
  case (take p b q s)
  then have "ident (s\<lparr>nhle_mac_q := q\<rparr>) = ident (mst p)" by (simp add: ident_remove)
  from pib_inv_same [OF pib_same_mst [OF this]] take show ?case by simp
next
  case (data p s)
  from pib_inv_same [OF pib_same_mst [OF data_step_ident [OF data(2,4)]]] data show ?case by simp
qed (auto intro: mlme_set_inv mac_hal_pib_set_inv hw_control_inv set_request_inv rx_request_inv
    pib_inv_same [OF api_same(1)] pib_inv_same [OF api_same(2)] pib_inv_same [OF get_request_same] pib_inv_same [OF reset_request_same])

end
