(* ===== verification/MacPibProps.thy ===== *)
theory MacPibProps
  imports MacPibInv MacFrameProps
begin

unbundle bit_operations_syntax

text \<open>
  What the PAN information base promises: values read back, attributes are independent, the
  invariant holds in every reachable state, the wait time is the equation of the standard, and the
  radio's registers agree with the attributes, except where the code forgets to write them.
\<close>

subsection \<open>Requests and attributes\<close>

lemma val_long:
  "1 \<le> length v \<Longrightarrow> val_u8 v = Some (hd v)" "2 \<le> length v \<Longrightarrow> val_u16 v = Some (val16 (take 2 v))"
  "8 \<le> length v \<Longrightarrow> val_u64 v = Some \<lparr>hi_u32 = val32 (take 4 v), lo_u32 = val32 (take 4 (drop 4 v))\<rparr>"
  by (cases v; simp add: val_u8_def arr_get_def) (simp_all add: val_u16_def val_u64_def val_u32_def bytes_at_def)

lemma read_wakeup [simp]: "pib_read b j (p\<lparr>trx_pib_wakeup := x\<rparr>) = pib_read b j p"
  by (cases b) simp_all

lemma attr_size_wakeup [simp]: "attr_size b (p\<lparr>trx_pib_wakeup := x\<rparr>) = attr_size b p"
  by (simp add: attr_size_def mac_get_pib_attribute_size_def)

text \<open>What \<open>mlme_set\<close> does beyond \<open>pib_set\<close> is not seen by any attribute.\<close>

lemma mlme_set_pib_set:
  assumes "mlme_set at i v slp p = Some (st, q)" "attr_of at = Some a"
  obtains r where "pib_set a i v p = Some (st, r)" "q = r \<or> q = r\<lparr>trx_pib_wakeup := False\<rparr>"
    "\<And>b j. pib_read b j q = pib_read b j r" "\<And>b. attr_size b q = attr_size b r"
  using assms by (auto simp: mlme_set_def bind_eq_Some_conv split: if_splits)

lemma mlme_get_read: "attr_of bt = Some b \<Longrightarrow> mlme_get bt j p = pib_read b j p"
  by (simp add: mlme_get_def)

text \<open>C22.
  A value that was set is read back.  After a successful MLME-SET of any attribute, MLME-GET with
  the same index returns the bytes that were given, as many as the attribute has.  Excepted are
  the three attributes that the code does not store as given: macMinBE, which is cut to macMaxBE
  (and then read back as the smaller of the two), macResponseWaitTime, which is kept in symbols,
  and phyCurrentPage, which is accepted and ignored.\<close>

theorem mlme_set_get_roundtrip:
  assumes "pib_wf p" "mlme_set at i v slp p = Some (MAC_SUCCESS, q)" "attr_of at = Some a"
  shows "(reads_back a \<longrightarrow> mlme_get at i q = Some (MAC_SUCCESS, take (attr_size a q) v)) \<and>
    (a = macMinBE \<longrightarrow> mlme_get at i q = Some (MAC_SUCCESS, [min (hd v) (hal_pib_MaxBE p)]))"
proof -
  obtain r where r: "pib_set a i v p = Some (MAC_SUCCESS, r)" "\<And>b j. pib_read b j q = pib_read b j r"
    "\<And>b. attr_size b q = attr_size b r" by (rule mlme_set_pib_set [OF assms(2,3)]) blast
  have "mlme_get at i q = Some (MAC_SUCCESS, take (attr_size a q) v)" if "reads_back a"
    using pib_set_reads_back [OF r(1) that assms(1)] r(2,3) by (simp add: mlme_get_read [OF assms(3)])
  moreover have "mlme_get at i q = Some (MAC_SUCCESS, [min (hd v) (hal_pib_MaxBE p)])" if am: "a = macMinBE"
  proof -
    obtain x where x: "val_u8 v = Some x" using r(1) am by (cases "val_u8 v") (simp_all add: set_hal_eq)
    have "pib_read macMinBE i r = Some (MAC_SUCCESS, [min x (hal_pib_MaxBE p)])"
    proof (cases "hal_pib_MaxBE p < x")
      case True
      with r(1) am x show ?thesis by (auto simp: set_hal_eq Let_def mac_pib_recalc_macMaxFrameTotalWaitTime_def)
    next
      case False
      with r(1) am x show ?thesis by (auto simp: set_hal_eq Let_def mac_pib_recalc_macMaxFrameTotalWaitTime_def min_def)
    qed
    moreover have "hd v = x" using x by (cases v) (auto simp: val_u8_def arr_get_def)
    ultimately show ?thesis using am r(2) by (simp add: mlme_get_read [OF assms(3)])
  qed
  ultimately show ?thesis by simp
qed

text \<open>C24.
  Attributes are independent.  MLME-SET of one attribute changes what MLME-GET returns for another
  one only where the code couples them: the maximum wait time follows the attributes of the radio,
  macMinBE is cut by macMaxBE, and the number of entries of an array bounds the access to it.  A
  request that is refused, whatever the status, changes no attribute at all.\<close>

theorem mlme_set_independent:
  assumes "mlme_set at i v slp p = Some (st, q)" "attr_of at = Some a" "attr_of bt = Some b" "\<not> affects a b \<or> st \<noteq> MAC_SUCCESS"
  shows "mlme_get bt j q = mlme_get bt j p"
proof -
  obtain r where r: "pib_set a i v p = Some (st, r)" "\<And>b j. pib_read b j q = pib_read b j r"
    by (rule mlme_set_pib_set [OF assms(1,2)]) blast
  from assms(4) pib_set_frame [OF r(1)] pib_set_refused [OF r(1)] have "pib_read b j r = pib_read b j p" by auto
  with r(2) show ?thesis by (simp add: mlme_get_read [OF assms(3)])
qed

text \<open>C25.
  The invariant of the information base.  From the start and through any sequence of requests of
  the upper layer, of attributes set by the production test, of transmissions, polls and timers of
  the data service, the arrays keep their sizes, no count of entries exceeds its array, the beacon
  payload length fits, and the smallest backoff exponent is at most the largest.\<close>

theorem pib_reachable_well_formed:
  assumes "pib_reach env p" "env_keeps env"
  shows "pib_wf p \<and> hal_pib_MinBE p \<le> hal_pib_MaxBE p"
  using pib_reach_inv [OF assms] by (simp add: pib_inv_def)

text \<open>C27.
  The maximum wait time is equation (14) of the standard.  In every reachable state, setting an
  attribute of the radio leaves in macMaxFrameTotalWaitTime what the equation gives over the
  natural numbers for the exponents and backoffs then in force (modulo the 16 bits of the
  variable); and for exponents up to 8 and at most 5 backoffs it is exact and at most 25766 symbols.\<close>

theorem wait_time_follows_equation_14:
  assumes "pib_reach env p" "env_keeps env" "mlme_set at i v slp p = Some (MAC_SUCCESS, q)" "attr_of at = Some a" "a \<in> set hal_attrs"
  shows "let w = max_frame_total_wait_time (unat (hal_pib_MinBE q)) (unat (hal_pib_MaxBE q)) (unat (hal_pib_MaxCSMABackoffs q))
    in mac_pib_macMaxFrameTotalWaitTime q = of_nat w \<and>
       (hal_pib_MaxBE q \<le> 8 \<and> hal_pib_MaxCSMABackoffs q \<le> 5 \<longrightarrow>
          unat (mac_pib_macMaxFrameTotalWaitTime q) = w \<and> w \<le> 25766)"
proof -
  have inv: "pib_inv q" using pib_reach_inv [OF pib_reach.set [OF assms(1,3)] assms(2)] .
  obtain r where r: "pib_set a i v p = Some (MAC_SUCCESS, r)" "q = r \<or> q = r\<lparr>trx_pib_wakeup := False\<rparr>"
    by (rule mlme_set_pib_set [OF assms(3,4)]) blast
  then obtain u where u: "r = mac_pib_recalc_macMaxFrameTotalWaitTime u"
    using assms(5) by (auto simp: pib_set_hal set_hal_eq)
  have f: "hal_pib_MinBE q = hal_pib_MinBE u" "hal_pib_MaxBE q = hal_pib_MaxBE u"
    "hal_pib_MaxCSMABackoffs q = hal_pib_MaxCSMABackoffs u"
    "mac_pib_macMaxFrameTotalWaitTime q = mac_pib_macMaxFrameTotalWaitTime r"
    using r(2) by (auto simp: u mac_pib_recalc_macMaxFrameTotalWaitTime_def Let_def)
  define w where "w = max_frame_total_wait_time (unat (hal_pib_MinBE q)) (unat (hal_pib_MaxBE q)) (unat (hal_pib_MaxCSMABackoffs q))"
  have le: "hal_pib_MinBE q \<le> hal_pib_MaxBE q" using inv by (simp add: pib_inv_def)
  have e: "mac_pib_macMaxFrameTotalWaitTime q = of_nat w"
    using recalc_eq [of u] le by (simp add: f u w_def)
  have "unat (mac_pib_macMaxFrameTotalWaitTime q) = w \<and> w \<le> 25766" if "hal_pib_MaxBE q \<le> 8" "hal_pib_MaxCSMABackoffs q \<le> 5"
  proof -
    have "w \<le> 25766" unfolding w_def using le that by (intro wait_time_bound) (simp_all add: word_le_nat_alt)
    then show ?thesis unfolding e by (simp add: unsigned_of_nat take_bit_nat_eq_self)
  qed
  with e show ?thesis unfolding w_def Let_def by blast
qed

subsection \<open>The retry field that is written once\<close>

definition cca_retries :: "pib_st \<Rightarrow> u32" where
  "cca_retries p = hal_common_bit_field_reg_read ZIG_NO_CCA_MAX_RETRY p"

lemma cca_regs: "regs q = regs p \<Longrightarrow> cca_retries q = cca_retries p"
  using field_read_regs [of q p] by (simp add: cca_retries_def)

lemma cca_same: "pib_same p q \<Longrightarrow> cca_retries q = cca_retries p"
  by (rule cca_regs) (simp add: pib_same_def same_radio_def)

lemma set_trx_cca: "set_trx_attr a v p = Some (st, q) \<Longrightarrow> cca_retries q = cca_retries p"
  unfolding cca_retries_def
  by (cases a) (auto simp: bind_eq_Some_conv Let_def zig_fields field_rules split: if_splits)

lemma order_cca: "cca_retries (set_beacon_order x p) = cca_retries p" "cca_retries (set_superframe_order x p) = cca_retries p"
  unfolding cca_retries_def set_beacon_order_def set_superframe_order_def Let_def
  by (simp_all add: zig_fields field_rules restart_timing_fields interrupt_control_fields ctrl_bits)

lemma hal_set_cca:
  assumes "hal_set_attr a v p = Some (st, q)"
  shows "cca_retries q = cca_retries p"
proof (cases "a \<in> {macMaxFrameRetries, macMaxCSMABackoffs, macBattLifeExt, macBeaconOrder, macSuperframeOrder, macBeaconTxTime,
    macPromiscuousMode, macAckWaitDuration}")
  case True
  then show ?thesis using assms order_cca
    by (elim insertE emptyE) (auto simp: bind_eq_Some_conv Let_def cca_retries_def zig_fields field_rules)
next
  case False
  then have "hal_set_attr a v p = set_trx_attr a v p" by (cases a) simp_all
  with assms set_trx_cca show ?thesis by metis
qed

lemma hw_control_cca: "cca_retries (mac_hal_hw_control c p) = cca_retries p"
  unfolding cca_retries_def mac_hal_hw_control_def by (simp add: zig_fields field_rules)

lemma rx_enable_cca: "cca_retries (mac_hal_rx_enable on d t n p) = cca_retries p"
  unfolding cca_retries_def mac_hal_rx_enable_def mac_hal_hw_control_def Let_def by (simp add: zig_fields field_rules)

lemma pib_set_cca:
  assumes "pib_set a i v p = Some (st, q)"
  shows "cca_retries q = cca_retries p"
proof (cases "a \<in> set hal_attrs")
  case True
  with assms obtain r where r: "hal_set_attr a v p = Some (st, r)"
    "q = (if st = MAC_SUCCESS then mac_pib_recalc_macMaxFrameTotalWaitTime r else r)"
    by (auto simp: pib_set_hal set_hal_eq)
  have "regs q = regs r" using recalc_same_radio [of r] by (simp add: r(2) same_radio_def)
  with hal_set_cca [OF r(1)] cca_regs [of q r] show ?thesis by simp
next
  case False
  show ?thesis
  proof (cases "a = macRxOnWhenIdle")
    case True
    have "cca_retries (p\<lparr>mac_pib_macRxOnWhenIdle := x\<rparr>) = cca_retries p" for x by (rule cca_regs) simp
    with True assms show ?thesis
      by (auto simp: set_u8_def set_rx_on_when_idle_def mac_trx_wakeup_def mac_trx_sleep_def Let_def hw_control_cca)
  next
    case n: False
    from pib_set_same_radio [OF assms False n] cca_regs [of q p] show ?thesis by (simp add: same_radio_def)
  qed
qed

lemma mlme_set_cca:
  assumes "mlme_set at i v slp p = Some (st, q)"
  shows "cca_retries q = cca_retries p"
proof (cases "attr_of at")
  case None
  with assms show ?thesis by (auto simp: mlme_set_def intro: cca_regs split: if_splits)
next
  case (Some a)
  obtain r where "pib_set a i v p = Some (st, r)" "q = r \<or> q = r\<lparr>trx_pib_wakeup := False\<rparr>"
    by (rule mlme_set_pib_set [OF assms Some]) blast
  with pib_set_cca [OF this(1)] cca_regs [of q r] show ?thesis by auto
qed

lemma rx_request_cca:
  assumes "mlme_rx_enable_request b p = Some q"
  shows "cca_retries q = cca_retries p"
proof -
  have u: "cca_retries (p\<lparr>mac_rx_enabled := x\<rparr>) = cca_retries p" for p x by (rule cca_regs) simp
  obtain m st r where r: "mac_rx_enable_conf b m st r = Some q"
    "r = mac_rx_enable_off p \<or> r = p \<or> (\<exists>x d t n. r = mac_hal_rx_enable x d t n (p\<lparr>mac_rx_enabled := True\<rparr>))"
    by (rule rx_request_cases [OF assms])
  have "cca_retries r = cca_retries p" using r(2) by (auto simp: mac_rx_enable_off_def hw_control_cca rx_enable_cca u)
  moreover have "pib_same r q" using r(1) by (auto simp: mac_rx_enable_conf_def bind_eq_Some_conv dest: conf_same)
  ultimately show ?thesis by (simp add: cca_same)
qed

lemma write_to_asic_cca: "cca_retries (mac_hal_pib_write_to_asic p) = ucast (hal_pib_MaxCSMABackoffs p) AND 0x0F"
  unfolding mac_hal_pib_write_to_asic_def asic_fields_def cca_retries_def
  by (simp add: zig_fields field_rules)

lemma start_cca: "cca_retries (mac_pib_start ch t p) = 4"
proof -
  have "hal_pib_MaxCSMABackoffs (mac_hal_pib_init ch q) = 4" for q by (simp add: mac_hal_pib_init_def)
  then show ?thesis by (simp add: mac_pib_start_def mac_hal_reset_def write_to_asic_cca)
qed

lemma pib_reach_cca: "pib_reach env p \<Longrightarrow> cca_retries p = 4"
proof (induction rule: pib_reach.induct)
  case (start p ch t)
  show ?case by (rule start_cca)
next
  case (hal_set p at v st q)
  then show ?case
    by (cases "attr_of at") (auto simp: mac_hal_pib_set_def mac_hal_pib_set_trx_state_check_def dest: hal_set_cca)
next
  case (set_request p b q)
  from set_request(2) obtain a i v st r m where "mlme_set a i v True p = Some (st, r)" "mlme_conf b m r = Some q"
    by (auto simp: mlme_set_request_def bind_eq_Some_conv)
  with set_request(3) cca_same [OF conf_same [OF this(2)]] show ?case by (simp add: mlme_set_cca)
next
  case (take p b q s)
  then show ?case using cca_regs [of "p\<lparr>mst := s\<lparr>nhle_mac_q := q\<rparr>\<rparr>" p] by simp
next
  case (data p s)
  then show ?case using cca_regs [of "p\<lparr>mst := s\<rparr>" p] by simp
qed (auto simp: mlme_set_cca hw_control_cca rx_request_cca cca_same [OF api_same(1)] cca_same [OF api_same(2)]
    cca_same [OF get_request_same] cca_same [OF reset_request_same])

subsection \<open>Registers and frames\<close>



text \<open>C30.
  Two attributes of the random backoff do not reach the radio.  Setting macMaxCSMABackoffs succeeds
  and is read back, and yet the retry limit in the radio's backoff register is, in every reachable
  state, the 4 written at the start; and setting macMaxBE below macMinBE lowers macMinBE in
  memory only, the field of the register stays what it was.\<close>

theorem backoff_register_stale:
  assumes "pib_reach env p" "mlme_set at i v slp p = Some (MAC_SUCCESS, q)" "val_u8 v = Some x"
  shows "(at = pib_id macMaxCSMABackoffs \<longrightarrow> hal_pib_MaxCSMABackoffs q = x \<and>
      hal_common_bit_field_reg_read ZIG_NO_CCA_MAX_RETRY q = 4) \<and>
    (at = pib_id macMaxBE \<and> x < hal_pib_MinBE p \<longrightarrow> hal_pib_MinBE q = x \<and>
      hal_common_bit_field_reg_read ZIG_MIN_BE q = hal_common_bit_field_reg_read ZIG_MIN_BE p)"
proof -
  have "cca_retries q = 4" using pib_reach_cca [OF pib_reach.set [OF assms(1,2)]] .
  moreover have "hal_pib_MaxCSMABackoffs q = x" if at: "at = pib_id macMaxCSMABackoffs"
  proof -
    from at have "attr_of at = Some macMaxCSMABackoffs" by (simp only: attr_of_pib_id)
    then obtain w where "pib_set macMaxCSMABackoffs i v p = Some (MAC_SUCCESS, w)" "q = w \<or> q = w\<lparr>trx_pib_wakeup := False\<rparr>"
      by (rule mlme_set_pib_set [OF assms(2)]) blast
    with assms(3) show ?thesis by (auto simp: set_hal_eq mac_pib_recalc_macMaxFrameTotalWaitTime_def Let_def)
  qed
  moreover have "hal_pib_MinBE q = x \<and>
      hal_common_bit_field_reg_read ZIG_MIN_BE q = hal_common_bit_field_reg_read ZIG_MIN_BE p"
    if at: "at = pib_id macMaxBE" and lt: "x < hal_pib_MinBE p"
  proof -
    define u where "u = hal_common_bit_field_reg_write ZIG_MAX_BE (ucast x) (p\<lparr>hal_pib_MaxBE := x, hal_pib_MinBE := x\<rparr>)"
    have u: "hal_pib_MinBE u = x" "hal_common_bit_field_reg_read ZIG_MIN_BE u = hal_common_bit_field_reg_read ZIG_MIN_BE p"
      by (simp_all add: u_def zig_fields field_rules)
    have e: "(p\<lparr>hal_pib_MaxBE := x\<rparr>)\<lparr>hal_pib_MinBE := x\<rparr> = p\<lparr>hal_pib_MaxBE := x, hal_pib_MinBE := x\<rparr>" by simp
    have "hal_set_attr macMaxBE v p = Some (MAC_SUCCESS, u)" using assms(3) lt by (simp add: u_def Let_def)
    then have "pib_set macMaxBE i v p = Some (MAC_SUCCESS, mac_pib_recalc_macMaxFrameTotalWaitTime u)"
      by (simp add: set_hal_eq del: hal_set_attr.simps)
    moreover from at have "attr_of at = Some macMaxBE" by (simp only: attr_of_pib_id)
    then obtain w where "pib_set macMaxBE i v p = Some (MAC_SUCCESS, w)" "q = w \<or> q = w\<lparr>trx_pib_wakeup := False\<rparr>"
      by (rule mlme_set_pib_set [OF assms(2)]) blast
    ultimately have "q = mac_pib_recalc_macMaxFrameTotalWaitTime u \<or> q = (mac_pib_recalc_macMaxFrameTotalWaitTime u)\<lparr>trx_pib_wakeup := False\<rparr>"
      by simp
    then have "hal_pib_MinBE q = hal_pib_MinBE u" "regs q = regs u"
      by (auto simp: mac_pib_recalc_macMaxFrameTotalWaitTime_def Let_def)
    with u field_read_regs [of q u] show ?thesis by simp
  qed
  ultimately show ?thesis by (auto simp: cca_retries_def)
qed

subsection \<open>An example\<close>

definition ex_mst :: mac_st where
  "ex_mst = idle_coordinator\<lparr>free_buffer_q := \<lparr>qhead = Some 0, qtail = Some 0, qcapacity = 16, qsize = 1\<rparr>, buffCount := 15\<rparr>"

definition ex_pib :: pib_st where
  "ex_pib = \<lparr>mst = ex_mst, regs = (\<lambda>_. 0), afe_inits = [], confirms = [], hal_mac_q = qmm_queue_init 255,
     hal_pib_macAckWaitDuration = 54, hal_pib_MaxCSMABackoffs = 4, hal_pib_MinBE = 3, hal_pib_MaxBE = 5, hal_pib_CurrentChannel = 11,
     hal_pib_SupportedChannels = 0x07FFF800, hal_pib_CurrentPage = 0, hal_pib_MaxFrameDuration = 266, hal_pib_SHRDuration = 10,
     hal_pib_SymbolsPerOctet = 2, hal_pib_MaxFrameRetries = 8, hal_pib_TransmitPower = 0, hal_pib_CCAMode = 2,
     hal_pib_PrivatePanCoordinator = 0, hal_pib_PromiscuousMode = 0, hal_pib_BattLifeExt = 0, hal_pib_SuperFrameOrder = 15,
     hal_pib_BeaconTxTime = 0, mac_pib_macAssociatedPANCoord = 0, mac_pib_macMaxFrameTotalWaitTime = 1986,
     mac_pib_macResponseWaitTime = 30720, mac_pib_macAssociationPermit = 0, mac_pib_macTransactionPersistenceTime = 500,
     mac_pib_macBSN = 0, mac_beacon_payload = replicate 52 0, mac_pib_macBeaconPayloadLength = 0, mac_pib_macAutoRequest = 1,
     mac_pib_macBattLifeExtPeriods = 6, mac_pib_macCoordExtendedAddress = \<lparr>hi_u32 = 0, lo_u32 = 0\<rparr>,
     mac_pib_macCoordShortAddress = 0xFFFF, mac_pib_macRxOnWhenIdle = 0,
     mac_sec_pib = \<lparr>KeyTable = replicate 4 (replicate 93 0), KeyTableEntries = 0,
       DeviceTable = replicate 16 \<lparr>devPANId = 0, devShortAddress = 0, devExtAddress = \<lparr>hi_u32 = 0, lo_u32 = 0\<rparr>, devFrameCounter = 0, devExempt = 0\<rparr>,
       DeviceTableEntries = 0, SecurityLevelTable = replicate 12 (replicate 4 0), SecurityLevelTableEntries = 0,
       DefaultKeySource = replicate 8 0\<rparr>,
     trx_pib_wakeup = False, mac_radio_state = RADIO_AWAKE, mac_rx_enabled = False\<rparr>"

lemma ex_pib_wf: "pib_wf ex_pib"
  by (simp add: pib_wf_def ex_pib_def aMaxBeaconPayloadLength_def aMaxPHYPacketSize_def MAC_MAX_KEY_TABLE_ENTRIES_def
      MAC_MAX_DEV_TABLE_ENTRIES_def MAC_MAX_SEC_LVL_TABLE_ENTRIES_def sz_key_table_def sz_sec_lvl_table_def)

lemma quiet_env_keeps: "env_keeps quiet_env"
  by (simp add: env_keeps_def quiet_env_def)

definition ex_start :: pib_st where "ex_start = mac_pib_start 11 0x5A5A ex_pib"

lemma ex_start_reach: "pib_reach quiet_env ex_start"
  unfolding ex_start_def by (rule pib_reach.start [OF ex_pib_wf])

lemma ex_start_wf: "pib_wf ex_start"
  using pib_reach_inv [OF ex_start_reach quiet_env_keeps] by (simp add: pib_inv_def)

text \<open>Setting an attribute of one byte.\<close>

lemma mlme_set_hal8:
  assumes "a \<in> {macMaxBE, macMaxCSMABackoffs, macMinBE}"
  shows "\<exists>q. mlme_set (pib_id a) i [x] slp p = Some (MAC_SUCCESS, q)"
proof -
  have "\<exists>q. pib_set a i [x] p = Some (MAC_SUCCESS, q)"
    using assms by (auto simp: set_hal_eq val_long Let_def)
  then show ?thesis by (auto simp only: mlme_set_def attr_of_pib_id option.case bind.bind_lunit prod.case)
qed

theorem mlme_set_get_roundtrip_witness:
  "\<exists>q. mlme_set (pib_id macMaxBE) 0 [7] True ex_start = Some (MAC_SUCCESS, q) \<and>
     mlme_get (pib_id macMaxBE) 0 q = Some (MAC_SUCCESS, [7])"
proof -
  obtain q where q: "mlme_set (pib_id macMaxBE) 0 [7] True ex_start = Some (MAC_SUCCESS, q)" using mlme_set_hal8 by blast
  from mlme_set_get_roundtrip [OF ex_start_wf q attr_of_pib_id] have "mlme_get (pib_id macMaxBE) 0 q = Some (MAC_SUCCESS, [7])"
    by (simp add: reads_back_def)
  with q show ?thesis by blast
qed

theorem mlme_set_independent_witness:
  "\<exists>q. mlme_set (pib_id macMaxBE) 0 [7] True ex_start = Some (MAC_SUCCESS, q) \<and>
     mlme_get (pib_id macPANId) 0 q = mlme_get (pib_id macPANId) 0 ex_start"
proof -
  obtain q where q: "mlme_set (pib_id macMaxBE) 0 [7] True ex_start = Some (MAC_SUCCESS, q)" using mlme_set_hal8 by blast
  have "\<not> affects macMaxBE macPANId" by (simp add: affects_def)
  with mlme_set_independent [OF q attr_of_pib_id attr_of_pib_id, of macPANId 0] q show ?thesis by blast
qed

theorem pib_reachable_well_formed_witness: "pib_wf ex_start \<and> hal_pib_MinBE ex_start \<le> hal_pib_MaxBE ex_start"
  by (rule pib_reachable_well_formed [OF ex_start_reach quiet_env_keeps])

lemma ex_start_vars: "hal_pib_MinBE ex_start = 3" "hal_pib_MaxCSMABackoffs ex_start = 4"
proof -
  have s: "same_but_regs (mac_hal_pib_init 11 (mac_init_pib 0x5A5A ex_pib)) ex_start"
    using reset_same [of True 11 "mac_init_pib 0x5A5A ex_pib"] by (simp add: ex_start_def mac_pib_start_def)
  show "hal_pib_MinBE ex_start = 3" "hal_pib_MaxCSMABackoffs ex_start = 4"
    using regs_vars(2) [OF s] regs_vars(11) [OF s] by (simp_all add: mac_hal_pib_init_def)
qed

theorem wait_time_follows_equation_14_witness:
  "\<exists>q. mlme_set (pib_id macMaxBE) 0 [7] True ex_start = Some (MAC_SUCCESS, q) \<and>
     mac_pib_macMaxFrameTotalWaitTime q = of_nat (max_frame_total_wait_time (unat (hal_pib_MinBE q)) (unat (hal_pib_MaxBE q))
       (unat (hal_pib_MaxCSMABackoffs q)))"
proof -
  obtain q where q: "mlme_set (pib_id macMaxBE) 0 [7] True ex_start = Some (MAC_SUCCESS, q)" using mlme_set_hal8 by blast
  have "macMaxBE \<in> set hal_attrs" by (simp add: hal_attrs_def)
  from wait_time_follows_equation_14 [OF ex_start_reach quiet_env_keeps q attr_of_pib_id this] q show ?thesis
    unfolding Let_def by blast
qed


theorem backoff_register_stale_witness:
  "\<exists>q. mlme_set (pib_id macMaxBE) 0 [2] True ex_start = Some (MAC_SUCCESS, q) \<and> hal_pib_MinBE q = 2 \<and>
     hal_common_bit_field_reg_read ZIG_MIN_BE q = hal_common_bit_field_reg_read ZIG_MIN_BE ex_start"
proof -
  obtain q where q: "mlme_set (pib_id macMaxBE) 0 [2] True ex_start = Some (MAC_SUCCESS, q)" using mlme_set_hal8 by blast
  have v: "val_u8 [2] = Some 2" by (simp add: val_u8_def arr_get_def)
  have "(2 :: u8) < hal_pib_MinBE ex_start" by (simp add: ex_start_vars)
  with backoff_register_stale [OF ex_start_reach q v] q show ?thesis by blast
qed


end
