(* ===== verification/MacPibTest.thy ===== *)
theory MacPibTest
  imports MacPibProps
begin

unbundle bit_operations_syntax

text \<open>
  The production test on this MAC: every action of the radio configuration is carried out on the
  information base, so that the answers the agent gets are the ones this MAC gives.
\<close>

subsection \<open>The attributes that the production test sets\<close>

text \<open>A value that the attribute accepts.\<close>

fun settable :: "pib_attr \<Rightarrow> u8 list \<Rightarrow> pib_st \<Rightarrow> bool" where
  "settable macAutoRequest v p \<longleftrightarrow> 1 \<le> length v"
| "settable macPANId v p \<longleftrightarrow> 2 \<le> length v"
| "settable macIeeeAddress v p \<longleftrightarrow> 8 \<le> length v"
| "settable phyCurrentChannel v p \<longleftrightarrow> 1 \<le> length v"
| "settable macShortAddress v p \<longleftrightarrow> 2 \<le> length v"
| "settable macBSN v p \<longleftrightarrow> 1 \<le> length v"
| "settable macBeaconPayload v p \<longleftrightarrow> unat (mac_pib_macBeaconPayloadLength p) \<le> length v"
| "settable macBeaconPayloadLength v p \<longleftrightarrow> 1 \<le> length v \<and> hd v \<le> aMaxBeaconPayloadLength"
| "settable _ v p \<longleftrightarrow> False"

lemma set_ok:
  "1 \<le> length v \<Longrightarrow> \<exists>q. pib_set macAutoRequest i v p = Some (MAC_SUCCESS, q)"
  "1 \<le> length v \<Longrightarrow> \<exists>q. pib_set macBSN i v p = Some (MAC_SUCCESS, q)"
  "2 \<le> length v \<Longrightarrow> \<exists>q. pib_set macPANId i v p = Some (MAC_SUCCESS, q)"
  "2 \<le> length v \<Longrightarrow> \<exists>q. pib_set macShortAddress i v p = Some (MAC_SUCCESS, q)"
  "8 \<le> length v \<Longrightarrow> \<exists>q. pib_set macIeeeAddress i v p = Some (MAC_SUCCESS, q)"
  "1 \<le> length v \<Longrightarrow> \<exists>q. pib_set phyCurrentChannel i v p = Some (MAC_SUCCESS, q)"
  "1 \<le> length v \<Longrightarrow> hd v \<le> aMaxBeaconPayloadLength \<Longrightarrow> \<exists>q. pib_set macBeaconPayloadLength i v p = Some (MAC_SUCCESS, q)"
  by (simp_all add: set_u8_def set_hal_eq val_long not_less)

lemma set_payload_ok:
  assumes "unat (mac_pib_macBeaconPayloadLength p) \<le> length v" "pib_wf p"
  shows "\<exists>q. pib_set macBeaconPayload i v p = Some (MAC_SUCCESS, q)"
proof -
  have "unat (mac_pib_macBeaconPayloadLength p) \<le> length (mac_beacon_payload p)"
    using assms(2) by (simp add: pib_wf_def word_le_nat_alt)
  with assms(1) show ?thesis by (simp add: copy_into_def bytes_at_def)
qed

lemma settable_pib_set:
  assumes "settable a v p" "pib_wf p"
  shows "\<exists>q. pib_set a i v p = Some (MAC_SUCCESS, q)"
  using assms set_ok [of v i p] set_payload_ok [of p v i]
  by (cases a) (simp_all del: pib_set.simps)

lemma serve_set:
  assumes "settable a v p" "pib_wf p"
  obtains q where "mac_serves (MlmeSet a v) p = Some (MAC_SUCCESS, q)" "pib_wf q"
    "\<And>j. pib_read a 0 q = Some (MAC_SUCCESS, take (attr_size a q) v)"
    "\<And>b j. \<not> affects a b \<Longrightarrow> pib_read b j q = pib_read b j p"
proof -
  obtain r where r: "pib_set a 0 v p = Some (MAC_SUCCESS, r)" using settable_pib_set [OF assms] by blast
  define q where "q = (if trx_pib_wakeup r \<and> mac_pib_macRxOnWhenIdle r = 0 then r\<lparr>trx_pib_wakeup := False\<rparr> else r)"
  have "mlme_set (pib_id a) 0 v True p = Some (MAC_SUCCESS, q)"
    by (simp only: mlme_set_def attr_of_pib_id option.case r) (simp add: q_def)
  then have "mac_serves (MlmeSet a v) p = Some (MAC_SUCCESS, q)" by simp
  moreover have "pib_wf q" using pib_set_wf [OF r assms(2)] pib_wf_vars [of q r] by (simp add: q_def mac_vars_def)
  moreover have rb: "reads_back a" using assms(1) by (cases a) (simp_all add: reads_back_def)
  have "pib_read a 0 q = Some (MAC_SUCCESS, take (attr_size a q) v)" for j
    using pib_set_reads_back [OF r rb assms(2)] by (simp add: q_def)
  moreover have "pib_read b j q = pib_read b j p" if "\<not> affects a b" for b j
    using pib_set_frame [OF r that] by (simp add: q_def)
  ultimately show thesis using that by blast
qed

text \<open>The environment of the agent when the MAC is this one: a call succeeds when the MAC says so.\<close>

definition mac_answers :: "prodEnv \<Rightarrow> action list \<Rightarrow> pib_st \<Rightarrow> bool" where
  "mac_answers env tr p \<longleftrightarrow>
     (\<forall>as. mlme_ok env (tr @ as) = (map_option fst (mac_run as (MAC_SUCCESS, p)) = Some MAC_SUCCESS) \<and>
           pib_ok env (tr @ as) = (map_option fst (mac_run as (MAC_SUCCESS, p)) = Some MAC_SUCCESS))"

lemma mac_run_append: "mac_run (as @ bs) r = Option.bind (mac_run as r) (mac_run bs)"
proof (induction as arbitrary: r)
  case (Cons a as)
  then show ?case by (cases "mac_serves a (snd r)") simp_all
qed simp

lemma mac_run_snoc:
  assumes "mac_run as r = Some (MAC_SUCCESS, q)" "mac_serves a q = Some (st, q')"
  shows "mac_run (as @ [a]) r = Some (st, q')"
  using assms by (simp add: mac_run_append)

lemma mlme_set_all_step:
  assumes "mac_answers env tr p" "trace s = tr @ as" "mac_run as (MAC_SUCCESS, p) = Some (MAC_SUCCESS, q)"
    "mac_serves (MlmeSet a v) q = Some (MAC_SUCCESS, q')"
  shows "mlme_set_all env ((a, v) # avs) s = mlme_set_all env avs (s\<lparr>trace := tr @ (as @ [MlmeSet a v])\<rparr>)"
    "mac_run (as @ [MlmeSet a v]) (MAC_SUCCESS, p) = Some (MAC_SUCCESS, q')"
proof -
  show r: "mac_run (as @ [MlmeSet a v]) (MAC_SUCCESS, p) = Some (MAC_SUCCESS, q')"
    by (rule mac_run_snoc [OF assms(3,4)])
  then have "mlme_ok env (tr @ (as @ [MlmeSet a v]))"
    using assms(1) unfolding mac_answers_def by (metis option.simps(9) prod.sel(1))
  then show "mlme_set_all env ((a, v) # avs) s = mlme_set_all env avs (s\<lparr>trace := tr @ (as @ [MlmeSet a v])\<rparr>)"
    using assms(2) by (simp add: act_def)
qed

text \<open>What a sequence of settings leaves behind.\<close>

inductive sets_to :: "(pib_attr \<times> u8 list) list \<Rightarrow> pib_st \<Rightarrow> pib_st \<Rightarrow> bool" where
  empty: "sets_to [] p p"
| set: "mac_serves (MlmeSet a v) p = Some (MAC_SUCCESS, q) \<Longrightarrow> sets_to avs q r \<Longrightarrow> sets_to ((a, v) # avs) p r"

lemma sets_to_run:
  assumes "sets_to avs q r" "mac_answers env tr p" "trace s = tr @ as" "mac_run as (MAC_SUCCESS, p) = Some (MAC_SUCCESS, q)"
  shows "\<exists>bs. mlme_set_all env avs s = (s\<lparr>trace := tr @ bs\<rparr>, STATUS_SUCCESS) \<and> mac_run bs (MAC_SUCCESS, p) = Some (MAC_SUCCESS, r)"
  using assms
proof (induction arbitrary: s as rule: sets_to.induct)
  case (empty q)
  then have "s\<lparr>trace := tr @ as\<rparr> = s" by simp
  with empty show ?case by (intro exI [of _ as]) simp
next
  case (set a v q q' avs r)
  note st = mlme_set_all_step [OF set(4,5,6,1)]
  from set(3) [OF set(4) _ st(2), of "s\<lparr>trace := tr @ (as @ [MlmeSet a v])\<rparr>"] st(1) show ?case by auto
qed

lemma rf_sets:
  assumes "pib_wf p" "15 \<le> length par"
  obtains q where "sets_to (rf_attributes par) p q"
    "be64 (hal_pib_IeeeAddress (mst q)) = take 8 par" "be16 (hal_pib_ShortAddress (mst q)) = take 2 (drop 8 par)"
    "hal_pib_CurrentChannel q = par ! 12" "be16 (hal_pib_PANId (mst q)) = take 2 (drop 13 par)"
    "mac_pib_macBSN q = 0x84" "mac_pib_macBeaconPayloadLength q = 10"
    "take 10 (mac_beacon_payload q) = take 10 beacon_payload_prod" "mac_pib_macAutoRequest q = 1"
proof -
  have pl: "length beacon_payload_prod = 48" by (simp add: beacon_payload_prod_def)
  obtain q1 where q1: "mac_serves (MlmeSet macAutoRequest [1]) p = Some (MAC_SUCCESS, q1)" "pib_wf q1"
    "pib_read macAutoRequest 0 q1 = Some (MAC_SUCCESS, take (attr_size macAutoRequest q1) [1])"
    by (rule serve_set [of macAutoRequest "[1]" p]) (use assms in simp_all)
  obtain q2 where q2: "mac_serves (MlmeSet macPANId (take 2 (drop 13 par))) q1 = Some (MAC_SUCCESS, q2)" "pib_wf q2"
    "pib_read macPANId 0 q2 = Some (MAC_SUCCESS, take (attr_size macPANId q2) (take 2 (drop 13 par)))"
    "\<And>b j. \<not> affects macPANId b \<Longrightarrow> pib_read b j q2 = pib_read b j q1"
    by (rule serve_set [of macPANId "take 2 (drop 13 par)" q1]) (use assms q1(2) in simp_all)
  obtain q3 where q3: "mac_serves (MlmeSet macIeeeAddress (take 8 par)) q2 = Some (MAC_SUCCESS, q3)" "pib_wf q3"
    "pib_read macIeeeAddress 0 q3 = Some (MAC_SUCCESS, take (attr_size macIeeeAddress q3) (take 8 par))"
    "\<And>b j. \<not> affects macIeeeAddress b \<Longrightarrow> pib_read b j q3 = pib_read b j q2"
    by (rule serve_set [of macIeeeAddress "take 8 par" q2]) (use assms q2(2) in simp_all)
  obtain q4 where q4: "mac_serves (MlmeSet phyCurrentChannel [par ! 12]) q3 = Some (MAC_SUCCESS, q4)" "pib_wf q4"
    "pib_read phyCurrentChannel 0 q4 = Some (MAC_SUCCESS, take (attr_size phyCurrentChannel q4) [par ! 12])"
    "\<And>b j. \<not> affects phyCurrentChannel b \<Longrightarrow> pib_read b j q4 = pib_read b j q3"
    by (rule serve_set [of phyCurrentChannel "[par ! 12]" q3]) (use assms q3(2) in simp_all)
  obtain q5 where q5: "mac_serves (MlmeSet macShortAddress (take 2 (drop 8 par))) q4 = Some (MAC_SUCCESS, q5)" "pib_wf q5"
    "pib_read macShortAddress 0 q5 = Some (MAC_SUCCESS, take (attr_size macShortAddress q5) (take 2 (drop 8 par)))"
    "\<And>b j. \<not> affects macShortAddress b \<Longrightarrow> pib_read b j q5 = pib_read b j q4"
    by (rule serve_set [of macShortAddress "take 2 (drop 8 par)" q4]) (use assms q4(2) in simp_all)
  obtain q6 where q6: "mac_serves (MlmeSet macBeaconPayloadLength [10]) q5 = Some (MAC_SUCCESS, q6)" "pib_wf q6"
    "pib_read macBeaconPayloadLength 0 q6 = Some (MAC_SUCCESS, take (attr_size macBeaconPayloadLength q6) [10])"
    "\<And>b j. \<not> affects macBeaconPayloadLength b \<Longrightarrow> pib_read b j q6 = pib_read b j q5"
    by (rule serve_set [of macBeaconPayloadLength "[10]" q5])
      (use assms q5(2) in \<open>simp_all add: aMaxBeaconPayloadLength_def aMaxPHYPacketSize_def\<close>)
  have l6: "mac_pib_macBeaconPayloadLength q6 = 10" using q6(3) by simp
  obtain q7 where q7: "mac_serves (MlmeSet macBeaconPayload beacon_payload_prod) q6 = Some (MAC_SUCCESS, q7)" "pib_wf q7"
    "pib_read macBeaconPayload 0 q7 = Some (MAC_SUCCESS, take (attr_size macBeaconPayload q7) beacon_payload_prod)"
    "\<And>b j. \<not> affects macBeaconPayload b \<Longrightarrow> pib_read b j q7 = pib_read b j q6"
    by (rule serve_set [of macBeaconPayload beacon_payload_prod q6]) (use assms q6(2) l6 pl in simp_all)
  obtain q8 where q8: "mac_serves (MlmeSet macBSN [0x84]) q7 = Some (MAC_SUCCESS, q8)"
    "pib_read macBSN 0 q8 = Some (MAC_SUCCESS, take (attr_size macBSN q8) [0x84])"
    "\<And>b j. \<not> affects macBSN b \<Longrightarrow> pib_read b j q8 = pib_read b j q7"
    by (rule serve_set [of macBSN "[0x84]" q7]) (use assms q7(2) in simp_all)
  note frames = q2(4) q3(4) q4(4) q5(4) q6(4) q7(4) q8(3)
  have s: "sets_to (rf_attributes par) p q8" unfolding rf_attributes_def
    by (intro sets_to.set [OF q1(1)] sets_to.set [OF q2(1)] sets_to.set [OF q3(1)] sets_to.set [OF q4(1)]
        sets_to.set [OF q5(1)] sets_to.set [OF q6(1)] sets_to.set [OF q7(1)] sets_to.set [OF q8(1)] sets_to.empty)
  have na: "\<not> affects a b" if "a \<noteq> b" "b \<notin> {macMaxFrameTotalWaitTime, macBeaconPayload, macMinBE}"
    "a \<in> {macPANId, macIeeeAddress, phyCurrentChannel, macShortAddress, macBeaconPayloadLength, macBeaconPayload, macBSN}" for a b
    using that by (auto simp: affects_def)
  have nb: "\<not> affects macBSN macBeaconPayload" by (simp add: affects_def hal_attrs_def)
  have r: "pib_read macAutoRequest 0 q8 = Some (MAC_SUCCESS, [1])"
    using q1(3) by (simp add: frames na del: pib_read.simps)
  have r2: "pib_read macPANId 0 q8 = Some (MAC_SUCCESS, take 2 (drop 13 par))"
    using q2(3) by (simp add: frames na del: pib_read.simps)
  have r3: "pib_read macIeeeAddress 0 q8 = Some (MAC_SUCCESS, take 8 par)"
    using q3(3) by (simp add: frames na del: pib_read.simps)
  have r4: "pib_read phyCurrentChannel 0 q8 = Some (MAC_SUCCESS, [par ! 12])"
    using q4(3) by (simp add: frames na del: pib_read.simps)
  have r5: "pib_read macShortAddress 0 q8 = Some (MAC_SUCCESS, take 2 (drop 8 par))"
    using q5(3) by (simp add: frames na del: pib_read.simps)
  have r6: "pib_read macBeaconPayloadLength 0 q8 = Some (MAC_SUCCESS, [10])"
    "pib_read macBeaconPayloadLength 0 q7 = Some (MAC_SUCCESS, [10])"
    using q6(3) by (simp_all add: frames na del: pib_read.simps)
  have r7: "pib_read macBeaconPayload 0 q8 = Some (MAC_SUCCESS, take 10 beacon_payload_prod)"
  proof -
    have "attr_size macBeaconPayload q7 = 10" using r6(2) by simp
    with q7(3) have "pib_read macBeaconPayload 0 q7 = Some (MAC_SUCCESS, take 10 beacon_payload_prod)" by metis
    with q8(3) [OF nb, of 0] show ?thesis by metis
  qed
  show thesis
    by (rule that [OF s]) (use r r2 r3 r4 r5 r6 r7 q8(2) in \<open>auto simp: bytes_at_0\<close>)
qed

text \<open>Switching the receiver of the test on: the registers, and the coordinator flag.\<close>

lemma rx_actions_run:
  obtains q where
    "mac_run [ZigCtrlSet x, PibSet macPromiscuousMode 0, ZbIntDisable y, PibSet I_AM_PAN_COORDINATOR 0] (MAC_SUCCESS, p) =
       Some (MAC_SUCCESS, q)"
    "same_but_regs (p\<lparr>hal_pib_PromiscuousMode := 0, hal_pib_PrivatePanCoordinator := 1\<rparr>) q"
proof -
  have pr: "attr_of (pib_id macPromiscuousMode) = Some macPromiscuousMode"
    "attr_of (pib_id I_AM_PAN_COORDINATOR) = Some I_AM_PAN_COORDINATOR" by (rule attr_of_pib_id)+
  define p1 where "p1 = hal_common_reg_bit_set ZigCtrl x p"
  define p2 where "p2 = hal_common_bit_field_reg_write ZIG_PROMISCUOUS_EN 0 (p1\<lparr>hal_pib_PromiscuousMode := 0\<rparr>)"
  define p3 where "p3 = mac_hal_zigbee_interrupt_control False y p2"
  define p4 where "p4 = hal_common_bit_field_reg_write ZIG_COO_EN 1 (p3\<lparr>hal_pib_PrivatePanCoordinator := 1\<rparr>)"
  have v: "val_u8 [0] = Some 0" by (simp add: val_u8_def arr_get_def)
  have s2: "mac_serves (PibSet macPromiscuousMode 0) p1 = Some (MAC_SUCCESS, p2)"
    by (simp add: mac_hal_pib_set_def pr v p2_def del: pib_id.simps)
  have s4: "mac_serves (PibSet I_AM_PAN_COORDINATOR 0) p3 = Some (MAC_SUCCESS, p4)"
    by (simp add: mac_hal_pib_set_def pr v p4_def del: pib_id.simps)
  have run: "mac_run [ZigCtrlSet x, PibSet macPromiscuousMode 0, ZbIntDisable y, PibSet I_AM_PAN_COORDINATOR 0] (MAC_SUCCESS, p) =
      Some (MAC_SUCCESS, p4)"
    by (simp add: s2 s4 p1_def [symmetric] p3_def [symmetric] del: mac_serves.simps(2))
  have u: "\<exists>r. p1 = p\<lparr>regs := r\<rparr>" "\<exists>r. p2 = p1\<lparr>hal_pib_PromiscuousMode := 0, regs := r\<rparr>" "\<exists>r. p3 = p2\<lparr>regs := r\<rparr>"
    "\<exists>r. p4 = p3\<lparr>hal_pib_PrivatePanCoordinator := 1, regs := r\<rparr>"
    using reg_ops_same unfolding p1_def p2_def p3_def p4_def same_but_regs_def by blast+
  then have "same_but_regs (p\<lparr>hal_pib_PromiscuousMode := 0, hal_pib_PrivatePanCoordinator := 1\<rparr>) p4"
    by (auto simp: same_but_regs_def)
  with run show thesis by (rule that)
qed

text \<open>C29.
  The radio test configures the MAC it runs on.  When the calls of the production agent are
  answered by this MAC, in any well-formed state of its information base, the configuration of a
  radio test always succeeds, and afterwards the information base holds what the tool asked for:
  the extended and short address, the channel and the PAN of the parameters, byte for byte, the
  fixed beacon payload with its length, the sequence number, and implicit polling.  In a
  reception test promiscuous mode is off, and the device is a PAN coordinator, although the agent
  asks for the opposite.\<close>

theorem rf_test_configures_mac:
  assumes "mac_answers env (trace s) p" "pib_wf p" "15 \<le> length par"
  shows "\<exists>s' as q. config_rf_test_parameters env par tt s = (s', STATUS_SUCCESS) \<and>
    trace s' = trace s @ as \<and> mac_run as (MAC_SUCCESS, p) = Some (MAC_SUCCESS, q) \<and>
    be64 (hal_pib_IeeeAddress (mst q)) = take 8 par \<and> be16 (hal_pib_ShortAddress (mst q)) = take 2 (drop 8 par) \<and>
    hal_pib_CurrentChannel q = par ! 12 \<and> be16 (hal_pib_PANId (mst q)) = take 2 (drop 13 par) \<and>
    mac_pib_macBSN q = 0x84 \<and> mac_pib_macBeaconPayloadLength q = 10 \<and>
    take 10 (mac_beacon_payload q) = take 10 beacon_payload_prod \<and> mac_pib_macAutoRequest q = 1 \<and>
    (tt = RF_RX \<longrightarrow> hal_pib_PromiscuousMode q = 0 \<and> hal_pib_PrivatePanCoordinator q = 1)"
proof -
  obtain q where q: "sets_to (rf_attributes par) p q"
    "be64 (hal_pib_IeeeAddress (mst q)) = take 8 par" "be16 (hal_pib_ShortAddress (mst q)) = take 2 (drop 8 par)"
    "hal_pib_CurrentChannel q = par ! 12" "be16 (hal_pib_PANId (mst q)) = take 2 (drop 13 par)"
    "mac_pib_macBSN q = 0x84" "mac_pib_macBeaconPayloadLength q = 10"
    "take 10 (mac_beacon_payload q) = take 10 beacon_payload_prod" "mac_pib_macAutoRequest q = 1"
    by (rule rf_sets [OF assms(2,3)])
  have "trace s = trace s @ []" "mac_run [] (MAC_SUCCESS, p) = Some (MAC_SUCCESS, p)" by simp_all
  from sets_to_run [OF q(1) assms(1) this] obtain bs where
    bs: "mlme_set_all env (rf_attributes par) s = (s\<lparr>trace := trace s @ bs\<rparr>, STATUS_SUCCESS)"
    "mac_run bs (MAC_SUCCESS, p) = Some (MAC_SUCCESS, q)" by blast
  show ?thesis
  proof (cases tt)
    case RF_TX
    with bs q show ?thesis
      by (intro exI [of _ "s\<lparr>trace := trace s @ bs\<rparr>"] exI [of _ bs] exI [of _ q]) (simp add: config_rf_test_parameters_def)
  next
    case RF_RX
    let ?x = "ZIG_CTRL_TX_EN OR ZIG_CTRL_RX_EN OR ZIG_CTRL_ACK_EN OR ZIG_CTRL_NON_BEACON"
    let ?y = "CPU_INT_ZB_BC_TX_TIME OR CPU_INT_ZB_PRE_BC_TX_TIME"
    let ?as = "[ZigCtrlSet ?x, PibSet macPromiscuousMode 0, ZbIntDisable ?y, PibSet I_AM_PAN_COORDINATOR 0]"
    obtain u where u: "mac_run ?as (MAC_SUCCESS, q) = Some (MAC_SUCCESS, u)"
      "same_but_regs (q\<lparr>hal_pib_PromiscuousMode := 0, hal_pib_PrivatePanCoordinator := 1\<rparr>) u"
      by (rule rx_actions_run)
    have ru: "mac_run (bs @ ?as) (MAC_SUCCESS, p) = Some (MAC_SUCCESS, u)"
      unfolding mac_run_append bs(2) using u(1) by simp
    then have ok: "pib_ok env (trace s @ (bs @ ?as))"
      using assms(1) unfolding mac_answers_def by (metis option.simps(9) prod.sel(1))
    define w where "w = hal_common_reg_bit_set ZigCtrl ZIG_CTRL_ACK_EN u"
    have rw: "mac_run ((bs @ ?as) @ [ZigCtrlSet ZIG_CTRL_ACK_EN]) (MAC_SUCCESS, p) = Some (MAC_SUCCESS, w)"
      by (rule mac_run_snoc [OF ru]) (simp add: w_def)
    have "same_but_regs u w" unfolding w_def by auto
    with u(2) obtain r where w: "w = (q\<lparr>hal_pib_PromiscuousMode := 0, hal_pib_PrivatePanCoordinator := 1\<rparr>)\<lparr>regs := r\<rparr>"
      by (auto simp: same_but_regs_def)
    define s' where "s' = fst (config_rf_test_parameters env par tt s)"
    have "config_rf_test_parameters env par tt s = (s', STATUS_SUCCESS)"
      and "trace s' = trace s @ ((bs @ ?as) @ [ZigCtrlSet ZIG_CTRL_ACK_EN])"
      using ok by (simp_all add: s'_def RF_RX config_rf_test_parameters_def bs(1) mac_diag_config_tx_rx_def act_def Let_def)
    with rw q w show ?thesis
      by (intro exI [of _ s'] exI [of _ "(bs @ ?as) @ [ZigCtrlSet ZIG_CTRL_ACK_EN]"] exI [of _ w]) simp
  qed
qed

text \<open>The agent on this MAC, with an empty trace.\<close>

definition mac_env :: "pib_st \<Rightarrow> prodEnv \<Rightarrow> prodEnv" where
  "mac_env p env = env\<lparr>
     mlme_ok := \<lambda>as. map_option fst (mac_run as (MAC_SUCCESS, p)) = Some MAC_SUCCESS,
     pib_ok := \<lambda>as. map_option fst (mac_run as (MAC_SUCCESS, p)) = Some MAC_SUCCESS\<rparr>"

lemma mac_env_answers: "mac_answers (mac_env p env) [] p"
  by (simp add: mac_answers_def mac_env_def)

theorem rf_test_configures_mac_witness:
  "\<exists>(s :: prodState) s' as q. config_rf_test_parameters (mac_env ex_start undefined) (map of_nat [0..<15]) RF_RX s = (s', STATUS_SUCCESS) \<and>
     mac_run as (MAC_SUCCESS, ex_start) = Some (MAC_SUCCESS, q) \<and> hal_pib_CurrentChannel q = 12 \<and>
     be16 (hal_pib_PANId (mst q)) = [13, 14] \<and> hal_pib_PrivatePanCoordinator q = 1"
proof -
  define s :: prodState where "s = undefined\<lparr>trace := []\<rparr>"
  have a: "mac_answers (mac_env ex_start undefined) (trace s) ex_start" by (simp add: s_def mac_env_answers)
  have l: "15 \<le> length (map of_nat [0..<15] :: u8 list)" by simp
  have v: "(map of_nat [0..<15] :: u8 list) ! 12 = 12" "take 2 (drop 13 (map of_nat [0..<15] :: u8 list)) = [13, 14]"
    by (simp_all add: upt_rec)
  from rf_test_configures_mac [OF a ex_start_wf l, of RF_RX] v show ?thesis by (metis (no_types, lifting))
qed

end
