(* ===== verification/MacPibServe.thy ===== *)
theory MacPibServe
  imports MacPibProps QmmProps
begin

unbundle bit_operations_syntax

text \<open>
  Requests from the API to their confirmation: the memory of the buffers and the attributes are
  independent parts of the state, an MLME-SET request is carried out and answered, and MLME-RESET
  leaves every attribute as it is.
\<close>

subsection \<open>Attributes and memory\<close>

text \<open>The attributes that live in the state of the data service, and the rest of that state.\<close>

definition attrs_of :: "mac_st \<Rightarrow> (u16 \<times> u16 \<times> u64 \<times> u8) \<times> u8 \<times> u8 \<times> u32" where
  "attrs_of s = (ident s, mac_pib_macDSN s, mac_pib_macSecurityEnabled s, FrameCounter s)"

lemma attrs_more: "bmm_mem.more s' = bmm_mem.more s \<Longrightarrow> attrs_of s' = attrs_of s"
  by (cases s; cases s') (simp add: ident_def attrs_of_def)

lemma attrs_update [simp]:
  "attrs_of (s\<lparr>nhle_mac_q := q\<rparr>) = attrs_of s" "attrs_of (s\<lparr>indirect_data_q := q\<rparr>) = attrs_of s"
  "attrs_of (s\<lparr>broadcast_q := q\<rparr>) = attrs_of s" "attrs_of (put_body b m s) = attrs_of s"
  "attrs_of (mac_hal_frame_pending x s) = attrs_of s"
  by (simp_all add: attrs_of_def ident_def put_body_def mac_hal_frame_pending_def mact_def)

lemma read_attrs: "attrs_of s = attrs_of (mst p) \<Longrightarrow> pib_read b j (p\<lparr>mst := s\<rparr>) = pib_read b j p"
  by (cases b) (simp_all add: attrs_of_def ident_def)

lemma read_beside [simp]:
  "pib_read b j (p\<lparr>confirms := c\<rparr>) = pib_read b j p" "pib_read b j (p\<lparr>hal_mac_q := q\<rparr>) = pib_read b j p"
  by (cases b; simp)+

text \<open>What setting an attribute never touches.\<close>

definition mem_of :: "mac_st \<Rightarrow> (nat \<Rightarrow> nat option) \<times> (nat \<Rightarrow> body_t) \<times> queue_t \<times> u8 \<times> queue_t" where
  "mem_of s = (bnext s, body s, free_buffer_q s, buffCount s, nhle_mac_q s)"

lemma mem_update [simp]:
  "mem_of (s\<lparr>hal_pib_PANId := x\<rparr>) = mem_of s" "mem_of (s\<lparr>hal_pib_ShortAddress := x\<rparr>) = mem_of s"
  "mem_of (s\<lparr>hal_pib_IeeeAddress := y\<rparr>) = mem_of s" "mem_of (s\<lparr>hal_pib_BeaconOrder := z\<rparr>) = mem_of s"
  "mem_of (s\<lparr>mac_pib_macDSN := z\<rparr>) = mem_of s" "mem_of (s\<lparr>mac_pib_macSecurityEnabled := z\<rparr>) = mem_of s"
  "mem_of (s\<lparr>FrameCounter := w\<rparr>) = mem_of s"
  by (simp_all add: mem_of_def)

lemma same_confirms: "same_but_regs p q \<Longrightarrow> confirms q = confirms p"
  by (auto simp: same_but_regs_def)

lemmas reg_ops_confirms [simp] = reg_ops_same [THEN same_confirms]

lemma order_mst: "mem_of (mst (set_beacon_order x p)) = mem_of (mst p)" "mem_of (mst (set_superframe_order x p)) = mem_of (mst p)"
  "mem_of (mst (set_rx_on_when_idle x p)) = mem_of (mst p)"
  "confirms (set_beacon_order x p) = confirms p" "confirms (set_superframe_order x p) = confirms p"
  "confirms (set_rx_on_when_idle x p) = confirms p"
  using regs_vars(1) [OF set_beacon_order_same [where p = p and x = x]]
    regs_vars(1) [OF set_superframe_order_same [where p = p and x = x]]
    regs_vars(1) [OF set_rx_on_when_idle_same [where p = p and x = x]]
    same_confirms [OF set_beacon_order_same [where p = p and x = x]]
    same_confirms [OF set_superframe_order_same [where p = p and x = x]]
    same_confirms [OF set_rx_on_when_idle_same [where p = p and x = x]]
  by simp_all

lemma hal_set_mem:
  assumes "hal_set_attr a v p = Some (st, q)"
  shows "mem_of (mst q) = mem_of (mst p) \<and> confirms q = confirms p"
proof (cases "a \<in> {macMinBE, macMaxBE}")
  case True
  with assms obtain x where x: "val_u8 v = Some x" by (auto simp: bind_eq_Some_conv)
  show ?thesis using True assms x
    by (cases "hal_pib_MaxBE p < x"; cases "x < hal_pib_MinBE p") (auto simp: Let_def not_less)
next
  case False
  with assms show ?thesis
    by (cases a; simp add: bind_eq_Some_conv Let_def; (elim exE conjE)?; (hypsubst)?; (simp add: order_mst)?)
qed

lemma pib_set_mem:
  assumes "pib_set a i v p = Some (st, q)"
  shows "mem_of (mst q) = mem_of (mst p) \<and> confirms q = confirms p"
proof (cases "a \<in> set hal_attrs")
  case True
  with assms obtain r where r: "hal_set_attr a v p = Some (st, r)"
    "q = (if st = MAC_SUCCESS then mac_pib_recalc_macMaxFrameTotalWaitTime r else r)"
    by (auto simp: pib_set_hal set_hal_eq)
  have "mst q = mst r" "confirms q = confirms r" by (simp_all add: r(2) mac_pib_recalc_macMaxFrameTotalWaitTime_def Let_def)
  with hal_set_mem [OF r(1)] show ?thesis by simp
next
  case False
  show ?thesis
  proof (cases "a \<in> {macBeaconPayloadLength, macKeyTableEntries, macDeviceTableEntries, macSecurityLevelTableEntries}")
    case True
    with assms(1) show ?thesis
      by (elim insertE emptyE; simp add: bind_eq_Some_conv set_entries_def set_sec_def; elim exE conjE; simp split: if_splits;
          (elim conjE, hypsubst)?; simp add: set_sec_def)
  next
    case n: False
    with assms False show ?thesis
      by (cases a)
        (simp_all add: hal_attrs_def bind_eq_Some_conv set_u8_def set_u16_def set_mst_def set_sec_def split: if_splits,
         ((elim exE conjE; hypsubst; simp add: order_mst; fail) | (elim conjE; hypsubst; simp; fail))+)
  qed
qed

lemma conf_read:
  assumes "mlme_conf b m p = Some q"
  shows "pib_read x j q = pib_read x j p"
proof -
  from assms obtain s where s: "bmm_buffer_free (Some b) (put_body b (MlmeMsg m) (mst p)) = Some s"
    "q = (p\<lparr>confirms := confirms p @ [m]\<rparr>)\<lparr>mst := s\<rparr>"
    by (auto simp: mlme_conf_def bind_eq_Some_conv)
  have "attrs_of s = attrs_of (mst (p\<lparr>confirms := confirms p @ [m]\<rparr>))" using attrs_more [OF free_more [OF s(1)]] by simp
  from read_attrs [OF this] show ?thesis by (simp add: s(2))
qed

lemma flush_attrs: "qmm_queue_flush q s = Some (q', s') \<Longrightarrow> attrs_of s' = attrs_of s"
  unfolding qmm_queue_flush_def by (rule attrs_more [OF rounds_more])

lemma flush_read:
  assumes "mac_q_flush p = Some q"
  shows "pib_read x j q = pib_read x j p"
proof -
  from assms obtain q1 s1 q2 s2 q3 s3 q4 s4 where
    f: "qmm_queue_flush (nhle_mac_q (mst p)) (mst p) = Some (q1, s1)"
      "qmm_queue_flush (hal_mac_q p) (s1\<lparr>nhle_mac_q := q1\<rparr>) = Some (q2, s2)"
      "qmm_queue_flush (indirect_data_q s2) s2 = Some (q3, s3)"
      "qmm_queue_flush (broadcast_q (mac_hal_frame_pending False (s3\<lparr>indirect_data_q := q3\<rparr>)))
         (mac_hal_frame_pending False (s3\<lparr>indirect_data_q := q3\<rparr>)) = Some (q4, s4)"
    and q: "q = (p\<lparr>hal_mac_q := q2\<rparr>)\<lparr>mst := s4\<lparr>broadcast_q := q4\<rparr>\<rparr>"
    unfolding mac_q_flush_def Let_def by (simp add: bind_eq_Some_conv) blast
  have "attrs_of (s4\<lparr>broadcast_q := q4\<rparr>) = attrs_of (mst (p\<lparr>hal_mac_q := q2\<rparr>))"
    using f [THEN flush_attrs] by simp
  from read_attrs [OF this] show ?thesis by (simp add: q)
qed

text \<open>C31.
  MLME-RESET resets nothing.  Whatever the request asks for, every attribute that can be read has
  the same value afterwards, although the confirmation reports success: its first two bytes are
  the code of the confirmation and MAC_SUCCESS.\<close>

theorem mlme_reset_keeps_attributes:
  assumes "mlme_reset_request b p = Some q"
  shows "mlme_get at j q = mlme_get at j p \<and>
    (\<exists>m. confirms q = confirms p @ [m] \<and> take 2 m = [MLME_RESET_CONFIRM, MAC_SUCCESS])"
proof -
  from assms obtain m m1 m2 r where
    m: "arr_set m 1 MAC_SUCCESS = Some m1" "arr_set m1 0 MLME_RESET_CONFIRM = Some m2"
      "mlme_conf b m2 p = Some r" "mac_q_flush r = Some q"
    by (auto simp: mlme_reset_request_def mac_trx_wakeup_def mac_trx_sleep_def Let_def bind_eq_Some_conv)
  have "mlme_get at j q = mlme_get at j p"
    using conf_read [OF m(3)] flush_read [OF m(4)] by (simp add: mlme_get_def split: option.split)
  moreover have "confirms r = confirms p @ [m2]" using m(3) by (auto simp: mlme_conf_def bind_eq_Some_conv)
  moreover have "confirms q = confirms r" using m(4) by (auto simp: mac_q_flush_def Let_def bind_eq_Some_conv)
  moreover have "take 2 m2 = [MLME_RESET_CONFIRM, MAC_SUCCESS]"
  proof -
    from m(1,2) have "2 \<le> length m" "m2 = m[1 := MAC_SUCCESS, 0 := MLME_RESET_CONFIRM]"
      by (auto simp: arr_set_def split: if_splits)
    then show ?thesis by (auto simp: numeral_2_eq_2 Suc_le_length_iff)
  qed
  ultimately show ?thesis by auto
qed

subsection \<open>A request from the API to its confirmation\<close>

lemma set_total:
  assumes "sz_key_table \<le> length v" "pib_wf p"
  shows "\<exists>st q. pib_set a i v p = Some (st, q)"
proof -
  have l: "sz_key_table = 93" by (simp add: sz_key_table_def)
  have v: "\<exists>x. val_u8 v = Some x" "\<exists>y. val_u16 v = Some y" "\<exists>z. val_u32 v = Some z" "\<exists>w. val_u64 v = Some w"
    using assms(1) unfolding l by (auto simp: val_u8_def arr_get_def val_u16_def val_u64_def val_u32_def bytes_at_def)
  have d: "\<exists>d. device_of_value v = Some d"
    using assms(1) unfolding l
    by (auto simp: device_of_value_def val_u8_def arr_get_def val_u16_def val_u64_def val_u32_def bytes_at_def)
  obtain x y z w e where vs: "val_u8 v = Some x" "val_u16 v = Some y" "val_u32 v = Some z" "val_u64 v = Some w"
    "device_of_value v = Some e" using v d by blast
  have h: "\<exists>st q. hal_set_attr a v p = Some (st, q)" by (cases a) (simp_all add: vs Let_def)
  show ?thesis
  proof (cases "a \<in> set hal_attrs")
    case True
    with h show ?thesis by (auto simp: pib_set_hal set_hal_eq)
  next
    case False
    have pw: "unat (mac_pib_macBeaconPayloadLength p) \<le> 52" "length (mac_beacon_payload p) = 52"
      "length (DefaultKeySource (mac_sec_pib p)) = 8"
      "unat (KeyTableEntries (mac_sec_pib p)) \<le> length (KeyTable (mac_sec_pib p))"
      "unat (DeviceTableEntries (mac_sec_pib p)) \<le> length (DeviceTable (mac_sec_pib p))"
      "unat (SecurityLevelTableEntries (mac_sec_pib p)) \<le> length (SecurityLevelTable (mac_sec_pib p))"
      using assms(2) by (simp_all add: pib_wf_def word_le_nat_alt aMaxBeaconPayloadLength_def aMaxPHYPacketSize_def)
    have lt: "\<exists>t. arr_set xs (unat i) c = Some t" if "\<not> n \<le> i" "unat n \<le> length xs" for n and xs :: "'z list" and c
      using that by (auto simp: arr_set_def word_le_nat_alt)
    show ?thesis
      using False pw(1-3) assms(1) lt [OF _ pw(4)] lt [OF _ pw(5)] lt [OF _ pw(6)]
      by (cases a)
        (simp_all add: hal_attrs_def vs set_u8_def set_u16_def set_entries_def copy_into_def bytes_at_def l
          sz_sec_lvl_table_def bind_eq_Some_conv)
  qed
qed

lemma store_at_0: "store_at 0 bs m = (if length bs \<le> length m then Some (bs @ drop (length bs) m) else None)"
  by (simp add: store_at_def)

lemma store_at_3:
  "length hdr = 3 \<Longrightarrow> store_at 3 bs (hdr @ r) = (if length bs \<le> length r then Some (hdr @ bs @ drop (length bs) r) else None)"
  by (auto simp: store_at_def)

text \<open>The sizes that the table gives.\<close>

lemma size_bound:
  assumes "mac_get_pib_attribute_size i p = Some n" "pib_wf p"
  shows "unat n \<le> 93"
proof -
  have g: "n \<in> set xs" if "arr_get xs k = Some n" for xs k using that by (auto simp: arr_get_def split: if_splits)
  have pl: "unat (mac_pib_macBeaconPayloadLength p) \<le> 93"
    using assms(2) by (simp add: pib_wf_def word_le_nat_alt aMaxBeaconPayloadLength_def aMaxPHYPacketSize_def)
  have "mac_pib_macBeaconPayloadLength p = n \<or> n \<in> set phy_pib_size \<or> n \<in> set mac_pib_size \<or> n \<in> set mac_sec_pib_size \<or>
      n \<in> set private_pib_size \<or> n = 0"
    using assms(1) g unfolding mac_get_pib_attribute_size_def by (auto split: if_splits)
  moreover have "\<forall>x \<in> set phy_pib_size \<union> set mac_pib_size \<union> set mac_sec_pib_size \<union> set private_pib_size. unat x \<le> 93"
    by (simp add: phy_pib_size_def mac_pib_size_def mac_sec_pib_size_def private_pib_size_def sz_key_table_def sz_sec_lvl_table_def)
  ultimately show ?thesis using pl by auto
qed

lemma size_mst: "mac_get_pib_attribute_size i (p\<lparr>mst := s\<rparr>) = mac_get_pib_attribute_size i p"
  by (simp add: mac_get_pib_attribute_size_def)

text \<open>The state of the queues between the API and the task.\<close>

definition served :: "pib_st \<Rightarrow> nat list \<Rightarrow> bool" where
  "served p fl \<longleftrightarrow> bmm_inv (mst p) fl \<and> queue_rep (mst p) (nhle_mac_q (mst p)) [] \<and>
     0 < unat (qcapacity (nhle_mac_q (mst p))) \<and> \<not> mac_busy (mst p)"

lemma api_set_spec:
  fixes i :: u8
  assumes s: "served p (b # fl)" and old: "length old = BUFFER_SIZE" and wf: "pib_wf p"
    and n: "mac_get_pib_attribute_size x p = Some n" and v: "unat n \<le> length v"
  defines "m \<equiv> [MLME_SET_REQUEST, x, i] @ take (unat n) v @ drop (3 + unat n) old"
  obtains u where "mac_api_mlme_set_req old x i v p = Some (True, p\<lparr>mst := u\<rparr>)"
    "body u b = MlmeMsg m" "bmm_inv u fl" "queue_rep u (nhle_mac_q u) [b]" "attrs_of u = attrs_of (mst p)"
    "mac_busy u = mac_busy (mst p)" "0 < unat (qcapacity (nhle_mac_q u))"
proof -
  from s have inv: "bmm_inv (mst p) (b # fl)" and q: "queue_rep (mst p) (nhle_mac_q (mst p)) []"
    and cap: "0 < unat (qcapacity (nhle_mac_q (mst p)))" by (simp_all add: served_def)
  obtain s1 where s1: "bmm_buffer_alloc (of_nat BUFFER_SIZE) (mst p) = Some (Some b, s1)" "bmm_inv s1 fl" "bmm_only {} (mst p) s1"
    using bmm_alloc_some [OF inv] by blast
  let ?s2 = "put_body b (MlmeMsg m) s1"
  have m1: "bmm_mem.more s1 = bmm_mem.more (mst p)" using bmm_only_fields [OF s1(3)] by simp
  have nq: "nhle_mac_q s1 = nhle_mac_q (mst p)" "mac_busy s1 = mac_busy (mst p)"
    using m1 by (cases s1; cases "mst p"; simp)+
  have q1: "queue_rep ?s2 (nhle_mac_q s1) []" using bmm_only_rep [OF s1(3) q] by (simp add: nq queue_rep_def put_body_def)
  obtain q' s3 where s3: "qmm_queue_append (nhle_mac_q s1) b ?s2 = Some (True, q', s3)" "queue_rep s3 q' [b]"
    "qcapacity q' = qcapacity (nhle_mac_q s1)" "links_only {b} ?s2 s3"
    using queue_append_rep [OF q1, of b] cap nq by auto
  define u where "u = s3\<lparr>nhle_mac_q := q'\<rparr>"
  have sz: "mac_get_pib_attribute_size x (p\<lparr>mst := s1\<rparr>) = Some n" using n by (simp add: size_mst)
  have nb: "unat n \<le> 93" using size_bound [OF n wf] .
  have st0: "store_at 0 [MLME_SET_REQUEST, x, i] old = Some ([MLME_SET_REQUEST, x, i] @ drop 3 old)"
    using old by (simp add: store_at_0 BUFFER_SIZE_def numeral_3_eq_3)
  have st3: "store_at 3 (take (unat n) v) ([MLME_SET_REQUEST, x, i] @ drop 3 old) = Some m"
  proof -
    have l3: "length [MLME_SET_REQUEST, x, i] = 3" by simp
    show ?thesis unfolding store_at_3 [OF l3] m_def using old nb v
      by (simp add: BUFFER_SIZE_def add.commute)
  qed
  have np: "nhle_mac_q ?s2 = nhle_mac_q s1" by (simp add: put_body_def)
  have run: "mac_api_mlme_set_req old x i v p = Some (True, p\<lparr>mst := u\<rparr>)"
    unfolding mac_api_mlme_set_req_def s1(1)
    using v by (simp add: Let_def sz bytes_at_def st0 st3 mac_api_to_nhle_mac_queue_def np s3(1) u_def
        del: append.simps append_Cons)
  obtain f where f: "s3 = ?s2\<lparr>bnext := f\<rparr>" "\<And>y. y \<noteq> b \<Longrightarrow> f y = bnext ?s2 y"
    using s3(4) by (auto simp: links_only_def)
  have b: "b \<notin> set fl" using inv by (auto simp: bmm_inv_def dest: queue_rep_distinct)
  have i2: "bmm_inv ?s2 fl" using s1(2) by (simp add: bmm_inv_def queue_rep_def put_body_def)
  have "queue_rep s3 (free_buffer_q s3) fl"
    using links_only_rep [OF s3(4), of "free_buffer_q ?s2" fl] i2 b f(1) by (simp add: bmm_inv_def)
  then have inv3: "bmm_inv u fl" using i2 f(1) by (simp add: bmm_inv_def u_def queue_rep_def)
  show thesis
  proof (rule that [OF run _ inv3])
    show "body u b = MlmeMsg m" by (simp add: u_def f(1) put_body_def)
    show "queue_rep u (nhle_mac_q u) [b]" using s3(2) by (simp add: u_def queue_rep_def)
    show "attrs_of u = attrs_of (mst p)"
      using attrs_more [OF m1] by (simp add: u_def f(1) attrs_of_def ident_def put_body_def)
    show "mac_busy u = mac_busy (mst p)" by (simp add: u_def f(1) nq put_body_def)
    show "0 < unat (qcapacity (nhle_mac_q u))" using s3(3) cap nq by (simp add: u_def)
  qed
qed

lemma mlme_set_mem:
  assumes "mlme_set x i v slp p = Some (st, q)"
  shows "mem_of (mst q) = mem_of (mst p) \<and> confirms q = confirms p"
proof (cases "attr_of x")
  case None
  with assms show ?thesis by (auto simp: mlme_set_def split: if_splits)
next
  case (Some a)
  obtain r where "pib_set a i v p = Some (st, r)" "q = r \<or> q = r\<lparr>trx_pib_wakeup := False\<rparr>"
    by (rule mlme_set_pib_set [OF assms Some]) blast
  with pib_set_mem [OF this(1)] show ?thesis by auto
qed

lemma bmm_inv_mem: "mem_of s' = mem_of s \<Longrightarrow> bmm_inv s' fl = bmm_inv s fl"
  by (simp add: mem_of_def bmm_inv_def queue_rep_def)

lemma conf_frees:
  assumes "bmm_inv (mst p) fl" "b \<notin> set fl" "b < TOTAL_NUMBER_OF_BUFFERS"
  obtains q where "mlme_conf b m p = Some q" "confirms q = confirms p @ [m]" "bmm_inv (mst q) (fl @ [b])"
    "nhle_mac_q (mst q) = nhle_mac_q (mst p)"
proof -
  let ?s = "put_body b (MlmeMsg m) (mst p)"
  have i: "bmm_inv ?s fl" using assms(1) by (simp add: bmm_inv_def queue_rep_def put_body_def)
  obtain s where s: "bmm_buffer_free (Some b) ?s = Some s" "bmm_inv s (fl @ [b])" "bmm_only (insert b (set fl)) ?s s"
    using bmm_free_spec [OF i assms(2,3)] by blast
  have "bmm_mem.more s = bmm_mem.more ?s" using bmm_only_fields [OF s(3)] by simp
  then have "nhle_mac_q s = nhle_mac_q ?s" by (cases s; cases ?s) simp
  with s(1,2) show thesis by (intro that [of "p\<lparr>confirms := confirms p @ [m], mst := s\<rparr>"]) (simp_all add: mlme_conf_def put_body_def)
qed

text \<open>Serving the request that waits alone in the queue.\<close>

lemma task_serves_set:
  assumes wf: "pib_wf p" and inv: "bmm_inv (mst p) fl" and b: "b \<notin> set fl" "b < TOTAL_NUMBER_OF_BUFFERS"
    and q: "queue_rep (mst p) (nhle_mac_q (mst p)) [b]" and busy: "\<not> mac_busy (mst p)"
    and body: "body (mst p) b = MlmeMsg ([MLME_SET_REQUEST, x, i] @ w)" and w: "sz_key_table \<le> length w" and a: "attr_of x = Some a"
  obtains p2 st p3 q' m where
    "p2 = p\<lparr>mst := (mst p)\<lparr>nhle_mac_q := nhle_mac_q (mst p2)\<rparr>\<rparr>"
    "mlme_set x i w True p2 = Some (st, p3)"
    "mlme_task_nhle env other p = Some q'" "mlme_conf b m p3 = Some q'"
    "confirms q' = confirms p @ [m]" "take 4 m = [MLME_SET_CONFIRM, st, x, i]"
    "bmm_inv (mst q') (fl @ [b])" "qsize (nhle_mac_q (mst q')) = 0"
proof -
  obtain nq u where u: "qmm_queue_remove None (nhle_mac_q (mst p)) (mst p) = Some (Some b, nq, u)" "queue_rep u nq []"
    "links_only {} (mst p) u" using queue_remove_first [OF q] by blast
  have ue: "u = mst p"
  proof -
    obtain f where f: "u = (mst p)\<lparr>bnext := f\<rparr>" "\<And>y. f y = bnext (mst p) y" using u(3) by (auto simp: links_only_def)
    have "f = bnext (mst p)" using f(2) by auto
    with f(1) show ?thesis by simp
  qed
  define p2 where "p2 = p\<lparr>mst := (mst p)\<lparr>nhle_mac_q := nq\<rparr>\<rparr>"
  let ?m = "[MLME_SET_REQUEST, x, i] @ w"
  have wf2: "pib_wf p2" using wf by (simp add: p2_def pib_wf_def)
  obtain st r where r: "pib_set a i w p2 = Some (st, r)" using set_total [OF w wf2] by blast
  define p3 where "p3 = (if trx_pib_wakeup r \<and> mac_pib_macRxOnWhenIdle r = 0 then r\<lparr>trx_pib_wakeup := False\<rparr> else r)"
  have p3: "mlme_set x i w True p2 = Some (st, p3)" by (simp add: mlme_set_def a r p3_def)
  have inv3: "bmm_inv (mst p3) fl" and nq3: "nhle_mac_q (mst p3) = nq"
    using mlme_set_mem [OF p3] inv bmm_inv_mem [of "mst p3" "mst p2" fl]
    by (simp_all add: p2_def mem_of_def bmm_inv_def queue_rep_def)
  define m where "m = ?m[2 := x, 3 := i, 0 := MLME_SET_CONFIRM, 1 := st]"
  have lw: "0 < length w" using w by (cases w) (simp_all add: sz_key_table_def)
  have m4: "take 4 m = [MLME_SET_CONFIRM, st, x, i]"
    using lw by (cases w) (simp_all add: m_def numeral_eq_Suc)
  obtain q' where q': "mlme_conf b m p3 = Some q'" "confirms q' = confirms p3 @ [m]" "bmm_inv (mst q') (fl @ [b])"
    "nhle_mac_q (mst q') = nhle_mac_q (mst p3)" by (rule conf_frees [OF inv3 b])
  have gm: "get_msg b p2 = Some ?m" using body by (simp add: get_msg_def p2_def)
  have req: "mlme_set_request b p2 = Some q'"
    using gm p3 q'(1) lw
    by (simp add: mlme_set_request_def arr_get_def arr_set_def m_def numeral_eq_Suc)
  have cmd: "MLME_SET_REQUEST < MLME_LAST_MESSAGE" "\<not> null_entry MLME_SET_REQUEST"
    by (simp_all add: MLME_SET_REQUEST_def MLME_LAST_MESSAGE_def null_entry_def)
  have disp: "mlme_event_dispatcher env other b p2 = Some q'"
    using req body cmd by (simp add: mlme_event_dispatcher_def p2_def arr_get_def)
  have ne: "qsize (nhle_mac_q (mst p)) \<noteq> 0" using queue_rep_empty [OF q] by simp
  have "mlme_task_nhle env other p = Some q'"
    using busy ne disp by (simp add: mlme_task_nhle_def u(1) ue Let_def p2_def)
  moreover have "qsize (nhle_mac_q (mst q')) = 0" using queue_rep_empty [OF u(2)] q'(4) nq3 by simp
  moreover have "p2 = p\<lparr>mst := (mst p)\<lparr>nhle_mac_q := nhle_mac_q (mst p2)\<rparr>\<rparr>" by (simp add: p2_def)
  moreover have "confirms q' = confirms p @ [m]" using q'(2) mlme_set_mem [OF p3] by (simp add: p2_def)
  ultimately show thesis using p3 q'(1,3) m4 by (intro that)
qed


definition ex_reset :: pib_st where
  "ex_reset = ex_pib\<lparr>mst := put_body 1 (MlmeMsg [MLME_RESET_REQUEST, 1]) ex_mst\<rparr>"

theorem mlme_reset_keeps_attributes_witness:
  "\<exists>q. mlme_reset_request 1 ex_reset = Some q \<and> mlme_get (pib_id macBSN) 0 q = mlme_get (pib_id macBSN) 0 ex_reset"
proof -
  have "\<exists>q. mlme_reset_request 1 ex_reset = Some q"
    by (simp add: mlme_reset_request_def ex_reset_def ex_pib_def ex_mst_def idle_coordinator_def get_msg_def put_body_def
        mac_trx_wakeup_def mac_trx_sleep_def arr_set_def mlme_conf_def bmm_buffer_free_def qmm_queue_append_def
        mac_q_flush_def qmm_queue_flush_def qmm_queue_init_def mac_hal_frame_pending_def mact_def Let_def)
  then obtain q where q: "mlme_reset_request 1 ex_reset = Some q" by blast
  from mlme_reset_keeps_attributes [OF q] q show ?thesis by blast
qed

lemma ex_served: "served ex_pib [0]"
  by (simp add: served_def bmm_inv_def queue_rep_def ex_pib_def ex_mst_def idle_coordinator_def qmm_queue_init_def
      TOTAL_NUMBER_OF_BUFFERS_def)


end
