(* ===== verification/Spec2Isabelle.thy ===== *)
theory Spec2Isabelle
  imports StmProc SList CrmTable Ccitt Crc32 Flash ProdInv ProdRun HostProps MacExpiry MacErrors MacPibTest MacPibServe
begin

text \<open>
  Verification library of the Greenvity production-test tool: the firmware of the boards
  (\<^verbatim>\<open>src/GV_FW_PLC_RF_Production_FW/firmware\<close>, an 8051 with a HomePlug modem and an
  802.15.4 radio) and the relay program between the PC and a board (\<^verbatim>\<open>src/gvhost\<close>).

  How the program works.  The tool on the PC sends requests over TCP to the relay, which forwards
  them in Ethernet frames to the board; the receive path of the SPI driver hands the command to
  the production-test agent (\<^verbatim>\<open>hal_prod_tst.c\<close>), which prepares, starts and stops tests
  of the modem and of the radio, stores device parameters in flash and answers with frames that go
  the way back.  The agent uses software timers (\<^verbatim>\<open>stm.c\<close>), a profile in flash guarded
  by a CRC, and the 802.15.4 MAC (\<^verbatim>\<open>zigbee/\<close>), whose frames live in a pool of buffers
  linked into queues.  The link layer of the modem keeps its stations in a hash table of control
  blocks (\<^verbatim>\<open>crm.c\<close>) made of linked lists.

  Theories.
    \<^item> \<open>FwPrelude\<close>: word types, status codes, arrays with checked access, list and word lemmas.
      Undefined behaviour of C and a call that never returns are \<open>None\<close>.
    \<^item> \<open>Interfaces\<close>: the contracts between components as locales (sequences of links, pools of
      identifiers), interpreted in \<open>SList\<close>, \<open>DList\<close>, \<open>StmProc\<close> and \<open>CrmTable\<close> on the models.
    \<^item> \<open>SList\<close>, \<open>DList\<close>: \<^verbatim>\<open>common/list.c\<close> and \<^verbatim>\<open>list.h\<close> over a store of links.
    \<^item> \<open>Stm\<close>, \<open>StmProc\<close>: \<^verbatim>\<open>common/stm.c\<close> (\<open>STM_StartTimer\<close>, \<open>STM_Proc\<close> and the
      others) and the tick sources.  The record \<open>sStm\<close> is the global \<open>Stm\<close>; a time is a 32-bit
      tick and a sector bit.  \<open>stm_inv\<close> relates the links to the sequence of active timers in
      the order of their expiry.
    \<^item> \<open>Crm\<close>, \<open>CrmProps\<close>, \<open>CrmTable\<close>: \<^verbatim>\<open>hpgp/src/link/crm.c\<close>; the invariant says that
      buckets and free queue hold every control block once, in the order of the TEIs.
    \<^item> \<open>Utils\<close>, \<open>UtilsProps\<close>, \<open>Ccitt\<close>, \<open>Crc32\<close>: byte order, copies and checksums of
      \<^verbatim>\<open>common/utils.c\<close>, \<^verbatim>\<open>papdef.h\<close>, \<^verbatim>\<open>crypto/crc32.c\<close> and \<^verbatim>\<open>gvhost/utils.c\<close>.
    \<^item> \<open>Flash\<close>: the flash as a function from addresses to bytes and the profile routines of
      \<^verbatim>\<open>hal_rf_prod_test.c\<close>.
    \<^item> \<open>ProdTest\<close>: the agent.  \<open>prodState\<close> holds its globals, \<open>prodTestExecCmd\<close> is the switch over
      the commands, with one definition per case; \<open>board_start\<close> is a start of the board with the
      check of the stored profile (\<^verbatim>\<open>hal_main.C\<close>) and the calibration loop
      (\<^verbatim>\<open>common/gv701x_cfg.c\<close>).  Effects on the hardware are actions of a trace, answers of
      the hardware and of the MAC functions of that trace.
    \<^item> \<open>ProdProfile\<close>, \<open>ProdReset\<close>: the stored profile, the calibration, commands that survive a
      reset.  \<open>ProdFrames\<close>: the frames a command sends.  \<open>ProdInv\<close>: the invariant of all runs.
      \<open>ProdRun\<close>: a transmission test with its timer and interleaved stop commands.
    \<^item> \<open>GvHost\<close>, \<open>HostProps\<close>: the relay (\<^verbatim>\<open>process_state_machine.c\<close>, \<^verbatim>\<open>gvspi_intf.c\<close>,
      \<^verbatim>\<open>eth_socket_interface.c\<close>) and its composition with the agent.
    \<^item> \<open>Qmm\<close>, \<open>QmmProps\<close>: the buffer pool and the queues (\<^verbatim>\<open>bmm.c\<close>, \<^verbatim>\<open>qmm.c\<close>).
    \<^item> \<open>MacFrame\<close>, \<open>MacFrameProps\<close>: building and parsing of data frames
      (\<^verbatim>\<open>mac_mcps_data.c\<close>, \<^verbatim>\<open>mac_data.c\<close>, \<^verbatim>\<open>mac_security.c\<close>).
    \<^item> \<open>MacData\<close>: the data service from the request of the upper layer to its confirmation
      (\<^verbatim>\<open>mac_api.c\<close>, \<^verbatim>\<open>mac.c\<close>, \<^verbatim>\<open>mac_mcps_data.c\<close>, \<^verbatim>\<open>mac_data.c\<close>,
      \<^verbatim>\<open>mac_hal.c\<close>, \<^verbatim>\<open>mac_hal_intf.c\<close>, \<^verbatim>\<open>mac_host_cb.c\<close>, \<^verbatim>\<open>mac_beacon.c\<close>).
      \<open>MacProps\<close>, \<open>MacPoll\<close>, \<open>MacExpiry\<close>, \<open>MacErrors\<close>: its invariant, polling, expiry, and the
      runs in which a buffer gets two owners.
    \<^item> \<open>MacAttr\<close>, \<open>MacPib\<close>: the PAN information base, the attributes of the MAC and of the radio layer
      (\<^verbatim>\<open>mac_pib.c\<close>, \<^verbatim>\<open>mac_hal_pib.c\<close>), with the requests that read and set them, reset and
      rx-enable (\<^verbatim>\<open>mac_misc.c\<close>, \<^verbatim>\<open>mac_rx_enable.c\<close>), their way from the API to the
      confirmation, and the registers of the radio (\<^verbatim>\<open>hal_common.c\<close>).  The record \<open>pib_st\<close> extends
      the state of the data service by the attributes, the tables and the registers; the variables
      that both use are the same fields.
      \<open>MacPibVals\<close>, \<open>MacPibRw\<close>: values, and what reading and writing an attribute do.
      \<open>MacPibRegs\<close>: bit fields and the fields that mirror an attribute.  \<open>MacIdent\<close>: the data
      service keeps the identity of the device.  \<open>MacPibInv\<close>: the reachable states and their
      invariant.  \<open>MacPibProps\<close>, \<open>MacPibServe\<close>: the properties.  \<open>MacPibTest\<close>: the radio
      configuration of the production agent carried out by this MAC.

  What the theorems show.  Timers: the queue stays ordered and a timer is dispatched on its tick,
  across the wrap-around of the counter; the main loop returns for well-behaved handlers and not
  for a handler that restarts itself with less than a tick.  Station table: lookups return what was
  added, releases remove exactly their block, identifiers are not handed out twice.  Agent: every
  command sends only the frames of its protocol; a test sends all its frames; the profile in use is
  at all times the one in flash, so that a reset loses nothing; a pending command is resumed after
  the reset.  Relay: a request and its answers pass unchanged, and the relay returns exactly for
  frames it knows.  MAC: buffers and queues implement a pool and FIFOs, frames are parsed to what
  was put into them, polling, confirmation and expiry act on exactly the right frames.  Information
  base: an attribute reads back as it was set and is independent of the others, in every reachable
  state the tables are well formed, the registers of the radio hold what the MAC believes, and the
  frames of the device carry the address its radio answers to; a set request handed to the API is
  served and confirmed, and a radio test leaves the parameters of the tool in the MAC.  Several
  theorems state the opposite of what the code means to do (a timer that never fires after a
  wrap-around, identifiers out of bounds, buffers freed twice, endless loops): they are true of the
  code as it is.

  Fuel and termination.  Loops over links and the loops that may not end are
  \<open>partial_function (option)\<close>, so that not returning is \<open>None\<close>, and totality is proved as
  \<open>Some\<close>; the calibration loop is a function with a measure; \<open>qmm_queue_flush\<close> runs as many
  rounds as the queue has buffers, which its own size field bounds.

  Assumptions.  A register holds what was last written to it.  The reachable states of the
  information base let the other services and the callbacks of the data service, which are
  parameters, do anything that leaves the identity of the device alone (\<open>env_keeps\<close>).

  Not modelled.  Interrupts and DMA (the \<^verbatim>\<open>hal\<close> directory), the measurement inside a
  calibration sweep, AES and the receive path of secured frames, the MAC services other than data
  and information base (association, scan, start, synchronisation, beacons beyond the
  pending-address list: parameters of the dispatcher), the link layer of
  the modem above the station table (NSM, NAM, AKM), the bootloader, the sample applications, the
  older copies of the firmware, the graphical tools, the set-up of sockets and threads and the
  third-party parsers of the host.
\<close>

end
